(* ===== verification/Prelude.thy ===== *)
theory Prelude
  imports Complex_Main "HOL-Library.Word"
begin

text \<open>
  Shared vocabulary of the development.

  \<^item> Faults: every \<^verbatim>\<open>assert\<close>, \<^verbatim>\<open>panic\<close>, \<^verbatim>\<open>exit(-1)\<close>, \<^verbatim>\<open>throw\<close> and every undefined memory
    access of the C++ sources is a value of type \<open>fault\<close>; an operation that can fault returns
    \<open>fault + 'a\<close> and is composed with \<open>bindR\<close> and \<open>assertR\<close>.
  \<^item> Machine types: addresses and ticks are 64-bit words; \<open>c_div\<close> is the C division of
    signed integers, \<open>c_trunc\<close> the C conversion of a double to an integer, and
    \<open>ilog2\<close> the expression \<^verbatim>\<open>(int)(log2(x) + 0.1)\<close> that the sources use throughout.
  \<^item> Loops: \<open>dbl_range\<close> is the sequence of values of the loop
    \<^verbatim>\<open>for (x = lo; x <= hi; x *= 2)\<close>, and is undefined exactly when that loop does not end.
\<close>

named_theorems fault_simps "evaluation of the fault monad"
named_theorems invar_intros "preservation of component invariants"

section \<open>Faults\<close>

datatype fault =
    AssertFail
  | Panic string
  | DivByZero
  | BadIndex
  | NullPtr
  | ConfigExit string
  | Uninit
  | NonFinite
  | Undefined
  | Thrown string

type_synonym 'a res = "fault + 'a"

fun bindR :: "'a res \<Rightarrow> ('a \<Rightarrow> 'b res) \<Rightarrow> 'b res" where
  "bindR (Inl e) f = Inl e"
| "bindR (Inr x) f = f x"

definition assertR :: "bool \<Rightarrow> 'a res \<Rightarrow> 'a res" where
  "assertR b k = (if b then k else Inl AssertFail)"

definition nthR :: "'a list \<Rightarrow> int \<Rightarrow> 'a res" where
  "nthR xs i = (if 0 \<le> i \<and> i < int (length xs) then Inr (xs ! nat i) else Inl BadIndex)"

definition derefR :: "'a option \<Rightarrow> 'a res" where
  "derefR p = (case p of None \<Rightarrow> Inl NullPtr | Some x \<Rightarrow> Inr x)"

fun foldR :: "('a \<Rightarrow> 's \<Rightarrow> 's res) \<Rightarrow> 'a list \<Rightarrow> 's \<Rightarrow> 's res" where
  "foldR f [] s = Inr s"
| "foldR f (x # xs) s = bindR (f x s) (foldR f xs)"

lemma foldR_pure [simp]: "foldR (\<lambda>x s. Inr (f x s)) xs s = Inr (fold f xs s)"
  by (induction xs arbitrary: s) auto

lemma bindR_Inr_iff [fault_simps]:
  "bindR m f = Inr y \<longleftrightarrow> (\<exists>x. m = Inr x \<and> f x = Inr y)"
  by (cases m) auto

lemma bindR_Inl_iff [fault_simps]:
  "bindR m f = Inl e \<longleftrightarrow> m = Inl e \<or> (\<exists>x. m = Inr x \<and> f x = Inl e)"
  by (cases m) auto

lemma bindR_assoc: "bindR (bindR m f) g = bindR m (\<lambda>x. bindR (f x) g)"
  by (cases m) auto

lemma assertR_Inr_iff [fault_simps]: "assertR b k = Inr y \<longleftrightarrow> b \<and> k = Inr y"
  by (simp add: assertR_def)

lemma assertR_True [simp]: "assertR True k = k"
  by (simp add: assertR_def)

lemma assertR_False [simp]: "assertR False k = Inl AssertFail"
  by (simp add: assertR_def)

lemma nthR_Inr_iff [fault_simps]:
  "nthR xs i = Inr x \<longleftrightarrow> 0 \<le> i \<and> i < int (length xs) \<and> x = xs ! nat i"
  by (auto simp: nthR_def)

lemma nthR_in [simp]:
  "0 \<le> i \<Longrightarrow> i < int (length xs) \<Longrightarrow> nthR xs i = Inr (xs ! nat i)"
  by (simp add: nthR_def)

lemma derefR_simps [simp]: "derefR None = Inl NullPtr" "derefR (Some x) = Inr x"
  by (simp_all add: derefR_def)

lemma derefR_Inr_iff [fault_simps]: "derefR p = Inr x \<longleftrightarrow> p = Some x"
  by (cases p) auto

section \<open>Machine types\<close>

type_synonym addr = "64 word"
type_synonym tick = "64 word"
type_synonym cycles = "64 word"

definition c_div :: "int \<Rightarrow> int \<Rightarrow> int" where
  "c_div a b = sgn a * sgn b * (\<bar>a\<bar> div \<bar>b\<bar>)"

definition c_rem :: "int \<Rightarrow> int \<Rightarrow> int" where
  "c_rem a b = sgn a * (\<bar>a\<bar> mod \<bar>b\<bar>)"

definition c_trunc :: "real \<Rightarrow> int" where
  "c_trunc x = (if x < 0 then \<lceil>x\<rceil> else \<lfloor>x\<rfloor>)"

definition ilog2 :: "real \<Rightarrow> int" where
  "ilog2 x = c_trunc (log 2 x + 1 / 10)"

lemma c_div_nonneg [simp]: "0 \<le> a \<Longrightarrow> 0 \<le> b \<Longrightarrow> c_div a b = a div b"
  by (auto simp: c_div_def sgn_if)

lemma c_rem_nonneg [simp]: "0 \<le> a \<Longrightarrow> 0 \<le> b \<Longrightarrow> c_rem a b = a mod b"
  by (auto simp: c_rem_def sgn_if)

lemma c_div_mult_rem: "c_div a b * b + c_rem a b = a"
proof -
  have b: "\<bar>b\<bar> = sgn b * b" by (simp add: sgn_if)
  have "c_div a b * b = sgn a * (\<bar>a\<bar> div \<bar>b\<bar> * (sgn b * b))"
    by (simp add: c_div_def)
  also have "\<dots> = sgn a * (\<bar>a\<bar> div \<bar>b\<bar> * \<bar>b\<bar>)" by (simp only: b)
  finally have "c_div a b * b + c_rem a b = sgn a * (\<bar>a\<bar> div \<bar>b\<bar> * \<bar>b\<bar> + \<bar>a\<bar> mod \<bar>b\<bar>)"
    by (simp only: c_rem_def distrib_left)
  also have "\<dots> = a" by (simp add: sgn_mult_abs del: abs_mult)
  finally show ?thesis .
qed

lemma c_trunc_of_int [simp]: "c_trunc (real_of_int n) = n"
  by (simp add: c_trunc_def)

lemma ilog2_power [simp]: "ilog2 (2 ^ n) = int n"
  by (simp add: ilog2_def c_trunc_def log_nat_power floor_eq_iff)

section \<open>Words\<close>

lemma unat_drop_bit_div: "unat (drop_bit n w) = unat (w :: 'a :: len word) div 2 ^ n"
proof -
  have "unat (drop_bit n w) = drop_bit n (take_bit LENGTH('a) (unat w))"
    by (rule unsigned_drop_bit_eq)
  also have "take_bit LENGTH('a) (unat w) = unat w"
    by (simp add: take_bit_nat_eq_self)
  finally show ?thesis by (simp only: drop_bit_eq_div)
qed

lemma unat_push_bit_mult:
  "unat (push_bit n w) = (2 ^ n * unat w) mod 2 ^ LENGTH('a)" for w :: "'a :: len word"
proof -
  have "unat (push_bit n w) = take_bit LENGTH('a) (push_bit n (unat w))"
    by (rule unsigned_push_bit_eq)
  thus ?thesis by (simp only: push_bit_eq_mult take_bit_eq_mod mult.commute)
qed

lemma unat_take_bit_mod: "unat (take_bit n w) = unat (w :: 'a :: len word) mod 2 ^ n"
  by (metis unsigned_take_bit_eq take_bit_eq_mod)

lemma unat64_less: "unat (w :: 64 word) < 2 ^ 64"
  using unsigned_less[of w, where 'a = nat] by simp

lemma unat64_of_nat: "n < 2 ^ 64 \<Longrightarrow> unat (of_nat n :: 64 word) = n"
  by (simp add: unsigned_of_nat take_bit_nat_eq_self)

section \<open>Doubling loops\<close>

partial_function (option) dbl_range :: "int \<Rightarrow> int \<Rightarrow> int list option" where
  "dbl_range lo hi =
     (if lo \<le> hi then Option.bind (dbl_range (lo * 2) hi) (\<lambda>xs. Some (lo # xs)) else Some [])"

lemma dbl_range_empty [simp]: "hi < lo \<Longrightarrow> dbl_range lo hi = Some []"
  by (subst dbl_range.simps) simp

lemma dbl_range_Some_bound:
  assumes "dbl_range lo hi = Some xs"
  shows "0 < lo \<or> hi < lo"
proof (rule dbl_range.raw_induct[where P = "\<lambda>lo hi xs. 0 < lo \<or> hi < lo", OF _ assms])
  fix rec and lo hi :: int and xs
  assume IH: "\<And>lo hi xs. rec lo hi = Some xs \<Longrightarrow> 0 < lo \<or> hi < lo"
    and r: "(if lo \<le> hi then Option.bind (rec (lo * 2) hi) (\<lambda>xs. Some (lo # xs)) else Some []) = Some xs"
  show "0 < lo \<or> hi < lo"
  proof (cases "lo \<le> hi")
    case True
    with r obtain ys where "rec (lo * 2) hi = Some ys" by (auto split: bind_splits)
    from IH[OF this] True show ?thesis by auto
  qed simp
qed

lemma dbl_range_set:
  "0 < lo \<Longrightarrow> dbl_range lo hi = Some xs \<Longrightarrow> set xs = {x. x \<le> hi \<and> (\<exists>k. x = lo * 2 ^ k)}"
proof (induction "nat (hi - lo + 1)" arbitrary: lo xs rule: less_induct)
  case less
  show ?case
  proof (cases "lo \<le> hi")
    case True
    with less.prems(2) obtain ys where ys: "dbl_range (lo * 2) hi = Some ys" "xs = lo # ys"
      by (subst (asm) dbl_range.simps) (auto split: bind_splits)
    have "set ys = {x. x \<le> hi \<and> (\<exists>k. x = lo * 2 * 2 ^ k)}"
      using less.prems(1) True ys(1) by (intro less.hyps) auto
    moreover have "(\<exists>k. x = lo * 2 ^ k) \<longleftrightarrow> x = lo \<or> (\<exists>k. x = lo * 2 * 2 ^ k)" for x
    proof
      assume "\<exists>k. x = lo * 2 ^ k"
      then obtain k where k: "x = lo * 2 ^ k" ..
      show "x = lo \<or> (\<exists>k. x = lo * 2 * 2 ^ k)" using k by (cases k) auto
    next
      assume "x = lo \<or> (\<exists>k. x = lo * 2 * 2 ^ k)"
      thus "\<exists>k. x = lo * 2 ^ k" by (metis mult.assoc mult.right_neutral power_0 power_Suc)
    qed
    ultimately show ?thesis using True ys(2) by auto
  next
    case False
    have "hi < lo * 2 ^ k" for k
    proof -
      have "lo * 1 \<le> lo * 2 ^ k" using less.prems(1) by (intro mult_left_mono) auto
      thus ?thesis using False by linarith
    qed
    thus ?thesis using False less.prems(2) by (auto simp: not_le)
  qed
qed

lemma dbl_range_total: "0 < lo \<Longrightarrow> \<exists>xs. dbl_range lo hi = Some xs"
proof (induction "nat (hi - lo + 1)" arbitrary: lo rule: less_induct)
  case less
  show ?case
  proof (cases "lo \<le> hi")
    case True
    have "\<exists>xs. dbl_range (lo * 2) hi = Some xs"
      using less.prems True by (intro less.hyps) auto
    thus ?thesis using True by (subst dbl_range.simps) auto
  qed simp
qed

lemma dbl_range_defined_iff: "(\<exists>xs. dbl_range lo hi = Some xs) \<longleftrightarrow> 0 < lo \<or> hi < lo"
  using dbl_range_Some_bound dbl_range_total dbl_range_empty by blast

lemma dbl_range_pos:
  assumes "dbl_range lo hi = Some xs" "x \<in> set xs"
  shows "lo \<le> x" "x \<le> hi" "0 < x"
proof -
  have lo: "0 < lo" using dbl_range_Some_bound[OF assms(1)] assms by force
  obtain k where k: "x \<le> hi" "x = lo * 2 ^ k" using dbl_range_set[OF lo assms(1)] assms(2) by auto
  have "lo * 1 \<le> lo * 2 ^ k" using lo by (intro mult_left_mono) auto
  with k lo show "lo \<le> x" "x \<le> hi" "0 < x" by auto
qed

end
