(* ===== verification/Gem5_Base.thy ===== *)
theory Gem5_Base
  imports Prelude
begin

text \<open>
  The integer and bit-field helpers of gem5 that the Ruby cache structures call
  (\<^verbatim>\<open>base/intmath.hh\<close>, \<^verbatim>\<open>base/bitfield.hh\<close>, \<^verbatim>\<open>mem/ruby/common/Address.cc\<close>), on 64-bit
  words.  The block size of the Ruby system, a static of \<^verbatim>\<open>RubySystem\<close>, is the argument
  \<open>bsb\<close> (its number of offset bits).
\<close>

unbundle bit_operations_syntax

section \<open>Integer logarithm and powers of two\<close>

definition floorLog2_step :: "64 word \<Rightarrow> nat \<Rightarrow> nat \<times> 64 word \<Rightarrow> nat \<times> 64 word" where
  "floorLog2_step m k p = (case p of (y, ux) \<Rightarrow>
     if ux AND m \<noteq> 0 then (y + k, drop_bit k ux) else (y, ux))"

definition floorLog2 :: "nat \<Rightarrow> int \<Rightarrow> nat res" where
  "floorLog2 ts x = assertR (x > 0)
     (let p0 = (0, word_of_int (take_bit (8 * ts) x));
          p1 = (if ts \<ge> 8 then floorLog2_step 0xffffffff00000000 32 p0 else p0);
          p2 = (if ts \<ge> 4 then floorLog2_step 0x00000000ffff0000 16 p1 else p1);
          p3 = (if ts \<ge> 2 then floorLog2_step 0x000000000000ff00 8 p2 else p2);
          p4 = floorLog2_step 0x00000000000000f0 4 p3;
          p5 = floorLog2_step 0x000000000000000c 2 p4;
          p6 = (if snd p5 AND 2 \<noteq> 0 then fst p5 + 1 else fst p5)
      in Inr p6)"

definition isPowerOf2 :: "nat \<Rightarrow> bool" where
  "isPowerOf2 n \<longleftrightarrow> n \<noteq> 0 \<and> n AND (n - 1) = 0"

section \<open>The largest tick\<close>

definition MaxTick :: tick where
  "MaxTick = - 1"

section \<open>Bit fields\<close>

definition mask64 :: "nat \<Rightarrow> 64 word" where
  "mask64 nbits = (if nbits \<ge> 64 then - 1 else push_bit nbits 1 - 1)"

definition bits :: "64 word \<Rightarrow> nat \<Rightarrow> nat \<Rightarrow> 64 word res" where
  "bits val first last' = assertR (first \<ge> last')
     (Inr (drop_bit last' val AND mask64 (first - last' + 1)))"

definition mbits :: "64 word \<Rightarrow> nat \<Rightarrow> nat \<Rightarrow> 64 word" where
  "mbits val first last' = val AND (mask64 (first + 1) AND NOT (mask64 last'))"

section \<open>Ruby addresses\<close>

definition bitSelect :: "addr \<Rightarrow> nat \<Rightarrow> nat \<Rightarrow> addr res" where
  "bitSelect addr small big = assertR (big \<ge> small) (bits addr big small)"

definition maskLowOrderBits :: "addr \<Rightarrow> nat \<Rightarrow> addr" where
  "maskLowOrderBits addr number = mbits addr 63 number"

definition makeLineAddress :: "nat \<Rightarrow> addr \<Rightarrow> addr" where
  "makeLineAddress bsb addr = mbits addr 63 bsb"

definition makeNextStrideAddress :: "nat \<Rightarrow> addr \<Rightarrow> int \<Rightarrow> addr" where
  "makeNextStrideAddress bsb addr stride =
     makeLineAddress bsb addr + word_of_int (2 ^ bsb * stride)"

section \<open>Lemmas\<close>

lemma mask64_eq: "mask64 n = mask n"
proof (cases "n \<ge> 64")
  case True
  hence "mask n = (- 1 :: 64 word)"
    by (intro bit_word_eqI) (auto simp: bit_simps)
  thus ?thesis using True by (simp add: mask64_def)
next
  case False
  thus ?thesis by (simp add: mask64_def mask_eq_exp_minus_1)
qed

lemma makeLineAddress_eq: "makeLineAddress bsb a = a AND NOT (mask bsb)"
  by (rule bit_word_eqI)
    (auto simp: makeLineAddress_def mbits_def mask64_eq bit_simps)

lemma makeLineAddress_idem [simp]:
  "makeLineAddress bsb (makeLineAddress bsb a) = makeLineAddress bsb a"
  by (simp add: makeLineAddress_eq ac_simps)

lemma makeLineAddress_push: "makeLineAddress bsb a = push_bit bsb (drop_bit bsb a)"
  by (rule bit_word_eqI) (auto simp: makeLineAddress_eq bit_simps)

lemma makeLineAddress_unat:
  "unat (makeLineAddress bsb a) = 2 ^ bsb * (unat a div 2 ^ bsb)"
proof -
  have "unat (makeLineAddress bsb a) = (2 ^ bsb * (unat a div 2 ^ bsb)) mod 2 ^ 64"
    by (simp only: makeLineAddress_push unat_push_bit_mult unat_drop_bit_div) simp
  moreover have "2 ^ bsb * (unat a div 2 ^ bsb) < 2 ^ 64"
    using unat64_less[of a] times_div_less_eq_dividend[of "2 ^ bsb" "unat a"]
    by (simp del: times_div_less_eq_dividend)
  ultimately show ?thesis by simp
qed

lemma bitSelect_Inr:
  "small \<le> big \<Longrightarrow> bitSelect a small big = Inr (take_bit (big - small + 1) (drop_bit small a))"
  by (simp add: bitSelect_def bits_def mask64_eq take_bit_eq_mask)

lemma bitSelect_bound:
  assumes "bitSelect a small big = Inr r"
  shows "unat r < 2 ^ (big - small + 1)"
proof -
  have le: "small \<le> big" using assms by (simp add: bitSelect_def fault_simps)
  have "r = take_bit (big - small + 1) (drop_bit small a)"
    using assms bitSelect_Inr[OF le] by simp
  hence "unat r = take_bit (big - small + 1) (unat (drop_bit small a))"
    by (simp add: unsigned_take_bit_eq)
  thus ?thesis by (simp only: take_bit_nat_less_exp)
qed

definition flog_inv :: "64 word \<Rightarrow> nat \<Rightarrow> nat \<times> 64 word \<Rightarrow> bool" where
  "flog_inv x K p \<longleftrightarrow> snd p = drop_bit (fst p) x \<and> snd p \<noteq> 0 \<and> unat (snd p) < 2 ^ K"

lemma high_mask_test:
  fixes ux :: "64 word"
  assumes "unat ux < 2 ^ (2 * k)"
  shows "ux AND push_bit k (mask k) \<noteq> 0 \<longleftrightarrow> 2 ^ k \<le> unat ux"
proof -
  have "unat (drop_bit k ux) = unat ux div 2 ^ k" by (rule unat_drop_bit_div)
  also have "\<dots> < 2 ^ k"
    using assms by (simp add: less_mult_imp_div_less power_add mult_2)
  finally have "take_bit k (drop_bit k ux) = drop_bit k ux"
    by (metis take_bit_nat_eq_self unsigned_take_bit_eq word_unat_eq_iff)
  moreover have "ux AND push_bit k (mask k) = push_bit k (take_bit k (drop_bit k ux))"
    by (rule bit_word_eqI) (auto simp: bit_simps)
  ultimately have "ux AND push_bit k (mask k) = push_bit k (drop_bit k ux)" by simp
  hence "unat (ux AND push_bit k (mask k)) = 2 ^ k * (unat ux div 2 ^ k)"
    by (simp add: makeLineAddress_unat flip: makeLineAddress_push)
  thus ?thesis by (auto simp: unat_eq_0 div_eq_0_iff simp flip: unat_eq_zero)
qed

lemma flog_inv_step:
  assumes "flog_inv x (2 * k) p" "m = push_bit k (mask k)"
  shows "flog_inv x k (floorLog2_step m k p)"
proof (cases p)
  case (Pair y ux)
  have ux: "ux = drop_bit y x" "ux \<noteq> 0" "unat ux < 2 ^ (2 * k)"
    using assms Pair by (auto simp: flog_inv_def)
  have test: "ux AND m \<noteq> 0 \<longleftrightarrow> 2 ^ k \<le> unat ux"
    using high_mask_test[OF ux(3)] assms(2) by simp
  show ?thesis
  proof (cases "2 ^ k \<le> unat ux")
    case True
    have "unat (drop_bit k ux) = unat ux div 2 ^ k" by (rule unat_drop_bit_div)
    moreover have "0 < unat ux div 2 ^ k" using True by (simp add: div_greater_zero_iff)
    moreover have "unat ux div 2 ^ k < 2 ^ k"
      using ux(3) by (simp add: less_mult_imp_div_less power_add mult_2)
    ultimately have "drop_bit k ux \<noteq> 0 \<and> unat (drop_bit k ux) < 2 ^ k"
      by (metis less_irrefl unat_eq_0)
    thus ?thesis using True test Pair ux(1)
      by (simp add: flog_inv_def floorLog2_step_def add.commute)
  next
    case False
    thus ?thesis using test Pair ux
      by (simp add: flog_inv_def floorLog2_step_def)
  qed
qed

lemma flog_masks:
  "0xffffffff00000000 = (push_bit 32 (mask 32) :: 64 word)"
  "0x00000000ffff0000 = (push_bit 16 (mask 16) :: 64 word)"
  "0x000000000000ff00 = (push_bit 8 (mask 8) :: 64 word)"
  "0x00000000000000f0 = (push_bit 4 (mask 4) :: 64 word)"
  "0x000000000000000c = (push_bit 2 (mask 2) :: 64 word)"
  "2 = (push_bit 1 (mask 1) :: 64 word)"
  by (simp_all add: mask_eq_exp_minus_1 push_bit_eq_mult)

lemma flog_steps:
  "flog_inv x 64 p \<Longrightarrow> flog_inv x 32 (floorLog2_step 0xffffffff00000000 32 p)"
  "flog_inv x 32 p \<Longrightarrow> flog_inv x 16 (floorLog2_step 0x00000000ffff0000 16 p)"
  "flog_inv x 16 p \<Longrightarrow> flog_inv x 8 (floorLog2_step 0x000000000000ff00 8 p)"
  "flog_inv x 8 p \<Longrightarrow> flog_inv x 4 (floorLog2_step 0x00000000000000f0 4 p)"
  "flog_inv x 4 p \<Longrightarrow> flog_inv x 2 (floorLog2_step 0x000000000000000c 2 p)"
  "flog_inv x 2 p \<Longrightarrow> flog_inv x 1 (floorLog2_step 2 1 p)"
  by (rule flog_inv_step[OF _ flog_masks(1)] flog_inv_step[OF _ flog_masks(2)]
      flog_inv_step[OF _ flog_masks(3)] flog_inv_step[OF _ flog_masks(4)]
      flog_inv_step[OF _ flog_masks(5)] flog_inv_step[OF _ flog_masks(6)], simp)+

lemma flog_inv_last:
  assumes "flog_inv x 1 p"
  shows "2 ^ fst p \<le> unat x \<and> unat x < 2 ^ (fst p + 1)"
proof -
  have "unat (snd p) \<noteq> 0 \<and> unat (snd p) < 2"
    using assms by (auto simp: flog_inv_def unat_eq_0)
  moreover have "unat (snd p) = unat x div 2 ^ fst p"
    using assms by (auto simp: flog_inv_def unat_drop_bit_div)
  ultimately have "unat x div 2 ^ fst p = 1" by linarith
  hence "unat x = 2 ^ fst p + unat x mod 2 ^ fst p"
    by (metis div_mult_mod_eq mult_1)
  moreover have "unat x mod 2 ^ fst p < 2 ^ fst p" by simp
  moreover have "(2 :: nat) ^ (fst p + 1) = 2 * 2 ^ fst p" by simp
  ultimately show ?thesis by (intro conjI) linarith+
qed

definition floorLog2_chain :: "nat \<Rightarrow> nat \<times> 64 word \<Rightarrow> nat \<times> 64 word" where
  "floorLog2_chain ts p0 = (let
      p1 = (if ts \<ge> 8 then floorLog2_step 0xffffffff00000000 32 p0 else p0);
      p2 = (if ts \<ge> 4 then floorLog2_step 0x00000000ffff0000 16 p1 else p1);
      p3 = (if ts \<ge> 2 then floorLog2_step 0x000000000000ff00 8 p2 else p2)
    in floorLog2_step 2 1 (floorLog2_step 0x000000000000000c 2
         (floorLog2_step 0x00000000000000f0 4 p3)))"

lemma fst_floorLog2_step:
  "fst (floorLog2_step m k p) = (if snd p AND m \<noteq> 0 then fst p + k else fst p)"
  by (cases p) (simp add: floorLog2_step_def)

lemma floorLog2_chain:
  "floorLog2 ts x = assertR (x > 0)
     (Inr (fst (floorLog2_chain ts (0, word_of_int (take_bit (8 * ts) x)))))"
  by (simp only: floorLog2_def floorLog2_chain_def fst_floorLog2_step Let_def)

lemma flog_inv_chain:
  assumes "ts \<in> {1, 2, 4, 8}" "flog_inv x (8 * ts) p"
  shows "flog_inv x 1 (floorLog2_chain ts p)"
  using assms by (auto simp: floorLog2_chain_def simp del: One_nat_def intro!: flog_steps)

lemma floorLog2_bounds:
  assumes "ts \<in> {1, 2, 4, 8}" "0 < x" "x < 2 ^ (8 * ts)"
  obtains y where "floorLog2 ts x = Inr y" "2 ^ y \<le> nat x" "nat x < 2 ^ (y + 1)"
proof -
  define w :: "64 word" where "w = word_of_int x"
  have "(2 :: int) ^ (8 * ts) \<le> 2 ^ 64" using assms(1) by auto
  hence x64: "x < 2 ^ 64" using assms(3) by linarith
  have tb: "take_bit (8 * ts) x = x"
    using assms by (simp add: take_bit_int_eq_self)
  have uw: "unat w = nat x"
    using assms x64 by (simp add: w_def unsigned_of_int take_bit_int_eq_self)
  have "flog_inv w (8 * ts) (0, w)"
    using assms uw by (auto simp: flog_inv_def nat_less_iff simp flip: unat_eq_0)
  from flog_inv_last[OF flog_inv_chain[OF assms(1) this]] uw
  show thesis
    using that assms by (simp add: floorLog2_chain tb flip: w_def)
qed

lemma and_pred_even: "0 < m \<Longrightarrow> (2 * m) AND (2 * m - 1) = 2 * (m AND (m - 1))" for m :: nat
proof -
  assume "0 < m"
  hence "(2 * m - 1) div 2 = m - 1" by linarith
  thus ?thesis by (subst and_rec) simp
qed

lemma and_pred_odd: "(2 * m + 1) AND (2 * m) = 2 * m" for m :: nat
  by (subst and_rec) simp

lemma isPowerOf2_iff: "isPowerOf2 n \<longleftrightarrow> (\<exists>k. n = 2 ^ k)"
proof (induction n rule: less_induct)
  case (less n)
  consider "n = 0" | m where "n = 2 * m" "0 < m" | m where "n = 2 * m + 1"
    by (metis gr0I mult_0_right oddE evenE)
  thus ?case
  proof cases
    case 1 thus ?thesis by (simp add: isPowerOf2_def)
  next
    case (2 m)
    hence "isPowerOf2 n \<longleftrightarrow> isPowerOf2 m" by (simp add: isPowerOf2_def and_pred_even[simplified])
    also have "\<dots> \<longleftrightarrow> (\<exists>k. m = 2 ^ k)" using less 2 by simp
    also have "\<dots> \<longleftrightarrow> (\<exists>k. n = 2 ^ k)"
    proof
      assume "\<exists>k. m = 2 ^ k" thus "\<exists>k. n = 2 ^ k" using 2 by (metis power_Suc)
    next
      assume "\<exists>k. n = 2 ^ k"
      then obtain k where "2 * m = 2 ^ k" using 2 by auto
      thus "\<exists>k. m = 2 ^ k" by (cases k) auto
    qed
    finally show ?thesis .
  next
    case (3 m)
    hence "isPowerOf2 n \<longleftrightarrow> m = 0" by (simp add: isPowerOf2_def and_pred_odd[simplified])
    also have "\<dots> \<longleftrightarrow> (\<exists>k. n = 2 ^ k)"
    proof
      assume "m = 0" thus "\<exists>k. n = 2 ^ k" using 3 by (intro exI[of _ 0]) simp
    next
      assume "\<exists>k. n = 2 ^ k"
      then obtain k where "2 * m + 1 = 2 ^ k" using 3 by auto
      hence "odd ((2 :: nat) ^ k)" by (metis even_plus_one_iff dvd_triv_left)
      thus "m = 0" using \<open>2 * m + 1 = 2 ^ k\<close> by (cases k) auto
    qed
    finally show ?thesis .
  qed
qed

lemma power_between_unique:
  "2 ^ y \<le> (x :: nat) \<Longrightarrow> x < 2 ^ (y + 1) \<Longrightarrow> x = 2 ^ n \<Longrightarrow> y = n"
  by (metis Suc_eq_plus1 le_less_Suc_eq nat_power_less_imp_less one_less_numeral_iff
      power_le_imp_le_exp semiring_norm(76) linorder_not_less less_Suc_eq_le
      power_strict_increasing_iff)

end
