(* ===== verification/Banked_Array.thy ===== *)
theory Banked_Array
  imports Gem5_Base
begin

text \<open>
  The banked tag and data arrays of the Ruby cache
  (\<^verbatim>\<open>mem/ruby/structures/BankedArray.cc\<close>), with the two operations the refresh extension
  adds to gem5, \<^verbatim>\<open>tryAccessSpecf\<close> and \<^verbatim>\<open>reserveSpecf\<close>.  Ticks are 64-bit words, so the
  products and sums of the code wrap as they do there.  \<^verbatim>\<open>curTick()\<close> is an argument; the
  clock period of the Ruby system is the field \<open>clockPeriod\<close>.
\<close>

record AccessRecord =
  ar_idx :: int
  startAccess :: tick
  endAccess :: tick

record BankedArray =
  accessLatency :: cycles
  bankBits :: nat
  startIndexBit :: nat
  clockPeriod :: tick
  busyBanks :: "AccessRecord list"
  banks :: nat

definition AccessRecord_new :: AccessRecord where
  "AccessRecord_new = \<lparr>ar_idx = 0, startAccess = 0, endAccess = 0\<rparr>"

definition BankedArray_new :: "nat \<Rightarrow> cycles \<Rightarrow> nat \<Rightarrow> tick \<Rightarrow> BankedArray res" where
  "BankedArray_new bnks latency startBit period =
     bindR (if bnks \<noteq> 0 then floorLog2 4 (int bnks) else Inr 0) (\<lambda>bb.
     Inr \<lparr>accessLatency = latency, bankBits = bb, startIndexBit = startBit,
          clockPeriod = period, busyBanks = replicate bnks AccessRecord_new, banks = bnks\<rparr>)"

definition mapIndexToBank :: "BankedArray \<Rightarrow> int \<Rightarrow> nat res" where
  "mapIndexToBank ba idx =
     (if banks ba = 1 then Inr 0
      else if banks ba = 0 then Inl DivByZero
      else Inr (nat (take_bit 32 (c_rem idx (int (banks ba))))))"

definition bank_of :: "BankedArray \<Rightarrow> int \<Rightarrow> nat res" where
  "bank_of ba idx =
     bindR (mapIndexToBank ba idx) (\<lambda>bank. assertR (bank < banks ba) (Inr bank))"

definition tryAccess :: "tick \<Rightarrow> BankedArray \<Rightarrow> int \<Rightarrow> bool res" where
  "tryAccess now ba idx =
     (if accessLatency ba = 0 then Inr True
      else bindR (bank_of ba idx) (\<lambda>bank.
        Inr (\<not> endAccess (busyBanks ba ! bank) \<ge> now)))"

definition tryAccessSpecf :: "BankedArray \<Rightarrow> int \<Rightarrow> cycles \<Rightarrow> bool res" where
  "tryAccessSpecf ba idx cycle =
     (if accessLatency ba = 0 then Inr True
      else bindR (bank_of ba idx) (\<lambda>bank.
        Inr (\<not> endAccess (busyBanks ba ! bank) \<ge> cycle * clockPeriod ba)))"

definition reserve :: "tick \<Rightarrow> BankedArray \<Rightarrow> int \<Rightarrow> BankedArray res" where
  "reserve now ba idx =
     (if accessLatency ba = 0 then Inr ba
      else bindR (bank_of ba idx) (\<lambda>bank.
        let r = busyBanks ba ! bank in
        if endAccess r \<ge> now then
          (if startAccess r = now \<and> ar_idx r = idx then Inr ba
           else Inl (Panic ''BankedArray reservation error''))
        else Inr (ba\<lparr>busyBanks := (busyBanks ba)[bank :=
               \<lparr>ar_idx = idx, startAccess = now,
                endAccess = now + (accessLatency ba - 1) * clockPeriod ba\<rparr>]\<rparr>)))"

definition reserveSpecf :: "BankedArray \<Rightarrow> int \<Rightarrow> cycles \<Rightarrow> cycles \<Rightarrow> BankedArray res" where
  "reserveSpecf ba idx access_time init_cycle =
     (if access_time = 0 then Inr ba
      else bindR (bank_of ba idx) (\<lambda>bank.
        let r = busyBanks ba ! bank; t0 = init_cycle * clockPeriod ba in
        if endAccess r \<ge> t0 then
          (if startAccess r = t0 \<and> ar_idx r = idx then Inr ba
           else Inl (Panic ''BankedArray reservation error''))
        else Inr (ba\<lparr>busyBanks := (busyBanks ba)[bank :=
               \<lparr>ar_idx = idx, startAccess = t0,
                endAccess = t0 + (access_time - 1) * clockPeriod ba\<rparr>]\<rparr>)))"

definition getLatency :: "BankedArray \<Rightarrow> cycles" where
  "getLatency ba = accessLatency ba"

section \<open>The well-formed arrays\<close>

definition ba_wf :: "BankedArray \<Rightarrow> bool" where
  "ba_wf ba \<longleftrightarrow> 0 < banks ba \<and> banks ba < 2 ^ 32 \<and> length (busyBanks ba) = banks ba"

lemma bank_of_wf:
  assumes "ba_wf ba" "0 \<le> idx"
  shows "bank_of ba idx = Inr (nat (idx mod int (banks ba)))"
    and "nat (idx mod int (banks ba)) < length (busyBanks ba)"
proof -
  have b: "0 < banks ba" "banks ba < 2 ^ 32" "length (busyBanks ba) = banks ba"
    using assms by (auto simp: ba_wf_def)
  have m: "0 \<le> idx mod int (banks ba)" "idx mod int (banks ba) < int (banks ba)"
    using b by simp_all
  moreover have "int (banks ba) < 2 ^ 32" using b by simp
  ultimately have "idx mod int (banks ba) < 2 ^ 32" by linarith
  with m(1) have t: "take_bit 32 (idx mod int (banks ba)) = idx mod int (banks ba)"
    by (rule take_bit_int_eq_self)
  show "nat (idx mod int (banks ba)) < length (busyBanks ba)"
    using m b by (simp add: nat_less_iff)
  thus "bank_of ba idx = Inr (nat (idx mod int (banks ba)))"
    using b m t assms(2) by (auto simp: bank_of_def mapIndexToBank_def)
qed

lemma BankedArray_new_wf:
  assumes "0 < n" "n < 2 ^ 32"
  shows "\<exists>ba. BankedArray_new n l s p = Inr ba \<and> ba_wf ba \<and> accessLatency ba = l \<and>
           clockPeriod ba = p \<and> banks ba = n \<and> (\<forall>r \<in> set (busyBanks ba). r = AccessRecord_new)"
proof -
  obtain y where "floorLog2 4 (int n) = Inr y"
    using floorLog2_bounds[of 4 "int n"] assms by auto
  thus ?thesis using assms by (auto simp: BankedArray_new_def ba_wf_def)
qed

section \<open>Interface: resources reserved after a successful test\<close>

text \<open>
  What a client of a reservable array relies on: testing never faults on a well-formed
  array, a reservation that was tested succeeds, it keeps the array well-formed, and it
  does not change the answers for other banks.  A client that tests before it reserves
  (\<open>grant\<close>, \<open>grants\<close>) then never meets a fault.
\<close>

locale reservable =
  fixes inv :: "'s \<Rightarrow> bool" and ok :: "'i \<Rightarrow> bool" and bank :: "'s \<Rightarrow> 'i \<Rightarrow> nat"
    and test :: "'t \<Rightarrow> 's \<Rightarrow> 'i \<Rightarrow> bool res" and take :: "'t \<Rightarrow> 's \<Rightarrow> 'i \<Rightarrow> 's res"
  assumes test_total: "inv s \<Longrightarrow> ok i \<Longrightarrow> \<exists>b. test t s i = Inr b"
    and take_granted: "inv s \<Longrightarrow> ok i \<Longrightarrow> test t s i = Inr True \<Longrightarrow> \<exists>s'. take t s i = Inr s'"
    and take_inv: "inv s \<Longrightarrow> ok i \<Longrightarrow> take t s i = Inr s' \<Longrightarrow> inv s'"
    and take_bank: "inv s \<Longrightarrow> ok i \<Longrightarrow> take t s i = Inr s' \<Longrightarrow> bank s' = bank s"
    and take_other: "inv s \<Longrightarrow> ok i \<Longrightarrow> ok j \<Longrightarrow> take t s i = Inr s' \<Longrightarrow> bank s j \<noteq> bank s i
           \<Longrightarrow> test t' s' j = test t' s j"
begin

definition grant :: "'t \<times> 'i \<Rightarrow> 's \<Rightarrow> 's res" where
  "grant r s = bindR (test (fst r) s (snd r))
     (\<lambda>b. if b then take (fst r) s (snd r) else Inr s)"

fun grants :: "('t \<times> 'i) list \<Rightarrow> 's \<Rightarrow> 's res" where
  "grants [] s = Inr s"
| "grants (r # rs) s = bindR (grant r s) (grants rs)"

lemma grant_total:
  assumes "inv s" "ok (snd r)"
  shows "\<exists>s'. grant r s = Inr s' \<and> inv s' \<and> bank s' = bank s"
proof -
  obtain b where b: "test (fst r) s (snd r) = Inr b" using test_total[OF assms] by blast
  show ?thesis
  proof (cases b)
    case True
    with take_granted[OF assms] b obtain s' where "take (fst r) s (snd r) = Inr s'" by auto
    thus ?thesis using True b take_inv[OF assms] take_bank[OF assms] by (simp add: grant_def)
  qed (simp add: b assms grant_def)
qed

lemma grants_total:
  "inv s \<Longrightarrow> \<forall>r \<in> set rs. ok (snd r) \<Longrightarrow>
     \<exists>s'. grants rs s = Inr s' \<and> inv s' \<and> bank s' = bank s"
proof (induction rs arbitrary: s)
  case (Cons r rs)
  then obtain s1 where "grant r s = Inr s1" "inv s1" "bank s1 = bank s"
    using grant_total[of s r] by auto
  thus ?case using Cons by (metis bindR.simps(2) grants.simps(2) list.set_intros(2))
qed simp

lemma grants_other:
  "inv s \<Longrightarrow> \<forall>r \<in> set rs. ok (snd r) \<and> bank s (snd r) \<noteq> bank s j \<Longrightarrow> ok j \<Longrightarrow>
     grants rs s = Inr s' \<Longrightarrow> test t s' j = test t s j"
proof (induction rs arbitrary: s)
  case (Cons r rs)
  have r: "ok (snd r)" "bank s (snd r) \<noteq> bank s j" using Cons.prems by auto
  from grant_total[OF Cons.prems(1) r(1)] obtain s1
    where s1: "grant r s = Inr s1" "inv s1" "bank s1 = bank s" by blast
  have "test t s1 j = test t s j"
    using s1(1) take_other[OF Cons.prems(1) r(1) Cons.prems(3)] r(2)
    by (auto simp: grant_def fault_simps split: if_splits)
  moreover have "test t s' j = test t s1 j"
    using Cons.IH[of s1] Cons.prems s1 by auto
  ultimately show ?case by simp
qed simp

end

section \<open>The two reservation disciplines\<close>

definition bankIdx :: "BankedArray \<Rightarrow> int \<Rightarrow> nat" where
  "bankIdx ba idx = nat (idx mod int (banks ba))"

definition ba_timed :: "BankedArray \<Rightarrow> bool" where
  "ba_timed ba \<longleftrightarrow> ba_wf ba \<and> accessLatency ba \<noteq> 0"

lemma bankIdx_less: "ba_wf ba \<Longrightarrow> 0 \<le> idx \<Longrightarrow> bankIdx ba idx < length (busyBanks ba)"
  using bank_of_wf(2) by (simp add: bankIdx_def)

lemma bank_of_bankIdx: "ba_wf ba \<Longrightarrow> 0 \<le> idx \<Longrightarrow> bank_of ba idx = Inr (bankIdx ba idx)"
  using bank_of_wf(1) by (simp add: bankIdx_def)

lemma ba_busy_update [simp]:
  "ba_wf (ba\<lparr>busyBanks := (busyBanks ba)[b := r]\<rparr>) = ba_wf ba"
  "bankIdx (ba\<lparr>busyBanks := rs\<rparr>) = bankIdx ba"
  by (auto simp: ba_wf_def bankIdx_def fun_eq_iff)

lemmas ba_ops = tryAccess_def tryAccessSpecf_def reserve_def reserveSpecf_def Let_def

lemma reserve_cases:
  assumes "ba_wf ba" "0 \<le> idx" "reserve now ba idx = Inr ba'"
  shows "ba' = ba \<or> ba' = ba\<lparr>busyBanks := (busyBanks ba)[bankIdx ba idx :=
           \<lparr>ar_idx = idx, startAccess = now,
            endAccess = now + (accessLatency ba - 1) * clockPeriod ba\<rparr>]\<rparr>"
  using assms by (auto simp: ba_ops bank_of_bankIdx split: if_splits)

lemma reserveSpecf_cases:
  assumes "ba_wf ba" "0 \<le> idx" "reserveSpecf ba idx acc c = Inr ba'"
  shows "ba' = ba \<or> ba' = ba\<lparr>busyBanks := (busyBanks ba)[bankIdx ba idx :=
           \<lparr>ar_idx = idx, startAccess = c * clockPeriod ba,
            endAccess = c * clockPeriod ba + (acc - 1) * clockPeriod ba\<rparr>]\<rparr>"
  using assms by (auto simp: ba_ops bank_of_bankIdx split: if_splits)

lemma bank_of_update:
  "bank_of (ba\<lparr>busyBanks := rs\<rparr>) = bank_of ba"
  by (simp add: bank_of_def mapIndexToBank_def fun_eq_iff)

interpretation cur: reservable ba_wf "\<lambda>i :: int. 0 \<le> i" bankIdx tryAccess reserve
proof unfold_locales
  fix s s' and i j :: int and t t' :: tick
  assume w: "ba_wf s" "0 \<le> i"
  show "\<exists>b. tryAccess t s i = Inr b" using w by (auto simp: ba_ops bank_of_bankIdx)
  show "\<exists>s'. reserve t s i = Inr s'" if "tryAccess t s i = Inr True"
    using w that by (cases "accessLatency s = 0") (auto simp: ba_ops bank_of_bankIdx)
  assume r: "reserve t s i = Inr s'"
  show "ba_wf s'" "bankIdx s' = bankIdx s" using reserve_cases[OF w r] w by auto
  assume "0 \<le> j" "bankIdx s j \<noteq> bankIdx s i"
  thus "tryAccess t' s' j = tryAccess t' s j"
    using reserve_cases[OF w r] w by (auto simp: ba_ops bank_of_update bank_of_bankIdx)
qed

interpretation spec: reservable ba_timed "\<lambda>i :: int. 0 \<le> i" bankIdx
  "\<lambda>t s i. tryAccessSpecf s i (snd t)" "\<lambda>t s i. reserveSpecf s i (fst t) (snd t)"
proof unfold_locales
  fix s s' and i j :: int and t t' :: "cycles \<times> cycles"
  assume t: "ba_timed s" and i: "0 \<le> i"
  hence w: "ba_wf s" "accessLatency s \<noteq> 0" by (simp_all add: ba_timed_def)
  show "\<exists>b. tryAccessSpecf s i (snd t) = Inr b" using w i by (simp add: ba_ops bank_of_bankIdx)
  show "\<exists>s'. reserveSpecf s i (fst t) (snd t) = Inr s'" if "tryAccessSpecf s i (snd t) = Inr True"
    using w i that by (auto simp: ba_ops bank_of_bankIdx)
  assume r: "reserveSpecf s i (fst t) (snd t) = Inr s'"
  note c = reserveSpecf_cases[OF w(1) i r]
  show "ba_timed s'" "bankIdx s' = bankIdx s" using c w by (auto simp: ba_timed_def)
  assume "0 \<le> j" "bankIdx s j \<noteq> bankIdx s i"
  thus "tryAccessSpecf s' j (snd t') = tryAccessSpecf s j (snd t')"
    using c w i by (auto simp: ba_ops bank_of_update bank_of_bankIdx)
qed

section \<open>Properties\<close>

lemma unat_mult_exact:
  "unat a * unat b < 2 ^ 64 \<Longrightarrow> unat (a * b) = unat a * unat b" for a b :: "64 word"
  by (simp add: unat_word_ariths)

lemma unat_window:
  fixes c0 acc P :: "64 word"
  assumes "acc \<noteq> 0" "P \<noteq> 0" "(unat c0 + unat acc) * unat P < 2 ^ 64"
  shows "unat (c0 * P + (acc - 1) * P) = (unat c0 + unat acc - 1) * unat P"
proof -
  have P: "1 \<le> unat P" and a: "1 \<le> unat acc"
    using assms by (simp_all add: Suc_leI unat_gt_0)
  have "unat c0 + unat acc \<le> (unat c0 + unat acc) * unat P" using P by simp
  hence lt: "unat c0 + unat acc < 2 ^ 64" using assms(3) by linarith
  have a1: "unat (acc - 1) = unat acc - 1" using assms(1) by (rule unat_minus_one)
  have s: "unat (c0 + (acc - 1)) = unat c0 + unat acc - 1"
    using lt a a1 by (simp add: unat_word_ariths)
  have le: "(unat c0 + unat acc - 1) * unat P \<le> (unat c0 + unat acc) * unat P" by simp
  have "c0 * P + (acc - 1) * P = (c0 + (acc - 1)) * P" by (simp add: algebra_simps)
  also have "unat \<dots> = (unat c0 + unat acc - 1) * unat P"
    using unat_mult_exact[of "c0 + (acc - 1)" P] order.strict_trans1[OF le assms(3)]
    by (simp only: s)
  finally show ?thesis .
qed

text \<open>
  Exact occupancy of a refresh-aware reservation: when \<^verbatim>\<open>tryAccessSpecf\<close> grants a bank
  at cycle \<open>c0\<close>, \<^verbatim>\<open>reserveSpecf\<close> with access time \<open>acc\<close> succeeds, and from then on every
  index of the same bank is refused up to cycle \<open>c0 + acc - 1\<close> and granted from cycle
  \<open>c0 + acc\<close> on, as long as the tick values do not overflow 64 bits.
\<close>
theorem reserveSpecf_busy_window:
  assumes "ba_timed ba" "0 \<le> i" "0 \<le> j" "bankIdx ba j = bankIdx ba i"
    and "acc \<noteq> 0" "clockPeriod ba \<noteq> 0"
    and "tryAccessSpecf ba i c0 = Inr True"
    and "(unat c0 + unat acc) * unat (clockPeriod ba) < 2 ^ 64"
    and "unat c * unat (clockPeriod ba) < 2 ^ 64"
  shows "\<exists>ba'. reserveSpecf ba i acc c0 = Inr ba' \<and>
           tryAccessSpecf ba' j c = Inr (unat c0 + unat acc \<le> unat c)"
proof -
  have w: "ba_wf ba" "accessLatency ba \<noteq> 0" using assms(1) by (simp_all add: ba_timed_def)
  let ?P = "clockPeriod ba" and ?b = "bankIdx ba i"
  let ?r = "\<lparr>ar_idx = i, startAccess = c0 * ?P, endAccess = c0 * ?P + (acc - 1) * ?P\<rparr>"
  have res: "reserveSpecf ba i acc c0 = Inr (ba\<lparr>busyBanks := (busyBanks ba)[?b := ?r]\<rparr>)"
    using assms w by (auto simp: ba_ops bank_of_bankIdx)
  have "unat (endAccess ?r) < unat (c * ?P) \<longleftrightarrow> unat c0 + unat acc - 1 < unat c"
    using assms by (simp add: unat_window unat_mult_exact unat_gt_0)
  moreover have "0 < unat acc" using assms(5) by (simp add: unat_gt_0)
  ultimately have "\<not> endAccess ?r \<ge> c * ?P \<longleftrightarrow> unat c0 + unat acc \<le> unat c"
    by (auto simp: word_less_nat_alt not_le)
  thus ?thesis using res w assms bankIdx_less[OF w(1) assms(2)]
    by (simp add: ba_ops bank_of_update bank_of_bankIdx)
qed

definition ba_demo :: BankedArray where
  "ba_demo = \<lparr>accessLatency = 2, bankBits = 1, startIndexBit = 6, clockPeriod = 500,
     busyBanks = replicate 2 AccessRecord_new, banks = 2\<rparr>"

theorem reserveSpecf_busy_window_witness:
  "\<exists>ba'. reserveSpecf ba_demo 3 4 10 = Inr ba' \<and> tryAccessSpecf ba' 5 14 = Inr True"
  using reserveSpecf_busy_window[of ba_demo 3 5 4 10 14]
  by (simp add: ba_demo_def ba_timed_def ba_wf_def bankIdx_def tryAccessSpecf_def
      bank_of_def mapIndexToBank_def AccessRecord_new_def)

text \<open>
  Testing before reserving is enough: on a well-formed array an index that
  \<^verbatim>\<open>tryAccess\<close> grants is reserved without a panic, the array stays well-formed, and the
  answer of \<^verbatim>\<open>tryAccess\<close> for every index of another bank, at every tick, is unchanged.
\<close>
theorem reserve_granted_isolated:
  assumes "ba_wf ba" "0 \<le> i" "0 \<le> j" "tryAccess now ba i = Inr True"
    and "bankIdx ba j \<noteq> bankIdx ba i"
  shows "\<exists>ba'. reserve now ba i = Inr ba' \<and> ba_wf ba' \<and> tryAccess t ba' j = tryAccess t ba j"
  using cur.take_granted[OF assms(1,2,4)] cur.take_inv[OF assms(1,2)]
    cur.take_other[OF assms(1-3) _ assms(5)] by blast

theorem reserve_granted_isolated_witness:
  "\<exists>ba'. reserve 1000 ba_demo 3 = Inr ba' \<and> ba_wf ba' \<and>
     tryAccess 1000 ba' 4 = tryAccess 1000 ba_demo 4"
  using reserve_granted_isolated[of ba_demo 3 4 1000 1000]
  by (simp add: ba_demo_def ba_wf_def bankIdx_def tryAccess_def
      bank_of_def mapIndexToBank_def AccessRecord_new_def)

text \<open>
  A second reservation of the same index at the same start cycle is accepted and
  leaves the array as it is, whatever its access time: the longer of two such accesses
  does not extend the busy period of the bank.
\<close>
theorem reserveSpecf_same_start_absorbed:
  assumes "ba_timed ba" "0 \<le> i" "acc1 \<noteq> 0" "acc2 \<noteq> 0" "clockPeriod ba \<noteq> 0"
    and "tryAccessSpecf ba i c0 = Inr True"
    and "(unat c0 + unat acc1) * unat (clockPeriod ba) < 2 ^ 64"
  shows "\<exists>ba'. reserveSpecf ba i acc1 c0 = Inr ba' \<and> reserveSpecf ba' i acc2 c0 = Inr ba'"
proof -
  have w: "ba_wf ba" "accessLatency ba \<noteq> 0" using assms(1) by (simp_all add: ba_timed_def)
  let ?P = "clockPeriod ba"
  have a: "0 < unat acc1" using assms(3) by (simp add: unat_gt_0)
  have "unat c0 * unat ?P \<le> (unat c0 + unat acc1 - 1) * unat ?P"
    using a by (intro mult_le_mono1) linarith
  moreover have "unat c0 * unat ?P < 2 ^ 64"
    using assms(7) by (simp add: add_mult_distrib)
  ultimately have "c0 * ?P \<le> c0 * ?P + (acc1 - 1) * ?P"
    using assms by (simp add: word_le_nat_alt unat_mult_exact unat_window)
  thus ?thesis using assms w bankIdx_less[OF w(1) assms(2)]
    by (auto simp: ba_ops bank_of_bankIdx bank_of_update)
qed

theorem reserveSpecf_same_start_absorbed_witness:
  "\<exists>ba'. reserveSpecf ba_demo 3 4 10 = Inr ba' \<and> reserveSpecf ba' 3 40 10 = Inr ba'"
  using reserveSpecf_same_start_absorbed[of ba_demo 3 4 40 10]
  by (simp add: ba_demo_def ba_timed_def ba_wf_def tryAccessSpecf_def
      bank_of_def mapIndexToBank_def AccessRecord_new_def)

end
