(* ===== verification/ALU_Free_List.thy ===== *)
theory ALU_Free_List
  imports Gem5_Base
begin

text \<open>
  The free list of pipelined atomic ALUs
  (\<^verbatim>\<open>mem/ruby/structures/ALUFreeListArray.cc\<close>).  The access queue is a list whose head is
  the front of the deque; ticks are 64-bit words, so the subtraction of the access latency
  from the current tick wraps around early in a simulation.
\<close>

record alu_record =
  lineAddr :: addr
  startTick :: tick

record ALUFreeListArray =
  numALUs :: nat
  alu_accessLatency :: tick
  accessQueue :: "alu_record list"

definition ALUFreeListArray_new :: "nat \<Rightarrow> tick \<Rightarrow> ALUFreeListArray" where
  "ALUFreeListArray_new n lat = \<lparr>numALUs = n, alu_accessLatency = lat, accessQueue = []\<rparr>"

definition pop_expired :: "tick \<Rightarrow> alu_record list \<Rightarrow> alu_record list" where
  "pop_expired oldest q = rev (dropWhile (\<lambda>r. startTick r < oldest) (rev q))"

fun alu_scan :: "tick \<Rightarrow> addr \<Rightarrow> nat \<Rightarrow> nat \<Rightarrow> alu_record list \<Rightarrow> bool" where
  "alu_scan now line n accesses [] = True"
| "alu_scan now line n accesses (r # rs) =
     (let accesses' = (if startTick r = now then accesses + 1 else accesses)
      in if startTick r = now \<and> accesses' > n then False
         else if lineAddr r = line then False
         else alu_scan now line n accesses' rs)"

definition alu_tryAccess ::
    "nat \<Rightarrow> tick \<Rightarrow> addr \<Rightarrow> ALUFreeListArray \<Rightarrow> bool \<times> ALUFreeListArray" where
  "alu_tryAccess bsb now a s =
     (let oldestValidRecordStart = now - alu_accessLatency s;
          q = pop_expired oldestValidRecordStart (accessQueue s)
      in (alu_scan now (makeLineAddress bsb a) (numALUs s) 0 q, s\<lparr>accessQueue := q\<rparr>))"

definition alu_reserve :: "nat \<Rightarrow> tick \<Rightarrow> addr \<Rightarrow> ALUFreeListArray \<Rightarrow> ALUFreeListArray" where
  "alu_reserve bsb now a s =
     s\<lparr>accessQueue := \<lparr>lineAddr = makeLineAddress bsb a, startTick = now\<rparr> # accessQueue s\<rparr>"

section \<open>The queue invariant and the scan\<close>

definition alu_inv :: "tick \<Rightarrow> ALUFreeListArray \<Rightarrow> bool" where
  "alu_inv now s \<longleftrightarrow> sorted_wrt (\<lambda>x y. startTick y \<le> startTick x) (accessQueue s) \<and>
     (\<forall>r \<in> set (accessQueue s). startTick r \<le> now)"

lemma alu_scan_iff:
  "acc \<le> n \<Longrightarrow> alu_scan now line n acc q \<longleftrightarrow>
     (\<forall>r \<in> set q. lineAddr r \<noteq> line) \<and>
     acc + length (filter (\<lambda>r. startTick r = now) q) \<le> n"
  by (induction q arbitrary: acc) (auto simp: Let_def not_less)

lemma dropWhile_sorted:
  fixes oldest :: tick
  shows "sorted_wrt (\<lambda>x y. startTick x \<le> startTick y) q \<Longrightarrow>
     dropWhile (\<lambda>r. startTick r < oldest) q = filter (\<lambda>r. oldest \<le> startTick r) q"
proof (induction q)
  case (Cons r q)
  show ?case
  proof (cases "startTick r < oldest")
    case False
    hence "\<forall>x \<in> set q. oldest \<le> startTick x" using Cons.prems by auto
    thus ?thesis using False by (simp add: filter_id_conv)
  qed (use Cons in auto)
qed simp

lemma pop_expired_filter:
  "alu_inv now s \<Longrightarrow> pop_expired oldest (accessQueue s) =
     filter (\<lambda>r. oldest \<le> startTick r) (accessQueue s)"
proof -
  assume "alu_inv now s"
  hence "sorted_wrt (\<lambda>x y. startTick x \<le> startTick y) (rev (accessQueue s))"
    by (simp add: alu_inv_def sorted_wrt_rev)
  thus ?thesis by (simp add: pop_expired_def dropWhile_sorted rev_filter)
qed

lemma alu_ops_inv [invar_intros]:
  "alu_inv now s \<Longrightarrow> alu_inv now (snd (alu_tryAccess bsb now a s))"
  "alu_inv now s \<Longrightarrow> alu_inv now (alu_reserve bsb now a s)"
  "alu_inv now s \<Longrightarrow> now \<le> now' \<Longrightarrow> alu_inv now' s"
proof -
  show "alu_inv now s \<Longrightarrow> alu_inv now (snd (alu_tryAccess bsb now a s))"
    using pop_expired_filter[of now s]
    by (auto simp: alu_tryAccess_def Let_def alu_inv_def sorted_wrt_filter)
  show "alu_inv now s \<Longrightarrow> alu_inv now (alu_reserve bsb now a s)"
    by (auto simp: alu_reserve_def alu_inv_def)
  show "alu_inv now s \<Longrightarrow> now \<le> now' \<Longrightarrow> alu_inv now' s"
    by (force simp: alu_inv_def)
qed

section \<open>Properties\<close>

text \<open>
  Admission once the simulation is past the access latency, on every branch of the scan.
\<close>
lemma alu_tryAccess_iff:
  assumes "alu_inv now s" "alu_accessLatency s \<le> now"
  shows "fst (alu_tryAccess bsb now a s) \<longleftrightarrow>
     (\<forall>r \<in> set (accessQueue s).
        unat now \<le> unat (startTick r) + unat (alu_accessLatency s) \<longrightarrow>
        lineAddr r \<noteq> makeLineAddress bsb a) \<and>
     length (filter (\<lambda>r. startTick r = now) (accessQueue s)) \<le> numALUs s"
proof -
  let ?o = "now - alu_accessLatency s"
  have sub: "unat ?o = unat now - unat (alu_accessLatency s)" using assms(2) by (rule unat_sub)
  have o: "?o \<le> t \<longleftrightarrow> unat now \<le> unat t + unat (alu_accessLatency s)" for t
    by (auto simp: word_le_nat_alt sub)
  have q: "pop_expired ?o (accessQueue s) = filter (\<lambda>r. ?o \<le> startTick r) (accessQueue s)"
    using pop_expired_filter[OF assms(1)] .
  have f: "filter (\<lambda>r. startTick r = now) (pop_expired ?o (accessQueue s)) =
      filter (\<lambda>r. startTick r = now) (accessQueue s)"
    by (auto simp: q o intro!: filter_cong)
  have "fst (alu_tryAccess bsb now a s) \<longleftrightarrow>
      (\<forall>r \<in> set (pop_expired ?o (accessQueue s)). lineAddr r \<noteq> makeLineAddress bsb a) \<and>
      length (filter (\<lambda>r. startTick r = now) (accessQueue s)) \<le> numALUs s"
    by (simp add: alu_tryAccess_def Let_def alu_scan_iff f)
  thus ?thesis by (auto simp: q o)
qed

text \<open>
  A client of the free list: it reserves an access exactly when \<^verbatim>\<open>tryAccess\<close> admits it. The
  history, latest access first, has all the accesses that were admitted.
\<close>

definition alu_request ::
    "nat \<Rightarrow> tick \<times> addr \<Rightarrow> alu_record list \<times> ALUFreeListArray \<Rightarrow> alu_record list \<times> ALUFreeListArray" where
  "alu_request bsb = (\<lambda>(now, a) (hist, s).
     let (granted, s') = alu_tryAccess bsb now a s in
     if granted then (\<lparr>lineAddr = makeLineAddress bsb a, startTick = now\<rparr> # hist, alu_reserve bsb now a s')
     else (hist, s'))"

definition alu_clients :: "nat \<Rightarrow> nat \<Rightarrow> tick \<Rightarrow> (tick \<times> addr) list \<Rightarrow> alu_record list \<times> ALUFreeListArray" where
  "alu_clients bsb n lat rs = fold (alu_request bsb) rs ([], ALUFreeListArray_new n lat)"

text \<open>The queue has the recent part of the history, and two accesses to a line never overlap.\<close>

definition serialised :: "tick \<Rightarrow> alu_record list \<Rightarrow> bool" where
  "serialised lat hist \<longleftrightarrow> sorted_wrt (\<lambda>later earlier. lineAddr later = lineAddr earlier \<longrightarrow>
     unat (startTick earlier) + unat lat < unat (startTick later)) hist"

definition alu_sim :: "nat \<Rightarrow> tick \<Rightarrow> tick \<Rightarrow> alu_record list \<times> ALUFreeListArray \<Rightarrow> bool" where
  "alu_sim n lat now = (\<lambda>(hist, s). alu_inv now s \<and> numALUs s = n \<and> alu_accessLatency s = lat \<and>
     (\<forall>r \<in> set hist. startTick r \<le> now) \<and> serialised lat hist \<and>
     (\<exists>oldest \<le> now - lat. accessQueue s = filter (\<lambda>r. oldest \<le> startTick r) hist))"

lemma alu_sim_later:
  assumes "alu_sim n lat now ls" "lat \<le> now" "now \<le> now'"
  shows "alu_sim n lat now' ls"
proof -
  have le: "now - lat \<le> now' - lat" using assms(2,3) by (simp add: word_le_nat_alt unat_sub)
  obtain hist s where ls: "ls = (hist, s)" by force
  then obtain oldest where o: "oldest \<le> now - lat" "accessQueue s = filter (\<lambda>r. oldest \<le> startTick r) hist"
    using assms(1) by (auto simp: alu_sim_def)
  have "oldest \<le> now' - lat" using o(1) le by (rule order_trans)
  moreover have "alu_inv now' s" "\<forall>r \<in> set hist. startTick r \<le> now'" "numALUs s = n \<and> alu_accessLatency s = lat"
    "serialised lat hist"
    using assms(1,3) alu_ops_inv(3)[of now s now'] by (auto simp: alu_sim_def ls intro: order_trans)
  ultimately show ?thesis using o(2) unfolding alu_sim_def ls by blast
qed

text \<open>The recent part of the queue is the recent part of the history.\<close>

lemma alu_sim_window:
  assumes "alu_sim n lat now (hist, s)" "lat \<le> now"
  shows "filter (\<lambda>r. now - lat \<le> startTick r) (accessQueue s) = filter (\<lambda>r. now - lat \<le> startTick r) hist"
proof -
  obtain oldest where o: "oldest \<le> now - lat" "accessQueue s = filter (\<lambda>r. oldest \<le> startTick r) hist"
    using assms(1) by (auto simp: alu_sim_def)
  show ?thesis unfolding o(2) filter_filter
    by (rule filter_cong[OF refl]) (use o(1) in \<open>auto intro: order_trans\<close>)
qed

lemma alu_sim_admits:
  assumes "alu_sim n lat now (hist, s)" "lat \<le> now"
  shows "fst (alu_tryAccess bsb now a s) \<longleftrightarrow>
    (\<forall>r \<in> set hist. unat now \<le> unat (startTick r) + unat lat \<longrightarrow> lineAddr r \<noteq> makeLineAddress bsb a) \<and>
    length (filter (\<lambda>r. startTick r = now) hist) \<le> n"
proof -
  have i: "alu_inv now s" "numALUs s = n" "alu_accessLatency s = lat" using assms(1) by (auto simp: alu_sim_def)
  have sub: "unat (now - lat) = unat now - unat lat" using assms(2) by (rule unat_sub)
  have o: "now - lat \<le> t \<longleftrightarrow> unat now \<le> unat t + unat lat" for t by (auto simp: word_le_nat_alt sub)
  have now: "now - lat \<le> now" by (simp add: o)
  note w = alu_sim_window[OF assms]
  have "set (filter (\<lambda>r. now - lat \<le> startTick r) (accessQueue s)) = set (filter (\<lambda>r. now - lat \<le> startTick r) hist)"
    by (simp only: w)
  hence m: "r \<in> set (accessQueue s) \<longleftrightarrow> r \<in> set hist" if "now - lat \<le> startTick r" for r using that by auto
  have "filter (\<lambda>r. startTick r = now) q = filter (\<lambda>r. startTick r = now) (filter (\<lambda>r. now - lat \<le> startTick r) q)" for q
    using now by (auto intro!: filter_cong)
  hence f: "filter (\<lambda>r. startTick r = now) (accessQueue s) = filter (\<lambda>r. startTick r = now) hist"
    using w by metis
  show ?thesis using alu_tryAccess_iff[OF i(1), of bsb a] assms(2) m unfolding i f by (auto simp: o)
qed

lemma alu_sim_request:
  assumes "alu_sim n lat now (hist, s)" "lat \<le> now"
  shows "alu_sim n lat now (alu_request bsb (now, a) (hist, s))"
proof -
  have i: "alu_inv now s" "numALUs s = n" "alu_accessLatency s = lat"
    "\<forall>r \<in> set hist. startTick r \<le> now" "serialised lat hist" using assms(1) by (auto simp: alu_sim_def)
  define s' where "s' = snd (alu_tryAccess bsb now a s)"
  let ?r = "\<lparr>lineAddr = makeLineAddress bsb a, startTick = now\<rparr>"
  have q: "accessQueue s' = filter (\<lambda>r. now - lat \<le> startTick r) hist" "numALUs s' = n" "alu_accessLatency s' = lat"
    using pop_expired_filter[OF i(1)] alu_sim_window[OF assms]
    by (simp_all add: s'_def alu_tryAccess_def Let_def i)
  have inv: "alu_inv now s'" unfolding s'_def by (rule alu_ops_inv(1)[OF i(1)])
  have le: "now - lat \<le> now" using assms(2) by (simp add: word_le_nat_alt unat_sub)
  show ?thesis
  proof (cases "fst (alu_tryAccess bsb now a s)")
    case True
    have "serialised lat (?r # hist)"
      using i(5) True alu_sim_admits[OF assms, of bsb a] by (auto simp: serialised_def not_le[symmetric])
    hence "alu_sim n lat now (?r # hist, alu_reserve bsb now a s')"
      using i(4) q le alu_ops_inv(2)[OF inv, of bsb a] by (auto simp: alu_sim_def alu_reserve_def)
    thus ?thesis using True by (simp add: alu_request_def s'_def split_beta Let_def)
  next
    case False
    have "alu_sim n lat now (hist, s')" using i(4,5) q inv by (auto simp: alu_sim_def)
    thus ?thesis using False by (simp add: alu_request_def s'_def split_beta Let_def)
  qed
qed

lemma alu_clients_sim:
  "sorted (map fst rs) \<Longrightarrow> \<forall>t \<in> fst ` set rs. lat \<le> t \<and> t \<le> now \<Longrightarrow> lat \<le> now \<Longrightarrow>
   alu_sim n lat now (alu_clients bsb n lat rs)"
proof (induction rs arbitrary: now rule: rev_induct)
  case Nil
  thus ?case by (auto simp: alu_clients_def alu_sim_def alu_inv_def serialised_def ALUFreeListArray_new_def)
next
  case (snoc r rs)
  obtain t a where r: "r = (t, a)" by force
  obtain hist s where ls: "alu_clients bsb n lat rs = (hist, s)" by force
  have t: "lat \<le> t" "t \<le> now" "sorted (map fst rs)" "\<forall>u \<in> fst ` set rs. lat \<le> u \<and> u \<le> t"
    using snoc.prems by (auto simp: r sorted_append)
  have "alu_sim n lat t (hist, s)" using snoc.IH[OF t(3,4,1)] ls by simp
  hence "alu_sim n lat t (alu_request bsb (t, a) (hist, s))" by (rule alu_sim_request[OF _ t(1)])
  moreover have "alu_clients bsb n lat (rs @ [r]) = alu_request bsb (t, a) (hist, s)"
    using ls by (simp add: alu_clients_def r)
  ultimately show ?case using alu_sim_later t(1,2) by metis
qed

text \<open>
  C32. Accesses of the atomic ALUs to one line are serialised. Take any sequence of requests
  in time order, past the access latency, by clients that reserve what \<^verbatim>\<open>tryAccess\<close> admits.
  Then two admitted accesses to the same line are always more than the access latency
  apart. And for a further request: it is refused while its line is in use and when
  more than \<^verbatim>\<open>numALUs\<close> accesses started in the current tick; it is admitted when its line
  has not been accessed in the past \<^verbatim>\<open>accessLatency\<close> ticks and fewer than \<^verbatim>\<open>numALUs\<close> started.
\<close>
theorem alu_accesses_serialised:
  assumes "sorted (map fst rs)" "\<forall>t \<in> fst ` set rs. lat \<le> t \<and> t \<le> now" "lat \<le> now"
    and "alu_clients bsb n lat rs = (hist, s)"
    and "in_use \<longleftrightarrow> (\<exists>r \<in> set hist. lineAddr r = makeLineAddress bsb a \<and> unat now \<le> unat (startTick r) + unat lat)"
    and "started = length (filter (\<lambda>r. startTick r = now) hist)"
  shows "sorted_wrt (\<lambda>later earlier. lineAddr later = lineAddr earlier \<longrightarrow>
       unat (startTick earlier) + unat lat < unat (startTick later)) hist \<and>
     (in_use \<or> n < started \<longrightarrow> \<not> fst (alu_tryAccess bsb now a s)) \<and>
     (\<not> in_use \<and> started < n \<longrightarrow> fst (alu_tryAccess bsb now a s))"
proof -
  have sim: "alu_sim n lat now (hist, s)" using alu_clients_sim[OF assms(1-3)] assms(4) by metis
  hence "serialised lat hist" by (simp add: alu_sim_def)
  thus ?thesis using alu_sim_admits[OF sim assms(3), of bsb a] unfolding assms(5,6) serialised_def by auto
qed

text \<open>One ALU: the second request finds its line in use, the third is for another line.\<close>

definition alu_demo :: "(tick \<times> addr) list" where
  "alu_demo = [(6, 64), (9, 70), (9, 128), (20, 64)]"

lemma alu_demo_run:
  "alu_clients 6 1 5 alu_demo = ([\<lparr>lineAddr = 64, startTick = 20\<rparr>, \<lparr>lineAddr = 128, startTick = 9\<rparr>,
     \<lparr>lineAddr = 64, startTick = 6\<rparr>],
     \<lparr>numALUs = 1, alu_accessLatency = 5, accessQueue = [\<lparr>lineAddr = 64, startTick = 20\<rparr>]\<rparr>)"
  by (simp add: alu_clients_def alu_request_def alu_demo_def ALUFreeListArray_new_def alu_tryAccess_def alu_reserve_def
      pop_expired_def Let_def makeLineAddress_def mbits_def mask64_def)

theorem alu_accesses_serialised_witness:
  "\<exists>hist s. alu_clients 6 1 5 alu_demo = (hist, s) \<and> length hist = 3 \<and>
     sorted_wrt (\<lambda>later earlier. lineAddr later = lineAddr earlier \<longrightarrow>
       unat (startTick earlier) + unat (5 :: tick) < unat (startTick later)) hist \<and>
     \<not> fst (alu_tryAccess 6 22 65 s) \<and> fst (alu_tryAccess 6 22 192 s)"
proof -
  let ?hist = "fst (alu_clients 6 1 5 alu_demo)" and ?s = "snd (alu_clients 6 1 5 alu_demo)"
  have h: "sorted (map fst alu_demo)" "\<forall>t \<in> fst ` set alu_demo. 5 \<le> t \<and> t \<le> 22" "(5 :: tick) \<le> 22"
    "alu_clients 6 1 5 alu_demo = (?hist, ?s)"
    by (simp_all add: alu_demo_def)
  have u: "\<exists>r \<in> set ?hist. lineAddr r = makeLineAddress 6 65 \<and> unat (22 :: tick) \<le> unat (startTick r) + unat (5 :: tick)"
    "\<not> (\<exists>r \<in> set ?hist. lineAddr r = makeLineAddress 6 192 \<and> unat (22 :: tick) \<le> unat (startTick r) + unat (5 :: tick))"
    "length (filter (\<lambda>r. startTick r = 22) ?hist) = 0" "length ?hist = 3"
    unfolding alu_demo_run fst_conv by (simp_all add: makeLineAddress_def mbits_def mask64_def)
  note w = alu_accesses_serialised[OF h refl refl]
  have "\<not> fst (alu_tryAccess 6 22 65 ?s)" using w[of 65] u(1) by (simp only: simp_thms)
  moreover have "fst (alu_tryAccess 6 22 192 ?s)" using w[of 192] u(2,3) by simp
  ultimately show ?thesis using h(4) u(4) w by blast
qed

text \<open>
  Before the simulation has run for the access latency, the subtraction of the latency
  from the current tick wraps around and \<^verbatim>\<open>tryAccess\<close> discards the whole queue: it admits
  every access, also to a line that entered an ALU in the same tick.
\<close>
theorem alu_tryAccess_early_wrap:
  assumes "now < alu_accessLatency s" "alu_inv now s"
  shows "fst (alu_tryAccess bsb now a s) \<and> accessQueue (snd (alu_tryAccess bsb now a s)) = []"
proof -
  let ?o = "now - alu_accessLatency s"
  have "unat now < unat (alu_accessLatency s)" using assms(1) by (simp add: word_less_nat_alt)
  hence "unat ?o = unat now + 2 ^ 64 - unat (alu_accessLatency s)"
    by (simp add: unat_sub_if')
  hence "now < ?o" using unat64_less[of "alu_accessLatency s"]
    by (simp add: word_less_nat_alt)
  hence "\<forall>r \<in> set (accessQueue s). startTick r < ?o"
    using assms(2) by (auto simp: alu_inv_def)
  hence "pop_expired ?o (accessQueue s) = []" by (simp add: pop_expired_def)
  thus ?thesis by (simp add: alu_tryAccess_def Let_def)
qed

theorem alu_tryAccess_early_wrap_witness:
  "fst (alu_tryAccess 6 3 130 (alu_reserve 6 3 130 (ALUFreeListArray_new 1 5))) \<and>
   accessQueue (snd (alu_tryAccess 6 3 130 (alu_reserve 6 3 130 (ALUFreeListArray_new 1 5)))) = []"
  by (rule alu_tryAccess_early_wrap)
    (simp_all add: alu_reserve_def ALUFreeListArray_new_def alu_inv_def)

end
