(* ===== verification/Repl_Policy.thy ===== *)
theory Repl_Policy
  imports Gem5_Base "HOL-Library.Product_Lexorder"
begin

text \<open>
  The replacement policies of gem5 that a Ruby cache can be given
  (\<^verbatim>\<open>mem/cache/replacement_policies/\<close>), except TreePLRU, which has a theory of its own.
  A policy object is a table of its virtual methods (\<open>policy\<close>) over its state; the
  replacement data of a cache location (set, way) is a component of that state.
  \<^verbatim>\<open>getVictim\<close> returns the position of the victim in the candidate vector.  The random
  numbers of \<^verbatim>\<open>random_mt\<close> are a sequence carried by the state.
\<close>

type_synonym loc = "nat \<times> nat"

record 'st policy =
  pol_touch :: "tick \<Rightarrow> loc \<Rightarrow> 'st \<Rightarrow> 'st res"
  pol_touch_occ :: "int \<Rightarrow> tick \<Rightarrow> loc \<Rightarrow> 'st \<Rightarrow> 'st res"
  pol_reset :: "tick \<Rightarrow> loc \<Rightarrow> 'st \<Rightarrow> 'st res"
  pol_invalidate :: "tick \<Rightarrow> loc \<Rightarrow> 'st \<Rightarrow> 'st res"
  pol_getVictim :: "loc list \<Rightarrow> 'st \<Rightarrow> (nat \<times> 'st) res"
  pol_instantiate :: "loc \<Rightarrow> 'st \<Rightarrow> 'st res"

section \<open>The candidate scan\<close>

definition scan_min :: "(loc \<Rightarrow> 'k :: linorder) \<Rightarrow> loc list \<Rightarrow> nat" where
  "scan_min key cs = foldl (\<lambda>v i. if key (cs ! i) < key (cs ! v) then i else v) 0 [0..<length cs]"

section \<open>LRU and BIP\<close>

record lru_state = lastTouchTick :: "loc \<Rightarrow> tick"

definition LRU_instantiateEntry :: "loc \<Rightarrow> 'a lru_state_scheme \<Rightarrow> 'a lru_state_scheme" where
  "LRU_instantiateEntry l st = st\<lparr>lastTouchTick := (lastTouchTick st)(l := 0)\<rparr>"

definition LRU_invalidate :: "loc \<Rightarrow> 'a lru_state_scheme \<Rightarrow> 'a lru_state_scheme" where
  "LRU_invalidate l st = st\<lparr>lastTouchTick := (lastTouchTick st)(l := 0)\<rparr>"

definition LRU_touch :: "tick \<Rightarrow> loc \<Rightarrow> 'a lru_state_scheme \<Rightarrow> 'a lru_state_scheme" where
  "LRU_touch now l st = st\<lparr>lastTouchTick := (lastTouchTick st)(l := now)\<rparr>"

definition LRU_reset :: "tick \<Rightarrow> loc \<Rightarrow> 'a lru_state_scheme \<Rightarrow> 'a lru_state_scheme" where
  "LRU_reset now l st = st\<lparr>lastTouchTick := (lastTouchTick st)(l := now)\<rparr>"

definition LRU_getVictim :: "loc list \<Rightarrow> 'a lru_state_scheme \<Rightarrow> nat res" where
  "LRU_getVictim cs st = assertR (length cs > 0) (Inr (scan_min (lastTouchTick st) cs))"

record bip_state = lru_state +
  btp :: nat
  rng :: "nat \<Rightarrow> nat"
  rng_pos :: nat

definition random_unsigned :: "nat \<Rightarrow> nat \<Rightarrow> nat \<Rightarrow> nat" where
  "random_unsigned lo hi raw = lo + raw mod (hi - lo + 1)"

definition BIP_reset :: "tick \<Rightarrow> loc \<Rightarrow> bip_state \<Rightarrow> bip_state" where
  "BIP_reset now l st =
     (let r = random_unsigned 1 100 (rng st (rng_pos st));
          st' = st\<lparr>rng_pos := rng_pos st + 1\<rparr>
      in if r \<le> btp st then st'\<lparr>lastTouchTick := (lastTouchTick st')(l := now)\<rparr>
         else st'\<lparr>lastTouchTick := (lastTouchTick st')(l := 1)\<rparr>)"

section \<open>FIFO and second chance\<close>

record fifo_state =
  timeTicks :: tick
  tickInserted :: "loc \<Rightarrow> tick"

definition FIFO_invalidate :: "loc \<Rightarrow> 'a fifo_state_scheme \<Rightarrow> 'a fifo_state_scheme" where
  "FIFO_invalidate l st = (let t = timeTicks st + 1 in
     st\<lparr>timeTicks := t, tickInserted := (tickInserted st)(l := t)\<rparr>)"

definition FIFO_touch :: "loc \<Rightarrow> 'a fifo_state_scheme \<Rightarrow> 'a fifo_state_scheme" where
  "FIFO_touch l st = st"

definition FIFO_reset :: "loc \<Rightarrow> 'a fifo_state_scheme \<Rightarrow> 'a fifo_state_scheme" where
  "FIFO_reset l st = (let t = timeTicks st + 1 in
     st\<lparr>timeTicks := t, tickInserted := (tickInserted st)(l := t)\<rparr>)"

definition FIFO_instantiateEntry :: "loc \<Rightarrow> 'a fifo_state_scheme \<Rightarrow> 'a fifo_state_scheme" where
  "FIFO_instantiateEntry l st = st\<lparr>tickInserted := (tickInserted st)(l := 0)\<rparr>"

definition FIFO_getVictim :: "loc list \<Rightarrow> 'a fifo_state_scheme \<Rightarrow> nat res" where
  "FIFO_getVictim cs st = assertR (length cs > 0) (Inr (scan_min (tickInserted st) cs))"

record sc_state = fifo_state +
  hasSecondChance :: "loc \<Rightarrow> bool"

definition SC_useSecondChance :: "loc \<Rightarrow> sc_state \<Rightarrow> sc_state" where
  "SC_useSecondChance l st = (let st' = FIFO_reset l st in
     st'\<lparr>hasSecondChance := (hasSecondChance st')(l := False)\<rparr>)"

definition SC_invalidate :: "loc \<Rightarrow> sc_state \<Rightarrow> sc_state" where
  "SC_invalidate l st = (let st' = FIFO_invalidate l st in
     st'\<lparr>hasSecondChance := (hasSecondChance st')(l := False)\<rparr>)"

definition SC_touch :: "loc \<Rightarrow> sc_state \<Rightarrow> sc_state" where
  "SC_touch l st = (let st' = FIFO_touch l st in
     st'\<lparr>hasSecondChance := (hasSecondChance st')(l := True)\<rparr>)"

definition SC_reset :: "loc \<Rightarrow> sc_state \<Rightarrow> sc_state" where
  "SC_reset l st = (let st' = FIFO_reset l st in
     st'\<lparr>hasSecondChance := (hasSecondChance st')(l := False)\<rparr>)"

definition SC_instantiateEntry :: "loc \<Rightarrow> sc_state \<Rightarrow> sc_state" where
  "SC_instantiateEntry l st = (let st' = FIFO_instantiateEntry l st in
     st'\<lparr>hasSecondChance := (hasSecondChance st')(l := False)\<rparr>)"

fun first_index :: "('a \<Rightarrow> bool) \<Rightarrow> 'a list \<Rightarrow> nat option" where
  "first_index P [] = None"
| "first_index P (x # xs) = (if P x then Some 0 else map_option Suc (first_index P xs))"

section \<open>Lemmas on the scan\<close>

definition is_first_min :: "(loc \<Rightarrow> 'k :: linorder) \<Rightarrow> loc list \<Rightarrow> nat \<Rightarrow> nat \<Rightarrow> bool" where
  "is_first_min key cs n v \<longleftrightarrow> v < n \<and> (\<forall>i < n. key (cs ! v) \<le> key (cs ! i)) \<and>
     (\<forall>i < v. key (cs ! v) < key (cs ! i))"

lemma scan_min_prefix:
  "0 < n \<Longrightarrow> is_first_min key cs n
     (foldl (\<lambda>v i. if key (cs ! i) < key (cs ! v) then i else v) 0 [0..<n])"
proof (induction n)
  case (Suc n)
  show ?case
  proof (cases "n = 0")
    case True thus ?thesis by (simp add: is_first_min_def)
  next
    case False
    let ?v = "foldl (\<lambda>v i. if key (cs ! i) < key (cs ! v) then i else v) 0 [0..<n]"
    have "is_first_min key cs n ?v" using Suc False by simp
    thus ?thesis by (fastforce simp: is_first_min_def less_Suc_eq)
  qed
qed simp

lemma scan_min_first_min: "cs \<noteq> [] \<Longrightarrow> is_first_min key cs (length cs) (scan_min key cs)"
  using scan_min_prefix[of "length cs" key cs] by (simp add: scan_min_def)

lemma scan_min_less [simp]: "cs \<noteq> [] \<Longrightarrow> scan_min key cs < length cs"
  using scan_min_first_min[of cs key] by (simp add: is_first_min_def)

lemma is_first_min_unique:
  "is_first_min key cs n v \<Longrightarrow> is_first_min key cs n w \<Longrightarrow> v = w"
  by (metis is_first_min_def leD nat_neq_iff)

text \<open>
  The victim loop of \<^verbatim>\<open>SecondChance\<close>: the FIFO victim is taken unless it has a second
  chance, which is then used up.  Every turn uses up one second chance, so the loop ends.
\<close>

function SC_loop :: "loc list \<Rightarrow> sc_state \<Rightarrow> (nat \<times> sc_state) res" where
  "SC_loop cs st = (case FIFO_getVictim cs st of
      Inl e \<Rightarrow> Inl e
    | Inr v \<Rightarrow> if hasSecondChance st (cs ! v) then SC_loop cs (SC_useSecondChance (cs ! v) st)
              else Inr (v, st))"
  by pat_completeness auto

definition sc_chances :: "loc list \<Rightarrow> sc_state \<Rightarrow> loc set" where
  "sc_chances cs st = {l \<in> set cs. hasSecondChance st l}"

lemma SC_useSecondChance_chances:
  "hasSecondChance (SC_useSecondChance l st) = (hasSecondChance st)(l := False)"
  by (simp add: SC_useSecondChance_def FIFO_reset_def Let_def)

lemma sc_chances_use: "sc_chances cs (SC_useSecondChance l st) = sc_chances cs st - {l}"
  by (auto simp: sc_chances_def SC_useSecondChance_chances)

termination SC_loop
proof (relation "measure (\<lambda>(cs, st). card (sc_chances cs st))")
  fix cs v and st :: sc_state
  assume v: "FIFO_getVictim cs st = Inr v" and c: "hasSecondChance st (cs ! v)"
  hence "cs \<noteq> []" "v < length cs" by (auto simp: FIFO_getVictim_def fault_simps)
  hence "cs ! v \<in> sc_chances cs st" using c by (simp add: sc_chances_def)
  moreover have "finite (sc_chances cs st)" by (simp add: sc_chances_def)
  ultimately show "((cs, SC_useSecondChance (cs ! v) st), (cs, st)) \<in>
      measure (\<lambda>(cs, st). card (sc_chances cs st))"
    using card_Diff1_less[of "sc_chances cs st" "cs ! v"]
    by (simp only: in_measure split_conv sc_chances_use)
qed simp

declare SC_loop.simps [simp del]

definition SC_getVictim :: "loc list \<Rightarrow> sc_state \<Rightarrow> (nat \<times> sc_state) res" where
  "SC_getVictim cs st = assertR (length cs > 0)
     (case first_index (\<lambda>l. tickInserted st l = 0 \<and> \<not> hasSecondChance st l) cs of
        Some i \<Rightarrow> Inr (i, st)
      | None \<Rightarrow> SC_loop cs st)"

section \<open>LFU and MRU\<close>

record lfu_state = refCount :: "loc \<Rightarrow> 32 word"

definition LFU_invalidate :: "loc \<Rightarrow> lfu_state \<Rightarrow> lfu_state" where
  "LFU_invalidate l st = st\<lparr>refCount := (refCount st)(l := 0)\<rparr>"

definition LFU_touch :: "loc \<Rightarrow> lfu_state \<Rightarrow> lfu_state" where
  "LFU_touch l st = st\<lparr>refCount := (refCount st)(l := refCount st l + 1)\<rparr>"

definition LFU_reset :: "loc \<Rightarrow> lfu_state \<Rightarrow> lfu_state" where
  "LFU_reset l st = st\<lparr>refCount := (refCount st)(l := 1)\<rparr>"

definition LFU_instantiateEntry :: "loc \<Rightarrow> lfu_state \<Rightarrow> lfu_state" where
  "LFU_instantiateEntry l st = st\<lparr>refCount := (refCount st)(l := 0)\<rparr>"

definition LFU_getVictim :: "loc list \<Rightarrow> lfu_state \<Rightarrow> nat res" where
  "LFU_getVictim cs st = assertR (length cs > 0) (Inr (scan_min (refCount st) cs))"

record mru_state = mru_lastTouchTick :: "loc \<Rightarrow> tick"

definition MRU_invalidate :: "loc \<Rightarrow> mru_state \<Rightarrow> mru_state" where
  "MRU_invalidate l st = st\<lparr>mru_lastTouchTick := (mru_lastTouchTick st)(l := 0)\<rparr>"

definition MRU_touch :: "tick \<Rightarrow> loc \<Rightarrow> mru_state \<Rightarrow> mru_state" where
  "MRU_touch now l st = st\<lparr>mru_lastTouchTick := (mru_lastTouchTick st)(l := now)\<rparr>"

definition MRU_reset :: "tick \<Rightarrow> loc \<Rightarrow> mru_state \<Rightarrow> mru_state" where
  "MRU_reset now l st = st\<lparr>mru_lastTouchTick := (mru_lastTouchTick st)(l := now)\<rparr>"

definition MRU_instantiateEntry :: "loc \<Rightarrow> mru_state \<Rightarrow> mru_state" where
  "MRU_instantiateEntry l st = st\<lparr>mru_lastTouchTick := (mru_lastTouchTick st)(l := 0)\<rparr>"

fun MRU_scan :: "(loc \<Rightarrow> tick) \<Rightarrow> loc list \<Rightarrow> nat list \<Rightarrow> nat \<Rightarrow> nat" where
  "MRU_scan tk cs [] v = v"
| "MRU_scan tk cs (i # is) v =
     (if tk (cs ! i) = 0 then i
      else if tk (cs ! i) > tk (cs ! v) then MRU_scan tk cs is i
      else MRU_scan tk cs is v)"

definition MRU_getVictim :: "loc list \<Rightarrow> mru_state \<Rightarrow> nat res" where
  "MRU_getVictim cs st = assertR (length cs > 0)
     (Inr (MRU_scan (mru_lastTouchTick st) cs [0..<length cs] 0))"

section \<open>Weighted LRU\<close>

record wlru_state = lru_state +
  last_occ_ptr :: "loc \<Rightarrow> int"

definition WLRU_touch_occ :: "int \<Rightarrow> tick \<Rightarrow> loc \<Rightarrow> wlru_state \<Rightarrow> wlru_state" where
  "WLRU_touch_occ occupancy now l st = (let st' = LRU_touch now l st in
     st'\<lparr>last_occ_ptr := (last_occ_ptr st')(l := occupancy)\<rparr>)"

definition WLRU_instantiateEntry :: "loc \<Rightarrow> wlru_state \<Rightarrow> wlru_state" where
  "WLRU_instantiateEntry l st = (let st' = LRU_instantiateEntry l st in
     st'\<lparr>last_occ_ptr := (last_occ_ptr st')(l := 0)\<rparr>)"

definition WLRU_better :: "wlru_state \<Rightarrow> loc \<Rightarrow> loc \<Rightarrow> bool" where
  "WLRU_better st c v =
     (if last_occ_ptr st c < last_occ_ptr st v then True
      else if last_occ_ptr st c = last_occ_ptr st v
        then lastTouchTick st c < lastTouchTick st v
      else False)"

definition WLRU_getVictim :: "loc list \<Rightarrow> wlru_state \<Rightarrow> nat res" where
  "WLRU_getVictim cs st = assertR (length cs > 0)
     (Inr (foldl (\<lambda>v i. if WLRU_better st (cs ! i) (cs ! v) then i else v) 0 [0..<length cs]))"

section \<open>The interface of a replacement policy\<close>

text \<open>
  What the cache relies on: no operation of a policy faults on the locations of the cache
  (\<open>ok\<close>), and \<^verbatim>\<open>getVictim\<close> on the candidate vector of a set (\<open>cands\<close>) returns a position
  of that vector.  \<open>pinv\<close> is the invariant of the policy's state.
\<close>

locale replacement_policy =
  fixes pol :: "'st policy" and pinv :: "'st \<Rightarrow> bool" and ok :: "loc \<Rightarrow> bool"
    and cands :: "loc list \<Rightarrow> bool"
  assumes touch_total: "pinv st \<Longrightarrow> ok l \<Longrightarrow> \<exists>st'. pol_touch pol now l st = Inr st' \<and> pinv st'"
    and touch_occ_total:
      "pinv st \<Longrightarrow> ok l \<Longrightarrow> \<exists>st'. pol_touch_occ pol occ now l st = Inr st' \<and> pinv st'"
    and reset_total: "pinv st \<Longrightarrow> ok l \<Longrightarrow> \<exists>st'. pol_reset pol now l st = Inr st' \<and> pinv st'"
    and invalidate_total:
      "pinv st \<Longrightarrow> ok l \<Longrightarrow> \<exists>st'. pol_invalidate pol now l st = Inr st' \<and> pinv st'"
    and victim_total:
      "pinv st \<Longrightarrow> cands cs \<Longrightarrow>
         \<exists>v st'. pol_getVictim pol cs st = Inr (v, st') \<and> v < length cs \<and> pinv st'"

definition keep_state :: "nat res \<Rightarrow> 'st \<Rightarrow> (nat \<times> 'st) res" where
  "keep_state r st = bindR r (\<lambda>v. Inr (v, st))"

definition LRU_policy :: "lru_state policy" where
  "LRU_policy = \<lparr>pol_touch = (\<lambda>now l st. Inr (LRU_touch now l st)),
     pol_touch_occ = (\<lambda>_ now l st. Inr (LRU_touch now l st)),
     pol_reset = (\<lambda>now l st. Inr (LRU_reset now l st)),
     pol_invalidate = (\<lambda>_ l st. Inr (LRU_invalidate l st)),
     pol_getVictim = (\<lambda>cs st. keep_state (LRU_getVictim cs st) st),
     pol_instantiate = (\<lambda>l st. Inr (LRU_instantiateEntry l st))\<rparr>"

definition BIP_policy :: "bip_state policy" where
  "BIP_policy = \<lparr>pol_touch = (\<lambda>now l st. Inr (LRU_touch now l st)),
     pol_touch_occ = (\<lambda>_ now l st. Inr (LRU_touch now l st)),
     pol_reset = (\<lambda>now l st. Inr (BIP_reset now l st)),
     pol_invalidate = (\<lambda>_ l st. Inr (LRU_invalidate l st)),
     pol_getVictim = (\<lambda>cs st. keep_state (LRU_getVictim cs st) st),
     pol_instantiate = (\<lambda>l st. Inr (LRU_instantiateEntry l st))\<rparr>"

definition FIFO_policy :: "fifo_state policy" where
  "FIFO_policy = \<lparr>pol_touch = (\<lambda>_ l st. Inr (FIFO_touch l st)),
     pol_touch_occ = (\<lambda>_ _ l st. Inr (FIFO_touch l st)),
     pol_reset = (\<lambda>_ l st. Inr (FIFO_reset l st)),
     pol_invalidate = (\<lambda>_ l st. Inr (FIFO_invalidate l st)),
     pol_getVictim = (\<lambda>cs st. keep_state (FIFO_getVictim cs st) st),
     pol_instantiate = (\<lambda>l st. Inr (FIFO_instantiateEntry l st))\<rparr>"

definition SC_policy :: "sc_state policy" where
  "SC_policy = \<lparr>pol_touch = (\<lambda>_ l st. Inr (SC_touch l st)),
     pol_touch_occ = (\<lambda>_ _ l st. Inr (SC_touch l st)),
     pol_reset = (\<lambda>_ l st. Inr (SC_reset l st)),
     pol_invalidate = (\<lambda>_ l st. Inr (SC_invalidate l st)),
     pol_getVictim = SC_getVictim,
     pol_instantiate = (\<lambda>l st. Inr (SC_instantiateEntry l st))\<rparr>"

definition LFU_policy :: "lfu_state policy" where
  "LFU_policy = \<lparr>pol_touch = (\<lambda>_ l st. Inr (LFU_touch l st)),
     pol_touch_occ = (\<lambda>_ _ l st. Inr (LFU_touch l st)),
     pol_reset = (\<lambda>_ l st. Inr (LFU_reset l st)),
     pol_invalidate = (\<lambda>_ l st. Inr (LFU_invalidate l st)),
     pol_getVictim = (\<lambda>cs st. keep_state (LFU_getVictim cs st) st),
     pol_instantiate = (\<lambda>l st. Inr (LFU_instantiateEntry l st))\<rparr>"

definition MRU_policy :: "mru_state policy" where
  "MRU_policy = \<lparr>pol_touch = (\<lambda>now l st. Inr (MRU_touch now l st)),
     pol_touch_occ = (\<lambda>_ now l st. Inr (MRU_touch now l st)),
     pol_reset = (\<lambda>now l st. Inr (MRU_reset now l st)),
     pol_invalidate = (\<lambda>_ l st. Inr (MRU_invalidate l st)),
     pol_getVictim = (\<lambda>cs st. keep_state (MRU_getVictim cs st) st),
     pol_instantiate = (\<lambda>l st. Inr (MRU_instantiateEntry l st))\<rparr>"

definition WLRU_policy :: "wlru_state policy" where
  "WLRU_policy = \<lparr>pol_touch = (\<lambda>now l st. Inr (LRU_touch now l st)),
     pol_touch_occ = (\<lambda>occ now l st. Inr (WLRU_touch_occ occ now l st)),
     pol_reset = (\<lambda>now l st. Inr (LRU_reset now l st)),
     pol_invalidate = (\<lambda>_ l st. Inr (LRU_invalidate l st)),
     pol_getVictim = (\<lambda>cs st. keep_state (WLRU_getVictim cs st) st),
     pol_instantiate = (\<lambda>l st. Inr (WLRU_instantiateEntry l st))\<rparr>"

lemmas policy_defs = LRU_policy_def BIP_policy_def FIFO_policy_def SC_policy_def
  LFU_policy_def MRU_policy_def WLRU_policy_def keep_state_def

lemma WLRU_better_lex:
  "WLRU_better st c v \<longleftrightarrow>
     (last_occ_ptr st c, lastTouchTick st c) < (last_occ_ptr st v, lastTouchTick st v)"
  by (auto simp: WLRU_better_def)

lemma WLRU_getVictim_scan:
  "WLRU_getVictim cs st = assertR (length cs > 0)
     (Inr (scan_min (\<lambda>l. (last_occ_ptr st l, lastTouchTick st l)) cs))"
  by (simp only: WLRU_getVictim_def WLRU_better_lex scan_min_def)

lemma MRU_scan_less:
  "v < length cs \<Longrightarrow> \<forall>i \<in> set is. i < length cs \<Longrightarrow> MRU_scan tk cs is v < length cs"
  by (induction "is" arbitrary: v) auto

lemma first_index_Some: "first_index P xs = Some i \<Longrightarrow> i < length xs \<and> P (xs ! i)"
  by (induction xs arbitrary: i) (auto split: if_splits)

lemma first_index_None: "first_index P xs = None \<longleftrightarrow> (\<forall>x \<in> set xs. \<not> P x)"
  by (induction xs) auto

lemma SC_loop_total:
  "cs \<noteq> [] \<Longrightarrow> \<exists>v st'. SC_loop cs st = Inr (v, st') \<and> v < length cs \<and>
     \<not> hasSecondChance st' (cs ! v) \<and> is_first_min (tickInserted st') cs (length cs) v"
proof (induction cs st rule: SC_loop.induct)
  case (1 cs st)
  have v: "FIFO_getVictim cs st = Inr (scan_min (tickInserted st) cs)"
    using 1(2) by (simp add: FIFO_getVictim_def)
  show ?case
  proof (cases "hasSecondChance st (cs ! scan_min (tickInserted st) cs)")
    case True
    from 1(1)[OF v True 1(2)] True show ?thesis by (subst SC_loop.simps) (simp add: v)
  next
    case False
    thus ?thesis using 1(2) scan_min_first_min[OF 1(2), of "tickInserted st"]
      by (subst SC_loop.simps) (simp add: v)
  qed
qed

lemma SC_getVictim_total:
  assumes "cs \<noteq> []"
  shows "\<exists>v st'. SC_getVictim cs st = Inr (v, st') \<and> v < length cs \<and>
           \<not> hasSecondChance st' (cs ! v)"
proof (cases "first_index (\<lambda>l. tickInserted st l = 0 \<and> \<not> hasSecondChance st l) cs")
  case None
  thus ?thesis using SC_loop_total[OF assms, of st] assms by (auto simp: SC_getVictim_def)
next
  case (Some i)
  thus ?thesis using first_index_Some[OF Some] assms by (simp add: SC_getVictim_def)
qed

interpretation lru: replacement_policy LRU_policy "\<lambda>_. True" "\<lambda>_. True" "\<lambda>cs. cs \<noteq> []"
  by unfold_locales (auto simp: policy_defs LRU_getVictim_def)

interpretation bip: replacement_policy BIP_policy "\<lambda>_. True" "\<lambda>_. True" "\<lambda>cs. cs \<noteq> []"
  by unfold_locales (auto simp: policy_defs LRU_getVictim_def)

interpretation fifo: replacement_policy FIFO_policy "\<lambda>_. True" "\<lambda>_. True" "\<lambda>cs. cs \<noteq> []"
  by unfold_locales (auto simp: policy_defs FIFO_getVictim_def)

interpretation sc: replacement_policy SC_policy "\<lambda>_. True" "\<lambda>_. True" "\<lambda>cs. cs \<noteq> []"
  using SC_getVictim_total by unfold_locales (auto simp: policy_defs, blast)

interpretation lfu: replacement_policy LFU_policy "\<lambda>_. True" "\<lambda>_. True" "\<lambda>cs. cs \<noteq> []"
  by unfold_locales (auto simp: policy_defs LFU_getVictim_def)

interpretation mru: replacement_policy MRU_policy "\<lambda>_. True" "\<lambda>_. True" "\<lambda>cs. cs \<noteq> []"
  by unfold_locales (auto simp: policy_defs MRU_getVictim_def intro!: MRU_scan_less)

interpretation wlru: replacement_policy WLRU_policy "\<lambda>_. True" "\<lambda>_. True" "\<lambda>cs. cs \<noteq> []"
  by unfold_locales (auto simp: policy_defs WLRU_getVictim_scan)

section \<open>Properties\<close>

definition LRU_run :: "(tick \<times> loc) list \<Rightarrow> lru_state" where
  "LRU_run h = foldl (\<lambda>st (now, l). LRU_touch now l st) \<lparr>lastTouchTick = (\<lambda>_. 0)\<rparr> h"

lemma LRU_run_snoc: "LRU_run (h @ [(now, l)]) = LRU_touch now l (LRU_run h)"
  by (simp add: LRU_run_def)

lemma LRU_run_last:
  "l \<in> snd ` set h \<Longrightarrow>
     \<exists>h1 t h2. h = h1 @ (t, l) # h2 \<and> l \<notin> snd ` set h2 \<and> lastTouchTick (LRU_run h) l = t"
proof (induction h rule: rev_induct)
  case (snoc x h)
  obtain now m where x: "x = (now, m)" by (cases x)
  show ?case
  proof (cases "m = l")
    case True
    hence "h @ [x] = h @ (now, l) # [] \<and> l \<notin> snd ` set [] \<and>
        lastTouchTick (LRU_run (h @ [x])) l = now"
      using x by (simp add: LRU_run_snoc LRU_touch_def)
    thus ?thesis by blast
  next
    case False
    then obtain h1 t h2 where "h = h1 @ (t, l) # h2" "l \<notin> snd ` set h2"
      "lastTouchTick (LRU_run h) l = t"
      using snoc x by force
    moreover have "lastTouchTick (LRU_run (h @ [x])) l = lastTouchTick (LRU_run h) l"
      using False x by (simp add: LRU_run_snoc LRU_touch_def)
    moreover have "l \<notin> snd ` set (h2 @ [x])" using calculation False x by auto
    ultimately have "h @ [x] = h1 @ (t, l) # (h2 @ [x]) \<and> l \<notin> snd ` set (h2 @ [x]) \<and>
        lastTouchTick (LRU_run (h @ [x])) l = t" by simp
    thus ?thesis by blast
  qed
qed simp

text \<open>
  C30. LRU evicts the least recently used way: after any history of touches at strictly
  increasing ticks that touched every candidate, \<^verbatim>\<open>LRU::getVictim\<close> returns a candidate such
  that every other candidate was touched again after the victim's last touch.
\<close>
theorem LRU_victim_least_recent:
  assumes "sorted_wrt (\<lambda>x y. fst x < fst y) h" "cs \<noteq> []" "\<forall>c \<in> set cs. c \<in> snd ` set h"
  shows "\<exists>v < length cs. LRU_getVictim cs (LRU_run h) = Inr v \<and>
           (\<forall>c \<in> set cs. c \<noteq> cs ! v \<longrightarrow>
              (\<exists>h1 h2. h = h1 @ h2 \<and> cs ! v \<notin> snd ` set h2 \<and> c \<in> snd ` set h2))"
proof -
  define tk where "tk = lastTouchTick (LRU_run h)"
  define v where "v = scan_min tk cs"
  have min: "is_first_min tk cs (length cs) v"
    using scan_min_first_min[OF assms(2)] by (simp add: v_def)
  have lt: "v < length cs" using min by (simp add: is_first_min_def)
  obtain h1 t h2 where h: "h = h1 @ (t, cs ! v) # h2" "cs ! v \<notin> snd ` set h2"
    "tk (cs ! v) = t" using LRU_run_last[of "cs ! v" h] assms(3) lt by (auto simp: tk_def)
  have srt: "\<forall>x \<in> set h1. fst x < t" using assms(1) h(1) by (simp add: sorted_wrt_append)
  have "c \<in> snd ` set h2" if c: "c \<in> set cs" "c \<noteq> cs ! v" for c
  proof -
    obtain g1 u g2 where g: "h = g1 @ (u, c) # g2" "tk c = u"
      using LRU_run_last[of c h] assms(3) c by (auto simp: tk_def)
    have "t \<le> u" using min c g(2) h(3) by (auto simp: is_first_min_def in_set_conv_nth)
    hence "(u, c) \<notin> set h1" using srt by fastforce
    moreover have "(u, c) \<in> set h" using g(1) by simp
    ultimately show ?thesis using h(1) c(2) by force
  qed
  hence "\<forall>c \<in> set cs. c \<noteq> cs ! v \<longrightarrow>
      (\<exists>h1 h2. h = h1 @ h2 \<and> cs ! v \<notin> snd ` set h2 \<and> c \<in> snd ` set h2)"
    using h(1,2) by (metis append.assoc append_Cons append_Nil)
  moreover have "LRU_getVictim cs (LRU_run h) = Inr v"
    using assms(2) by (simp add: LRU_getVictim_def v_def tk_def)
  ultimately show ?thesis using lt by blast
qed

definition two_ways :: "loc list" where
  "two_ways = [(0, 0), (0, 1)]"

theorem LRU_victim_least_recent_witness:
  "\<exists>v < length two_ways. LRU_getVictim two_ways (LRU_run [(1, (0, 0)), (2, (0, 1)), (3, (0, 0))]) = Inr v \<and>
     (\<forall>c \<in> set two_ways. c \<noteq> two_ways ! v \<longrightarrow>
        (\<exists>h1 h2. [(1 :: tick, (0, 0)), (2, (0, 1)), (3, (0, 0))] = h1 @ h2 \<and>
           two_ways ! v \<notin> snd ` set h2 \<and> c \<in> snd ` set h2))"
  by (rule LRU_victim_least_recent) (auto simp: two_ways_def)

text \<open>
  C31. The second-chance victim search always ends, on every state and every non-empty
  candidate vector, and the entry it returns has no second chance left.
\<close>
theorem SC_getVictim_terminates:
  assumes "cs \<noteq> []"
  shows "\<exists>v st'. SC_getVictim cs st = Inr (v, st') \<and> v < length cs \<and>
           \<not> hasSecondChance st' (cs ! v)"
  using SC_getVictim_total[OF assms] .

theorem SC_getVictim_terminates_witness:
  "\<exists>v st'. SC_getVictim two_ways
       \<lparr>timeTicks = 2, tickInserted = (\<lambda>l. if l = (0, 0) then 1 else 2),
        hasSecondChance = (\<lambda>_. True)\<rparr> = Inr (v, st') \<and> v < length two_ways \<and>
     \<not> hasSecondChance st' (two_ways ! v)"
  by (rule SC_getVictim_terminates) (simp add: two_ways_def)

text \<open>
  \<^verbatim>\<open>FIFO::invalidate\<close> makes an entry the newest one: whenever another candidate is
  present and the insertion counter has not wrapped, the invalidated entry is not chosen
  by \<^verbatim>\<open>getVictim\<close>, although its interface describes it as the next probable victim.
\<close>
theorem FIFO_invalidate_not_victim:
  assumes "\<forall>m. tickInserted st m \<le> timeTicks st" "timeTicks st < timeTicks st + 1"
    and "c \<in> set cs" "c \<noteq> l"
  shows "\<exists>v < length cs. FIFO_getVictim cs (FIFO_invalidate l st) = Inr v \<and> cs ! v \<noteq> l"
proof -
  let ?st = "FIFO_invalidate l st" let ?v = "scan_min (tickInserted ?st) cs"
  have ne: "cs \<noteq> []" using assms(3) by auto
  have "tickInserted ?st (cs ! ?v) \<le> tickInserted ?st c"
    using scan_min_first_min[OF ne, of "tickInserted ?st"] assms(3)
    by (auto simp: is_first_min_def in_set_conv_nth)
  also have "\<dots> \<le> timeTicks st"
    using assms(1)[rule_format, of c] assms(4) by (simp add: FIFO_invalidate_def Let_def)
  finally have "cs ! ?v \<noteq> l" using assms(2) by (auto simp: FIFO_invalidate_def Let_def)
  thus ?thesis using ne by (auto simp: FIFO_getVictim_def)
qed

theorem FIFO_invalidate_not_victim_witness:
  "\<exists>v < length two_ways. FIFO_getVictim two_ways (FIFO_invalidate (0, 0)
      \<lparr>timeTicks = 2, tickInserted = (\<lambda>l. if l = (0, 0) then 1 else 2)\<rparr>) = Inr v \<and>
     two_ways ! v \<noteq> (0, 0)"
  by (rule FIFO_invalidate_not_victim[where c = "(0, 1)"]) (auto simp: two_ways_def)

end
