(* ===== verification/Rrip_Policy.thy ===== *)
theory Rrip_Policy
  imports Repl_Policy
begin

text \<open>
  Saturating counters (\<^verbatim>\<open>base/sat_counter.hh\<close>) and the two policies with a validity bit,
  bimodal re-reference interval prediction (\<^verbatim>\<open>brrip_rp.cc\<close>) and random replacement
  (\<^verbatim>\<open>random_rp.cc\<close>).  The arithmetic of \<^verbatim>\<open>SatCounter8\<close> is done by the code in \<^verbatim>\<open>int\<close> after
  promotion, so the fields are integers; \<open>sat_wf\<close> is the range they keep.
\<close>

section \<open>Saturating counters\<close>

record sat_counter =
  initialVal :: int
  maxVal :: int
  counter :: int

definition SatCounter_new :: "nat \<Rightarrow> int \<Rightarrow> sat_counter res" where
  "SatCounter_new nbits initial =
     (let mx = take_bit 8 (2 ^ nbits - 1) in
      if nbits > 8 then Inl (ConfigExit ''Number of bits exceeds counter size'')
      else if initial > mx
        then Inl (ConfigExit ''Saturating counter's initial value exceeds max value.'')
      else Inr \<lparr>initialVal = initial, maxVal = mx, counter = initial\<rparr>)"

definition sat_inc :: "sat_counter \<Rightarrow> sat_counter" where
  "sat_inc c = (if counter c < maxVal c then c\<lparr>counter := counter c + 1\<rparr> else c)"

definition sat_dec :: "sat_counter \<Rightarrow> sat_counter" where
  "sat_dec c = (if counter c > 0 then c\<lparr>counter := counter c - 1\<rparr> else c)"

definition sat_add_pos :: "sat_counter \<Rightarrow> int \<Rightarrow> sat_counter" where
  "sat_add_pos c value = (if maxVal c - counter c \<ge> value
     then c\<lparr>counter := counter c + value\<rparr> else c\<lparr>counter := maxVal c\<rparr>)"

definition sat_sub_pos :: "sat_counter \<Rightarrow> int \<Rightarrow> sat_counter" where
  "sat_sub_pos c value = (if counter c > value
     then c\<lparr>counter := counter c - value\<rparr> else c\<lparr>counter := 0\<rparr>)"

definition sat_add :: "sat_counter \<Rightarrow> int \<Rightarrow> sat_counter" where
  "sat_add c value = (if value \<ge> 0 then sat_add_pos c value else sat_sub_pos c (- value))"

definition sat_sub :: "sat_counter \<Rightarrow> int \<Rightarrow> sat_counter" where
  "sat_sub c value = (if value \<ge> 0 then sat_sub_pos c value else sat_add_pos c (- value))"

definition sat_reset :: "sat_counter \<Rightarrow> sat_counter" where
  "sat_reset c = c\<lparr>counter := initialVal c\<rparr>"

definition isSaturated :: "sat_counter \<Rightarrow> bool" where
  "isSaturated c \<longleftrightarrow> counter c = maxVal c"

definition sat_saturate :: "sat_counter \<Rightarrow> int \<times> sat_counter" where
  "sat_saturate c = (maxVal c - counter c, c\<lparr>counter := maxVal c\<rparr>)"

definition sat_wf :: "sat_counter \<Rightarrow> bool" where
  "sat_wf c \<longleftrightarrow> 0 \<le> initialVal c \<and> initialVal c \<le> maxVal c \<and> maxVal c < 2 ^ 8 \<and>
     0 \<le> counter c \<and> counter c \<le> maxVal c"

lemmas sat_defs = sat_inc_def sat_dec_def sat_add_pos_def sat_sub_pos_def sat_add_def
  sat_sub_def sat_reset_def sat_saturate_def

lemma SatCounter_new_wf [invar_intros]:
  "0 \<le> i \<Longrightarrow> SatCounter_new n i = Inr c \<Longrightarrow> sat_wf c \<and> counter c = i \<and> maxVal c = 2 ^ n - 1"
proof -
  assume a: "0 \<le> i" "SatCounter_new n i = Inr c"
  hence n: "n \<le> 8" by (auto simp: SatCounter_new_def Let_def split: if_splits)
  hence "(2 :: int) ^ n \<le> 2 ^ 8" by (intro power_increasing) auto
  hence "take_bit 8 (2 ^ n - 1 :: int) = 2 ^ n - 1" by (intro take_bit_int_eq_self) auto
  thus ?thesis using a \<open>2 ^ n \<le> 2 ^ 8\<close>
    by (auto simp: SatCounter_new_def Let_def sat_wf_def split: if_splits)
qed

lemma sat_ops_wf [invar_intros]:
  assumes "sat_wf c"
  shows "sat_wf (sat_inc c)" "sat_wf (sat_dec c)" "sat_wf (sat_add c v)" "sat_wf (sat_sub c v)"
    "sat_wf (sat_reset c)" "sat_wf (snd (sat_saturate c))"
  using assms by (auto simp: sat_wf_def sat_defs)

section \<open>BRRIP\<close>

record brrip_state =
  numRRPVBits :: nat
  hitPriority :: bool
  brrip_btp :: nat
  brrip_rng :: "nat \<Rightarrow> nat"
  brrip_pos :: nat
  rrpv :: "loc \<Rightarrow> sat_counter"
  brrip_valid :: "loc \<Rightarrow> bool"

definition BRRIP_invalidate :: "loc \<Rightarrow> brrip_state \<Rightarrow> brrip_state" where
  "BRRIP_invalidate l st = st\<lparr>brrip_valid := (brrip_valid st)(l := False)\<rparr>"

definition BRRIP_touch :: "loc \<Rightarrow> brrip_state \<Rightarrow> brrip_state" where
  "BRRIP_touch l st =
     (if hitPriority st then st\<lparr>rrpv := (rrpv st)(l := sat_reset (rrpv st l))\<rparr>
      else st\<lparr>rrpv := (rrpv st)(l := sat_dec (rrpv st l))\<rparr>)"

definition BRRIP_reset :: "loc \<Rightarrow> brrip_state \<Rightarrow> brrip_state" where
  "BRRIP_reset l st =
     (let r0 = snd (sat_saturate (rrpv st l));
          rnd = random_unsigned 1 100 (brrip_rng st (brrip_pos st));
          r1 = (if rnd \<le> brrip_btp st then sat_dec r0 else r0)
      in st\<lparr>brrip_pos := brrip_pos st + 1, rrpv := (rrpv st)(l := r1),
           brrip_valid := (brrip_valid st)(l := True)\<rparr>)"

definition BRRIP_instantiateEntry :: "loc \<Rightarrow> brrip_state \<Rightarrow> brrip_state res" where
  "BRRIP_instantiateEntry l st = bindR (SatCounter_new (numRRPVBits st) 0) (\<lambda>c.
     Inr (st\<lparr>rrpv := (rrpv st)(l := c), brrip_valid := (brrip_valid st)(l := False)\<rparr>))"

fun BRRIP_scan :: "brrip_state \<Rightarrow> loc list \<Rightarrow> nat list \<Rightarrow> nat \<Rightarrow> nat + nat" where
  "BRRIP_scan st cs [] v = Inr v"
| "BRRIP_scan st cs (i # is) v =
     (if \<not> brrip_valid st (cs ! i) then Inl i
      else if counter (rrpv st (cs ! i)) > counter (rrpv st (cs ! v)) then BRRIP_scan st cs is i
      else BRRIP_scan st cs is v)"

definition BRRIP_age :: "int \<Rightarrow> loc list \<Rightarrow> (loc \<Rightarrow> sat_counter) \<Rightarrow> (loc \<Rightarrow> sat_counter)" where
  "BRRIP_age diff cs rr = foldl (\<lambda>r c. r(c := sat_add (r c) diff)) rr cs"

definition BRRIP_getVictim :: "loc list \<Rightarrow> brrip_state \<Rightarrow> (nat \<times> brrip_state) res" where
  "BRRIP_getVictim cs st = assertR (length cs > 0)
     (case BRRIP_scan st cs [0..<length cs] 0 of
        Inl i \<Rightarrow> Inr (i, st)
      | Inr v \<Rightarrow>
          (let (diff, c') = sat_saturate (rrpv st (cs ! v));
               rr = (rrpv st)(cs ! v := c');
               rr' = (if diff > 0 then BRRIP_age diff cs rr else rr)
           in Inr (v, st\<lparr>rrpv := rr'\<rparr>)))"

section \<open>Random\<close>

record random_state =
  rand_rng :: "nat \<Rightarrow> nat"
  rand_pos :: nat
  rand_valid :: "loc \<Rightarrow> bool"

definition Random_invalidate :: "loc \<Rightarrow> random_state \<Rightarrow> random_state" where
  "Random_invalidate l st = st\<lparr>rand_valid := (rand_valid st)(l := False)\<rparr>"

definition Random_touch :: "loc \<Rightarrow> random_state \<Rightarrow> random_state" where
  "Random_touch l st = st"

definition Random_reset :: "loc \<Rightarrow> random_state \<Rightarrow> random_state" where
  "Random_reset l st = st\<lparr>rand_valid := (rand_valid st)(l := True)\<rparr>"

definition Random_instantiateEntry :: "loc \<Rightarrow> random_state \<Rightarrow> random_state" where
  "Random_instantiateEntry l st = st\<lparr>rand_valid := (rand_valid st)(l := False)\<rparr>"

definition Random_getVictim :: "loc list \<Rightarrow> random_state \<Rightarrow> (nat \<times> random_state) res" where
  "Random_getVictim cs st = assertR (length cs > 0)
     (let victim = random_unsigned 0 (length cs - 1) (rand_rng st (rand_pos st));
          st' = st\<lparr>rand_pos := rand_pos st + 1\<rparr>
      in case first_index (\<lambda>c. \<not> rand_valid st c) cs of
           Some i \<Rightarrow> Inr (i, st')
         | None \<Rightarrow> Inr (victim, st'))"

definition BRRIP_policy :: "brrip_state policy" where
  "BRRIP_policy = \<lparr>pol_touch = (\<lambda>_ l st. Inr (BRRIP_touch l st)),
     pol_touch_occ = (\<lambda>_ _ l st. Inr (BRRIP_touch l st)),
     pol_reset = (\<lambda>_ l st. Inr (BRRIP_reset l st)),
     pol_invalidate = (\<lambda>_ l st. Inr (BRRIP_invalidate l st)),
     pol_getVictim = BRRIP_getVictim,
     pol_instantiate = BRRIP_instantiateEntry\<rparr>"

definition Random_policy :: "random_state policy" where
  "Random_policy = \<lparr>pol_touch = (\<lambda>_ l st. Inr (Random_touch l st)),
     pol_touch_occ = (\<lambda>_ _ l st. Inr (Random_touch l st)),
     pol_reset = (\<lambda>_ l st. Inr (Random_reset l st)),
     pol_invalidate = (\<lambda>_ l st. Inr (Random_invalidate l st)),
     pol_getVictim = Random_getVictim,
     pol_instantiate = (\<lambda>l st. Inr (Random_instantiateEntry l st))\<rparr>"

section \<open>Lemmas\<close>

lemma BRRIP_scan_Inl: "BRRIP_scan st cs is v = Inl i \<Longrightarrow> i \<in> set is \<and> \<not> brrip_valid st (cs ! i)"
  by (induction "is" arbitrary: v) (auto split: if_splits)

lemma BRRIP_scan_Inr:
  "BRRIP_scan st cs is v = Inr w \<Longrightarrow> (w = v \<or> w \<in> set is) \<and>
     (\<forall>i \<in> set is. brrip_valid st (cs ! i)) \<and>
     (\<forall>i \<in> insert v (set is). counter (rrpv st (cs ! i)) \<le> counter (rrpv st (cs ! w)))"
  by (induction "is" arbitrary: v) (fastforce split: if_splits)+

lemma BRRIP_age_apply:
  "distinct cs \<Longrightarrow> BRRIP_age d cs rr c = (if c \<in> set cs then sat_add (rr c) d else rr c)"
  by (induction cs arbitrary: rr) (auto simp: BRRIP_age_def)

lemma BRRIP_getVictim_total:
  assumes "cs \<noteq> []"
  shows "\<exists>v st'. BRRIP_getVictim cs st = Inr (v, st') \<and> v < length cs"
proof (cases "BRRIP_scan st cs [0..<length cs] 0")
  case (Inl i)
  thus ?thesis using BRRIP_scan_Inl[OF Inl] assms by (simp add: BRRIP_getVictim_def)
next
  case (Inr w)
  thus ?thesis using BRRIP_scan_Inr[OF Inr] assms
    by (auto simp: BRRIP_getVictim_def sat_saturate_def Let_def)
qed

lemma Random_getVictim_total:
  assumes "cs \<noteq> []"
  shows "\<exists>v st'. Random_getVictim cs st = Inr (v, st') \<and> v < length cs"
proof (cases "first_index (\<lambda>c. \<not> rand_valid st c) cs")
  case None
  have "random_unsigned 0 (length cs - 1) r < length cs" for r
    using assms by (simp add: random_unsigned_def)
  thus ?thesis using None assms by (simp add: Random_getVictim_def Let_def)
next
  case (Some i)
  thus ?thesis using first_index_Some[OF Some] assms by (simp add: Random_getVictim_def Let_def)
qed

interpretation brrip: replacement_policy BRRIP_policy "\<lambda>_. True" "\<lambda>_. True" "\<lambda>cs. cs \<noteq> []"
  using BRRIP_getVictim_total by unfold_locales (auto simp: BRRIP_policy_def)

interpretation rand: replacement_policy Random_policy "\<lambda>_. True" "\<lambda>_. True" "\<lambda>cs. cs \<noteq> []"
  using Random_getVictim_total by unfold_locales (auto simp: Random_policy_def)

section \<open>Properties\<close>

text \<open>
  Victim selection and ageing of BRRIP when all candidates are valid: the victim has the
  largest re-reference value among the candidates, it is saturated, and every candidate is
  aged by exactly the victim's distance to saturation, so differences between candidates
  are kept and no counter exceeds its maximum.
\<close>
theorem BRRIP_victim_ages_uniformly:
  assumes "cs \<noteq> []" "distinct cs"
    and "\<forall>c \<in> set cs. brrip_valid st c \<and> sat_wf (rrpv st c) \<and> maxVal (rrpv st c) = M"
  shows "\<exists>v st'. BRRIP_getVictim cs st = Inr (v, st') \<and> v < length cs \<and>
           (\<forall>c \<in> set cs. counter (rrpv st c) \<le> counter (rrpv st (cs ! v)) \<and>
              counter (rrpv st' c) = counter (rrpv st c) + (M - counter (rrpv st (cs ! v)))) \<and>
           counter (rrpv st' (cs ! v)) = M"
proof (cases "BRRIP_scan st cs [0..<length cs] 0")
  case (Inl i)
  thus ?thesis using BRRIP_scan_Inl[OF Inl] assms(3) by auto
next
  case (Inr v)
  let ?r = "rrpv st" let ?d = "M - counter (?r (cs ! v))"
  have v: "v < length cs" using BRRIP_scan_Inr[OF Inr] assms(1) by auto
  have mx: "counter (?r c) \<le> counter (?r (cs ! v))" if "c \<in> set cs" for c
    using BRRIP_scan_Inr[OF Inr] that by (auto simp: in_set_conv_nth)
  have wv: "maxVal (?r (cs ! v)) = M" "sat_wf (?r (cs ! v))" using assms(3) v by auto
  let ?rr = "?r(cs ! v := (?r (cs ! v))\<lparr>counter := M\<rparr>)"
  define st' where "st' = st\<lparr>rrpv := (if ?d > 0 then BRRIP_age ?d cs ?rr else ?rr)\<rparr>"
  have res: "BRRIP_getVictim cs st = Inr (v, st')"
    using assms(1) Inr wv by (simp add: BRRIP_getVictim_def sat_saturate_def Let_def st'_def)
  have "counter (rrpv st' c) = counter (?r c) + ?d" if c: "c \<in> set cs" for c
  proof -
    have w: "sat_wf (?r c)" "maxVal (?r c) = M" using assms(3) c by auto
    show ?thesis
    proof (cases "?d > 0")
      case True
      thus ?thesis using c w wv mx[OF c] assms(2)
        by (auto simp: st'_def BRRIP_age_apply sat_add_def sat_add_pos_def)
    next
      case False
      hence "counter (?r (cs ! v)) = M" using wv by (simp add: sat_wf_def)
      thus ?thesis using mx[OF c] w by (auto simp: st'_def)
    qed
  qed
  thus ?thesis using res v mx by (intro exI[of _ v] exI[of _ st']) auto
qed

definition brrip_demo :: brrip_state where
  "brrip_demo = \<lparr>numRRPVBits = 2, hitPriority = True, brrip_btp = 3, brrip_rng = (\<lambda>_. 0), brrip_pos = 0,
     rrpv = (\<lambda>l. \<lparr>initialVal = 0, maxVal = 3, counter = (if l = (0, 0) then 1 else 2)\<rparr>),
     brrip_valid = (\<lambda>_. True)\<rparr>"

theorem BRRIP_victim_ages_uniformly_witness:
  "\<exists>v st'. BRRIP_getVictim two_ways brrip_demo = Inr (v, st') \<and> v < length two_ways \<and>
     (\<forall>c \<in> set two_ways. counter (rrpv brrip_demo c) \<le> counter (rrpv brrip_demo (two_ways ! v)) \<and>
        counter (rrpv st' c) =
          counter (rrpv brrip_demo c) + (3 - counter (rrpv brrip_demo (two_ways ! v)))) \<and>
     counter (rrpv st' (two_ways ! v)) = 3"
  by (rule BRRIP_victim_ages_uniformly)
    (auto simp: two_ways_def brrip_demo_def sat_wf_def)

end
