(* ===== verification/Tree_PLRU.thy ===== *)
theory Tree_PLRU
  imports Repl_Policy
begin

text \<open>
  The tree pseudo-LRU policy (\<^verbatim>\<open>tree_plru_rp.cc\<close>).  A tree is a vector of bits, stored in a
  heap of trees indexed by the order of their creation, because the replacement data of
  the ways of a set share one tree.  Tree indices are \<^verbatim>\<open>uint64_t\<close>: the parent of index 0
  wraps around and is out of range, which \<^verbatim>\<open>vector::at\<close> reports.
\<close>

record plru_state =
  numLeaves :: nat
  plru_count :: nat
  treeInstance :: nat
  trees :: "nat \<Rightarrow> bool list"
  repl_index :: "loc \<Rightarrow> nat"
  repl_tree :: "loc \<Rightarrow> nat"

definition parentIndex :: "nat \<Rightarrow> nat" where
  "parentIndex index = ((index + 2 ^ 64 - 1) mod 2 ^ 64) div 2"

definition leftSubtreeIndex :: "nat \<Rightarrow> nat" where
  "leftSubtreeIndex index = 2 * index + 1"

definition rightSubtreeIndex :: "nat \<Rightarrow> nat" where
  "rightSubtreeIndex index = 2 * index + 2"

definition isRightSubtree :: "nat \<Rightarrow> bool" where
  "isRightSubtree index \<longleftrightarrow> index mod 2 = 0"

lemma parentIndex_less: "parentIndex i < 2 ^ 63"
  unfolding parentIndex_def by (rule less_mult_imp_div_less) simp

lemma parentIndex_eq: "0 < i \<Longrightarrow> i < 2 ^ 64 \<Longrightarrow> parentIndex i = (i - 1) div 2"
proof -
  assume "0 < i" "i < 2 ^ 64"
  hence "(i + 2 ^ 64 - 1) mod 2 ^ 64 = (i - 1 + 2 ^ 64) mod 2 ^ 64" by simp
  also have "\<dots> = i - 1" using \<open>i < 2 ^ 64\<close> by (simp only: mod_add_self2) simp
  finally show ?thesis by (simp add: parentIndex_def)
qed

function update_path :: "(bool \<Rightarrow> bool) \<Rightarrow> nat \<Rightarrow> bool list \<Rightarrow> bool list res" where
  "update_path f tree_index tree =
     (let right = isRightSubtree tree_index;
          parent = parentIndex tree_index
      in if parent < length tree then
           (let tree' = tree[parent := f right]
            in if parent \<noteq> 0 then update_path f parent tree' else Inr tree')
         else Inl BadIndex)"
  by pat_completeness auto
termination
proof (relation "measure (\<lambda>(f, i, t). if i = 0 then 2 ^ 64 else i)")
  fix f :: "bool \<Rightarrow> bool" and i p :: nat and r and t t' :: "bool list"
  assume p: "p = parentIndex i" "p \<noteq> 0"
  have "p < (if i = 0 then 2 ^ 64 else i)"
  proof (cases "0 < i \<and> i < 2 ^ 64")
    case True thus ?thesis using p parentIndex_eq[of i] by simp
  next
    case False thus ?thesis using parentIndex_less[of i] p by auto
  qed
  thus "((f, p, t'), (f, i, t)) \<in> measure (\<lambda>(f, i, t). if i = 0 then 2 ^ 64 else i)"
    using p by simp
qed simp

declare update_path.simps [simp del]

definition upd_tree :: "(bool \<Rightarrow> bool) \<Rightarrow> loc \<Rightarrow> plru_state \<Rightarrow> plru_state res" where
  "upd_tree f l st =
     bindR (update_path f (repl_index st l) (trees st (repl_tree st l))) (\<lambda>t.
     Inr (st\<lparr>trees := (trees st)(repl_tree st l := t)\<rparr>))"

definition TreePLRU_invalidate :: "loc \<Rightarrow> plru_state \<Rightarrow> plru_state res" where
  "TreePLRU_invalidate l st = upd_tree (\<lambda>right. right) l st"

definition TreePLRU_touch :: "loc \<Rightarrow> plru_state \<Rightarrow> plru_state res" where
  "TreePLRU_touch l st = upd_tree (\<lambda>right. \<not> right) l st"

definition TreePLRU_reset :: "loc \<Rightarrow> plru_state \<Rightarrow> plru_state res" where
  "TreePLRU_reset l st = TreePLRU_touch l st"

function descend :: "bool list \<Rightarrow> nat \<Rightarrow> nat" where
  "descend tree tree_index =
     (if tree_index < length tree then
        descend tree (if tree ! tree_index then rightSubtreeIndex tree_index
                      else leftSubtreeIndex tree_index)
      else tree_index)"
  by pat_completeness auto
termination
  by (relation "measure (\<lambda>(t, i). length t - i)")
    (auto simp: rightSubtreeIndex_def leftSubtreeIndex_def)

declare descend.simps [simp del]

definition TreePLRU_getVictim :: "loc list \<Rightarrow> plru_state \<Rightarrow> nat res" where
  "TreePLRU_getVictim cs st = assertR (length cs > 0)
     (let tree_index = descend (trees st (repl_tree st (cs ! 0))) 0;
          pos = int tree_index - (int (numLeaves st) - 1)
      in if 0 \<le> pos \<and> pos < int (length cs) then Inr (nat pos) else Inl BadIndex)"

definition TreePLRU_instantiateEntry :: "loc \<Rightarrow> plru_state \<Rightarrow> plru_state" where
  "TreePLRU_instantiateEntry l st =
     (let st1 = (if plru_count st mod numLeaves st = 0
                 then (let n = plru_count st div numLeaves st in
                       st\<lparr>treeInstance := n,
                          trees := (trees st)(n := replicate (numLeaves st - 1) False)\<rparr>)
                 else st)
      in st1\<lparr>repl_index := (repl_index st1)(l := plru_count st mod numLeaves st + numLeaves st - 1),
            repl_tree := (repl_tree st1)(l := treeInstance st1),
            plru_count := plru_count st + 1\<rparr>)"

definition TreePLRU_new :: "nat \<Rightarrow> plru_state res" where
  "TreePLRU_new leaves =
     (if isPowerOf2 leaves
      then Inr \<lparr>numLeaves = leaves, plru_count = 0, treeInstance = 0, trees = (\<lambda>_. []),
             repl_index = (\<lambda>_. 0), repl_tree = (\<lambda>_. 0)\<rparr>
      else Inl (ConfigExit ''Number of leaves must be non-zero and a power of 2''))"

definition TreePLRU_policy :: "plru_state policy" where
  "TreePLRU_policy = \<lparr>pol_touch = (\<lambda>_ l st. TreePLRU_touch l st),
     pol_touch_occ = (\<lambda>_ _ l st. TreePLRU_touch l st),
     pol_reset = (\<lambda>_ l st. TreePLRU_reset l st),
     pol_invalidate = (\<lambda>_ l st. TreePLRU_invalidate l st),
     pol_getVictim = (\<lambda>cs st. keep_state (TreePLRU_getVictim cs st) st),
     pol_instantiate = (\<lambda>l st. Inr (TreePLRU_instantiateEntry l st))\<rparr>"

section \<open>Paths in the tree\<close>

lemma update_path_spec:
  "0 < i \<Longrightarrow> i \<le> 2 * length t \<Longrightarrow> length t < 2 ^ 63 \<Longrightarrow>
     \<exists>t'. update_path f i t = Inr t' \<and> length t' = length t \<and>
       t' ! parentIndex i = f (isRightSubtree i) \<and> (\<forall>q \<ge> i. t' ! q = t ! q)"
proof (induction f i t rule: update_path.induct)
  case (1 f i t)
  let ?p = "parentIndex i" let ?t = "t[?p := f (isRightSubtree i)]"
  have p: "?p = (i - 1) div 2" using 1 by (intro parentIndex_eq) auto
  have lt: "?p < length t" "?p < i" using 1 p by auto
  show ?case
  proof (cases "?p = 0")
    case True
    thus ?thesis using lt by (subst update_path.simps) (simp add: Let_def)
  next
    case False
    have "\<exists>t'. update_path f ?p ?t = Inr t' \<and> length t' = length ?t \<and>
        t' ! parentIndex ?p = f (isRightSubtree ?p) \<and> (\<forall>q \<ge> ?p. t' ! q = ?t ! q)"
      using False lt 1(2-) by (intro 1(1)) auto
    then obtain t' where t': "update_path f ?p ?t = Inr t'" "length t' = length t"
      "\<forall>q \<ge> ?p. t' ! q = ?t ! q" by auto
    have "t' ! ?p = f (isRightSubtree i)" "\<forall>q \<ge> i. t' ! q = t ! q"
      using t'(3) lt by auto
    thus ?thesis using t' lt False by (subst update_path.simps) (simp add: Let_def)
  qed
qed

lemma child_cases:
  "0 < c \<Longrightarrow> (c - 1) div 2 = p \<Longrightarrow>
     c = (if isRightSubtree c then rightSubtreeIndex p else leftSubtreeIndex p)"
  by (auto simp: isRightSubtree_def rightSubtreeIndex_def leftSubtreeIndex_def) presburger+

lemma update_path_points:
  "0 < i \<Longrightarrow> i \<le> 2 * length t \<Longrightarrow> length t < 2 ^ 63 \<Longrightarrow>
     update_path (\<lambda>right. right) i t = Inr t' \<Longrightarrow> descend t' 0 = descend t' i"
proof (induction "\<lambda>right :: bool. right" i t arbitrary: t' rule: update_path.induct)
  case (1 i t)
  let ?p = "parentIndex i" let ?t = "t[?p := isRightSubtree i]"
  have p: "?p = (i - 1) div 2" using 1 by (intro parentIndex_eq) auto
  have lt: "?p < length t" "?p < i" using 1 p by auto
  from update_path_spec[OF 1(2-4), of "\<lambda>right. right"] 1(5)
  have t': "length t' = length t" "t' ! ?p = isRightSubtree i" by auto
  have step: "descend t' ?p = descend t' i"
    using lt t' child_cases[OF 1(2) p[symmetric]] by (subst descend.simps) auto
  show ?case
  proof (cases "?p = 0")
    case False
    hence "update_path (\<lambda>right. right) ?p ?t = Inr t'"
      using 1(5) lt by (subst (asm) update_path.simps) (simp add: Let_def)
    hence "descend t' 0 = descend t' ?p" using False lt 1(2-4) by (intro 1(1)) auto
    thus ?thesis using step by simp
  qed (use step in simp)
qed

lemma descend_arrives:
  "descend t x = i \<Longrightarrow> x \<noteq> i \<Longrightarrow>
     0 < i \<and> (i - 1) div 2 < length t \<and> t ! ((i - 1) div 2) = isRightSubtree i"
proof (induction t x rule: descend.induct)
  case (1 t x)
  have x: "x < length t" using 1(2,3) by (subst (asm) descend.simps) (auto split: if_splits)
  let ?c = "if t ! x then rightSubtreeIndex x else leftSubtreeIndex x"
  have c: "descend t ?c = i" using 1(2) x by (subst (asm) descend.simps) simp
  have "0 < ?c \<and> (?c - 1) div 2 = x \<and> t ! x = isRightSubtree ?c"
    by (auto simp: rightSubtreeIndex_def leftSubtreeIndex_def isRightSubtree_def)
  thus ?case using 1(1)[OF x c] x by (cases "?c = i") auto
qed

lemma descend_leaf:
  "x \<le> 2 * length t \<Longrightarrow> length t \<le> descend t x \<and> descend t x \<le> 2 * length t"
proof (induction t x rule: descend.induct)
  case (1 t x)
  show ?case
  proof (cases "x < length t")
    case True
    thus ?thesis using 1(1)[OF True]
      by (subst (1 2) descend.simps) (auto simp: rightSubtreeIndex_def leftSubtreeIndex_def)
  next
    case False
    thus ?thesis using 1(2) by (subst (1 2) descend.simps) simp
  qed
qed

lemma descend_at_leaf: "length t \<le> i \<Longrightarrow> descend t i = i"
  by (subst descend.simps) simp

section \<open>The policy on the sets of a cache\<close>

definition plru_ok :: "nat \<Rightarrow> nat \<Rightarrow> loc \<Rightarrow> bool" where
  "plru_ok S L l \<longleftrightarrow> fst l < S \<and> snd l < L"

definition plru_inv :: "nat \<Rightarrow> nat \<Rightarrow> plru_state \<Rightarrow> bool" where
  "plru_inv S L st \<longleftrightarrow> 2 \<le> L \<and> L < 2 ^ 63 \<and> numLeaves st = L \<and>
     (\<forall>s < S. length (trees st s) = L - 1 \<and>
        (\<forall>w < L. repl_index st (s, w) = w + L - 1 \<and> repl_tree st (s, w) = s))"

definition set_locs :: "nat \<Rightarrow> nat \<Rightarrow> loc list" where
  "set_locs L s = map (\<lambda>w. (s, w)) [0..<L]"

lemma set_locs_nth [simp]: "w < L \<Longrightarrow> set_locs L s ! w = (s, w)"
  and set_locs_length [simp]: "length (set_locs L s) = L"
  by (simp_all add: set_locs_def)

lemma upd_tree_spec:
  assumes "plru_inv S L st" "s < S" "w < L"
  shows "\<exists>t. update_path f (w + L - 1) (trees st s) = Inr t \<and> length t = L - 1 \<and>
           upd_tree f (s, w) st = Inr (st\<lparr>trees := (trees st)(s := t)\<rparr>) \<and>
           plru_inv S L (st\<lparr>trees := (trees st)(s := t)\<rparr>) \<and>
           t ! ((w + L - 2) div 2) = f (isRightSubtree (w + L - 1))"
proof -
  have inv: "2 \<le> L" "L < 2 ^ 63" "length (trees st s) = L - 1"
    "repl_index st (s, w) = w + L - 1" "repl_tree st (s, w) = s"
    using assms by (auto simp: plru_inv_def)
  have pre: "0 < w + L - 1" "w + L - 1 \<le> 2 * length (trees st s)" "length (trees st s) < 2 ^ 63"
    using inv assms(3) by auto
  have "parentIndex (w + L - 1) = (w + L - 1 - 1) div 2"
    using pre inv assms(3) by (intro parentIndex_eq) auto
  hence par: "parentIndex (w + L - 1) = (w + L - 2) div 2" by (simp add: numeral_2_eq_2)
  from update_path_spec[OF pre, of f] inv par obtain t
    where "update_path f (w + L - 1) (trees st s) = Inr t" "length t = L - 1"
      "t ! ((w + L - 2) div 2) = f (isRightSubtree (w + L - 1))" by auto
  thus ?thesis using assms inv by (auto simp: upd_tree_def plru_inv_def)
qed

lemma TreePLRU_victim_spec:
  assumes "plru_inv S L st" "s < S"
  shows "\<exists>v < L. TreePLRU_getVictim (set_locs L s) st = Inr v \<and>
           descend (trees st s) 0 = v + L - 1"
proof -
  have inv: "2 \<le> L" "length (trees st s) = L - 1" "repl_tree st (s, 0) = s" "numLeaves st = L"
    using assms by (auto simp: plru_inv_def)
  have "L - 1 \<le> descend (trees st s) 0 \<and> descend (trees st s) 0 \<le> 2 * (L - 1)"
    using descend_leaf[of 0 "trees st s"] inv by simp
  thus ?thesis using inv
    by (intro exI[of _ "descend (trees st s) 0 - (L - 1)"]) (auto simp: TreePLRU_getVictim_def Let_def)
qed

interpretation plru: replacement_policy TreePLRU_policy "plru_inv S L" "plru_ok S L"
    "\<lambda>cs. \<exists>s < S. cs = set_locs L s" for S L
proof unfold_locales
  fix st l assume "plru_inv S L st" "plru_ok S L l"
  hence u: "\<exists>st'. upd_tree f l st = Inr st' \<and> plru_inv S L st'" for f
    using upd_tree_spec[of S L st "fst l" "snd l" f] by (auto simp: plru_ok_def)
  fix now occ
  show "\<exists>st'. pol_touch TreePLRU_policy now l st = Inr st' \<and> plru_inv S L st'"
    "\<exists>st'. pol_touch_occ TreePLRU_policy occ now l st = Inr st' \<and> plru_inv S L st'"
    "\<exists>st'. pol_reset TreePLRU_policy now l st = Inr st' \<and> plru_inv S L st'"
    "\<exists>st'. pol_invalidate TreePLRU_policy now l st = Inr st' \<and> plru_inv S L st'"
    using u by (simp_all add: TreePLRU_policy_def TreePLRU_touch_def TreePLRU_reset_def
        TreePLRU_invalidate_def)
next
  fix st cs assume "plru_inv S L st" "\<exists>s < S. cs = set_locs L s"
  thus "\<exists>v st'. pol_getVictim TreePLRU_policy cs st = Inr (v, st') \<and> v < length cs \<and> plru_inv S L st'"
    using TreePLRU_victim_spec by (fastforce simp: TreePLRU_policy_def keep_state_def)
qed

section \<open>Instantiation of the replacement data of a cache\<close>

text \<open>
  \<^verbatim>\<open>CacheMemory::init\<close> instantiates the entries set by set.  When the associativity is the
  number of leaves, every set gets a tree of its own.
\<close>

definition plru_filled :: "nat \<Rightarrow> nat \<Rightarrow> nat \<Rightarrow> plru_state \<Rightarrow> bool" where
  "plru_filled L s k st \<longleftrightarrow> numLeaves st = L \<and> plru_count st = s * L + k \<and>
     (0 < k \<longrightarrow> treeInstance st = s) \<and>
     (\<forall>s' < (if 0 < k then Suc s else s). length (trees st s') = L - 1) \<and>
     (\<forall>s' w. w < L \<longrightarrow> s' < s \<or> s' = s \<and> w < k \<longrightarrow>
        repl_index st (s', w) = w + L - 1 \<and> repl_tree st (s', w) = s')"

lemma plru_filled_step:
  assumes "plru_filled L s k st" "k < L"
  shows "plru_filled L s (Suc k) (TreePLRU_instantiateEntry (s, k) st)"
proof -
  have m: "(s * L + k) mod L = k" "(s * L + k) div L = s" using assms(2) by auto
  show ?thesis
  proof (cases "k = 0")
    case True
    thus ?thesis using assms m
      by (auto simp: plru_filled_def TreePLRU_instantiateEntry_def Let_def less_Suc_eq)
  next
    case False
    thus ?thesis using assms m
      by (auto simp: plru_filled_def TreePLRU_instantiateEntry_def Let_def less_Suc_eq)
  qed
qed

lemma plru_filled_set:
  "plru_filled L s 0 st \<Longrightarrow> 0 < L \<Longrightarrow>
     plru_filled L (Suc s) 0 (fold TreePLRU_instantiateEntry (set_locs L s) st)"
proof -
  assume a: "plru_filled L s 0 st" "0 < L"
  have "k \<le> L \<Longrightarrow> plru_filled L s k
      (fold TreePLRU_instantiateEntry (map (\<lambda>w. (s, w)) [0..<k]) st)" for k
    using a plru_filled_step by (induction k) auto
  from this[of L] have "plru_filled L s L (fold TreePLRU_instantiateEntry (set_locs L s) st)"
    by (simp add: set_locs_def)
  thus ?thesis using a(2) by (auto simp: plru_filled_def less_Suc_eq)
qed

lemma plru_filled_all:
  assumes "plru_filled L 0 0 st" "0 < L"
  shows "plru_filled L S 0 (fold TreePLRU_instantiateEntry (concat (map (set_locs L) [0..<S])) st)"
  using assms plru_filled_set by (induction S) auto

lemma plru_init_inv:
  assumes "TreePLRU_new L = Inr st" "2 \<le> L" "L < 2 ^ 63"
  shows "plru_inv S L (fold TreePLRU_instantiateEntry (concat (map (set_locs L) [0..<S])) st)"
proof -
  have "plru_filled L 0 0 st"
    using assms by (auto simp: plru_filled_def TreePLRU_new_def split: if_splits)
  from plru_filled_all[OF this, of S] assms show ?thesis
    by (simp add: plru_filled_def plru_inv_def)
qed

section \<open>Properties\<close>

text \<open>
  C28. After \<^verbatim>\<open>TreePLRU::touch\<close> of a way, \<^verbatim>\<open>getVictim\<close> on its set returns another way; after
  \<^verbatim>\<open>TreePLRU::invalidate\<close> of a way, \<^verbatim>\<open>getVictim\<close> on its set returns exactly that way.
\<close>
theorem TreePLRU_touch_invalidate_victim:
  assumes "plru_inv S L st" "s < S" "w < L"
  shows "(\<exists>st' v. TreePLRU_touch (s, w) st = Inr st' \<and>
            TreePLRU_getVictim (set_locs L s) st' = Inr v \<and> v < L \<and> v \<noteq> w) \<and>
         (\<exists>st'. TreePLRU_invalidate (s, w) st = Inr st' \<and>
            TreePLRU_getVictim (set_locs L s) st' = Inr w)"
proof
  have L: "2 \<le> L" "L < 2 ^ 63" "length (trees st s) = L - 1" using assms by (auto simp: plru_inv_def)
  obtain t where t: "update_path Not (w + L - 1) (trees st s) = Inr t" "length t = L - 1"
    "upd_tree Not (s, w) st = Inr (st\<lparr>trees := (trees st)(s := t)\<rparr>)"
    "plru_inv S L (st\<lparr>trees := (trees st)(s := t)\<rparr>)"
    "t ! ((w + L - 2) div 2) = (\<not> isRightSubtree (w + L - 1))"
    using upd_tree_spec[OF assms, of Not] by auto
  obtain v where v: "v < L" "descend t 0 = v + L - 1"
    "TreePLRU_getVictim (set_locs L s) (st\<lparr>trees := (trees st)(s := t)\<rparr>) = Inr v"
    using TreePLRU_victim_spec[OF t(4) assms(2)] by auto
  have "v \<noteq> w"
    using descend_arrives[OF v(2)] t(5) L by (auto simp: numeral_2_eq_2)
  thus "\<exists>st' v. TreePLRU_touch (s, w) st = Inr st' \<and>
      TreePLRU_getVictim (set_locs L s) st' = Inr v \<and> v < L \<and> v \<noteq> w"
    using t(3) v by (auto simp: TreePLRU_touch_def)
  obtain u where u: "update_path (\<lambda>r. r) (w + L - 1) (trees st s) = Inr u" "length u = L - 1"
    "upd_tree (\<lambda>r. r) (s, w) st = Inr (st\<lparr>trees := (trees st)(s := u)\<rparr>)"
    "plru_inv S L (st\<lparr>trees := (trees st)(s := u)\<rparr>)"
    using upd_tree_spec[OF assms, of "\<lambda>r. r"] by auto
  obtain x where x: "descend u 0 = x + L - 1"
    "TreePLRU_getVictim (set_locs L s) (st\<lparr>trees := (trees st)(s := u)\<rparr>) = Inr x"
    using TreePLRU_victim_spec[OF u(4) assms(2)] by auto
  have "descend u 0 = descend u (w + L - 1)"
    using update_path_points[OF _ _ _ u(1)] L assms(3) by auto
  hence "x = w" using x(1) u(2) L descend_at_leaf[of u "w + L - 1"] by auto
  thus "\<exists>st'. TreePLRU_invalidate (s, w) st = Inr st' \<and>
      TreePLRU_getVictim (set_locs L s) st' = Inr w"
    using u(3) x(2) by (auto simp: TreePLRU_invalidate_def)
qed

definition plru_demo :: plru_state where
  "plru_demo = fold TreePLRU_instantiateEntry (concat (map (set_locs 4) [0..<2]))
     \<lparr>numLeaves = 4, plru_count = 0, treeInstance = 0, trees = (\<lambda>_. []),
      repl_index = (\<lambda>_. 0), repl_tree = (\<lambda>_. 0)\<rparr>"

theorem TreePLRU_touch_invalidate_victim_witness:
  "(\<exists>st' v. TreePLRU_touch (1, 2) plru_demo = Inr st' \<and>
       TreePLRU_getVictim (set_locs 4 1) st' = Inr v \<and> v < 4 \<and> v \<noteq> 2) \<and>
   (\<exists>st'. TreePLRU_invalidate (1, 2) plru_demo = Inr st' \<and>
       TreePLRU_getVictim (set_locs 4 1) st' = Inr 2)"
proof (rule TreePLRU_touch_invalidate_victim[where S = 2])
  have "isPowerOf2 4" by (auto simp: isPowerOf2_iff intro: exI[of _ 2])
  thus "plru_inv 2 4 plru_demo"
    unfolding plru_demo_def by (intro plru_init_inv) (simp_all add: TreePLRU_new_def)
qed simp_all

end
