(* ===== verification/Cache_Memory.thy ===== *)
theory Cache_Memory
  imports Banked_Array ALU_Free_List Rrip_Policy Tree_PLRU
begin

text \<open>
  The set-associative cache of Ruby (\<^verbatim>\<open>mem/ruby/structures/CacheMemory.cc\<close> and
  \<^verbatim>\<open>AbstractCacheEntry.cc\<close>), with the resource operations of the refresh extension.

  A pointer to a cache entry is its location (set, way); a null pointer is \<open>None\<close>.  The
  entry handed to \<^verbatim>\<open>allocate\<close> is owned by the cache from then on.  The replacement policy
  is a table of methods and its state; \<^verbatim>\<open>curTick()\<close> is the argument \<open>now\<close>.  The type
  variable \<open>'d\<close> is the data block.
\<close>

datatype AccessPermission =
    Read_Only | Read_Write | Maybe_Stale | Backing_Store | Backing_Store_Busy
  | Perm_Invalid | NotPresent | Busy

datatype RubyRequestType =
    RR_LD | RR_ST | RR_ATOMIC | RR_ATOMIC_RETURN | RR_ATOMIC_NO_RETURN | RR_IFETCH | RR_IO
  | RR_REPLACEMENT | RR_Load_Linked | RR_Store_Conditional | RR_RMW_Read | RR_RMW_Write
  | RR_Locked_RMW_Read | RR_Locked_RMW_Write | RR_COMMIT | RR_NULL | RR_FLUSH | RR_Release
  | RR_Acquire | RR_AcquireRelease | RR_HTM_Start | RR_HTM_Commit | RR_HTM_Cancel
  | RR_HTM_Abort | RR_TLBI | RR_TLBI_SYNC | RR_TLBI_EXT_SYNC | RR_TLBI_EXT_SYNC_COMP

datatype CacheRequestType =
    DataArrayRead | DataArrayWrite | TagArrayRead | TagArrayWrite | AtomicALUOperation
  | CacheRequest_NULL

datatype CacheResourceType =
    DataArray | TagArray | AtomicALUArray | CacheResource_NULL

section \<open>Cache entries\<close>

record 'd CacheEntry =
  m_Permission :: AccessPermission
  m_Address :: addr
  m_locked :: int
  m_last_touch_tick :: tick
  m_htmInReadSet :: bool
  m_htmInWriteSet :: bool
  ent_set :: nat
  ent_way :: nat
  replacementData :: "loc option"
  validBlocks :: int
  DataBlk :: 'd

definition CacheEntry_new :: "'d \<Rightarrow> 'd CacheEntry" where
  "CacheEntry_new d = \<lparr>m_Permission = NotPresent, m_Address = 0, m_locked = - 1,
     m_last_touch_tick = 0, m_htmInReadSet = False, m_htmInWriteSet = False,
     ent_set = 0, ent_way = 0, replacementData = None, validBlocks = 0, DataBlk = d\<rparr>"

definition changePermission :: "AccessPermission \<Rightarrow> 'd CacheEntry \<Rightarrow> 'd CacheEntry" where
  "changePermission new_perm e =
     (let e' = e\<lparr>m_Permission := new_perm\<rparr>
      in if new_perm = Perm_Invalid \<or> new_perm = NotPresent then e'\<lparr>m_locked := - 1\<rparr> else e')"

definition entry_setLocked :: "int \<Rightarrow> 'd CacheEntry \<Rightarrow> 'd CacheEntry" where
  "entry_setLocked context e = e\<lparr>m_locked := context\<rparr>"

definition entry_clearLocked :: "'d CacheEntry \<Rightarrow> 'd CacheEntry" where
  "entry_clearLocked e = e\<lparr>m_locked := - 1\<rparr>"

definition entry_isLocked :: "int \<Rightarrow> 'd CacheEntry \<Rightarrow> bool" where
  "entry_isLocked context e \<longleftrightarrow> m_locked e = context"

section \<open>The cache\<close>

record cache_stats =
  numDataArrayReads :: nat
  numDataArrayWrites :: nat
  numTagArrayReads :: nat
  numTagArrayWrites :: nat
  numTagArrayStalls :: nat
  numDataArrayStalls :: nat
  numAtomicALUOperations :: nat
  numAtomicALUArrayStalls :: nat
  htmTransCommitReadSet :: "nat list"
  htmTransCommitWriteSet :: "nat list"
  htmTransAbortReadSet :: "nat list"
  htmTransAbortWriteSet :: "nat list"
  m_demand_hits :: nat
  m_demand_misses :: nat
  m_prefetch_hits :: nat
  m_prefetch_misses :: nat

record ('d, 'st) CacheMemory =
  m_is_instruction_only_cache :: bool
  m_tag_index :: "addr \<rightharpoonup> nat"
  m_cache :: "'d CacheEntry option list list"
  m_replacementPolicy :: "'st policy"
  replacement_data :: 'st
  dataArray :: BankedArray
  tagArray :: BankedArray
  atomicALUArray :: ALUFreeListArray
  m_cache_size :: nat
  m_cache_num_sets :: nat
  m_cache_num_set_bits :: nat
  m_cache_assoc :: nat
  m_start_index_bit :: nat
  m_resource_stalls :: bool
  m_block_size :: nat
  m_use_occupancy :: bool
  rs_block_bits :: nat
  cacheMemoryStats :: cache_stats

type_synonym ('d, 'st) cm = "('d, 'st) CacheMemory"

definition CacheMemory_init :: "('d, 'st) cm \<Rightarrow> ('d, 'st) cm res" where
  "CacheMemory_init c =
     (let bs = (if m_block_size c = 0 then 2 ^ rs_block_bits c else m_block_size c) in
      if m_cache_assoc c = 0 \<or> bs = 0 then Inl DivByZero else
      let sets = (m_cache_size c div m_cache_assoc c) div bs in
      assertR (sets > 1)
       (bindR (floorLog2 4 (int sets)) (\<lambda>sbits.
        assertR (sbits > 0)
         (bindR (foldR (pol_instantiate (m_replacementPolicy c))
                   (concat (map (set_locs (m_cache_assoc c)) [0..<sets])) (replacement_data c)) (\<lambda>rd.
          Inr (c\<lparr>m_block_size := bs, m_cache_num_sets := sets, m_cache_num_set_bits := sbits,
                m_cache := replicate sets (replicate (m_cache_assoc c) None),
                replacement_data := rd\<rparr>)))))) "

definition lineR :: "('d, 'st) cm \<Rightarrow> addr \<Rightarrow> 'a res \<Rightarrow> 'a res" where
  "lineR c a k = assertR (a = makeLineAddress (rs_block_bits c) a) k"

definition addressToCacheSet :: "('d, 'st) cm \<Rightarrow> addr \<Rightarrow> nat res" where
  "addressToCacheSet c a = lineR c a
     (bindR (bitSelect a (m_start_index_bit c)
                (m_start_index_bit c + m_cache_num_set_bits c - 1)) (\<lambda>r. Inr (unat r)))"

definition slot :: "('d, 'st) cm \<Rightarrow> nat \<Rightarrow> nat \<Rightarrow> 'd CacheEntry option res" where
  "slot c s w = bindR (nthR (m_cache c) (int s)) (\<lambda>row. nthR row (int w))"

definition findTagInSet :: "('d, 'st) cm \<Rightarrow> nat \<Rightarrow> addr \<Rightarrow> nat option res" where
  "findTagInSet c cacheSet tag = lineR c tag
     (case m_tag_index c tag of
        None \<Rightarrow> Inr None
      | Some w \<Rightarrow> bindR (slot c cacheSet w) (\<lambda>p. bindR (derefR p) (\<lambda>e.
          Inr (if m_Permission e \<noteq> NotPresent then Some w else None))))"

definition findTagInSetIgnorePermissions :: "('d, 'st) cm \<Rightarrow> nat \<Rightarrow> addr \<Rightarrow> nat option res" where
  "findTagInSetIgnorePermissions c cacheSet tag = lineR c tag (Inr (m_tag_index c tag))"

definition lookup :: "('d, 'st) cm \<Rightarrow> addr \<Rightarrow> loc option res" where
  "lookup c a = lineR c a
     (bindR (addressToCacheSet c a) (\<lambda>cacheSet.
      bindR (findTagInSet c cacheSet a) (\<lambda>l.
      case l of
        None \<Rightarrow> Inr None
      | Some way \<Rightarrow> bindR (slot c cacheSet way) (\<lambda>p.
          Inr (case p of None \<Rightarrow> None | Some _ \<Rightarrow> Some (cacheSet, way))))))"

definition isTagPresent :: "('d, 'st) cm \<Rightarrow> addr \<Rightarrow> bool res" where
  "isTagPresent c a = bindR (lookup c a) (\<lambda>p. Inr (p \<noteq> None))"

definition slot_open :: "'d CacheEntry option \<Rightarrow> bool" where
  "slot_open p = (case p of None \<Rightarrow> True | Some e \<Rightarrow> m_Permission e = NotPresent)"

fun avail_scan :: "('d, 'st) cm \<Rightarrow> addr \<Rightarrow> nat \<Rightarrow> nat list \<Rightarrow> bool res" where
  "avail_scan c a s [] = Inr False"
| "avail_scan c a s (i # is) = bindR (slot c s i) (\<lambda>p.
     case p of
       None \<Rightarrow> Inr True
     | Some e \<Rightarrow> if m_Address e = a \<or> m_Permission e = NotPresent then Inr True
                 else avail_scan c a s is)"

definition cacheAvail :: "('d, 'st) cm \<Rightarrow> addr \<Rightarrow> bool res" where
  "cacheAvail c a = lineR c a
     (bindR (addressToCacheSet c a) (\<lambda>s. avail_scan c a s [0..<m_cache_assoc c]))"

definition put_slot :: "nat \<Rightarrow> nat \<Rightarrow> 'd CacheEntry option \<Rightarrow> ('d, 'st) cm \<Rightarrow> ('d, 'st) cm" where
  "put_slot s w p c = c\<lparr>m_cache := (m_cache c)[s := (m_cache c ! s)[w := p]]\<rparr>"

definition upd_entry :: "loc \<Rightarrow> ('d CacheEntry \<Rightarrow> 'd CacheEntry) \<Rightarrow> ('d, 'st) cm \<Rightarrow> ('d, 'st) cm" where
  "upd_entry l f c = put_slot (fst l) (snd l) (map_option f (m_cache c ! fst l ! snd l)) c"

definition entry_at :: "('d, 'st) cm \<Rightarrow> loc \<Rightarrow> 'd CacheEntry res" where
  "entry_at c l = bindR (slot c (fst l) (snd l)) derefR"

definition alloc_entry :: "tick \<Rightarrow> addr \<Rightarrow> nat \<Rightarrow> nat \<Rightarrow> 'd CacheEntry \<Rightarrow> 'd CacheEntry" where
  "alloc_entry now a s w e = e\<lparr>m_Address := a, m_Permission := Perm_Invalid, m_locked := - 1,
     ent_set := s, ent_way := w, replacementData := Some (s, w), m_last_touch_tick := now\<rparr>"

fun alloc_scan ::
    "tick \<Rightarrow> addr \<Rightarrow> 'd CacheEntry \<Rightarrow> nat \<Rightarrow> nat list \<Rightarrow> ('d, 'st) cm \<Rightarrow> (loc \<times> ('d, 'st) cm) res" where
  "alloc_scan now a e s [] c = Inl (Panic ''Allocate didn't find an available entry'')"
| "alloc_scan now a e s (i # is) c = bindR (slot c s i) (\<lambda>p.
     if slot_open p then
       (let c1 = put_slot s i (Some (alloc_entry now a s i e)) c;
            c2 = c1\<lparr>m_tag_index := (m_tag_index c1)(a \<mapsto> i)\<rparr>
        in bindR (pol_reset (m_replacementPolicy c2) now (s, i) (replacement_data c2)) (\<lambda>rd.
           Inr ((s, i), c2\<lparr>replacement_data := rd\<rparr>)))
     else alloc_scan now a e s is c)"

definition allocate ::
    "tick \<Rightarrow> addr \<Rightarrow> 'd CacheEntry \<Rightarrow> ('d, 'st) cm \<Rightarrow> (loc \<times> ('d, 'st) cm) res" where
  "allocate now a e c = lineR c a
     (bindR (isTagPresent c a) (\<lambda>present. assertR (\<not> present)
       (bindR (cacheAvail c a) (\<lambda>avail. assertR avail
         (bindR (addressToCacheSet c a) (\<lambda>s.
          alloc_scan now a e s [0..<m_cache_assoc c] c))))))"

definition deallocate :: "tick \<Rightarrow> addr \<Rightarrow> ('d, 'st) cm \<Rightarrow> ('d, 'st) cm res" where
  "deallocate now a c =
     bindR (lookup c a) (\<lambda>p. assertR (p \<noteq> None)
     (bindR (entry_at c (the p)) (\<lambda>e.
      bindR (derefR (replacementData e)) (\<lambda>rl.
      bindR (pol_invalidate (m_replacementPolicy c) now rl (replacement_data c)) (\<lambda>rd.
      bindR (slot c (ent_set e) (ent_way e)) (\<lambda>_.
      Inr (let c1 = put_slot (ent_set e) (ent_way e) None (c\<lparr>replacement_data := rd\<rparr>)
           in c1\<lparr>m_tag_index := (m_tag_index c1)(a := None)\<rparr>)))))))"

fun mapR :: "('a \<Rightarrow> 'b res) \<Rightarrow> 'a list \<Rightarrow> 'b list res" where
  "mapR f [] = Inr []"
| "mapR f (x # xs) = bindR (f x) (\<lambda>y. bindR (mapR f xs) (\<lambda>ys. Inr (y # ys)))"

text \<open>
  \<^verbatim>\<open>cacheProbe\<close> is a const member, but the policy it calls may update its own replacement
  data; the updated state is returned with the address.
\<close>

definition cacheProbe :: "('d, 'st) cm \<Rightarrow> addr \<Rightarrow> (addr \<times> ('d, 'st) cm) res" where
  "cacheProbe c a = lineR c a
     (bindR (cacheAvail c a) (\<lambda>avail. assertR (\<not> avail)
       (bindR (addressToCacheSet c a) (\<lambda>s.
        bindR (mapR (\<lambda>i. entry_at c (s, i)) [0..<m_cache_assoc c]) (\<lambda>candidates.
        bindR (mapR (\<lambda>e. derefR (replacementData e)) candidates) (\<lambda>locs.
        bindR (pol_getVictim (m_replacementPolicy c) locs (replacement_data c)) (\<lambda>(v, rd).
        bindR (nthR candidates (int v)) (\<lambda>victim.
        bindR (entry_at c (s, ent_way victim)) (\<lambda>e.
        Inr (m_Address e, c\<lparr>replacement_data := rd\<rparr>)))))))))) "

definition touch_entry :: "tick \<Rightarrow> loc \<Rightarrow> ('d, 'st) cm \<Rightarrow> ('d, 'st) cm res" where
  "touch_entry now l c =
     bindR (entry_at c l) (\<lambda>e.
     bindR (derefR (replacementData e)) (\<lambda>rl.
     bindR (pol_touch (m_replacementPolicy c) now rl (replacement_data c)) (\<lambda>rd.
     Inr (upd_entry l (\<lambda>e. e\<lparr>m_last_touch_tick := now\<rparr>) (c\<lparr>replacement_data := rd\<rparr>)))))"

definition tryCacheAccess ::
    "tick \<Rightarrow> addr \<Rightarrow> RubyRequestType \<Rightarrow> ('d, 'st) cm \<Rightarrow> ((bool \<times> loc option) \<times> ('d, 'st) cm) res" where
  "tryCacheAccess now a type c =
     bindR (lookup c a) (\<lambda>p. case p of
       None \<Rightarrow> Inr ((False, None), c)
     | Some l \<Rightarrow>
         bindR (touch_entry now l c) (\<lambda>c'.
         bindR (entry_at c' l) (\<lambda>e.
         if m_Permission e = Read_Write then Inr ((True, Some l), c')
         else if m_Permission e = Read_Only \<and> (type = RR_LD \<or> type = RR_IFETCH)
           then Inr ((True, Some l), c')
         else Inr ((False, None), c'))))"

definition testCacheAccess ::
    "tick \<Rightarrow> addr \<Rightarrow> RubyRequestType \<Rightarrow> ('d, 'st) cm \<Rightarrow> ((bool \<times> loc option) \<times> ('d, 'st) cm) res" where
  "testCacheAccess now a type c =
     bindR (lookup c a) (\<lambda>p. case p of
       None \<Rightarrow> Inr ((False, None), c)
     | Some l \<Rightarrow>
         bindR (touch_entry now l c) (\<lambda>c'.
         bindR (entry_at c' l) (\<lambda>e.
         Inr ((m_Permission e \<noteq> NotPresent, Some l), c'))))"

definition setMRU :: "tick \<Rightarrow> addr \<Rightarrow> ('d, 'st) cm \<Rightarrow> ('d, 'st) cm res" where
  "setMRU now a c = bindR (lookup c (makeLineAddress (rs_block_bits c) a)) (\<lambda>p.
     case p of None \<Rightarrow> Inr c | Some l \<Rightarrow> touch_entry now l c)"

definition setMRU_entry :: "tick \<Rightarrow> loc option \<Rightarrow> ('d, 'st) cm \<Rightarrow> ('d, 'st) cm res" where
  "setMRU_entry now p c = assertR (p \<noteq> None) (touch_entry now (the p) c)"

definition setMRU_occ :: "tick \<Rightarrow> addr \<Rightarrow> int \<Rightarrow> ('d, 'st) cm \<Rightarrow> ('d, 'st) cm res" where
  "setMRU_occ now a occupancy c = bindR (lookup c (makeLineAddress (rs_block_bits c) a)) (\<lambda>p.
     case p of None \<Rightarrow> Inr c
     | Some l \<Rightarrow>
       bindR (entry_at c l) (\<lambda>e.
       bindR (derefR (replacementData e)) (\<lambda>rl.
       bindR (if m_use_occupancy c
              then pol_touch_occ (m_replacementPolicy c) occupancy now rl (replacement_data c)
              else pol_touch (m_replacementPolicy c) now rl (replacement_data c)) (\<lambda>rd.
       Inr (upd_entry l (\<lambda>e. e\<lparr>m_last_touch_tick := now\<rparr>) (c\<lparr>replacement_data := rd\<rparr>))))))"

definition getReplacementWeight :: "('d, 'st) cm \<Rightarrow> nat \<Rightarrow> nat \<Rightarrow> int res" where
  "getReplacementWeight c s w = assertR (s < m_cache_num_sets c) (assertR (w < m_cache_assoc c)
     (bindR (slot c s w) (\<lambda>p. case p of None \<Rightarrow> Inr 0
        | Some e \<Rightarrow> assertR (validBlocks e \<ge> 0) (Inr (validBlocks e)))))"

definition getAddressAtIdx :: "('d, 'st) cm \<Rightarrow> nat \<Rightarrow> addr res" where
  "getAddressAtIdx c idx =
     (if m_cache_assoc c = 0 then Inl DivByZero else
      let s = idx div m_cache_assoc c; w = idx - s * m_cache_assoc c in
      assertR (s < m_cache_num_sets c) (assertR (w < m_cache_assoc c)
       (bindR (slot c s w) (\<lambda>p. Inr (case p of None \<Rightarrow> 0 | Some e \<Rightarrow>
          if m_Permission e = Perm_Invalid \<or> m_Permission e = NotPresent then 0
          else m_Address e)))))"

definition with_entry ::
    "('d CacheEntry \<Rightarrow> 'd CacheEntry) \<Rightarrow> addr \<Rightarrow> ('d, 'st) cm \<Rightarrow> ('d, 'st) cm res" where
  "with_entry f a c = bindR (lookup c a) (\<lambda>p. assertR (p \<noteq> None)
     (bindR (entry_at c (the p)) (\<lambda>_. Inr (upd_entry (the p) f c))))"

definition setLocked :: "addr \<Rightarrow> int \<Rightarrow> ('d, 'st) cm \<Rightarrow> ('d, 'st) cm res" where
  "setLocked a context c = with_entry (entry_setLocked context) a c"

definition clearLocked :: "addr \<Rightarrow> ('d, 'st) cm \<Rightarrow> ('d, 'st) cm res" where
  "clearLocked a c = with_entry entry_clearLocked a c"

definition isLocked :: "('d, 'st) cm \<Rightarrow> addr \<Rightarrow> int \<Rightarrow> bool res" where
  "isLocked c a context = bindR (lookup c a) (\<lambda>p. assertR (p \<noteq> None)
     (bindR (entry_at c (the p)) (\<lambda>e. Inr (entry_isLocked context e))))"

definition map_entries :: "('d CacheEntry \<Rightarrow> 'd CacheEntry) \<Rightarrow> ('d, 'st) cm \<Rightarrow> ('d, 'st) cm" where
  "map_entries f c = c\<lparr>m_cache := map (map (map_option f)) (m_cache c)\<rparr>"

definition clearLockedAll :: "int \<Rightarrow> ('d, 'st) cm \<Rightarrow> ('d, 'st) cm" where
  "clearLockedAll context c =
     map_entries (\<lambda>e. if entry_isLocked context e then entry_clearLocked e else e) c"

definition bump :: "(cache_stats \<Rightarrow> cache_stats) \<Rightarrow> ('d, 'st) cm \<Rightarrow> ('d, 'st) cm" where
  "bump f c = c\<lparr>cacheMemoryStats := f (cacheMemoryStats c)\<rparr>"

definition use_data :: "(BankedArray \<Rightarrow> int \<Rightarrow> BankedArray res) \<Rightarrow> addr \<Rightarrow> ('d, 'st) cm \<Rightarrow> ('d, 'st) cm res" where
  "use_data f a c = bindR (addressToCacheSet c a) (\<lambda>s. bindR (f (dataArray c) (int s)) (\<lambda>b.
     Inr (c\<lparr>dataArray := b\<rparr>)))"

definition use_tag :: "(BankedArray \<Rightarrow> int \<Rightarrow> BankedArray res) \<Rightarrow> addr \<Rightarrow> ('d, 'st) cm \<Rightarrow> ('d, 'st) cm res" where
  "use_tag f a c = bindR (addressToCacheSet c a) (\<lambda>s. bindR (f (tagArray c) (int s)) (\<lambda>b.
     Inr (c\<lparr>tagArray := b\<rparr>)))"

definition when_stalls :: "(('d, 'st) cm \<Rightarrow> ('d, 'st) cm res) \<Rightarrow> ('d, 'st) cm \<Rightarrow> ('d, 'st) cm res" where
  "when_stalls f c = (if m_resource_stalls c then f c else Inr c)"

fun recordRequestType :: "tick \<Rightarrow> CacheRequestType \<Rightarrow> addr \<Rightarrow> ('d, 'st) cm \<Rightarrow> ('d, 'st) cm res" where
  "recordRequestType now DataArrayRead a c =
     bindR (when_stalls (use_data (reserve now) a) c) (\<lambda>c'.
     Inr (bump (\<lambda>st. st\<lparr>numDataArrayReads := numDataArrayReads st + 1\<rparr>) c'))"
| "recordRequestType now DataArrayWrite a c =
     bindR (when_stalls (use_data (reserve now) a) c) (\<lambda>c'.
     Inr (bump (\<lambda>st. st\<lparr>numDataArrayWrites := numDataArrayWrites st + 1\<rparr>) c'))"
| "recordRequestType now TagArrayRead a c =
     bindR (when_stalls (use_tag (reserve now) a) c) (\<lambda>c'.
     Inr (bump (\<lambda>st. st\<lparr>numTagArrayReads := numTagArrayReads st + 1\<rparr>) c'))"
| "recordRequestType now TagArrayWrite a c =
     bindR (when_stalls (use_tag (reserve now) a) c) (\<lambda>c'.
     Inr (bump (\<lambda>st. st\<lparr>numTagArrayWrites := numTagArrayWrites st + 1\<rparr>) c'))"
| "recordRequestType now AtomicALUOperation a c =
     bindR (when_stalls (\<lambda>c. Inr (c\<lparr>atomicALUArray :=
              alu_reserve (rs_block_bits c) now a (atomicALUArray c)\<rparr>)) c) (\<lambda>c'.
     Inr (bump (\<lambda>st. st\<lparr>numAtomicALUOperations := numAtomicALUOperations st + 1\<rparr>) c'))"
| "recordRequestType now CacheRequest_NULL a c = Inr c"

definition recordRequestTypeSpecf ::
    "CacheRequestType \<Rightarrow> addr \<Rightarrow> cycles \<Rightarrow> cycles \<Rightarrow> ('d, 'st) cm \<Rightarrow> ('d, 'st) cm res" where
  "recordRequestTypeSpecf r a access_time init_cycle c =
     (let take = (\<lambda>ba i. reserveSpecf ba i access_time init_cycle) in
      case r of
        DataArrayRead \<Rightarrow> bindR (use_data take a c) (\<lambda>c'.
          Inr (bump (\<lambda>st. st\<lparr>numDataArrayReads := numDataArrayReads st + 1\<rparr>) c'))
      | DataArrayWrite \<Rightarrow> bindR (use_data take a c) (\<lambda>c'.
          Inr (bump (\<lambda>st. st\<lparr>numDataArrayWrites := numDataArrayWrites st + 1\<rparr>) c'))
      | TagArrayRead \<Rightarrow> bindR (use_tag take a c) (\<lambda>c'.
          Inr (bump (\<lambda>st. st\<lparr>numTagArrayReads := numTagArrayReads st + 1\<rparr>) c'))
      | TagArrayWrite \<Rightarrow> bindR (use_tag take a c) (\<lambda>c'.
          Inr (bump (\<lambda>st. st\<lparr>numTagArrayWrites := numTagArrayWrites st + 1\<rparr>) c'))
      | _ \<Rightarrow> Inr c)"

definition try_data :: "(BankedArray \<Rightarrow> int \<Rightarrow> bool res) \<Rightarrow> addr \<Rightarrow> ('d, 'st) cm \<Rightarrow> (bool \<times> ('d, 'st) cm) res" where
  "try_data f a c = bindR (addressToCacheSet c a) (\<lambda>s. bindR (f (dataArray c) (int s)) (\<lambda>ok.
     if ok then Inr (True, c)
     else Inr (False, bump (\<lambda>st. st\<lparr>numDataArrayStalls := numDataArrayStalls st + 1\<rparr>) c)))"

definition try_tag :: "(BankedArray \<Rightarrow> int \<Rightarrow> bool res) \<Rightarrow> addr \<Rightarrow> ('d, 'st) cm \<Rightarrow> (bool \<times> ('d, 'st) cm) res" where
  "try_tag f a c = bindR (addressToCacheSet c a) (\<lambda>s. bindR (f (tagArray c) (int s)) (\<lambda>ok.
     if ok then Inr (True, c)
     else Inr (False, bump (\<lambda>st. st\<lparr>numTagArrayStalls := numTagArrayStalls st + 1\<rparr>) c)))"

definition try_alu :: "tick \<Rightarrow> addr \<Rightarrow> ('d, 'st) cm \<Rightarrow> (bool \<times> ('d, 'st) cm) res" where
  "try_alu now a c =
     (let (ok, alu) = alu_tryAccess (rs_block_bits c) now a (atomicALUArray c);
          c' = c\<lparr>atomicALUArray := alu\<rparr>
      in if ok then Inr (True, c')
         else Inr (False, bump (\<lambda>st. st\<lparr>numAtomicALUArrayStalls := numAtomicALUArrayStalls st + 1\<rparr>) c'))"

definition checkResourceAvailable ::
    "tick \<Rightarrow> CacheResourceType \<Rightarrow> addr \<Rightarrow> ('d, 'st) cm \<Rightarrow> (bool \<times> ('d, 'st) cm) res" where
  "checkResourceAvailable now r a c =
     (if \<not> m_resource_stalls c then Inr (True, c)
      else case r of
        TagArray \<Rightarrow> try_tag (tryAccess now) a c
      | DataArray \<Rightarrow> try_data (tryAccess now) a c
      | AtomicALUArray \<Rightarrow> try_alu now a c
      | CacheResource_NULL \<Rightarrow> Inl (Panic ''Unrecognized cache resource type.''))"

definition checkResourceAvailableSpecf ::
    "tick \<Rightarrow> CacheResourceType \<Rightarrow> addr \<Rightarrow> cycles \<Rightarrow> ('d, 'st) cm \<Rightarrow> (bool \<times> ('d, 'st) cm) res" where
  "checkResourceAvailableSpecf now r a cycle c =
     (if \<not> m_resource_stalls c then Inr (True, c)
      else case r of
        TagArray \<Rightarrow> try_tag (\<lambda>ba i. tryAccessSpecf ba i cycle) a c
      | DataArray \<Rightarrow> try_data (\<lambda>ba i. tryAccessSpecf ba i cycle) a c
      | AtomicALUArray \<Rightarrow> try_alu now a c
      | CacheResource_NULL \<Rightarrow> Inl (Panic ''Unrecognized cache resource type.''))"

definition getRefreshStartPoint :: "('d, 'st) cm \<Rightarrow> CacheResourceType \<Rightarrow> addr \<Rightarrow> int res" where
  "getRefreshStartPoint c r a =
     (case r of
        TagArray \<Rightarrow> bindR (addressToCacheSet c a) (\<lambda>s.
          bindR (mapIndexToBank (tagArray c) (int s)) (\<lambda>_. Inr 0))
      | DataArray \<Rightarrow> bindR (addressToCacheSet c a) (\<lambda>s.
          bindR (mapIndexToBank (dataArray c) (int s)) (\<lambda>_. Inr 0))
      | _ \<Rightarrow> Inl (Panic ''Unrecognized cache resource type.''))"

definition isBlockInvalid :: "('d, 'st) cm \<Rightarrow> nat \<Rightarrow> nat \<Rightarrow> bool res" where
  "isBlockInvalid c s w = bindR (entry_at c (s, w)) (\<lambda>e. Inr (m_Permission e = Perm_Invalid))"

definition isBlockNotBusy :: "('d, 'st) cm \<Rightarrow> nat \<Rightarrow> nat \<Rightarrow> bool res" where
  "isBlockNotBusy c s w = bindR (entry_at c (s, w)) (\<lambda>e. Inr (m_Permission e \<noteq> Busy))"

section \<open>Transactions, profiling, checkpointing\<close>

definition entries :: "('d, 'st) cm \<Rightarrow> 'd CacheEntry list" where
  "entries c = concat (map (\<lambda>row. concat (map (\<lambda>p. case p of None \<Rightarrow> [] | Some e \<Rightarrow> [e]) row)) (m_cache c))"

definition htm_clear :: "'d CacheEntry \<Rightarrow> 'd CacheEntry" where
  "htm_clear e = entry_clearLocked (e\<lparr>m_htmInWriteSet := False, m_htmInReadSet := False\<rparr>)"

text \<open>
  \<^verbatim>\<open>invalidateEntry\<close> is virtual: the entry class of the protocol overrides it, and
  \<open>inval\<close> is that override.
\<close>

definition htmAbortTransaction ::
    "('d CacheEntry \<Rightarrow> 'd CacheEntry) \<Rightarrow> ('d, 'st) cm \<Rightarrow> ('d, 'st) cm" where
  "htmAbortTransaction inval c =
     (let readSet = length (filter m_htmInReadSet (entries c));
          writeSet = length (filter m_htmInWriteSet (entries c));
          c' = map_entries (\<lambda>e. htm_clear (if m_htmInWriteSet e then inval e else e)) c
      in bump (\<lambda>st. st\<lparr>htmTransAbortReadSet := htmTransAbortReadSet st @ [readSet],
                     htmTransAbortWriteSet := htmTransAbortWriteSet st @ [writeSet]\<rparr>) c')"

definition htmCommitTransaction :: "('d, 'st) cm \<Rightarrow> ('d, 'st) cm" where
  "htmCommitTransaction c =
     (let readSet = length (filter m_htmInReadSet (entries c));
          writeSet = length (filter m_htmInWriteSet (entries c));
          c' = map_entries htm_clear c
      in bump (\<lambda>st. st\<lparr>htmTransCommitReadSet := htmTransCommitReadSet st @ [readSet],
                     htmTransCommitWriteSet := htmTransCommitWriteSet st @ [writeSet]\<rparr>) c')"

definition profileDemandHit :: "('d, 'st) cm \<Rightarrow> ('d, 'st) cm" where
  "profileDemandHit c = bump (\<lambda>st. st\<lparr>m_demand_hits := m_demand_hits st + 1\<rparr>) c"

definition profileDemandMiss :: "('d, 'st) cm \<Rightarrow> ('d, 'st) cm" where
  "profileDemandMiss c = bump (\<lambda>st. st\<lparr>m_demand_misses := m_demand_misses st + 1\<rparr>) c"

definition profileMemoryWrite :: "('d, 'st) cm \<Rightarrow> ('d, 'st) cm" where
  "profileMemoryWrite c = bump (\<lambda>st. st\<lparr>numDataArrayWrites := numDataArrayWrites st + 1\<rparr>) c"

definition profilePrefetchHit :: "('d, 'st) cm \<Rightarrow> ('d, 'st) cm" where
  "profilePrefetchHit c = bump (\<lambda>st. st\<lparr>m_prefetch_hits := m_prefetch_hits st + 1\<rparr>) c"

definition profilePrefetchMiss :: "('d, 'st) cm \<Rightarrow> ('d, 'st) cm" where
  "profilePrefetchMiss c = bump (\<lambda>st. st\<lparr>m_prefetch_misses := m_prefetch_misses st + 1\<rparr>) c"

definition recordCacheContents :: "('d, 'st) cm \<Rightarrow> (addr \<times> RubyRequestType \<times> tick \<times> 'd) list" where
  "recordCacheContents c = concat (map (\<lambda>e.
     let rt = (if m_Permission e = Read_Only
               then (if m_is_instruction_only_cache c then RR_IFETCH else RR_LD)
               else if m_Permission e = Read_Write then RR_ST else RR_NULL)
     in if rt \<noteq> RR_NULL then [(m_Address e, rt, m_last_touch_tick e, DataBlk e)] else [])
     (entries c))"

end
