(* ===== verification/Tag_Store.thy ===== *)
theory Tag_Store
  imports Gem5_Base
begin

text \<open>
  The interface the coherence controllers use of a structure that holds entries by line
  address: a presence test, a test for room, allocation and deallocation.  The laws say
  how each of them acts on the set of addresses held.  A client that tests before it acts
  (\<open>ts_step\<close>) never meets a fault, and the addresses held evolve exactly as the abstract
  set machine \<open>ts_abs\<close> allows.
\<close>

datatype ts_op = Alloc addr | Dealloc addr

fun ts_addr :: "ts_op \<Rightarrow> addr" where
  "ts_addr (Alloc a) = a"
| "ts_addr (Dealloc a) = a"

inductive ts_abs :: "ts_op \<Rightarrow> addr set \<Rightarrow> addr set \<Rightarrow> bool" where
  ts_insert: "a \<notin> K \<Longrightarrow> ts_abs (Alloc a) K (insert a K)"
| ts_no_room: "a \<notin> K \<Longrightarrow> ts_abs (Alloc a) K K"
| ts_held: "a \<in> K \<Longrightarrow> ts_abs (Alloc a) K K"
| ts_delete: "ts_abs (Dealloc a) K (K - {a})"

inductive_cases ts_DeallocE: "ts_abs (Dealloc a) K K'"
inductive_cases ts_AllocE: "ts_abs (Alloc a) K K'"

inductive ts_trace :: "ts_op list \<Rightarrow> addr set \<Rightarrow> addr set \<Rightarrow> bool" where
  ts_nil: "ts_trace [] K K"
| ts_cons: "ts_abs x K K' \<Longrightarrow> ts_trace xs K' K'' \<Longrightarrow> ts_trace (x # xs) K K''"

lemma ts_trace_bound:
  "ts_trace xs K K' \<Longrightarrow> K' \<subseteq> K \<union> {a. Alloc a \<in> set xs}"
  by (induction rule: ts_trace.induct) (auto elim!: ts_abs.cases)

locale tag_store =
  fixes inv :: "'s \<Rightarrow> bool" and line :: "addr \<Rightarrow> bool" and keys :: "'s \<Rightarrow> addr set"
    and present :: "'s \<Rightarrow> addr \<Rightarrow> bool res" and avail :: "'s \<Rightarrow> addr \<Rightarrow> bool res"
    and alloc :: "addr \<Rightarrow> 's \<Rightarrow> 's res" and dealloc :: "addr \<Rightarrow> 's \<Rightarrow> 's res"
  assumes present_keys: "inv s \<Longrightarrow> line a \<Longrightarrow> present s a = Inr (a \<in> keys s)"
    and avail_total: "inv s \<Longrightarrow> line a \<Longrightarrow> \<exists>b. avail s a = Inr b"
    and alloc_keys: "inv s \<Longrightarrow> line a \<Longrightarrow> a \<notin> keys s \<Longrightarrow> avail s a = Inr True \<Longrightarrow>
          \<exists>s'. alloc a s = Inr s' \<and> inv s' \<and> keys s' = insert a (keys s)"
    and dealloc_keys: "inv s \<Longrightarrow> line a \<Longrightarrow> a \<in> keys s \<Longrightarrow>
          \<exists>s'. dealloc a s = Inr s' \<and> inv s' \<and> keys s' = keys s - {a}"
begin

fun ts_step :: "ts_op \<Rightarrow> 's \<Rightarrow> 's res" where
  "ts_step (Alloc a) s = bindR (present s a) (\<lambda>p. if p then Inr s
     else bindR (avail s a) (\<lambda>r. if r then alloc a s else Inr s))"
| "ts_step (Dealloc a) s = bindR (present s a) (\<lambda>p. if p then dealloc a s else Inr s)"

lemma ts_step_abs:
  assumes "inv s" "line (ts_addr x)"
  shows "\<exists>s'. ts_step x s = Inr s' \<and> inv s' \<and> ts_abs x (keys s) (keys s')"
proof (cases x)
  case (Alloc a)
  hence a: "line a" using assms by simp
  obtain r where r: "avail s a = Inr r" using avail_total[OF assms(1) a] by blast
  show ?thesis
  proof (cases "a \<in> keys s \<or> \<not> r")
    case True
    thus ?thesis using Alloc r present_keys[OF assms(1) a] assms(1) by (auto intro: ts_abs.intros)
  next
    case False
    with alloc_keys[OF assms(1) a] r obtain s' where "alloc a s = Inr s'" "inv s'"
      "keys s' = insert a (keys s)" by auto
    thus ?thesis using Alloc False r present_keys[OF assms(1) a] by (auto intro: ts_abs.intros)
  qed
next
  case (Dealloc a)
  hence a: "line a" using assms by simp
  show ?thesis
  proof (cases "a \<in> keys s")
    case True
    from dealloc_keys[OF assms(1) a True] obtain s' where "dealloc a s = Inr s'" "inv s'"
      "keys s' = keys s - {a}" by blast
    thus ?thesis using Dealloc True present_keys[OF assms(1) a] by (auto intro: ts_abs.intros)
  next
    case False
    have "ts_abs (Dealloc a) (keys s) (keys s)" using ts_delete[of a "keys s"] False by simp
    thus ?thesis using Dealloc False present_keys[OF assms(1) a] assms(1) by simp
  qed
qed

lemma ts_run_trace:
  "inv s \<Longrightarrow> \<forall>x \<in> set xs. line (ts_addr x) \<Longrightarrow>
     \<exists>s'. foldR ts_step xs s = Inr s' \<and> inv s' \<and> ts_trace xs (keys s) (keys s')"
proof (induction xs arbitrary: s)
  case (Cons x xs)
  obtain s1 where s1: "ts_step x s = Inr s1" "inv s1" "ts_abs x (keys s) (keys s1)"
    using ts_step_abs[of s x] Cons.prems by auto
  obtain s2 where "foldR ts_step xs s1 = Inr s2" "inv s2" "ts_trace xs (keys s1) (keys s2)"
    using Cons.IH[OF s1(2)] Cons.prems by auto
  thus ?case using s1 by (auto intro: ts_trace.intros)
qed (auto intro: ts_trace.intros)

end

end
