(* ===== verification/Cache_Props.thy ===== *)
theory Cache_Props
  imports Cache_Memory Tag_Store
begin

text \<open>
  The invariant of the Ruby cache, its abstraction to a finite map from line addresses to
  entries, and the correctness of its operations with respect to that map.  The lemmas on
  operations that call the replacement policy are proved from the policy interface
  \<open>replacement_policy\<close>; the properties at the end are their instances for the tree
  pseudo-LRU policy, the default of \<^verbatim>\<open>RubyCache\<close>.
\<close>

section \<open>Shape, addresses and slots\<close>

definition cm_shape :: "('d, 'st) cm \<Rightarrow> bool" where
  "cm_shape c \<longleftrightarrow> 0 < m_cache_num_set_bits c \<and>
     2 ^ m_cache_num_set_bits c \<le> m_cache_num_sets c \<and>
     length (m_cache c) = m_cache_num_sets c \<and>
     (\<forall>row \<in> set (m_cache c). length row = m_cache_assoc c)"

definition is_line :: "('d, 'st) cm \<Rightarrow> addr \<Rightarrow> bool" where
  "is_line c a \<longleftrightarrow> a = makeLineAddress (rs_block_bits c) a"

definition set_of :: "('d, 'st) cm \<Rightarrow> addr \<Rightarrow> nat" where
  "set_of c a = unat (take_bit (m_cache_num_set_bits c) (drop_bit (m_start_index_bit c) a))"

definition cell :: "('d, 'st) cm \<Rightarrow> loc \<Rightarrow> 'd CacheEntry option" where
  "cell c l = m_cache c ! fst l ! snd l"

definition in_range :: "('d, 'st) cm \<Rightarrow> loc \<Rightarrow> bool" where
  "in_range c l \<longleftrightarrow> fst l < m_cache_num_sets c \<and> snd l < m_cache_assoc c"

lemma lineR_is_line: "lineR c a k = assertR (is_line c a) k"
  by (simp add: lineR_def is_line_def)

lemma set_of_less: "cm_shape c \<Longrightarrow> set_of c a < m_cache_num_sets c"
proof -
  assume "cm_shape c"
  hence "2 ^ m_cache_num_set_bits c \<le> m_cache_num_sets c" by (simp add: cm_shape_def)
  moreover have "set_of c a < 2 ^ m_cache_num_set_bits c"
    by (simp only: set_of_def unat_take_bit_mod) simp
  ultimately show ?thesis by linarith
qed

lemma addressToCacheSet_line:
  "cm_shape c \<Longrightarrow> is_line c a \<Longrightarrow> addressToCacheSet c a = Inr (set_of c a)"
proof -
  assume a: "cm_shape c" "is_line c a"
  let ?s = "m_start_index_bit c" and ?b = "m_cache_num_set_bits c"
  have "0 < ?b" using a(1) by (simp add: cm_shape_def)
  hence "?s \<le> ?s + ?b - 1" "?s + ?b - 1 - ?s + 1 = ?b" by auto
  thus ?thesis using a(2) bitSelect_Inr[of ?s "?s + ?b - 1" a]
    by (simp only: addressToCacheSet_def lineR_is_line set_of_def assertR_True bindR.simps)
qed

lemma row_length: "cm_shape c \<Longrightarrow> s < m_cache_num_sets c \<Longrightarrow> length (m_cache c ! s) = m_cache_assoc c"
  by (simp add: cm_shape_def)

lemma slot_in_range: "cm_shape c \<Longrightarrow> in_range c (s, w) \<Longrightarrow> slot c s w = Inr (cell c (s, w))"
  by (simp add: slot_def cell_def in_range_def row_length) (simp add: cm_shape_def row_length)

section \<open>The invariant and the abstraction\<close>

definition entry_ok :: "('d, 'st) cm \<Rightarrow> loc \<Rightarrow> 'd CacheEntry \<Rightarrow> bool" where
  "entry_ok c l e \<longleftrightarrow> m_Permission e \<noteq> NotPresent \<and> is_line c (m_Address e) \<and>
     set_of c (m_Address e) = fst l \<and> (ent_set e, ent_way e) = l \<and> replacementData e = Some l \<and>
     m_tag_index c (m_Address e) = Some (snd l)"

definition cm_inv :: "('d, 'st) cm \<Rightarrow> bool" where
  "cm_inv c \<longleftrightarrow> cm_shape c \<and>
     (\<forall>l e. in_range c l \<longrightarrow> cell c l = Some e \<longrightarrow> entry_ok c l e) \<and>
     (\<forall>a w. m_tag_index c a = Some w \<longrightarrow> is_line c a \<and> w < m_cache_assoc c \<and>
        (\<exists>e. cell c (set_of c a, w) = Some e \<and> m_Address e = a))"

definition cm_abs :: "('d, 'st) cm \<Rightarrow> addr \<rightharpoonup> 'd CacheEntry" where
  "cm_abs c a = (case m_tag_index c a of None \<Rightarrow> None | Some w \<Rightarrow> cell c (set_of c a, w))"

definition way_of :: "('d, 'st) cm \<Rightarrow> addr \<Rightarrow> loc option" where
  "way_of c a = map_option (Pair (set_of c a)) (m_tag_index c a)"

lemma cm_invD:
  assumes "cm_inv c"
  shows cm_inv_shape: "cm_shape c"
    and cm_inv_entry: "\<And>l e. in_range c l \<Longrightarrow> cell c l = Some e \<Longrightarrow> entry_ok c l e"
    and cm_inv_tag: "\<And>a w. m_tag_index c a = Some w \<Longrightarrow> is_line c a \<and> in_range c (set_of c a, w) \<and>
        (\<exists>e. cell c (set_of c a, w) = Some e \<and> m_Address e = a)"
  using assms set_of_less[of c] by (auto simp: cm_inv_def in_range_def)

lemma cm_inv_tag_entry:
  assumes "cm_inv c" "m_tag_index c a = Some w"
  obtains e where "cell c (set_of c a, w) = Some e" "m_Address e = a" "is_line c a"
    "in_range c (set_of c a, w)" "entry_ok c (set_of c a, w) e"
  using cm_inv_tag[OF assms] cm_inv_entry[OF assms(1)] by blast

lemma cm_abs_None_iff: "cm_inv c \<Longrightarrow> cm_abs c a = None \<longleftrightarrow> m_tag_index c a = None"
proof (cases "m_tag_index c a")
  case (Some w)
  assume "cm_inv c"
  from cm_inv_tag[OF this Some] obtain e where "cell c (set_of c a, w) = Some e" by blast
  thus ?thesis using Some by (simp add: cm_abs_def)
qed (simp add: cm_abs_def)

lemma way_of_None_iff [simp]: "way_of c a = None \<longleftrightarrow> m_tag_index c a = None"
  by (simp add: way_of_def)

lemma slot_cell: "cm_inv c \<Longrightarrow> in_range c (s, w) \<Longrightarrow> slot c s w = Inr (cell c (s, w))"
  by (simp add: slot_in_range cm_inv_shape)

lemma addressToCacheSet_inv: "cm_inv c \<Longrightarrow> is_line c a \<Longrightarrow> addressToCacheSet c a = Inr (set_of c a)"
  by (simp add: addressToCacheSet_line cm_inv_shape)

lemma findTagInSet_inv:
  assumes "cm_inv c" "is_line c a"
  shows "findTagInSet c (set_of c a) a = Inr (m_tag_index c a)"
proof (cases "m_tag_index c a")
  case (Some w)
  from assms(1) Some obtain e where "cell c (set_of c a, w) = Some e"
    "in_range c (set_of c a, w)" "entry_ok c (set_of c a, w) e"
    by (rule cm_inv_tag_entry)
  thus ?thesis using assms Some
    by (simp add: findTagInSet_def lineR_is_line slot_cell entry_ok_def)
qed (use assms in \<open>simp add: findTagInSet_def lineR_is_line\<close>)

lemma lookup_inv:
  assumes "cm_inv c" "is_line c a"
  shows "lookup c a = Inr (way_of c a)"
proof (cases "m_tag_index c a")
  case (Some w)
  from assms(1) Some obtain e where "cell c (set_of c a, w) = Some e"
    "in_range c (set_of c a, w)" by (rule cm_inv_tag_entry)
  thus ?thesis using assms Some
    by (simp add: lookup_def lineR_is_line addressToCacheSet_inv findTagInSet_inv slot_cell
        way_of_def)
qed (use assms in \<open>simp add: lookup_def lineR_is_line addressToCacheSet_inv findTagInSet_inv
      way_of_def\<close>)

lemma isTagPresent_inv: "cm_inv c \<Longrightarrow> is_line c a \<Longrightarrow> isTagPresent c a = Inr (cm_abs c a \<noteq> None)"
  by (simp add: isTagPresent_def lookup_inv cm_abs_None_iff del: not_None_eq)

lemma avail_scan_inv:
  assumes "cm_inv c" "s < m_cache_num_sets c" "\<forall>i \<in> set is. i < m_cache_assoc c"
  shows "avail_scan c a s is = Inr (\<exists>i \<in> set is. cell c (s, i) = None \<or>
           (\<exists>e. cell c (s, i) = Some e \<and> m_Address e = a))"
  using assms(3)
proof (induction "is")
  case (Cons i "is")
  hence r: "in_range c (s, i)" using assms(2) by (simp add: in_range_def)
  show ?case
  proof (cases "cell c (s, i)")
    case (Some e)
    hence "m_Permission e \<noteq> NotPresent"
      using cm_inv_entry[OF assms(1) r] by (simp add: entry_ok_def)
    thus ?thesis using Cons Some slot_cell[OF assms(1) r] by simp
  qed (use slot_cell[OF assms(1) r] in simp)
qed simp

definition room :: "('d, 'st) cm \<Rightarrow> addr \<Rightarrow> bool" where
  "room c a \<longleftrightarrow> (\<exists>i < m_cache_assoc c. cell c (set_of c a, i) = None)"

lemma tag_in_cell:
  assumes "cm_inv c" "in_range c l" "cell c l = Some e"
  shows "m_tag_index c (m_Address e) = Some (snd l)" "set_of c (m_Address e) = fst l"
  using cm_inv_entry[OF assms] by (auto simp: entry_ok_def)

lemma cacheAvail_inv:
  assumes "cm_inv c" "is_line c a"
  shows "cacheAvail c a = Inr (room c a \<or> cm_abs c a \<noteq> None)"
proof -
  have "set_of c a < m_cache_num_sets c" by (simp add: set_of_less cm_inv_shape assms)
  hence "cacheAvail c a = Inr (\<exists>i < m_cache_assoc c. cell c (set_of c a, i) = None \<or>
      (\<exists>e. cell c (set_of c a, i) = Some e \<and> m_Address e = a))"
    using assms by (auto simp: cacheAvail_def lineR_is_line addressToCacheSet_inv avail_scan_inv)
  moreover have "(\<exists>i < m_cache_assoc c. \<exists>e. cell c (set_of c a, i) = Some e \<and> m_Address e = a)
      \<longleftrightarrow> cm_abs c a \<noteq> None"
  proof
    assume "\<exists>i < m_cache_assoc c. \<exists>e. cell c (set_of c a, i) = Some e \<and> m_Address e = a"
    then obtain i e where "i < m_cache_assoc c" "cell c (set_of c a, i) = Some e" "m_Address e = a"
      by blast
    thus "cm_abs c a \<noteq> None"
      using tag_in_cell(1)[OF assms(1), of "(set_of c a, i)" e] \<open>set_of c a < m_cache_num_sets c\<close>
      by (simp add: cm_abs_None_iff[OF assms(1)] in_range_def)
  next
    assume "cm_abs c a \<noteq> None"
    then obtain w where "m_tag_index c a = Some w" using cm_abs_None_iff[OF assms(1)] by auto
    from cm_inv_tag[OF assms(1) this]
    show "\<exists>i < m_cache_assoc c. \<exists>e. cell c (set_of c a, i) = Some e \<and> m_Address e = a"
      by (auto simp: in_range_def)
  qed
  ultimately show ?thesis by (auto simp: room_def)
qed

section \<open>Storing, erasing and modifying an entry\<close>

lemma put_slot_fields [simp]:
  "m_tag_index (put_slot s w p c) = m_tag_index c"
  "m_replacementPolicy (put_slot s w p c) = m_replacementPolicy c"
  "replacement_data (put_slot s w p c) = replacement_data c"
  "m_cache_num_sets (put_slot s w p c) = m_cache_num_sets c"
  "m_cache_assoc (put_slot s w p c) = m_cache_assoc c"
  by (simp_all add: put_slot_def)

lemma derived_fields [simp]:
  "set_of (put_slot s w p c) = set_of c"
  "set_of (c\<lparr>m_tag_index := t\<rparr>) = set_of c"
  "set_of (c\<lparr>replacement_data := r\<rparr>) = set_of c"
  "is_line (put_slot s w p c) = is_line c"
  "is_line (c\<lparr>m_tag_index := t\<rparr>) = is_line c"
  "is_line (c\<lparr>replacement_data := r\<rparr>) = is_line c"
  "in_range (put_slot s w p c) = in_range c"
  "in_range (c\<lparr>m_tag_index := t\<rparr>) = in_range c"
  "in_range (c\<lparr>replacement_data := r\<rparr>) = in_range c"
  "cell (c\<lparr>m_tag_index := t\<rparr>) = cell c"
  "cell (c\<lparr>replacement_data := r\<rparr>) = cell c"
  "cm_shape (c\<lparr>m_tag_index := t\<rparr>) = cm_shape c"
  "cm_shape (c\<lparr>replacement_data := r\<rparr>) = cm_shape c"
  by (auto simp: put_slot_def set_of_def is_line_def in_range_def cell_def cm_shape_def fun_eq_iff)

lemma cm_replacement_data [simp]:
  "cm_inv (c\<lparr>replacement_data := r\<rparr>) = cm_inv c"
  "cm_abs (c\<lparr>replacement_data := r\<rparr>) = cm_abs c"
  by (simp_all add: cm_inv_def entry_ok_def cm_abs_def fun_eq_iff split: option.split)

lemma cm_shape_put_slot: "cm_shape c \<Longrightarrow> in_range c (s, w) \<Longrightarrow> cm_shape (put_slot s w p c)"
  by (auto simp: cm_shape_def put_slot_def in_range_def dest!: set_update_subset_insert[THEN subsetD])

lemma cell_put_slot:
  "cm_shape c \<Longrightarrow> in_range c (s, w) \<Longrightarrow>
     cell (put_slot s w p c) l = (if l = (s, w) then p else cell c l)"
  by (cases l) (auto simp: cm_shape_def put_slot_def cell_def in_range_def nth_list_update)

definition store :: "addr \<Rightarrow> nat \<Rightarrow> nat \<Rightarrow> 'd CacheEntry \<Rightarrow> ('d, 'st) cm \<Rightarrow> ('d, 'st) cm" where
  "store a s i e c = (put_slot s i (Some e) c)\<lparr>m_tag_index := (m_tag_index c)(a \<mapsto> i)\<rparr>"

lemma store_inv:
  assumes "cm_inv c" "is_line c a" "in_range c (set_of c a, i)" "cell c (set_of c a, i) = None"
    and "m_tag_index c a = None" "m_Address e = a" "m_Permission e \<noteq> NotPresent"
    and "ent_set e = set_of c a" "ent_way e = i" "replacementData e = Some (set_of c a, i)"
  shows "cm_inv (store a (set_of c a) i e c)"
    and "cm_abs (store a (set_of c a) i e c) = (cm_abs c)(a \<mapsto> e)"
proof -
  let ?s = "set_of c a" let ?c = "store a ?s i e c"
  note shp = cm_inv_shape[OF assms(1)]
  have cellc: "cell ?c l = (if l = (?s, i) then Some e else cell c l)" for l
    by (simp add: store_def cell_put_slot[OF shp assms(3)])
  have tag: "m_tag_index ?c = (m_tag_index c)(a \<mapsto> i)" by (simp add: store_def)
  have fld: "set_of ?c = set_of c" "is_line ?c = is_line c" "in_range ?c = in_range c"
    "m_cache_assoc ?c = m_cache_assoc c" by (simp_all add: store_def)
  have ent: "entry_ok ?c l x" if "in_range c l" "cell ?c l = Some x" for l x
  proof (cases "l = (?s, i)")
    case True
    hence "x = e" using that(2) by (simp add: cellc)
    show ?thesis unfolding True \<open>x = e\<close> entry_ok_def fld tag using assms by simp
  next
    case False
    hence x: "entry_ok c l x" using that cm_inv_entry[OF assms(1)] by (simp add: cellc)
    hence "m_Address x \<noteq> a" using assms(5) by (auto simp: entry_ok_def)
    thus ?thesis using x by (simp add: entry_ok_def fld tag)
  qed
  have idx: "is_line c b \<and> w < m_cache_assoc c \<and> (\<exists>x. cell ?c (set_of c b, w) = Some x \<and> m_Address x = b)"
    if "m_tag_index ?c b = Some w" for b w
  proof (cases "b = a")
    case True
    hence "w = i" using that by (simp add: tag)
    show ?thesis unfolding True \<open>w = i\<close> cellc using assms by (simp add: in_range_def)
  next
    case False
    hence w: "m_tag_index c b = Some w" using that by (simp add: tag)
    have "(set_of c b, w) \<noteq> (?s, i)" using cm_inv_tag[OF assms(1) w] assms(4) by auto
    thus ?thesis using cm_inv_tag[OF assms(1) w] by (auto simp: cellc in_range_def)
  qed
  show "cm_inv ?c" unfolding cm_inv_def
    using ent idx shp assms(3) by (auto simp: fld store_def cm_shape_put_slot)
  show "cm_abs ?c = (cm_abs c)(a \<mapsto> e)"
  proof
    fix b
    have "(set_of c b, w) \<noteq> (?s, i)" if "m_tag_index c b = Some w" for w
      using cm_inv_tag[OF assms(1) that] assms(4) by auto
    thus "cm_abs ?c b = ((cm_abs c)(a \<mapsto> e)) b"
      by (auto simp: cm_abs_def tag cellc fld split: option.split)
  qed
qed

definition erase :: "addr \<Rightarrow> nat \<Rightarrow> nat \<Rightarrow> ('d, 'st) cm \<Rightarrow> ('d, 'st) cm" where
  "erase a s i c = (put_slot s i None c)\<lparr>m_tag_index := (m_tag_index c)(a := None)\<rparr>"

lemma erase_inv:
  assumes "cm_inv c" "m_tag_index c a = Some i"
  shows "cm_inv (erase a (set_of c a) i c)"
    and "cm_abs (erase a (set_of c a) i c) = (cm_abs c)(a := None)"
    and "cell (erase a (set_of c a) i c) (set_of c a, i) = None"
proof -
  let ?s = "set_of c a" let ?c = "erase a ?s i c"
  note shp = cm_inv_shape[OF assms(1)]
  from assms obtain e where e: "cell c (?s, i) = Some e" "m_Address e = a" "in_range c (?s, i)"
    by (rule cm_inv_tag_entry)
  have cellc: "cell ?c l = (if l = (?s, i) then None else cell c l)" for l
    by (simp add: erase_def cell_put_slot[OF shp e(3)])
  show "cell ?c (?s, i) = None" by (simp add: cellc)
  have tag: "m_tag_index ?c = (m_tag_index c)(a := None)" by (simp add: erase_def)
  have fld: "set_of ?c = set_of c" "is_line ?c = is_line c" "in_range ?c = in_range c"
    "m_cache_assoc ?c = m_cache_assoc c" by (simp_all add: erase_def)
  have ent: "entry_ok ?c l x" if "in_range c l" "cell ?c l = Some x" for l x
  proof -
    have l: "l \<noteq> (?s, i)" "cell c l = Some x" using that by (auto simp: cellc split: if_splits)
    have x: "entry_ok c l x" using that l cm_inv_entry[OF assms(1)] by simp
    have "m_Address x \<noteq> a" using x l(1) assms(2) by (cases l) (auto simp: entry_ok_def)
    thus ?thesis using x by (simp add: entry_ok_def fld tag)
  qed
  have ne: "(set_of c b, w) \<noteq> (?s, i)" if "m_tag_index c b = Some w" "b \<noteq> a" for b w
    using cm_inv_tag[OF assms(1) that(1)] e that(2) by auto
  have idx: "is_line c b \<and> w < m_cache_assoc c \<and> (\<exists>x. cell ?c (set_of c b, w) = Some x \<and> m_Address x = b)"
    if "m_tag_index ?c b = Some w" for b w
  proof -
    have w: "m_tag_index c b = Some w" "b \<noteq> a" using that by (auto simp: tag split: if_splits)
    show ?thesis using cm_inv_tag[OF assms(1) w(1)] ne[OF w] by (auto simp: cellc in_range_def)
  qed
  show "cm_inv ?c" unfolding cm_inv_def
    using ent idx shp e(3) by (auto simp: fld erase_def cm_shape_put_slot)
  show "cm_abs ?c = (cm_abs c)(a := None)"
    using ne by (auto simp: cm_abs_def tag cellc fld fun_eq_iff split: option.split)
qed

definition modify :: "addr \<Rightarrow> nat \<Rightarrow> ('d CacheEntry \<Rightarrow> 'd CacheEntry) \<Rightarrow> ('d, 'st) cm \<Rightarrow> ('d, 'st) cm" where
  "modify a i f c = upd_entry (set_of c a, i) f c"

definition identity_kept :: "('d CacheEntry \<Rightarrow> 'd CacheEntry) \<Rightarrow> bool" where
  "identity_kept f \<longleftrightarrow> (\<forall>e. m_Address (f e) = m_Address e \<and> ent_set (f e) = ent_set e \<and>
     ent_way (f e) = ent_way e \<and> replacementData (f e) = replacementData e \<and>
     (m_Permission e \<noteq> NotPresent \<longrightarrow> m_Permission (f e) \<noteq> NotPresent))"

lemma upd_entry_inv:
  assumes "cm_inv c" "m_tag_index c a = Some i" "identity_kept f"
  shows "cm_inv (upd_entry (set_of c a, i) f c)"
    and "cm_abs (upd_entry (set_of c a, i) f c) = (cm_abs c)(a := map_option f (cm_abs c a))"
    and "m_tag_index (upd_entry (set_of c a, i) f c) = m_tag_index c"
proof -
  let ?s = "set_of c a" let ?c = "upd_entry (?s, i) f c"
  note shp = cm_inv_shape[OF assms(1)]
  from assms(1,2) obtain e where e: "cell c (?s, i) = Some e" "m_Address e = a" "in_range c (?s, i)"
    by (rule cm_inv_tag_entry)
  have c: "?c = put_slot ?s i (Some (f e)) c" using e(1) by (simp add: upd_entry_def cell_def)
  have cellc: "cell ?c l = (if l = (?s, i) then Some (f e) else cell c l)" for l
    by (simp add: c cell_put_slot[OF shp e(3)])
  have fld: "set_of ?c = set_of c" "is_line ?c = is_line c" "in_range ?c = in_range c"
    "m_cache_assoc ?c = m_cache_assoc c" "m_tag_index ?c = m_tag_index c" by (simp_all add: c)
  thus "m_tag_index ?c = m_tag_index c" by simp
  have ent: "entry_ok ?c l x" if "in_range c l" "cell ?c l = Some x" for l x
  proof (cases "l = (?s, i)")
    case True
    hence "x = f e" using that(2) by (simp add: cellc)
    have "entry_ok c l e" using e(1) that(1) True cm_inv_entry[OF assms(1)] by simp
    thus ?thesis unfolding \<open>x = f e\<close> entry_ok_def fld
      using assms(3) by (simp add: identity_kept_def)
  next
    case False
    thus ?thesis using that cm_inv_entry[OF assms(1)] unfolding entry_ok_def fld
      by (simp add: cellc)
  qed
  have idx: "is_line c b \<and> w < m_cache_assoc c \<and> (\<exists>x. cell ?c (set_of c b, w) = Some x \<and> m_Address x = b)"
    if w: "m_tag_index c b = Some w" for b w
  proof -
    obtain x where x: "cell c (set_of c b, w) = Some x" "m_Address x = b" "is_line c b"
      "in_range c (set_of c b, w)" using cm_inv_tag[OF assms(1) w] by blast
    have "\<exists>y. cell ?c (set_of c b, w) = Some y \<and> m_Address y = b"
    proof (cases "(set_of c b, w) = (?s, i)")
      case True
      hence "e = x" using x(1) e(1) by simp
      have "cell ?c (set_of c b, w) = Some (f e)" unfolding cellc using True by simp
      thus ?thesis using x(2) \<open>e = x\<close> assms(3) by (simp add: identity_kept_def)
    next
      case False
      thus ?thesis unfolding cellc using x by auto
    qed
    thus ?thesis using x by (simp add: in_range_def)
  qed
  show "cm_inv ?c" unfolding cm_inv_def fld
    using ent idx shp e(3) by (auto simp: c cm_shape_put_slot)
  have ne: "(set_of c b, w) \<noteq> (?s, i)" if "m_tag_index c b = Some w" "b \<noteq> a" for b w
    using cm_inv_tag[OF assms(1) that(1)] e that(2) by auto
  show "cm_abs ?c = (cm_abs c)(a := map_option f (cm_abs c a))"
  proof
    fix b
    show "cm_abs ?c b = ((cm_abs c)(a := map_option f (cm_abs c a))) b"
    proof (cases "b = a")
      case True
      thus ?thesis using assms(2) e(1) by (simp add: cm_abs_def fld cellc)
    next
      case False
      thus ?thesis using ne[of b] by (auto simp: cm_abs_def fld cellc split: option.split)
    qed
  qed
qed

section \<open>Operations that call the replacement policy\<close>

context replacement_policy
begin

definition good :: "('d, 'st) cm \<Rightarrow> bool" where
  "good c \<longleftrightarrow> cm_inv c \<and> m_replacementPolicy c = pol \<and> pinv (replacement_data c) \<and>
     (\<forall>l. in_range c l \<longrightarrow> ok l) \<and> (\<forall>s < m_cache_num_sets c. cands (set_locs (m_cache_assoc c) s))"

lemma goodD:
  assumes "good c"
  shows good_inv: "cm_inv c" and good_pol: "m_replacementPolicy c = pol"
    and good_pinv: "pinv (replacement_data c)" and good_ok: "\<And>l. in_range c l \<Longrightarrow> ok l"
    and good_cands: "\<And>s. s < m_cache_num_sets c \<Longrightarrow> cands (set_locs (m_cache_assoc c) s)"
  using assms by (auto simp: good_def)

lemma alloc_scan_ok:
  assumes "good c" "s < m_cache_num_sets c" "\<forall>i \<in> set is. i < m_cache_assoc c"
    and "\<exists>i \<in> set is. cell c (s, i) = None"
  shows "\<exists>i rd. i < m_cache_assoc c \<and> cell c (s, i) = None \<and> pinv rd \<and>
           alloc_scan now a e s is c =
             Inr ((s, i), (store a s i (alloc_entry now a s i e) c)\<lparr>replacement_data := rd\<rparr>)"
  using assms(3,4)
proof (induction "is")
  case (Cons i "is")
  have r: "in_range c (s, i)" using Cons.prems assms(2) by (simp add: in_range_def)
  have sl: "slot c s i = Inr (cell c (s, i))" using slot_cell[OF good_inv[OF assms(1)] r] .
  show ?case
  proof (cases "cell c (s, i)")
    case None
    obtain rd where rd: "pol_reset pol now (s, i) (replacement_data c) = Inr rd" "pinv rd"
      using reset_total[OF good_pinv[OF assms(1)] good_ok[OF assms(1) r]] by blast
    have "alloc_scan now a e s (i # is) c =
        Inr ((s, i), (store a s i (alloc_entry now a s i e) c)\<lparr>replacement_data := rd\<rparr>)"
      using None sl rd good_pol[OF assms(1)] by (simp add: slot_open_def store_def Let_def)
    thus ?thesis using None rd(2) r by (auto simp: in_range_def)
  next
    case (Some x)
    hence "\<not> slot_open (cell c (s, i))"
      using cm_inv_entry[OF good_inv[OF assms(1)] r] by (simp add: slot_open_def entry_ok_def)
    thus ?thesis using Cons Some sl by simp
  qed
qed simp

lemma allocate_ok:
  assumes "good c" "is_line c a" "cm_abs c a = None" "room c a"
  shows "\<exists>i rd c'. allocate now a e c = Inr ((set_of c a, i), c') \<and>
           c' = (store a (set_of c a) i (alloc_entry now a (set_of c a) i e) c)\<lparr>replacement_data := rd\<rparr> \<and>
           good c' \<and> cm_abs c' = (cm_abs c)(a \<mapsto> alloc_entry now a (set_of c a) i e)"
proof -
  note inv = good_inv[OF assms(1)]
  let ?s = "set_of c a"
  have s: "?s < m_cache_num_sets c" by (simp add: set_of_less cm_inv_shape inv)
  obtain i rd where i: "i < m_cache_assoc c" "cell c (?s, i) = None" "pinv rd"
    "alloc_scan now a e ?s [0..<m_cache_assoc c] c =
       Inr ((?s, i), (store a ?s i (alloc_entry now a ?s i e) c)\<lparr>replacement_data := rd\<rparr>)"
  proof -
    have "\<exists>i \<in> set [0..<m_cache_assoc c]. cell c (?s, i) = None" using assms(4) by (auto simp: room_def)
    from alloc_scan_ok[OF assms(1) s _ this, of now a e] that show thesis by auto
  qed
  have r: "in_range c (?s, i)" using s i(1) by (simp add: in_range_def)
  have tag: "m_tag_index c a = None" using assms(3) cm_abs_None_iff[OF inv] by simp
  have al: "allocate now a e c = alloc_scan now a e ?s [0..<m_cache_assoc c] c"
    using assms inv by (simp add: allocate_def lineR_is_line isTagPresent_inv cacheAvail_inv
        addressToCacheSet_inv)
  note st = store_inv[OF inv assms(2) r i(2) tag, of "alloc_entry now a ?s i e"]
  have fld: "m_replacementPolicy (store a ?s i x c) = m_replacementPolicy c"
    "in_range (store a ?s i x c) = in_range c" "m_cache_num_sets (store a ?s i x c) = m_cache_num_sets c"
    "m_cache_assoc (store a ?s i x c) = m_cache_assoc c" for x by (simp_all add: store_def)
  show ?thesis using al i st assms(1)
    by (intro exI[of _ i] exI[of _ rd]) (auto simp: good_def alloc_entry_def fld)
qed

lemma deallocate_ok:
  assumes "good c" "is_line c a" "cm_abs c a \<noteq> None"
  shows "\<exists>c'. deallocate now a c = Inr c' \<and> good c' \<and> cm_abs c' = (cm_abs c)(a := None) \<and> room c' a \<and>
           is_line c' = is_line c \<and> set_of c' = set_of c"
proof -
  note inv = good_inv[OF assms(1)]
  let ?s = "set_of c a"
  obtain i where i: "m_tag_index c a = Some i" using assms(3) cm_abs_None_iff[OF inv] by auto
  from inv i obtain e where e: "cell c (?s, i) = Some e" "in_range c (?s, i)" "entry_ok c (?s, i) e"
    by (rule cm_inv_tag_entry)
  obtain rd where rd: "pol_invalidate pol now (?s, i) (replacement_data c) = Inr rd" "pinv rd"
    using invalidate_total[OF good_pinv[OF assms(1)] good_ok[OF assms(1) e(2)]] by blast
  let ?c = "(erase a ?s i c)\<lparr>replacement_data := rd\<rparr>"
  have "put_slot ?s i None (c\<lparr>replacement_data := rd\<rparr>) = (put_slot ?s i None c)\<lparr>replacement_data := rd\<rparr>"
    by (simp add: put_slot_def)
  hence d: "deallocate now a c = Inr ?c"
    using e rd inv i assms(2) good_pol[OF assms(1)] slot_cell[OF inv e(2)]
    by (simp add: deallocate_def lookup_inv way_of_def entry_at_def entry_ok_def erase_def Let_def)
  have fld: "m_replacementPolicy (erase a ?s i c) = m_replacementPolicy c"
    "in_range (erase a ?s i c) = in_range c" "m_cache_num_sets (erase a ?s i c) = m_cache_num_sets c"
    "m_cache_assoc (erase a ?s i c) = m_cache_assoc c" "set_of (erase a ?s i c) = set_of c"
    "is_line (erase a ?s i c) = is_line c"
    by (simp_all add: erase_def)
  note er = erase_inv[OF inv i]
  have "good ?c" using er(1) rd(2) assms(1) by (simp add: good_def fld)
  moreover have "room ?c a" using er(3) e(2) by (auto simp: room_def fld in_range_def)
  ultimately show ?thesis using d er(2) by (simp add: fld)
qed

lemma mapR_ok: "(\<And>x. x \<in> set xs \<Longrightarrow> f x = Inr (g x)) \<Longrightarrow> mapR f xs = Inr (map g xs)"
  by (induction xs) auto

lemma cacheProbe_ok:
  assumes "good c" "is_line c a" "cm_abs c a = None" "\<not> room c a"
  shows "\<exists>b c'. cacheProbe c a = Inr (b, c') \<and> good c' \<and> cm_abs c' = cm_abs c \<and>
           cm_abs c b \<noteq> None \<and> is_line c b \<and> set_of c b = set_of c a \<and>
           is_line c' = is_line c \<and> set_of c' = set_of c"
proof -
  note inv = good_inv[OF assms(1)]
  let ?s = "set_of c a" let ?W = "[0..<m_cache_assoc c]"
  have s: "?s < m_cache_num_sets c" by (simp add: set_of_less cm_inv_shape inv)
  have full: "cell c (?s, i) \<noteq> None" if "i < m_cache_assoc c" for i
    using assms(4) that by (auto simp: room_def)
  define ent where "ent i = the (cell c (?s, i))" for i
  have ent: "cell c (?s, i) = Some (ent i)" "in_range c (?s, i)" "entry_ok c (?s, i) (ent i)"
    if "i < m_cache_assoc c" for i
    using full[OF that] that s cm_inv_entry[OF inv, of "(?s, i)" "ent i"]
    by (auto simp: ent_def in_range_def)
  have cs: "mapR (\<lambda>i. entry_at c (?s, i)) ?W = Inr (map ent ?W)"
    using ent slot_cell[OF inv] by (intro mapR_ok) (simp add: entry_at_def)
  have "mapR (\<lambda>e. derefR (replacementData e)) (map ent ?W) =
      Inr (map (\<lambda>e. the (replacementData e)) (map ent ?W))"
    using ent by (intro mapR_ok) (auto simp: entry_ok_def)
  also have "map (\<lambda>e. the (replacementData e)) (map ent ?W) = set_locs (m_cache_assoc c) ?s"
    using ent by (simp add: set_locs_def entry_ok_def)
  finally have locs: "mapR (\<lambda>e. derefR (replacementData e)) (map ent ?W) =
      Inr (set_locs (m_cache_assoc c) ?s)" .
  obtain v rd where v: "pol_getVictim pol (set_locs (m_cache_assoc c) ?s) (replacement_data c) = Inr (v, rd)"
    "v < m_cache_assoc c" "pinv rd"
    using victim_total[OF good_pinv[OF assms(1)] good_cands[OF assms(1) s]] by auto
  have way: "ent_way (ent v) = v" using ent(3)[OF v(2)] by (simp add: entry_ok_def)
  have "cacheProbe c a = Inr (m_Address (ent v), c\<lparr>replacement_data := rd\<rparr>)"
    using assms inv cs locs v way ent(1)[OF v(2)] slot_cell[OF inv ent(2)[OF v(2)]] good_pol[OF assms(1)]
    by (simp add: cacheProbe_def lineR_is_line cacheAvail_inv addressToCacheSet_inv entry_at_def)
  moreover have "good (c\<lparr>replacement_data := rd\<rparr>)" using assms(1) v(3) by (simp add: good_def)
  moreover have "cm_abs c (m_Address (ent v)) \<noteq> None"
    using ent(3)[OF v(2)] by (simp add: cm_abs_None_iff[OF inv] entry_ok_def)
  ultimately show ?thesis using ent(3)[OF v(2)] by (auto simp: entry_ok_def)
qed

lemma touch_entry_ok:
  assumes "good c" "m_tag_index c a = Some i"
  shows "\<exists>c'. touch_entry now (set_of c a, i) c = Inr c' \<and> good c' \<and>
           cm_abs c' = (cm_abs c)(a := map_option (\<lambda>e. e\<lparr>m_last_touch_tick := now\<rparr>) (cm_abs c a)) \<and>
           m_tag_index c' = m_tag_index c"
proof -
  note inv = good_inv[OF assms(1)]
  let ?s = "set_of c a" let ?f = "\<lambda>e. e\<lparr>m_last_touch_tick := now\<rparr>"
  from inv assms(2) obtain e where e: "cell c (?s, i) = Some e" "in_range c (?s, i)"
    "entry_ok c (?s, i) e" by (rule cm_inv_tag_entry)
  obtain rd where rd: "pol_touch pol now (?s, i) (replacement_data c) = Inr rd" "pinv rd"
    using touch_total[OF good_pinv[OF assms(1)] good_ok[OF assms(1) e(2)]] by blast
  have k: "identity_kept ?f" by (simp add: identity_kept_def)
  let ?c = "c\<lparr>replacement_data := rd\<rparr>"
  have inv': "cm_inv ?c" "m_tag_index ?c a = Some i" using inv assms(2) by simp_all
  note u = upd_entry_inv[OF inv' k]
  have t: "touch_entry now (?s, i) c = Inr (upd_entry (?s, i) ?f ?c)"
    using e rd slot_cell[OF inv e(2)] good_pol[OF assms(1)]
    by (simp add: touch_entry_def entry_at_def entry_ok_def)
  have "in_range (upd_entry (?s, i) ?f ?c) = in_range c"
    "m_replacementPolicy (upd_entry (?s, i) ?f ?c) = pol"
    "replacement_data (upd_entry (?s, i) ?f ?c) = rd"
    "m_cache_num_sets (upd_entry (?s, i) ?f ?c) = m_cache_num_sets c"
    "m_cache_assoc (upd_entry (?s, i) ?f ?c) = m_cache_assoc c"
    using good_pol[OF assms(1)] by (simp_all add: upd_entry_def)
  hence "good (upd_entry (?s, i) ?f ?c)" using u(1) rd(2) assms(1) by (simp add: good_def)
  thus ?thesis using t u(2,3) by simp
qed

end

section \<open>The cache with tree pseudo-LRU replacement\<close>

definition plru_cache :: "nat \<Rightarrow> nat \<Rightarrow> nat \<Rightarrow> ('d, plru_state) cm \<Rightarrow> bool" where
  "plru_cache S L bsb c \<longleftrightarrow> cm_inv c \<and> m_replacementPolicy c = TreePLRU_policy \<and>
     m_cache_num_sets c = S \<and> m_cache_assoc c = L \<and> plru_inv S L (replacement_data c) \<and>
     rs_block_bits c = bsb"

lemma plru_cache_good:
  "plru_cache S L bsb c \<Longrightarrow> plru.good S L c"
  by (auto simp: plru_cache_def plru.good_def in_range_def plru_ok_def)

lemma good_plru_cache:
  "plru.good S L c \<Longrightarrow> m_cache_num_sets c = S \<Longrightarrow> m_cache_assoc c = L \<Longrightarrow> rs_block_bits c = bsb \<Longrightarrow>
     plru_cache S L bsb c"
  by (auto simp: plru_cache_def plru.good_def)

definition line_addr :: "nat \<Rightarrow> addr \<Rightarrow> bool" where
  "line_addr bsb a \<longleftrightarrow> a = makeLineAddress bsb a"

lemma plru_cache_line: "plru_cache S L bsb c \<Longrightarrow> line_addr bsb a \<Longrightarrow> is_line c a"
  by (simp add: plru_cache_def line_addr_def is_line_def)

lemma store_erase_fields [simp]:
  "rs_block_bits (store a s i e c) = rs_block_bits c"
  "m_cache_num_sets (store a s i e c) = m_cache_num_sets c"
  "m_cache_assoc (store a s i e c) = m_cache_assoc c"
  "set_of (store a s i e c) = set_of c"
  "rs_block_bits (put_slot s i p c) = rs_block_bits c"
  by (simp_all add: store_def put_slot_def set_of_def fun_eq_iff)

lemma deallocate_fields:
  "deallocate now a c = Inr c' \<Longrightarrow> rs_block_bits c' = rs_block_bits c \<and>
     m_cache_num_sets c' = m_cache_num_sets c \<and> m_cache_assoc c' = m_cache_assoc c"
  by (auto simp: deallocate_def fault_simps Let_def)

lemma cacheProbe_fields:
  "cacheProbe c a = Inr (b, c') \<Longrightarrow> rs_block_bits c' = rs_block_bits c \<and>
     m_cache_num_sets c' = m_cache_num_sets c \<and> m_cache_assoc c' = m_cache_assoc c"
  by (auto simp: cacheProbe_def lineR_def fault_simps)

lemma plru_allocate:
  assumes "plru_cache S L bsb c" "line_addr bsb a" "cm_abs c a = None" "room c a"
  shows "\<exists>i c'. allocate now a e c = Inr ((set_of c a, i), c') \<and> plru_cache S L bsb c' \<and>
           cm_abs c' = (cm_abs c)(a \<mapsto> alloc_entry now a (set_of c a) i e) \<and> set_of c' = set_of c"
proof -
  have d: "m_cache_num_sets c = S" "m_cache_assoc c = L" "rs_block_bits c = bsb"
    using assms(1) by (simp_all add: plru_cache_def)
  show ?thesis
    using plru.allocate_ok[OF plru_cache_good[OF assms(1)] plru_cache_line[OF assms(1,2)] assms(3,4),
        of now e] good_plru_cache[of S L _ bsb] d by fastforce
qed

lemma plru_deallocate:
  assumes "plru_cache S L bsb c" "line_addr bsb a" "cm_abs c a \<noteq> None"
  shows "\<exists>c'. deallocate now a c = Inr c' \<and> plru_cache S L bsb c' \<and>
           cm_abs c' = (cm_abs c)(a := None) \<and> room c' a \<and> set_of c' = set_of c"
proof -
  have d: "m_cache_num_sets c = S" "m_cache_assoc c = L" "rs_block_bits c = bsb"
    using assms(1) by (simp_all add: plru_cache_def)
  obtain c' where c': "deallocate now a c = Inr c'" "plru.good S L c'"
    "cm_abs c' = (cm_abs c)(a := None)" "room c' a" "set_of c' = set_of c"
    using plru.deallocate_ok[OF plru_cache_good[OF assms(1)] plru_cache_line[OF assms(1,2)] assms(3)]
    by blast
  thus ?thesis using good_plru_cache[OF c'(2)] deallocate_fields[OF c'(1)] d by auto
qed

lemma plru_avail:
  assumes "plru_cache S L bsb c" "line_addr bsb a"
  shows "cacheAvail c a = Inr (room c a \<or> cm_abs c a \<noteq> None)"
    and "isTagPresent c a = Inr (cm_abs c a \<noteq> None)"
  using cacheAvail_inv isTagPresent_inv plru_cache_line[OF assms] assms(1)
  by (auto simp: plru_cache_def)

definition alloc_op :: "tick \<Rightarrow> 'd CacheEntry \<Rightarrow> addr \<Rightarrow> ('d, 'st) cm \<Rightarrow> ('d, 'st) cm res" where
  "alloc_op now e a c = bindR (allocate now a e c) (\<lambda>p. Inr (snd p))"

interpretation cm: tag_store "plru_cache S L bsb" "line_addr bsb" "\<lambda>c. dom (cm_abs c)"
    isTagPresent cacheAvail "alloc_op now e" "deallocate now" for S L bsb now and e :: "'d CacheEntry"
proof unfold_locales
  fix c :: "('d, plru_state) cm" and a
  assume a: "plru_cache S L bsb c" "line_addr bsb a"
  show "isTagPresent c a = Inr (a \<in> dom (cm_abs c))" using plru_avail(2)[OF a] by (simp add: dom_def)
  show "\<exists>b. cacheAvail c a = Inr b" using plru_avail(1)[OF a] by blast
  show "\<exists>c'. alloc_op now e a c = Inr c' \<and> plru_cache S L bsb c' \<and> dom (cm_abs c') = insert a (dom (cm_abs c))"
    if "a \<notin> dom (cm_abs c)" "cacheAvail c a = Inr True"
  proof -
    have n: "cm_abs c a = None" "room c a" using that plru_avail(1)[OF a] by (auto simp: dom_def)
    from plru_allocate[OF a n, of now e] show ?thesis by (auto simp: alloc_op_def)
  qed
  show "\<exists>c'. deallocate now a c = Inr c' \<and> plru_cache S L bsb c' \<and> dom (cm_abs c') = dom (cm_abs c) - {a}"
    if "a \<in> dom (cm_abs c)"
    using plru_deallocate[OF a, of now] that by (auto simp: dom_def)
qed

section \<open>Initialisation\<close>

definition empty_stats :: cache_stats where
  "empty_stats = \<lparr>numDataArrayReads = 0, numDataArrayWrites = 0, numTagArrayReads = 0,
     numTagArrayWrites = 0, numTagArrayStalls = 0, numDataArrayStalls = 0,
     numAtomicALUOperations = 0, numAtomicALUArrayStalls = 0, htmTransCommitReadSet = [],
     htmTransCommitWriteSet = [], htmTransAbortReadSet = [], htmTransAbortWriteSet = [],
     m_demand_hits = 0, m_demand_misses = 0, m_prefetch_hits = 0, m_prefetch_misses = 0\<rparr>"

lemma init_empty_inv:
  assumes "0 < b" "2 ^ b \<le> sets" "m_tag_index c = Map.empty"
  shows "cm_inv (c\<lparr>m_block_size := bs, m_cache_num_sets := sets, m_cache_num_set_bits := b,
           m_cache := replicate sets (replicate (m_cache_assoc c) None), replacement_data := rd\<rparr>)"
    (is "cm_inv ?c")
proof -
  have "cm_shape ?c" using assms by (simp add: cm_shape_def)
  moreover have "cell ?c l = None" if "in_range ?c l" for l
    using that by (simp add: cell_def in_range_def)
  ultimately show ?thesis using assms(3) by (simp add: cm_inv_def)
qed

lemma plru_init:
  assumes "TreePLRU_new (m_cache_assoc c) = Inr (replacement_data c)" "2 \<le> m_cache_assoc c"
    and "m_replacementPolicy c = TreePLRU_policy" "m_tag_index c = Map.empty"
    and "m_cache_size c < 2 ^ 31"
    and "bs = (if m_block_size c = 0 then 2 ^ rs_block_bits c else m_block_size c)"
    and "sets = m_cache_size c div m_cache_assoc c div bs" "1 < sets"
  shows "\<exists>c'. CacheMemory_init c = Inr c' \<and> plru_cache sets (m_cache_assoc c) (rs_block_bits c) c' \<and>
           cm_abs c' = Map.empty"
proof -
  have bs: "bs \<noteq> 0" "m_cache_assoc c \<noteq> 0" using assms(2,7,8) by (auto simp: assms(6) intro: ccontr)
  have "sets \<le> m_cache_size c div m_cache_assoc c" unfolding assms(7) by (rule div_le_dividend)
  hence le: "sets \<le> m_cache_size c" by (rule order_trans) (rule div_le_dividend)
  have "m_cache_size c div m_cache_assoc c \<noteq> 0"
  proof
    assume "m_cache_size c div m_cache_assoc c = 0"
    hence "sets = 0" by (simp add: assms(7))
    thus False using assms(8) by simp
  qed
  hence la: "m_cache_assoc c \<le> m_cache_size c" by (meson div_less not_le)
  have "int sets < 2 ^ 32" using le assms(5) by simp
  then obtain b where b: "floorLog2 4 (int sets) = Inr b" "2 ^ b \<le> sets" "sets < 2 ^ (b + 1)"
    using floorLog2_bounds[of 4 "int sets"] assms(8) by auto
  have b0: "0 < b" using b(3) assms(8) by (cases b) auto
  let ?rd = "fold TreePLRU_instantiateEntry (concat (map (set_locs (m_cache_assoc c)) [0..<sets]))
      (replacement_data c)"
  let ?c = "c\<lparr>m_block_size := bs, m_cache_num_sets := sets, m_cache_num_set_bits := b,
           m_cache := replicate sets (replicate (m_cache_assoc c) None), replacement_data := ?rd\<rparr>"
  have "CacheMemory_init c = Inr ?c"
    using bs b b0 assms by (simp add: CacheMemory_init_def Let_def TreePLRU_policy_def)
  moreover have "plru_inv sets (m_cache_assoc c) ?rd"
    using la assms(5) by (intro plru_init_inv[OF assms(1,2)]) simp
  moreover have "cm_inv ?c" using b0 b(2) assms(4) by (rule init_empty_inv)
  ultimately show ?thesis using assms(3,4)
    by (auto simp: plru_cache_def cm_abs_def fun_eq_iff)
qed

section \<open>Properties\<close>

definition cache_demo :: "(nat, plru_state) cm" where
  "cache_demo = \<lparr>m_is_instruction_only_cache = False, m_tag_index = Map.empty, m_cache = [],
     m_replacementPolicy = TreePLRU_policy,
     replacement_data = \<lparr>numLeaves = 2, plru_count = 0, treeInstance = 0, trees = (\<lambda>_. []),
       repl_index = (\<lambda>_. 0), repl_tree = (\<lambda>_. 0)\<rparr>,
     dataArray = ba_demo, tagArray = ba_demo, atomicALUArray = ALUFreeListArray_new 4 0,
     m_cache_size = 256, m_cache_num_sets = 0, m_cache_num_set_bits = 0, m_cache_assoc = 2,
     m_start_index_bit = 6, m_resource_stalls = True, m_block_size = 0,
     m_use_occupancy = False, rs_block_bits = 6, cacheMemoryStats = empty_stats\<rparr>"

lemma demo_init:
  "\<exists>c'. CacheMemory_init cache_demo = Inr c' \<and> plru_cache 2 2 6 c' \<and> cm_abs c' = Map.empty"
proof -
  have p: "isPowerOf2 2" by (simp add: isPowerOf2_def)
  have f: "m_cache_assoc cache_demo = 2" "rs_block_bits cache_demo = 6" "m_block_size cache_demo = 0"
    "m_cache_size cache_demo = 256" "m_tag_index cache_demo = Map.empty"
    "m_replacementPolicy cache_demo = TreePLRU_policy"
    "TreePLRU_new 2 = Inr (replacement_data cache_demo)"
    using p by (simp_all add: cache_demo_def TreePLRU_new_def)
  have "\<exists>c'. CacheMemory_init cache_demo = Inr c' \<and>
      plru_cache 2 (m_cache_assoc cache_demo) (rs_block_bits cache_demo) c' \<and> cm_abs c' = Map.empty"
    by (rule plru_init[where bs = 64]) (simp_all only: f, simp_all)
  thus ?thesis by (simp only: f)
qed

lemma room_empty:
  assumes "plru_cache S L bsb c" "cm_abs c = Map.empty"
  shows "room c a"
proof -
  have i: "cm_inv c" "0 < m_cache_assoc c" using assms(1) by (auto simp: plru_cache_def plru_inv_def)
  have r: "in_range c (set_of c a, 0)" using i set_of_less[of c a] by (simp add: in_range_def cm_inv_shape)
  have "cell c (set_of c a, 0) = None"
  proof (rule ccontr)
    assume "cell c (set_of c a, 0) \<noteq> None"
    then obtain e where "cell c (set_of c a, 0) = Some e" by blast
    from tag_in_cell(1)[OF i(1) r this] have "cm_abs c (m_Address e) \<noteq> None"
      by (simp add: cm_abs_None_iff[OF i(1)])
    thus False using assms(2) by simp
  qed
  thus ?thesis using i(2) by (auto simp: room_def)
qed

lemma demo_cache:
  obtains c where "CacheMemory_init cache_demo = Inr c" "plru_cache 2 2 6 c" "cm_abs c = Map.empty"
    "room c 64" "line_addr 6 64" "line_addr 6 192"
proof -
  obtain c where c: "CacheMemory_init cache_demo = Inr c" "plru_cache 2 2 6 c" "cm_abs c = Map.empty"
    using demo_init by blast
  have "line_addr 6 64" "line_addr 6 192"
    by (simp_all add: line_addr_def makeLineAddress_def mbits_def mask64_def)
  thus thesis using that[OF c room_empty[OF c(2,3)]] by blast
qed

text \<open>
  C24. Initialisation: for every cache with tree pseudo-LRU replacement whose number of
  leaves is the associativity, of at least two ways and smaller than 2 GiB,
  \<^verbatim>\<open>CacheMemory::init\<close> succeeds when the size gives at least two sets, and yields an empty
  cache that satisfies the cache invariant (tag index, positions, replacement data and trees
  consistent). The block size is the configured one or, when that is zero, the block size of
  the Ruby system, and it is the one the initialised cache has.
\<close>
theorem cache_init_establishes_invariant:
  assumes "TreePLRU_new (m_cache_assoc c) = Inr (replacement_data c)" "2 \<le> m_cache_assoc c"
    and "m_replacementPolicy c = TreePLRU_policy" "m_tag_index c = Map.empty"
    and "m_cache_size c < 2 ^ 31"
    and "bs = (if m_block_size c = 0 then 2 ^ rs_block_bits c else m_block_size c)"
    and "sets = m_cache_size c div m_cache_assoc c div bs" "1 < sets"
  shows "\<exists>c'. CacheMemory_init c = Inr c' \<and> plru_cache sets (m_cache_assoc c) (rs_block_bits c) c' \<and>
           cm_abs c' = Map.empty \<and> m_block_size c' = bs"
proof -
  obtain c' where c': "CacheMemory_init c = Inr c'" "plru_cache sets (m_cache_assoc c) (rs_block_bits c) c'"
    "cm_abs c' = Map.empty" using plru_init[OF assms] by blast
  moreover have "m_block_size c' = bs"
    using c'(1) unfolding assms(6) by (auto simp: CacheMemory_init_def Let_def fault_simps split: if_splits)
  ultimately show ?thesis by blast
qed

theorem cache_init_establishes_invariant_witness:
  "\<exists>c'. CacheMemory_init cache_demo = Inr c' \<and> plru_cache 2 2 6 c' \<and> cm_abs c' = Map.empty \<and>
     m_block_size cache_demo = 0 \<and> m_block_size c' = 64"
proof -
  have p: "isPowerOf2 2" by (simp add: isPowerOf2_def)
  have f: "m_cache_assoc cache_demo = 2" "rs_block_bits cache_demo = 6" "m_block_size cache_demo = 0"
    "m_cache_size cache_demo = 256" "m_tag_index cache_demo = Map.empty"
    "m_replacementPolicy cache_demo = TreePLRU_policy" "TreePLRU_new 2 = Inr (replacement_data cache_demo)"
    using p by (simp_all add: cache_demo_def TreePLRU_new_def)
  have "\<exists>c'. CacheMemory_init cache_demo = Inr c' \<and>
      plru_cache 2 (m_cache_assoc cache_demo) (rs_block_bits cache_demo) c' \<and> cm_abs c' = Map.empty \<and>
      m_block_size c' = 64"
    by (rule cache_init_establishes_invariant[of _ 64 2]) (simp_all only: f, simp_all)
  thus ?thesis by (simp only: f simp_thms)
qed

text \<open>
  C6. Allocation refines map update: when the address is absent and \<^verbatim>\<open>cacheAvail\<close> reports
  room, \<^verbatim>\<open>allocate\<close> succeeds and keeps the invariant, the address is then found by
  \<^verbatim>\<open>lookup\<close> at the way returned, and no other address gains, loses or changes its entry.
\<close>
theorem cache_allocate_refines_update:
  assumes "plru_cache S L bsb c" "line_addr bsb a"
    and "isTagPresent c a = Inr False" "cacheAvail c a = Inr True"
  shows "\<exists>i c'. allocate now a e c = Inr ((set_of c a, i), c') \<and> plru_cache S L bsb c' \<and>
           lookup c' a = Inr (Some (set_of c a, i)) \<and>
           cm_abs c' = (cm_abs c)(a \<mapsto> alloc_entry now a (set_of c a) i e)"
proof -
  have n: "cm_abs c a = None" "room c a" using assms plru_avail[OF assms(1,2)] by auto
  obtain i c' where c': "allocate now a e c = Inr ((set_of c a, i), c')" "plru_cache S L bsb c'"
    "cm_abs c' = (cm_abs c)(a \<mapsto> alloc_entry now a (set_of c a) i e)"
    using plru_allocate[OF assms(1,2) n, of now e] by blast
  have inv: "cm_inv c'" and l: "is_line c' a"
    using c'(2) plru_cache_line[OF c'(2) assms(2)] by (auto simp: plru_cache_def)
  obtain w where w: "m_tag_index c' a = Some w"
    using c'(3) cm_abs_None_iff[OF inv, of a] by auto
  from inv w obtain x where x: "cell c' (set_of c' a, w) = Some x" "entry_ok c' (set_of c' a, w) x"
    by (rule cm_inv_tag_entry)
  have "cm_abs c' a = Some x" using x(1) w by (simp add: cm_abs_def)
  hence "x = alloc_entry now a (set_of c a) i e" using c'(3) by simp
  hence "set_of c' a = set_of c a \<and> w = i" using x(2) by (simp add: entry_ok_def alloc_entry_def)
  thus ?thesis using c' w lookup_inv[OF inv l] by (auto simp: way_of_def)
qed

theorem cache_allocate_refines_update_witness:
  "\<exists>c i c'. CacheMemory_init cache_demo = Inr c \<and>
     allocate 5 64 (CacheEntry_new 7) c = Inr ((set_of c 64, i), c') \<and>
     lookup c' 64 = Inr (Some (set_of c 64, i))"
proof -
  obtain c where c: "CacheMemory_init cache_demo = Inr c" "plru_cache 2 2 6 c" "cm_abs c = Map.empty"
    "room c 64" "line_addr 6 64" by (rule demo_cache)
  have "isTagPresent c 64 = Inr False" "cacheAvail c 64 = Inr True"
    using plru_avail[OF c(2,5)] c(3,4) by auto
  from cache_allocate_refines_update[OF c(2,5) this, of 5 "CacheEntry_new 7"] c(1)
  show ?thesis by blast
qed

text \<open>
  C15. Replacement makes room: when the address is absent and its set is full,
  \<^verbatim>\<open>cacheProbe\<close> returns the address of a line that is present in the same set;
  deallocating that line succeeds, and then \<^verbatim>\<open>cacheAvail\<close> holds and the allocation of the
  new address succeeds.
\<close>
theorem cache_probe_evict_allocate:
  assumes "plru_cache S L bsb c" "line_addr bsb a" "cacheAvail c a = Inr False"
  shows "\<exists>b c1 c2 i c3. cacheProbe c a = Inr (b, c1) \<and> line_addr bsb b \<and> b \<noteq> a \<and>
           set_of c b = set_of c a \<and> isTagPresent c1 b = Inr True \<and>
           deallocate now b c1 = Inr c2 \<and> cacheAvail c2 a = Inr True \<and>
           allocate now a e c2 = Inr ((set_of c a, i), c3) \<and> plru_cache S L bsb c3 \<and>
           cm_abs c3 = (cm_abs c)(b := None, a \<mapsto> alloc_entry now a (set_of c a) i e)"
proof -
  have d: "m_cache_num_sets c = S" "m_cache_assoc c = L" "rs_block_bits c = bsb"
    using assms(1) by (simp_all add: plru_cache_def)
  have n: "cm_abs c a = None" "\<not> room c a" using assms plru_avail[OF assms(1,2)] by auto
  obtain b c1 where c1: "cacheProbe c a = Inr (b, c1)" "plru.good S L c1" "cm_abs c1 = cm_abs c"
    "cm_abs c b \<noteq> None" "is_line c b" "set_of c b = set_of c a" "set_of c1 = set_of c"
    using plru.cacheProbe_ok[OF plru_cache_good[OF assms(1)] plru_cache_line[OF assms(1,2)] n] by blast
  have b: "line_addr bsb b" "b \<noteq> a" using c1(4,5) d n by (auto simp: is_line_def line_addr_def)
  have p1: "plru_cache S L bsb c1" using good_plru_cache[OF c1(2)] cacheProbe_fields[OF c1(1)] d by simp
  have pr: "isTagPresent c1 b = Inr True" using plru_avail(2)[OF p1 b(1)] c1(3,4) by simp
  have "cm_abs c1 b \<noteq> None" using c1(3,4) by simp
  from plru_deallocate[OF p1 b(1) this, of now] obtain c2 where c2: "deallocate now b c1 = Inr c2"
    "plru_cache S L bsb c2" "cm_abs c2 = (cm_abs c1)(b := None)" "room c2 b" "set_of c2 = set_of c1"
    by blast
  have r: "room c2 a" using c2(4,5) c1(6,7) by (simp add: room_def)
  have n2: "cm_abs c2 a = None" using c2(3) c1(3) n(1) by simp
  have av: "cacheAvail c2 a = Inr True" using plru_avail(1)[OF c2(2) assms(2)] r by simp
  from plru_allocate[OF c2(2) assms(2) n2 r, of now e] c2(3,5) c1(3,7)
  obtain i c3 where "allocate now a e c2 = Inr ((set_of c a, i), c3)" "plru_cache S L bsb c3"
    "cm_abs c3 = (cm_abs c)(b := None, a \<mapsto> alloc_entry now a (set_of c a) i e)" by auto
  thus ?thesis using c1(1,6) b pr c2(1) av by blast
qed

lemma two_way_full:
  assumes "plru_cache S 2 bsb c" "cm_abs c a1 \<noteq> None" "cm_abs c a2 \<noteq> None" "a1 \<noteq> a2"
    and "set_of c a1 = set_of c a" "set_of c a2 = set_of c a"
  shows "\<not> room c a"
proof -
  have inv: "cm_inv c" and L: "m_cache_assoc c = 2" using assms(1) by (auto simp: plru_cache_def)
  obtain w1 w2 where w: "m_tag_index c a1 = Some w1" "m_tag_index c a2 = Some w2"
    using assms(2,3) cm_abs_None_iff[OF inv] by auto
  note t1 = cm_inv_tag[OF inv w(1)] and t2 = cm_inv_tag[OF inv w(2)]
  have "w1 \<noteq> w2" using t1 t2 assms(4-6) by auto
  moreover have "w1 < 2" "w2 < 2" using t1 t2 L by (auto simp: in_range_def)
  ultimately have "i = w1 \<or> i = w2" if "i < 2" for i using that by linarith
  thus ?thesis using t1 t2 assms(5,6) L by (force simp: room_def)
qed

lemma two_way_room:
  assumes "plru_cache S 2 bsb c" "\<And>b. cm_abs c b \<noteq> None \<Longrightarrow> b = a1"
  shows "room c a"
proof -
  have inv: "cm_inv c" and L: "m_cache_assoc c = 2" using assms(1) by (auto simp: plru_cache_def)
  define i :: nat where "i = (if m_tag_index c a1 = Some 0 then 1 else 0)"
  have r: "in_range c (set_of c a, i)"
    using L set_of_less[OF cm_inv_shape[OF inv], of a] by (simp add: in_range_def i_def)
  have "cell c (set_of c a, i) = None"
  proof (rule ccontr)
    assume "cell c (set_of c a, i) \<noteq> None"
    then obtain e where e: "cell c (set_of c a, i) = Some e" by blast
    have t: "m_tag_index c (m_Address e) = Some i" using tag_in_cell(1)[OF inv r e] by simp
    hence "cm_abs c (m_Address e) \<noteq> None" using cm_abs_None_iff[OF inv] by simp
    hence "m_tag_index c a1 = Some i" using assms(2) t by blast
    thus False by (simp add: i_def split: if_splits)
  qed
  moreover have "i < m_cache_assoc c" by (simp add: i_def L)
  ultimately show ?thesis by (auto simp: room_def)
qed

theorem cache_probe_evict_allocate_witness:
  "\<exists>c b c1 c2 i c3. plru_cache 2 2 6 c \<and> cacheAvail c 320 = Inr False \<and>
     cacheProbe c 320 = Inr (b, c1) \<and> deallocate 9 b c1 = Inr c2 \<and>
     allocate 9 320 (CacheEntry_new (7 :: nat)) c2 = Inr ((set_of c 320, i), c3)"
proof -
  obtain c where c: "CacheMemory_init cache_demo = Inr c" "plru_cache 2 2 6 c" "cm_abs c = Map.empty"
    "room c 64" "line_addr 6 64" "line_addr 6 192" by (rule demo_cache)
  have l: "line_addr 6 320" by (simp add: line_addr_def makeLineAddress_def mbits_def mask64_def)
  have st: "m_start_index_bit c = 6"
    using c(1) by (auto simp: CacheMemory_init_def Let_def fault_simps cache_demo_def split: if_splits)
  have "0 < m_cache_num_set_bits c" "2 ^ m_cache_num_set_bits c \<le> (2 :: nat) ^ 1"
    using c(2) by (auto simp: plru_cache_def cm_inv_def cm_shape_def)
  hence bt: "m_cache_num_set_bits c = 1"
    using power_le_imp_le_exp[of "2 :: nat" "m_cache_num_set_bits c" 1] by simp
  have so: "set_of c 64 = 1" "set_of c 192 = 1" "set_of c 320 = 1"
    by (simp_all add: set_of_def st bt drop_bit_eq_div take_bit_eq_mod)
  have n: "cm_abs c 64 = None" using c(3) by simp
  obtain i1 c1 where c1: "plru_cache 2 2 6 c1" "set_of c1 = set_of c"
    "cm_abs c1 = (cm_abs c)(64 \<mapsto> alloc_entry 5 64 (set_of c 64) i1 (CacheEntry_new (7 :: nat)))"
    using plru_allocate[OF c(2,5) n c(4), of 5 "CacheEntry_new 7"] by blast
  have n1: "cm_abs c1 192 = None" using c1(3) c(3) by simp
  have r1: "room c1 192" by (rule two_way_room[OF c1(1), of 64]) (use c1(3) c(3) in \<open>auto split: if_splits\<close>)
  obtain i2 c2 where c2: "plru_cache 2 2 6 c2" "set_of c2 = set_of c1"
    "cm_abs c2 = (cm_abs c1)(192 \<mapsto> alloc_entry 6 192 (set_of c1 192) i2 (CacheEntry_new (8 :: nat)))"
    using plru_allocate[OF c1(1) c(6) n1 r1, of 6 "CacheEntry_new 8"] by blast
  have "\<not> room c2 320"
    by (rule two_way_full[OF c2(1), of 64 192]) (use c2(2,3) c1(2,3) so in simp_all)
  hence av: "cacheAvail c2 320 = Inr False" using plru_avail(1)[OF c2(1) l] c2(3) c1(3) c(3) by simp
  from cache_probe_evict_allocate[OF c2(1) l av, of 9 "CacheEntry_new 7"] c2(1) av
  show ?thesis by blast
qed

definition cache_step :: "tick \<Rightarrow> 'd CacheEntry \<Rightarrow> ts_op \<Rightarrow> ('d, 'st) cm \<Rightarrow> ('d, 'st) cm res" where
  "cache_step now e x c = (case x of
     Alloc a \<Rightarrow> bindR (isTagPresent c a) (\<lambda>p. if p then Inr c
       else bindR (cacheAvail c a) (\<lambda>r. if r then alloc_op now e a c else Inr c))
   | Dealloc a \<Rightarrow> bindR (isTagPresent c a) (\<lambda>p. if p then deallocate now a c else Inr c))"

lemma cache_step_ts: "cm.ts_step now e = cache_step now e"
proof (intro ext)
  fix x c show "cm.ts_step now e x c = cache_step now e x c"
    by (cases x) (simp_all add: cache_step_def)
qed

text \<open>
  C1. Guarded use never faults: any sequence of allocations (when the address is absent and
  \<^verbatim>\<open>cacheAvail\<close> holds) and deallocations (when it is present) runs without an assertion
  failure, a panic or an invalid access, keeps the invariant, and changes the set of
  addresses held as a trace of the abstract set machine.
\<close>
theorem cache_guarded_run_refines_set:
  assumes "plru_cache S L bsb c" "\<forall>x \<in> set xs. line_addr bsb (ts_addr x)"
  shows "\<exists>c'. foldR (cache_step now e) xs c = Inr c' \<and> plru_cache S L bsb c' \<and>
           ts_trace xs (dom (cm_abs c)) (dom (cm_abs c'))"
  using cm.ts_run_trace[OF assms, of now e] unfolding cache_step_ts .

theorem cache_guarded_run_refines_set_witness:
  "\<exists>c c'. CacheMemory_init cache_demo = Inr c \<and>
     foldR (cache_step 5 (CacheEntry_new 7)) [Alloc 64, Alloc 192, Dealloc 64] c = Inr c' \<and>
     plru_cache 2 2 6 c' \<and> ts_trace [Alloc 64, Alloc 192, Dealloc 64] {} (dom (cm_abs c'))"
proof -
  obtain c where c: "CacheMemory_init cache_demo = Inr c" "plru_cache 2 2 6 c" "cm_abs c = Map.empty"
    "line_addr 6 64" "line_addr 6 192" by (rule demo_cache)
  have l: "\<forall>x \<in> set [Alloc 64, Alloc 192, Dealloc 64]. line_addr 6 (ts_addr x)" using c(4,5) by simp
  from cache_guarded_run_refines_set[OF c(2) l, of 5 "CacheEntry_new 7"] c(1,3)
  show ?thesis by auto
qed

section \<open>Locks and transactions\<close>

lemma map_entries_cell:
  "cm_shape c \<Longrightarrow> in_range c l \<Longrightarrow> cell (map_entries f c) l = map_option f (cell c l)"
  by (cases l) (simp add: map_entries_def cell_def in_range_def cm_shape_def)

lemma map_entries_fields [simp]:
  "set_of (map_entries f c) = set_of c" "is_line (map_entries f c) = is_line c"
  "in_range (map_entries f c) = in_range c" "m_tag_index (map_entries f c) = m_tag_index c"
  "m_cache_assoc (map_entries f c) = m_cache_assoc c"
  by (auto simp: map_entries_def set_of_def is_line_def in_range_def fun_eq_iff)

lemma map_entries_inv [invar_intros]:
  assumes "cm_inv c" "identity_kept f"
  shows "cm_inv (map_entries f c)" and "cm_abs (map_entries f c) a = map_option f (cm_abs c a)"
proof -
  note shp = cm_inv_shape[OF assms(1)]
  have shp': "cm_shape (map_entries f c)" using shp by (auto simp: cm_shape_def map_entries_def)
  have ent: "entry_ok (map_entries f c) l x" if l: "in_range c l" "cell (map_entries f c) l = Some x" for l x
  proof -
    obtain y where y: "cell c l = Some y" "x = f y" using l map_entries_cell[OF shp l(1), of f] by auto
    thus ?thesis using cm_inv_entry[OF assms(1) l(1) y(1)] assms(2)
      by (simp add: entry_ok_def identity_kept_def)
  qed
  have idx: "\<exists>x. cell (map_entries f c) (set_of c b, w) = Some x \<and> m_Address x = b"
    if tg: "m_tag_index c b = Some w" for b w
  proof -
    obtain y where y: "cell c (set_of c b, w) = Some y" "m_Address y = b" "in_range c (set_of c b, w)"
      using cm_inv_tag[OF assms(1) tg] by blast
    thus ?thesis using map_entries_cell[OF shp y(3), of f] assms(2) by (simp add: identity_kept_def)
  qed
  show "cm_inv (map_entries f c)" unfolding cm_inv_def
    using shp' ent idx cm_inv_tag[OF assms(1)] by (auto simp: in_range_def)
  show "cm_abs (map_entries f c) a = map_option f (cm_abs c a)"
  proof (cases "m_tag_index c a")
    case (Some w)
    thus ?thesis using cm_inv_tag[OF assms(1) Some] map_entries_cell[OF shp, of "(set_of c a, w)" f]
      by (simp add: cm_abs_def)
  qed (simp add: cm_abs_def)
qed

lemma bump_abs [simp]: "cm_inv (bump f c) = cm_inv c" "cm_abs (bump f c) = cm_abs c"
proof -
  have d: "cm_shape (bump f c) = cm_shape c" "in_range (bump f c) = in_range c" "cell (bump f c) = cell c"
    "set_of (bump f c) = set_of c" "is_line (bump f c) = is_line c" "m_tag_index (bump f c) = m_tag_index c"
    "m_cache_assoc (bump f c) = m_cache_assoc c"
    by (auto simp: bump_def cm_shape_def in_range_def cell_def set_of_def is_line_def fun_eq_iff)
  show "cm_inv (bump f c) = cm_inv c" unfolding cm_inv_def entry_ok_def d ..
  show "cm_abs (bump f c) = cm_abs c" unfolding cm_abs_def d ..
qed

text \<open>
  \<^verbatim>\<open>clearLockedAll\<close> releases exactly the locks of the given context, and
  \<^verbatim>\<open>htmCommitTransaction\<close> empties the read and write sets and releases all locks; both
  keep the invariant, the set of addresses held, and every other field of every entry.
\<close>
theorem cache_lock_release_exact:
  assumes "cm_inv c"
  shows "cm_inv (clearLockedAll ctx c) \<and> cm_inv (htmCommitTransaction c) \<and>
     (\<forall>a. cm_abs (clearLockedAll ctx c) a =
        map_option (\<lambda>e. e\<lparr>m_locked := (if m_locked e = ctx then - 1 else m_locked e)\<rparr>) (cm_abs c a)) \<and>
     (\<forall>a. cm_abs (htmCommitTransaction c) a =
        map_option (\<lambda>e. e\<lparr>m_locked := - 1, m_htmInReadSet := False, m_htmInWriteSet := False\<rparr>)
          (cm_abs c a))"
proof -
  let ?f = "\<lambda>e. if entry_isLocked ctx e then entry_clearLocked e else e"
  have k: "identity_kept ?f" "identity_kept htm_clear"
    by (auto simp: identity_kept_def entry_clearLocked_def htm_clear_def)
  have f: "?f = (\<lambda>e. e\<lparr>m_locked := (if m_locked e = ctx then - 1 else m_locked e)\<rparr>)"
    by (auto simp: entry_isLocked_def entry_clearLocked_def fun_eq_iff)
  have h: "htm_clear = (\<lambda>e. e\<lparr>m_locked := - 1, m_htmInReadSet := False, m_htmInWriteSet := False\<rparr>)"
    by (simp add: htm_clear_def entry_clearLocked_def fun_eq_iff)
  show ?thesis
    using map_entries_inv[OF assms k(1)] map_entries_inv[OF assms k(2)]
    unfolding clearLockedAll_def htmCommitTransaction_def Let_def bump_abs f h by blast
qed

theorem cache_lock_release_exact_witness:
  "\<exists>c. CacheMemory_init cache_demo = Inr c \<and> cm_inv (clearLockedAll 3 c) \<and> cm_inv (htmCommitTransaction c)"
proof -
  obtain c where c: "CacheMemory_init cache_demo = Inr c" "plru_cache 2 2 6 c" by (rule demo_cache)
  hence "cm_inv c" by (simp add: plru_cache_def)
  from cache_lock_release_exact[OF this, of 3] c(1) show ?thesis by blast
qed

end
