(* ===== verification/Cache_Refresh.thy ===== *)
theory Cache_Refresh
  imports Cache_Props
begin

text \<open>
  Contention for the tag and data arrays of the cache and the refresh windows of the
  last-level cache: the test and the reservation of \<^verbatim>\<open>CacheMemory\<close> that take an explicit
  cycle, and the refresh functions of the L2 controller
  (\<^verbatim>\<open>MERSI_Two_Level-L2cache_v2.sm\<close>), whose cycle counts are 64-bit words.
\<close>

section \<open>Refresh windows of the L2 controller\<close>

record l2_refresh =
  l2_refresh_enabled :: bool
  l2_tag_refresh_enabled :: bool
  l2_refresh_period :: cycles
  l2_refresh_total :: cycles
  l2_tag_refresh_period :: cycles
  l2_tag_refresh_total :: cycles

definition since_start :: "('d, 'st) cm \<Rightarrow> CacheResourceType \<Rightarrow> addr \<Rightarrow> cycles \<Rightarrow> cycles res" where
  "since_start c r a now = bindR (getRefreshStartPoint c r a) (\<lambda>p. Inr (now - word_of_int p))"

definition before_start :: "('d, 'st) cm \<Rightarrow> addr \<Rightarrow> cycles \<Rightarrow> bool res" where
  "before_start c a now = bindR (getRefreshStartPoint c DataArray a) (\<lambda>p. Inr (now < word_of_int p))"

definition dataBankCheckRefresh :: "l2_refresh \<Rightarrow> ('d, 'st) cm \<Rightarrow> cycles \<Rightarrow> addr \<Rightarrow> bool res" where
  "dataBankCheckRefresh p c now a = bindR (before_start c a now) (\<lambda>b.
     if b then Inr False
     else bindR (since_start c DataArray a now) (\<lambda>t.
       if l2_refresh_total p = 0 then Inl DivByZero
       else Inr (t mod l2_refresh_total p > l2_refresh_period p)))"

definition tagBankCheckRefresh :: "l2_refresh \<Rightarrow> ('d, 'st) cm \<Rightarrow> cycles \<Rightarrow> addr \<Rightarrow> bool res" where
  "tagBankCheckRefresh p c now a = bindR (before_start c a now) (\<lambda>b.
     if b then Inr False
     else bindR (since_start c TagArray a now) (\<lambda>t.
       if l2_tag_refresh_total p = 0 then Inl DivByZero
       else Inr (t mod l2_tag_refresh_total p > l2_tag_refresh_period p)))"

definition recordLastFlooredCycle :: "l2_refresh \<Rightarrow> ('d, 'st) cm \<Rightarrow> cycles \<Rightarrow> addr \<Rightarrow> cycles res" where
  "recordLastFlooredCycle p c now a = bindR (before_start c a now) (\<lambda>b.
     if b then Inr 0
     else bindR (since_start c DataArray a now) (\<lambda>t.
       if l2_refresh_total p = 0 then Inl DivByZero
       else Inr (t - t mod l2_refresh_total p)))"

definition additionalDataRefreshLatency :: "l2_refresh \<Rightarrow> ('d, 'st) cm \<Rightarrow> cycles \<Rightarrow> addr \<Rightarrow> cycles res" where
  "additionalDataRefreshLatency p c now a = bindR (before_start c a now) (\<lambda>b.
     if b then Inr 0
     else if l2_refresh_enabled p then bindR (since_start c DataArray a now) (\<lambda>t.
       if l2_refresh_total p = 0 then Inl DivByZero
       else Inr (t mod l2_refresh_total p - l2_refresh_period p))
     else Inr 0)"

definition additionalTagRefreshLatency :: "l2_refresh \<Rightarrow> ('d, 'st) cm \<Rightarrow> cycles \<Rightarrow> addr \<Rightarrow> cycles res" where
  "additionalTagRefreshLatency p c now a = bindR (before_start c a now) (\<lambda>b.
     if b then Inr 0
     else if l2_tag_refresh_enabled p then bindR (since_start c TagArray a now) (\<lambda>t.
       if l2_tag_refresh_total p = 0 then Inl DivByZero
       else Inr (t mod l2_tag_refresh_total p - l2_tag_refresh_period p))
     else Inr 0)"

section \<open>Lemmas\<close>

definition cache_ready :: "('d, 'st) cm \<Rightarrow> bool" where
  "cache_ready c \<longleftrightarrow> cm_inv c \<and> ba_timed (dataArray c) \<and> ba_timed (tagArray c)"

lemma mapIndexToBank_total: "ba_wf ba \<Longrightarrow> \<exists>b. mapIndexToBank ba i = Inr b"
  by (auto simp: mapIndexToBank_def ba_wf_def)

lemma getRefreshStartPoint_zero:
  assumes "cache_ready c" "is_line c a" "r = DataArray \<or> r = TagArray"
  shows "getRefreshStartPoint c r a = Inr 0"
proof -
  have w: "ba_wf (dataArray c)" "ba_wf (tagArray c)" "cm_inv c"
    using assms(1) by (auto simp: cache_ready_def ba_timed_def)
  obtain b1 b2 where "mapIndexToBank (dataArray c) (int (set_of c a)) = Inr b1"
    "mapIndexToBank (tagArray c) (int (set_of c a)) = Inr b2"
    using mapIndexToBank_total w by metis
  thus ?thesis using assms w by (auto simp: getRefreshStartPoint_def addressToCacheSet_inv)
qed

lemma refresh_start:
  assumes "cache_ready c" "is_line c a"
  shows "before_start c a now = Inr False" "since_start c DataArray a now = Inr now"
    "since_start c TagArray a now = Inr now"
  using getRefreshStartPoint_zero[OF assms] by (simp_all add: before_start_def since_start_def)

lemma mod_window:
  fixes now T P :: "64 word"
  assumes "T \<noteq> 0" "P < now mod T"
  shows "unat (now mod T - P) + (unat T - unat (now mod T)) = unat T - unat P"
proof -
  have "unat (now mod T - P) = unat (now mod T) - unat P" using assms(2) by (intro unat_sub) simp
  moreover have "unat (now mod T) < unat T"
    using assms(1) by (metis unat_mod mod_less_divisor unat_gt_0)
  moreover have "unat P < unat (now mod T)" using assms(2) by (simp add: word_less_nat_alt)
  ultimately show ?thesis by linarith
qed

lemma demo_ready:
  obtains c where "CacheMemory_init cache_demo = Inr c" "cache_ready c" "is_line c 64" "is_line c 192"
    "m_resource_stalls c" "dataArray c = ba_demo" "tagArray c = ba_demo"
proof -
  obtain c where c: "CacheMemory_init cache_demo = Inr c" "plru_cache 2 2 6 c" "line_addr 6 64"
    "line_addr 6 192" by (rule demo_cache)
  have f: "dataArray c = ba_demo" "tagArray c = ba_demo" "m_resource_stalls c"
    using c(1) by (auto simp: CacheMemory_init_def Let_def fault_simps cache_demo_def split: if_splits)
  have "ba_timed ba_demo" by (simp add: ba_timed_def ba_wf_def ba_demo_def)
  hence "cache_ready c" using c(2) f by (simp add: cache_ready_def plru_cache_def)
  thus thesis using that c(1) plru_cache_line[OF c(2)] c(3,4) f by blast
qed

lemma demo_sets:
  assumes "CacheMemory_init cache_demo = Inr c" "cm_inv c"
  shows "odd (set_of c 64)" "set_of c 0 = 0" "is_line c 0"
proof -
  have st: "m_start_index_bit c = 6"
    using assms(1) by (auto simp: CacheMemory_init_def Let_def fault_simps cache_demo_def split: if_splits)
  have "0 < m_cache_num_set_bits c" using cm_inv_shape[OF assms(2)] by (simp add: cm_shape_def)
  thus "odd (set_of c 64)" by (simp add: set_of_def st drop_bit_eq_div unat_take_bit_mod
        odd_iff_mod_2_eq_one mod_mod_cancel del: take_bit_eq_mod)
  show "set_of c 0 = 0" by (simp add: set_of_def)
  show "is_line c 0" by (simp add: is_line_def makeLineAddress_def mbits_def)
qed

lemma demo_granted: "tryAccessSpecf ba_demo (int n) 10 = Inr True"
proof -
  have wf: "ba_wf ba_demo" by (simp add: ba_wf_def ba_demo_def)
  let ?b = "bankIdx ba_demo (int n)"
  have "?b < 2" using bankIdx_less[OF wf, of "int n"] by (simp add: ba_demo_def)
  hence "busyBanks ba_demo ! ?b = AccessRecord_new" by (simp add: ba_demo_def)
  thus ?thesis using bank_of_bankIdx[OF wf, of "int n"]
    by (simp add: tryAccessSpecf_def AccessRecord_new_def) (simp add: ba_demo_def)
qed

section \<open>Properties\<close>

text \<open>
  C33. Inside a refresh window of the data array, the latency that the L2 controller adds to
  an access is the number of cycles already spent in the window: together with the cycles
  that remain until the end of the window it makes up the whole window.  An access at the
  start of the window is therefore charged the least, and one at its end the most.
\<close>
theorem refresh_latency_is_elapsed:
  assumes "cache_ready c" "is_line c a" "l2_refresh_enabled p" "l2_refresh_total p \<noteq> 0"
    and "dataBankCheckRefresh p c now a = Inr True"
  shows "\<exists>x. additionalDataRefreshLatency p c now a = Inr x \<and> x \<noteq> 0 \<and>
           unat x + (unat (l2_refresh_total p) - unat now mod unat (l2_refresh_total p)) =
             unat (l2_refresh_total p) - unat (l2_refresh_period p)"
proof -
  note st = refresh_start[OF assms(1,2), of now]
  let ?T = "l2_refresh_total p" and ?P = "l2_refresh_period p"
  have w: "?P < now mod ?T" using assms(4,5) by (simp add: dataBankCheckRefresh_def st)
  hence "now mod ?T - ?P \<noteq> 0" by auto
  thus ?thesis using assms(3,4) mod_window[OF assms(4) w]
    by (simp add: additionalDataRefreshLatency_def st unat_mod)
qed

definition refresh_demo :: l2_refresh where
  "refresh_demo = \<lparr>l2_refresh_enabled = True, l2_tag_refresh_enabled = True,
     l2_refresh_period = 10, l2_refresh_total = 15, l2_tag_refresh_period = 10,
     l2_tag_refresh_total = 15\<rparr>"

theorem refresh_latency_is_elapsed_witness:
  "\<exists>c x. CacheMemory_init cache_demo = Inr c \<and>
     additionalDataRefreshLatency refresh_demo c 27 64 = Inr x \<and> unat x + 3 = 5"
proof -
  obtain c where c: "CacheMemory_init cache_demo = Inr c" "cache_ready c" "is_line c 64" by (rule demo_ready)
  have "dataBankCheckRefresh refresh_demo c 27 64 = Inr True"
    by (simp add: dataBankCheckRefresh_def refresh_start[OF c(2,3)] refresh_demo_def)
  from refresh_latency_is_elapsed[OF c(2,3) _ _ this] c(1)
  show ?thesis by (auto simp: refresh_demo_def)
qed

lemma recorded_read_ready:
  assumes "cache_ready c" "ba_timed d"
  shows "cache_ready (bump f (c\<lparr>dataArray := d\<rparr>))" (is "cache_ready ?c")
proof -
  have f: "cm_shape ?c = cm_shape c" "in_range ?c = in_range c" "cell ?c = cell c"
    "set_of ?c = set_of c" "is_line ?c = is_line c" "m_tag_index ?c = m_tag_index c"
    "m_cache_assoc ?c = m_cache_assoc c"
    by (auto simp: cm_shape_def in_range_def cell_def set_of_def is_line_def bump_def fun_eq_iff)
  have "cm_inv ?c = cm_inv c" unfolding cm_inv_def entry_ok_def f ..
  thus ?thesis using assms by (simp add: cache_ready_def bump_def)
qed

lemma recorded_read_other_bank:
  assumes "cm_inv c" "is_line c b" "m_resource_stalls c"
    and "tryAccessSpecf d (int (set_of c b)) t = tryAccessSpecf (dataArray c) (int (set_of c b)) t"
  shows "map_sum id fst (checkResourceAvailableSpecf now DataArray b t (bump f (c\<lparr>dataArray := d\<rparr>))) =
    map_sum id fst (checkResourceAvailableSpecf now DataArray b t c)"
proof -
  let ?j = "int (set_of c b)"
  have sb: "addressToCacheSet c b = Inr (set_of c b)" by (rule addressToCacheSet_inv[OF assms(1,2)])
  hence a2: "addressToCacheSet (bump f (c\<lparr>dataArray := d\<rparr>)) b = Inr (set_of c b)"
    by (simp add: addressToCacheSet_def lineR_def bump_def)
  have "map_sum id fst (checkResourceAvailableSpecf now DataArray b t (bump f (c\<lparr>dataArray := d\<rparr>)))
      = tryAccessSpecf (dataArray c) ?j t"
    "map_sum id fst (checkResourceAvailableSpecf now DataArray b t c) = tryAccessSpecf (dataArray c) ?j t"
    using assms(3,4) a2 sb
    by (cases "tryAccessSpecf (dataArray c) ?j t"; simp add: checkResourceAvailableSpecf_def try_data_def bump_def)+
  thus ?thesis by simp
qed

text \<open>
  C29. A granted array access is recorded without a fault: in a well-formed cache whose
  arrays have an access latency other than zero, with resource stalls on, when
  \<^verbatim>\<open>checkResourceAvailableSpecf\<close> grants the data array at a cycle,
  \<^verbatim>\<open>recordRequestTypeSpecf\<close> for a data read with that start cycle succeeds, whatever the
  number of banks. It keeps the cache well formed, counts the read and leaves the tag array
  and the cache contents alone; and it does not change whether an address of another data
  bank is granted, at any cycle.
\<close>
theorem granted_access_recorded:
  assumes "cache_ready c" "is_line c a" "m_resource_stalls c"
    and "checkResourceAvailableSpecf now DataArray a cyc c = Inr (True, c1)"
  shows "\<exists>c2. c1 = c \<and> recordRequestTypeSpecf DataArrayRead a acc cyc c1 = Inr c2 \<and>
           cache_ready c2 \<and> tagArray c2 = tagArray c \<and> m_cache c2 = m_cache c \<and>
           numDataArrayReads (cacheMemoryStats c2) = numDataArrayReads (cacheMemoryStats c) + 1 \<and>
           (\<forall>b t. is_line c b \<and>
              bankIdx (dataArray c) (int (set_of c b)) \<noteq> bankIdx (dataArray c) (int (set_of c a)) \<longrightarrow>
              map_sum id fst (checkResourceAvailableSpecf now DataArray b t c2) =
                map_sum id fst (checkResourceAvailableSpecf now DataArray b t c))"
proof -
  let ?d = "dataArray c" and ?i = "int (set_of c a)"
  have r: "cm_inv c" "ba_timed ?d" using assms(1) by (auto simp: cache_ready_def)
  have sa: "addressToCacheSet c a = Inr (set_of c a)" by (rule addressToCacheSet_inv[OF r(1) assms(2)])
  have t: "tryAccessSpecf ?d ?i cyc = Inr True" "c1 = c"
    using assms(3,4) sa by (auto simp: checkResourceAvailableSpecf_def try_data_def fault_simps split: if_splits)
  obtain d' where d': "reserveSpecf ?d ?i acc cyc = Inr d'"
    using spec.take_granted[OF r(2), of ?i "(acc, cyc)"] t(1) by auto
  have w: "ba_timed d'" using spec.take_inv[OF r(2), of ?i "(acc, cyc)" d'] d' by simp
  let ?c2 = "bump (\<lambda>st. st\<lparr>numDataArrayReads := numDataArrayReads st + 1\<rparr>) (c\<lparr>dataArray := d'\<rparr>)"
  have rec: "recordRequestTypeSpecf DataArrayRead a acc cyc c = Inr ?c2"
    using sa d' by (simp add: recordRequestTypeSpecf_def use_data_def)
  have "map_sum id fst (checkResourceAvailableSpecf now DataArray b t ?c2) =
      map_sum id fst (checkResourceAvailableSpecf now DataArray b t c)"
    if "is_line c b" "bankIdx ?d (int (set_of c b)) \<noteq> bankIdx ?d ?i" for b t
    using spec.take_other[OF r(2), of ?i "int (set_of c b)" "(acc, cyc)" d' "(acc, t)"] d' that(2)
    by (intro recorded_read_other_bank[OF r(1) that(1) assms(3)]) simp
  thus ?thesis using t(2) rec recorded_read_ready[OF assms(1) w] by (auto simp: bump_def)
qed

theorem granted_access_recorded_witness:
  "\<exists>c c2. CacheMemory_init cache_demo = Inr c \<and>
     recordRequestTypeSpecf DataArrayRead 64 4 10 c = Inr c2 \<and> tagArray c2 = tagArray c \<and>
     numDataArrayReads (cacheMemoryStats c2) = numDataArrayReads (cacheMemoryStats c) + 1 \<and>
     map_sum id fst (checkResourceAvailableSpecf 5 DataArray 0 10 c2) =
       map_sum id fst (checkResourceAvailableSpecf 5 DataArray 0 10 c)"
proof -
  obtain c where c: "CacheMemory_init cache_demo = Inr c" "cache_ready c" "is_line c 64"
    "m_resource_stalls c" "dataArray c = ba_demo" by (rule demo_ready)
  have inv: "cm_inv c" using c(2) by (simp add: cache_ready_def)
  note sets = demo_sets[OF c(1) inv]
  have "int (set_of c 64) mod 2 = 1" using sets(1) by presburger
  hence b: "bankIdx (dataArray c) (int (set_of c 0)) \<noteq> bankIdx (dataArray c) (int (set_of c 64))"
    using c(5) sets(2) by (simp add: bankIdx_def ba_demo_def)
  have "checkResourceAvailableSpecf 5 DataArray 64 10 c = Inr (True, c)"
    using c(4,5) addressToCacheSet_inv[OF inv c(3)] demo_granted
    by (simp add: checkResourceAvailableSpecf_def try_data_def)
  from granted_access_recorded[OF c(2-4) this, of 4] c(1) sets(3) b show ?thesis by blast
qed

text \<open>
  C34. Without resource stalls the refresh-aware test grants every request, but the
  reservation is made all the same: two reads of different sets of one data bank that
  start in the same cycle end in the panic of \<^verbatim>\<open>BankedArray::reserveSpecf\<close>.
\<close>
theorem unstalled_specf_reads_panic:
  assumes "cache_ready c" "is_line c a" "is_line c b" "\<not> m_resource_stalls c"
    and "set_of c a \<noteq> set_of c b"
    and "bankIdx (dataArray c) (int (set_of c b)) = bankIdx (dataArray c) (int (set_of c a))"
    and "tryAccessSpecf (dataArray c) (int (set_of c a)) cyc = Inr True"
    and "acc \<noteq> 0" "clockPeriod (dataArray c) \<noteq> 0"
    and "(unat cyc + unat acc) * unat (clockPeriod (dataArray c)) < 2 ^ 64"
  shows "checkResourceAvailableSpecf now DataArray b cyc c = Inr (True, c) \<and>
     bindR (recordRequestTypeSpecf DataArrayRead a acc cyc c) (recordRequestTypeSpecf DataArrayRead b acc cyc)
       = Inl (Panic ''BankedArray reservation error'')"
proof -
  let ?d = "dataArray c" and ?i = "int (set_of c a)" and ?j = "int (set_of c b)"
  let ?P = "clockPeriod ?d" let ?r = "\<lparr>ar_idx = ?i, startAccess = cyc * ?P,
      endAccess = cyc * ?P + (acc - 1) * ?P\<rparr>"
  have r: "cm_inv c" "ba_wf ?d" "accessLatency ?d \<noteq> 0" using assms(1) by (auto simp: cache_ready_def ba_timed_def)
  have sa: "addressToCacheSet c a = Inr (set_of c a)" "addressToCacheSet c b = Inr (set_of c b)"
    using addressToCacheSet_inv[OF r(1)] assms(2,3) by auto
  have lt: "bankIdx ?d ?i < length (busyBanks ?d)" by (rule bankIdx_less[OF r(2)]) simp
  let ?d' = "?d\<lparr>busyBanks := (busyBanks ?d)[bankIdx ?d ?i := ?r]\<rparr>"
  have d': "reserveSpecf ?d ?i acc cyc = Inr ?d'"
    using assms(7,8) r bank_of_bankIdx[OF r(2), of ?i] by (auto simp: ba_ops)
  have "unat cyc * unat ?P \<le> (unat cyc + unat acc - 1) * unat ?P"
    using unat_gt_0[of acc] assms(8) by (intro mult_le_mono1) linarith
  moreover have "unat cyc * unat ?P < 2 ^ 64" using assms(10) by (simp add: add_mult_distrib)
  ultimately have le: "cyc * ?P \<le> cyc * ?P + (acc - 1) * ?P"
    using assms by (simp add: word_le_nat_alt unat_mult_exact unat_window)
  have p: "reserveSpecf ?d' ?j acc cyc = Inl (Panic ''BankedArray reservation error'')"
    using le lt assms(5,6,8) bank_of_bankIdx[OF r(2), of ?j] by (simp add: ba_ops bank_of_update)
  have ad: "addressToCacheSet (bump f (c\<lparr>dataArray := d\<rparr>)) b = Inr (set_of c b)" for f d
    using sa by (simp add: addressToCacheSet_def lineR_def bump_def)
  show ?thesis using assms(4) sa d' p ad
    by (simp add: checkResourceAvailableSpecf_def recordRequestTypeSpecf_def use_data_def bump_def)
qed

lemma cm_inv_arrays: "cm_inv (c\<lparr>dataArray := d, m_resource_stalls := b\<rparr>) = cm_inv c" (is "cm_inv ?c = _")
proof -
  have f: "cm_shape ?c = cm_shape c" "in_range ?c = in_range c" "cell ?c = cell c"
    "set_of ?c = set_of c" "is_line ?c = is_line c" "m_tag_index ?c = m_tag_index c"
    "m_cache_assoc ?c = m_cache_assoc c"
    by (auto simp: cm_shape_def in_range_def cell_def set_of_def is_line_def fun_eq_iff)
  show ?thesis unfolding cm_inv_def entry_ok_def f ..
qed

theorem unstalled_specf_reads_panic_witness:
  "\<exists>(c :: (nat, plru_state) cm) a b. cache_ready c \<and>
     checkResourceAvailableSpecf 5 DataArray b 10 c = Inr (True, c) \<and>
     bindR (recordRequestTypeSpecf DataArrayRead a 4 10 c) (recordRequestTypeSpecf DataArrayRead b 4 10)
       = Inl (Panic ''BankedArray reservation error'')"
proof -
  obtain c where c: "CacheMemory_init cache_demo = Inr c" "cache_ready c" "is_line c 64" by (rule demo_ready)
  have inv: "cm_inv c" using c(2) by (simp add: cache_ready_def)
  note sets = demo_sets[OF c(1) inv]
  let ?one = "ba_demo\<lparr>banks := 1, busyBanks := [AccessRecord_new]\<rparr>"
  let ?c = "c\<lparr>dataArray := ?one, m_resource_stalls := False\<rparr>"
  have so: "set_of ?c = set_of c" "is_line ?c = is_line c"
    by (auto simp: set_of_def is_line_def fun_eq_iff)
  have rdy: "cache_ready ?c" using c(2) cm_inv_arrays[where c = c and d = ?one and b = False]
    by (simp add: cache_ready_def ba_timed_def ba_wf_def ba_demo_def)
  have "checkResourceAvailableSpecf 5 DataArray 0 10 ?c = Inr (True, ?c) \<and>
     bindR (recordRequestTypeSpecf DataArrayRead 64 4 10 ?c) (recordRequestTypeSpecf DataArrayRead 0 4 10)
       = Inl (Panic ''BankedArray reservation error'')"
  proof (rule unstalled_specf_reads_panic)
    show "cache_ready ?c" "is_line ?c 64" "is_line ?c 0" using rdy c(3) sets(3) so by simp_all
    show "set_of ?c 64 \<noteq> set_of ?c 0" using sets(1,2) so by (metis dvd_0_right)
  qed (simp_all add: bankIdx_def tryAccessSpecf_def bank_of_def mapIndexToBank_def ba_demo_def AccessRecord_new_def)
  thus ?thesis using rdy by blast
qed

end
