(* ===== verification/Nsc_Types.thy ===== *)
theory Nsc_Types
  imports Prelude
begin

text \<open>
  The enumerations of \<^verbatim>\<open>src/src/typedef.h\<close>, the sentinels of \<^verbatim>\<open>src/src/global.h\<close> and the
  design constants of \<^verbatim>\<open>src/src/constant.h\<close> that the design-space exploration uses.  The
  configuration keeps wire types, repeater types and buffer targets as integers, as the
  sources do, so each of these enumerations comes with its numbering and the cast back.
\<close>

datatype MemCellType =
  SRAM | DRAM | eDRAM | MRAM | PCRAM | memristor | FBRAM | SLCNAND | MLCNAND | gcDRAM | FeRAM

datatype DeviceRoadmap = HP | LSTP | LOP | EDRAM | IWO

datatype WireType =
  local_aggressive | local_conservative | semi_aggressive | semi_conservative
| global_aggressive | global_conservative | dram_wordline

datatype WireRepeaterType =
  repeated_none | repeated_opt | repeated_5 | repeated_10 | repeated_20 | repeated_30
| repeated_40 | repeated_50

datatype BufferDesignTarget = latency_first | latency_area_trade_off | area_first

datatype MemoryType = MT_data | MT_tag | MT_CAM

datatype RoutingMode = h_tree | non_h_tree

datatype WriteScheme =
  set_before_reset | reset_before_set | erase_before_set | erase_before_reset
| write_and_verify | normal_write

datatype DesignTarget = cache | RAM_chip | CAM_chip

datatype OptimizationTarget =
  read_latency_optimized | write_latency_optimized | read_energy_optimized
| write_energy_optimized | read_edp_optimized | write_edp_optimized
| read_bandwidth_optimized | write_bandwidth_optimized | leakage_optimized
| area_optimized | full_exploration

datatype CacheAccessMode = normal_access_mode | sequential_access_mode | fast_access_mode

section \<open>Numbering\<close>

fun wire_num :: "WireType \<Rightarrow> int" where
  "wire_num local_aggressive = 0"
| "wire_num local_conservative = 1"
| "wire_num semi_aggressive = 2"
| "wire_num semi_conservative = 3"
| "wire_num global_aggressive = 4"
| "wire_num global_conservative = 5"
| "wire_num dram_wordline = 6"

fun repeater_num :: "WireRepeaterType \<Rightarrow> int" where
  "repeater_num repeated_none = 0"
| "repeater_num repeated_opt = 1"
| "repeater_num repeated_5 = 2"
| "repeater_num repeated_10 = 3"
| "repeater_num repeated_20 = 4"
| "repeater_num repeated_30 = 5"
| "repeater_num repeated_40 = 6"
| "repeater_num repeated_50 = 7"

fun buffer_num :: "BufferDesignTarget \<Rightarrow> int" where
  "buffer_num latency_first = 0"
| "buffer_num latency_area_trade_off = 1"
| "buffer_num area_first = 2"

definition all_targets :: "OptimizationTarget list" where
  "all_targets =
     [read_latency_optimized, write_latency_optimized, read_energy_optimized,
      write_energy_optimized, read_edp_optimized, write_edp_optimized,
      read_bandwidth_optimized, write_bandwidth_optimized, leakage_optimized, area_optimized]"

lemma all_targets_complete: "set all_targets = {t. t \<noteq> full_exploration}"
  by (auto simp: all_targets_def) (metis OptimizationTarget.exhaust)

section \<open>Sentinels and constants\<close>

definition invalid_value :: real where "invalid_value = 10 ^ 41"
definition invalid_value_min :: real where "invalid_value_min = 1 / 10 ^ 41"
definition MAX_NMOS_SIZE :: real where "MAX_NMOS_SIZE = 100"
definition CONSTRAINT_ASPECT_RATIO_BANK :: real where "CONSTRAINT_ASPECT_RATIO_BANK = 3"
definition TOTAL_ADDRESS_BIT :: int where "TOTAL_ADDRESS_BIT = 48"

lemma invalid_value_pos [simp]: "0 < invalid_value" "0 < invalid_value_min"
  by (simp_all add: invalid_value_def invalid_value_min_def)

end
