(* ===== verification/C_Text.thy ===== *)
theory C_Text
  imports Prelude "HOL-Library.Sublist"
begin

text \<open>
  The part of the C library that \<^verbatim>\<open>InputParameter.cpp\<close> and \<^verbatim>\<open>MemCell.cpp\<close> parse with: character classes,
  \<^verbatim>\<open>strncmp\<close> against an option name, \<^verbatim>\<open>strtod\<close> and \<^verbatim>\<open>sscanf\<close>.  \<open>sscanf\<close> interprets the
  format strings of the sources as they are written: white space in a format skips any
  white space of the input, \<^verbatim>\<open>%d\<close>, \<^verbatim>\<open>%ld\<close>, \<^verbatim>\<open>%lf\<close> and \<^verbatim>\<open>%s\<close> convert, any other character
  must match, and the values converted before the first mismatch are the result.  A double
  is a real number; the non-finite values are separate constructors.
\<close>

section \<open>Characters\<close>

definition code :: "char \<Rightarrow> nat" where
  "code c = of_char c"

definition isspace :: "char \<Rightarrow> bool" where
  "isspace c \<longleftrightarrow> code c = 32 \<or> (9 \<le> code c \<and> code c \<le> 13)"

definition isdigit :: "char \<Rightarrow> bool" where
  "isdigit c \<longleftrightarrow> 48 \<le> code c \<and> code c \<le> 57"

definition tolower :: "char \<Rightarrow> char" where
  "tolower c = (if 65 \<le> code c \<and> code c \<le> 90 then char_of (code c + 32) else c)"

definition digit_val :: "char \<Rightarrow> nat" where
  "digit_val c = code c - 48"

definition newline :: char where
  "newline = CHR 0x0A"

definition skip_ws :: "string \<Rightarrow> string" where
  "skip_ws s = dropWhile isspace s"

definition digits_val :: "nat \<Rightarrow> string \<Rightarrow> nat" where
  "digits_val b ds = foldl (\<lambda>v c. v * b + digit_val c) 0 ds"

lemma skip_ws_idem [simp]: "skip_ws (skip_ws s) = skip_ws s"
  by (simp add: skip_ws_def)

lemma isdigit_not_space: "isdigit c \<Longrightarrow> \<not> isspace c"
  by (auto simp: isdigit_def isspace_def)

lemma skip_ws_id: "s = [] \<or> \<not> isspace (hd s) \<Longrightarrow> skip_ws s = s"
  by (cases s) (auto simp: skip_ws_def)

lemma skip_ws_hd: "skip_ws s = c # cs \<Longrightarrow> \<not> isspace c"
  by (simp add: skip_ws_def dropWhile_eq_Cons_conv)

section \<open>Numbers\<close>

datatype dval = Fin real | PInf | NaN

definition is_hex :: "char \<Rightarrow> bool" where
  "is_hex c \<longleftrightarrow> isdigit c \<or> (97 \<le> code (tolower c) \<and> code (tolower c) \<le> 102)"

definition hex_val :: "char \<Rightarrow> nat" where
  "hex_val c = (if isdigit c then digit_val c else code (tolower c) - 87)"

definition take_sign :: "string \<Rightarrow> bool \<times> string" where
  "take_sign s = (case s of
       [] \<Rightarrow> (False, s)
     | c # cs \<Rightarrow> if c = CHR ''-'' then (True, cs) else if c = CHR ''+'' then (False, cs) else (False, s))"

definition scan_exp :: "char \<Rightarrow> string \<Rightarrow> int \<times> string" where
  "scan_exp e s = (case s of
       [] \<Rightarrow> (0, s)
     | c # cs \<Rightarrow>
         if tolower c = e then
           let (neg, t) = take_sign cs; ds = takeWhile isdigit t in
           if ds = [] then (0, s)
           else ((if neg then - int (digits_val 10 ds) else int (digits_val 10 ds)), dropWhile isdigit t)
         else (0, s))"

definition scan_mant :: "(char \<Rightarrow> bool) \<Rightarrow> (char \<Rightarrow> nat) \<Rightarrow> nat \<Rightarrow> string \<Rightarrow> (real \<times> string) option" where
  "scan_mant isd val b s =
     (let ip = takeWhile isd s; r = dropWhile isd s;
          (fp, r') = (case r of c # cs \<Rightarrow> if c = CHR ''.'' then (takeWhile isd cs, dropWhile isd cs) else ([], r)
                              | [] \<Rightarrow> ([], r))
      in if ip = [] \<and> fp = [] then None
         else Some (real (foldl (\<lambda>v c. v * b + val c) 0 (ip @ fp)) / real b ^ length fp, r'))"

definition scale :: "real \<Rightarrow> int \<Rightarrow> real" where
  "scale b e = (if 0 \<le> e then b ^ nat e else 1 / b ^ nat (- e))"

definition scan_real :: "string \<Rightarrow> (dval \<times> string) option" where
  "scan_real s =
     (let low = map tolower s in
      if prefix ''infinity'' low then Some (PInf, drop 8 s)
      else if prefix ''inf'' low then Some (PInf, drop 3 s)
      else if prefix ''nan'' low then Some (NaN, drop 3 s)
      else if prefix ''0x'' low \<and> scan_mant is_hex hex_val 16 (drop 2 s) \<noteq> None then
        (case scan_mant is_hex hex_val 16 (drop 2 s) of
           None \<Rightarrow> None
         | Some (m, r) \<Rightarrow> let (e, r') = scan_exp (CHR ''p'') r in Some (Fin (m * scale 2 e), r'))
      else
        (case scan_mant isdigit digit_val 10 s of
           None \<Rightarrow> None
         | Some (m, r) \<Rightarrow> let (e, r') = scan_exp (CHR ''e'') r in Some (Fin (m * scale 10 e), r')))"

definition dbl_max_bound :: real where
  "dbl_max_bound = 2 ^ 1024 - 2 ^ 970"

definition dbl_min_normal :: real where
  "dbl_min_normal = 1 / 2 ^ 1022"

text \<open>\<^verbatim>\<open>strtod\<close>: the value, whether \<^verbatim>\<open>errno\<close> is \<^verbatim>\<open>ERANGE\<close>, and the unread rest; \<open>None\<close> when
  nothing is converted (\<^verbatim>\<open>end == start\<close>).\<close>

definition strtod :: "string \<Rightarrow> (dval \<times> bool \<times> string) option" where
  "strtod s =
     (let (neg, t) = take_sign (skip_ws s) in
      case scan_real t of
        None \<Rightarrow> None
      | Some (Fin x, r) \<Rightarrow>
          if dbl_max_bound \<le> x then Some (PInf, True, r)
          else Some (Fin (if neg then - x else x), 0 < x \<and> x < dbl_min_normal, r)
      | Some (v, r) \<Rightarrow> Some (v, False, r))"

definition clamp64 :: "int \<Rightarrow> int" where
  "clamp64 v = max (- (2 ^ 63)) (min (2 ^ 63 - 1) v)"

definition wrap32 :: "int \<Rightarrow> int" where
  "wrap32 v = (v + 2 ^ 31) mod 2 ^ 32 - 2 ^ 31"

definition scan_long :: "string \<Rightarrow> (int \<times> string) option" where
  "scan_long s =
     (let (neg, t) = take_sign (skip_ws s); ds = takeWhile isdigit t in
      if ds = [] then None
      else Some (clamp64 (if neg then - int (digits_val 10 ds) else int (digits_val 10 ds)),
                 dropWhile isdigit t))"

section \<open>Formatted input\<close>

datatype scanned = SInt int | SLong int | SDbl dval | SStr string

definition scan_double :: "string \<Rightarrow> (dval \<times> string) option" where
  "scan_double s =
     (case strtod s of
        None \<Rightarrow> None
      | Some (v, _, r) \<Rightarrow>
          let used = snd (take_sign (take (length (skip_ws s) - length r) (skip_ws s))) in
          if r \<noteq> [] \<and> (tolower (hd r) = CHR ''e'' \<or>
                        (tolower (hd r) = CHR ''p'' \<and> prefix ''0x'' (map tolower used)) \<or>
                        (tolower (hd r) = CHR ''x'' \<and> used = ''0''))
          then None else Some (v, r))"

definition scan_word :: "string \<Rightarrow> (string \<times> string) option" where
  "scan_word s =
     (let t = skip_ws s; w = takeWhile (\<lambda>c. \<not> isspace c) t in
      if w = [] then None else Some (w, dropWhile (\<lambda>c. \<not> isspace c) t))"

text \<open>The conversions of a format: \<open>take_conv\<close> splits a conversion off a format that has just
  passed a \<^verbatim>\<open>%\<close>.\<close>

datatype conversion = CvD | CvLD | CvLF | CvS

fun take_conv :: "string \<Rightarrow> (conversion \<times> string) option" where
  "take_conv (c # cs) =
     (if c = CHR ''d'' then Some (CvD, cs)
      else if c = CHR ''s'' then Some (CvS, cs)
      else if c = CHR ''l'' then
        (case cs of
           d # ds \<Rightarrow> if d = CHR ''d'' then Some (CvLD, ds) else if d = CHR ''f'' then Some (CvLF, ds) else None
         | [] \<Rightarrow> None)
      else None)"
| "take_conv [] = None"

lemma take_conv_length: "take_conv f = Some (k, f') \<Longrightarrow> length f' < length f"
  by (cases f) (auto split: if_splits list.splits)

definition apply_conv :: "conversion \<Rightarrow> string \<Rightarrow> (scanned \<times> string) option" where
  "apply_conv k s = (case k of
       CvD \<Rightarrow> map_option (apfst (SInt \<circ> wrap32)) (scan_long s)
     | CvLD \<Rightarrow> map_option (apfst SLong) (scan_long s)
     | CvLF \<Rightarrow> map_option (apfst SDbl) (scan_double s)
     | CvS \<Rightarrow> map_option (apfst SStr) (scan_word s))"

function sscanf :: "string \<Rightarrow> string \<Rightarrow> scanned list" where
  "sscanf s [] = []"
| "sscanf s (f # fs) =
     (if isspace f then sscanf (skip_ws s) fs
      else if f = CHR ''%'' then
        (case take_conv fs of
           None \<Rightarrow> []
         | Some (k, fs') \<Rightarrow>
             (case apply_conv k s of None \<Rightarrow> [] | Some (v, s') \<Rightarrow> v # sscanf s' fs'))
      else if s \<noteq> [] \<and> hd s = f then sscanf (tl s) fs else [])"
  by pat_completeness auto
termination
  by (relation "measure (length \<circ> snd)") (auto dest: take_conv_length)

end
