(* ===== verification/Option_File.thy ===== *)
theory Option_File
  imports C_Text
begin

text \<open>
  The option files of the program: the configuration (\<^verbatim>\<open>InputParameter.cpp\<close>) and the memory cells
  (\<^verbatim>\<open>MemCell.cpp\<close>) are both read line by line, and both compare every line with the option
  names in turn.  This theory holds the handler shapes of the two readers, the chain of
  \<^verbatim>\<open>if (!strncmp(...))\<close> statements, and the reading loop, over an arbitrary record \<open>'s\<close>; what a
  reader has to provide is the interface \<open>line_reader\<close>.
\<close>

section \<open>Handlers\<close>

text \<open>A handler maps the line, the record and the word buffer \<^verbatim>\<open>tmp\<close>, which keeps the last word
  read when a conversion fails, to the new record and buffer.\<close>

type_synonym 's option_reader = "'s \<times> string"
type_synonym 's option_handler = "string \<Rightarrow> 's option_reader \<Rightarrow> 's option_reader res"

definition scan_tmp :: "string \<Rightarrow> string \<Rightarrow> string \<Rightarrow> string" where
  "scan_tmp fmt line tmp = (case sscanf line fmt of SStr w # _ \<Rightarrow> w | _ \<Rightarrow> tmp)"

definition word_handler :: "string \<Rightarrow> (string \<Rightarrow> 's \<Rightarrow> 's) \<Rightarrow> 's option_handler" where
  "word_handler fmt upd line st =
     (let tmp = scan_tmp fmt line (snd st) in Inr (upd tmp (fst st), tmp))"

fun assign_ints :: "(int \<Rightarrow> 's \<Rightarrow> 's) list \<Rightarrow> scanned list \<Rightarrow> 's \<Rightarrow> 's" where
  "assign_ints (u # us) (SInt v # vs) s = assign_ints us vs (u v s)"
| "assign_ints (u # us) (SLong v # vs) s = assign_ints us vs (u v s)"
| "assign_ints _ _ s = s"

definition int_handler :: "string \<Rightarrow> (int \<Rightarrow> 's \<Rightarrow> 's) list \<Rightarrow> ('s \<Rightarrow> 's) \<Rightarrow> 's option_handler" where
  "int_handler fmt us fin line st = Inr (fin (assign_ints us (sscanf line fmt) (fst st)), snd st)"

definition long_handler :: "string \<Rightarrow> (int \<Rightarrow> 's \<Rightarrow> 's) \<Rightarrow> 's option_handler" where
  "long_handler fmt upd line st =
     (case sscanf line fmt of SLong v # _ \<Rightarrow> Inr (upd v (fst st), snd st) | _ \<Rightarrow> Inl Uninit)"

definition double_handler :: "string \<Rightarrow> (real \<Rightarrow> 's \<Rightarrow> 's) \<Rightarrow> ('s \<Rightarrow> 's) \<Rightarrow> 's option_handler" where
  "double_handler fmt upd fin line st =
     (case sscanf line fmt of
        SDbl (Fin x) # _ \<Rightarrow> Inr (fin (upd x (fst st)), snd st)
      | SDbl _ # _ \<Rightarrow> Inl NonFinite
      | _ \<Rightarrow> Inr (fin (fst st), snd st))"

text \<open>What each shape keeps of a property of the record.\<close>

definition keeps :: "('s \<Rightarrow> bool) \<Rightarrow> 's option_handler \<Rightarrow> bool" where
  "keeps ok h \<longleftrightarrow> (\<forall>line st st'. ok (fst st) \<longrightarrow> h line st = Inr st' \<longrightarrow> ok (fst st'))"

lemma keeps_word: "(\<And>w s. ok s \<Longrightarrow> ok (upd w s)) \<Longrightarrow> keeps ok (word_handler fmt upd)"
  by (auto simp: keeps_def word_handler_def Let_def)

lemma assign_ints_keeps:
  "list_all (\<lambda>u. \<forall>v s. ok s \<longrightarrow> ok (u v s)) us \<Longrightarrow> ok s \<Longrightarrow> ok (assign_ints us vs s)"
  by (induction us vs s rule: assign_ints.induct) auto

lemma keeps_int:
  "list_all (\<lambda>u. \<forall>v s. ok s \<longrightarrow> ok (u v s)) us \<Longrightarrow> (\<And>s. ok s \<Longrightarrow> ok (fin s)) \<Longrightarrow>
   keeps ok (int_handler fmt us fin)"
  by (auto simp: keeps_def int_handler_def intro: assign_ints_keeps)

lemma keeps_long: "(\<And>v s. ok s \<Longrightarrow> ok (upd v s)) \<Longrightarrow> keeps ok (long_handler fmt upd)"
  by (auto simp: keeps_def long_handler_def split: list.splits scanned.splits)

lemma keeps_double:
  "(\<And>v s. ok s \<Longrightarrow> ok (upd v s)) \<Longrightarrow> (\<And>s. ok s \<Longrightarrow> ok (fin s)) \<Longrightarrow>
   keeps ok (double_handler fmt upd fin)"
  by (auto simp: keeps_def double_handler_def split: list.splits scanned.splits dval.splits)

section \<open>The chain of comparisons\<close>

text \<open>The handlers in the order of the \<^verbatim>\<open>if\<close> statements; the flag tells whether the statement ends
  with \<^verbatim>\<open>continue\<close>.\<close>

type_synonym 's option_chain = "(string \<times> bool \<times> 's option_handler) list"

fun dispatch :: "string \<Rightarrow> 's option_chain \<Rightarrow> 's option_reader \<Rightarrow> 's option_reader res" where
  "dispatch line [] st = Inr st"
| "dispatch line ((key, cont, h) # hs) st =
     (if prefix key line
      then bindR (h line st) (\<lambda>st'. if cont then Inr st' else dispatch line hs st')
      else dispatch line hs st)"

definition names :: "'s option_chain \<Rightarrow> (string \<times> bool) list" where
  "names hs = map (\<lambda>e. (fst e, fst (snd e))) hs"

lemma dispatch_skip:
  "\<forall>e \<in> set hs. \<not> prefix (fst e) line \<Longrightarrow> dispatch line (hs @ hs') st = dispatch line hs' st"
  by (induction hs) auto

lemma dispatch_none: "\<forall>e \<in> set hs. \<not> prefix (fst e) line \<Longrightarrow> dispatch line hs st = Inr st"
  using dispatch_skip[of hs line "[]"] by simp

lemma dispatch_keeps:
  "list_all (\<lambda>e. keeps ok (snd (snd e))) hs \<Longrightarrow> ok (fst st) \<Longrightarrow> dispatch line hs st = Inr st' \<Longrightarrow>
   ok (fst st')"
proof (induction line hs st rule: dispatch.induct)
  case (2 line key cont h hs st)
  show ?case
  proof (cases "prefix key line")
    case True
    with 2(5) obtain st1 where h: "h line st = Inr st1"
      and r: "(if cont then Inr st1 else dispatch line hs st1) = Inr st'"
      by (auto simp: bindR_Inr_iff)
    have "keeps ok h" using 2(3) by simp
    hence "ok (fst st1)" using 2(4) h unfolding keeps_def by blast
    thus ?thesis using r 2 True by (cases cont) auto
  qed (use 2 in simp)
qed simp

text \<open>A line of option \<open>key\<close> continues with a colon or a space.  \<open>clear k key\<close>: no such line
  starts with the name \<open>k\<close>.\<close>

definition clear :: "string \<Rightarrow> string \<Rightarrow> bool" where
  "clear k key \<longleftrightarrow> (\<forall>c \<in> set '': ''. \<not> prefix k (key @ [c]) \<and> \<not> prefix (key @ [c]) k)"

fun reach_ok :: "(string \<times> bool) list \<Rightarrow> bool" where
  "reach_ok [] = True"
| "reach_ok ((k, cont) # ks) =
     ((\<forall>(k', _) \<in> set ks. clear k k' \<and> (cont \<or> clear k' k)) \<and> reach_ok ks)"

lemma clear_line: "clear k key \<Longrightarrow> c \<in> set '': '' \<Longrightarrow> \<not> prefix k (key @ c # rest)"
proof
  assume k: "clear k key" "c \<in> set '': ''" and p: "prefix k (key @ c # rest)"
  have "prefix (key @ [c]) (key @ c # rest)" by simp
  with p have "prefix k (key @ [c]) \<or> prefix (key @ [c]) k" by (rule prefix_same_cases)
  thus False using k unfolding clear_def by blast
qed

lemma bindR_Inr_id [simp]: "bindR m Inr = m"
  by (cases m) auto

lemma dispatch_own:
  assumes "reach_ok (names hs)" "(key, cont, h) \<in> set hs" "c \<in> set '': ''"
  shows "dispatch (key @ c # rest) hs st = h (key @ c # rest) st"
  using assms(1,2)
proof (induction hs)
  case (Cons e hs)
  obtain k ct g where e: "e = (k, ct, g)" by (cases e) auto
  have ok: "reach_ok (names hs)"
    and cl: "\<And>k' c' h'. (k', c', h') \<in> set hs \<Longrightarrow> clear k k' \<and> (ct \<or> clear k' k)"
    using Cons.prems(1) by (force simp: e names_def)+
  show ?case
  proof (cases "(key, cont, h) \<in> set hs")
    case True
    hence "\<not> prefix k (key @ c # rest)" using cl clear_line assms(3) by blast
    thus ?thesis using Cons.IH[OF ok True] by (simp add: e)
  next
    case False
    hence me: "k = key" "ct = cont" "g = h" using Cons.prems(2) by (auto simp: e)
    have "dispatch (key @ c # rest) hs st' = Inr st'" if "\<not> cont" for st'
    proof (rule dispatch_none, rule ballI)
      fix e' assume "e' \<in> set hs"
      hence "clear (fst e') key" using cl[of "fst e'" "fst (snd e')" "snd (snd e')"] me that by simp
      thus "\<not> prefix (fst e') (key @ c # rest)" using clear_line assms(3) by blast
    qed
    thus ?thesis by (cases cont) (simp_all add: e me)
  qed
qed simp

section \<open>The reading loop\<close>

text \<open>\<^verbatim>\<open>fscanf(fp, "%[^\n]\n", line)\<close> on the unread \<open>content\<close>: a first character that is a
  newline is a matching failure, which leaves both the file position and the buffer
  \<open>line\<close> as they are; otherwise the line is copied, and the newline of the format skips
  all white space that follows.  The buffer has 5000 characters.\<close>

partial_function (option) read_lines ::
    "(string \<Rightarrow> 's \<Rightarrow> 's res) \<Rightarrow> string \<Rightarrow> string \<Rightarrow> 's \<Rightarrow> 's res option" where
  "read_lines proc content line st =
     (if content = [] then Some (Inr st)
      else
        let got = takeWhile (\<lambda>c. c \<noteq> newline) content;
            line' = (if got = [] then line else got);
            content' = (if got = [] then content
                        else skip_ws (dropWhile (\<lambda>c. c \<noteq> newline) content))
        in if 5000 \<le> length got then Some (Inl BadIndex)
           else case proc line' st of
               Inl e \<Rightarrow> Some (Inl e)
             | Inr st' \<Rightarrow> read_lines proc content' line' st')"

lemma read_lines_Nil [simp]: "read_lines proc [] line st = Some (Inr st)"
  by (subst read_lines.simps) simp

lemma read_lines_step:
  assumes "content \<noteq> []" "hd content \<noteq> newline"
  shows "read_lines proc content line st =
    (let got = takeWhile (\<lambda>c. c \<noteq> newline) content in
     if 5000 \<le> length got then Some (Inl BadIndex)
     else case proc got st of
         Inl e \<Rightarrow> Some (Inl e)
       | Inr st' \<Rightarrow> read_lines proc (skip_ws (dropWhile (\<lambda>c. c \<noteq> newline) content)) got st')"
proof -
  have "takeWhile (\<lambda>c. c \<noteq> newline) content \<noteq> []" using assms by (cases content) auto
  thus ?thesis using assms(1) by (subst read_lines.simps) (simp add: Let_def)
qed

lemma newline_space: "isspace newline"
  by (simp add: isspace_def newline_def code_def)

lemma read_lines_ends:
  "content = [] \<or> hd content \<noteq> newline \<Longrightarrow> \<exists>r. read_lines proc content line st = Some r"
proof (induction "length content" arbitrary: content line st rule: less_induct)
  case less
  show ?case
  proof (cases content)
    case (Cons x xs)
    let ?next = "skip_ws (dropWhile (\<lambda>c. c \<noteq> newline) content)"
    have ne: "content \<noteq> []" "hd content \<noteq> newline" using less.prems Cons by auto
    have "length ?next < length content"
      using ne(2) Cons by (auto simp: skip_ws_def less_Suc_eq_le
          intro: order_trans[OF length_dropWhile_le length_dropWhile_le])
    moreover have "?next = [] \<or> hd ?next \<noteq> newline"
      using skip_ws_hd newline_space by (cases ?next) auto
    ultimately have "\<exists>r. read_lines proc ?next l s = Some r" for l s by (rule less.hyps)
    thus ?thesis unfolding read_lines_step[OF ne] by (auto simp: Let_def split: sum.split)
  qed simp
qed

lemma read_lines_stuck:
  assumes "read_lines proc (newline # content) line st = Some r"
  shows "\<exists>e. r = Inl e"
proof -
  have "hd c = newline \<and> c \<noteq> [] \<longrightarrow> (\<exists>e. r = Inl e)" if "read_lines proc c line st = Some r" for c
    by (rule read_lines.raw_induct[where P = "\<lambda>_ c _ _ r. hd c = newline \<and> c \<noteq> [] \<longrightarrow> (\<exists>e. r = Inl e)", OF _ that])
       (auto simp: Let_def takeWhile_eq_Nil_iff split: if_splits sum.splits, metis)
  from this[OF assms] show ?thesis by simp
qed

text \<open>What the loop asks of the code that processes a line, and what it then promises: a
  processor that ignores an empty line makes a file with an empty first line hang, and what
  every line keeps, the file keeps.\<close>

locale line_reader =
  fixes proc :: "string \<Rightarrow> 's \<Rightarrow> 's res"
  assumes empty_line: "proc [] st = Inr st"
begin

lemma hangs: "read_lines proc (newline # content) [] st = None"
proof (cases "read_lines proc (newline # content) [] st")
  case (Some r)
  have stop: "takeWhile (\<lambda>c. c \<noteq> newline) c = []" if "hd c = newline" for c
    using that by (simp add: takeWhile_eq_Nil_iff)
  have "\<not> (p = proc \<and> hd c = newline \<and> c \<noteq> [] \<and> l = [])" if "read_lines p c l st = Some r" for p c l
    by (rule read_lines.raw_induct[where P = "\<lambda>p c l _ _. \<not> (p = proc \<and> hd c = newline \<and> c \<noteq> [] \<and> l = [])", OF _ that])
       (use stop empty_line in \<open>fastforce simp: Let_def\<close>)
  from this[OF Some] show ?thesis by simp
qed

lemma returns_iff: "(\<exists>r. read_lines proc content [] st = Some r) \<longleftrightarrow> \<not> prefix [newline] content"
proof (cases content)
  case (Cons c cs)
  show ?thesis
    using hangs[of cs st] read_lines_ends[of content proc "[]" st] Cons by (cases "c = newline") auto
qed simp

end

locale line_reader_inv = line_reader proc for proc :: "string \<Rightarrow> 's \<Rightarrow> 's res" +
  fixes ok :: "'s \<Rightarrow> bool"
  assumes line_keeps: "ok st \<Longrightarrow> proc line st = Inr st' \<Longrightarrow> ok st'"
begin

lemma file_keeps:
  assumes "read_lines proc content line st = Some (Inr st')" "ok st"
  shows "ok st'"
proof -
  have "p = proc \<and> ok st \<and> r = Inr st' \<longrightarrow> ok st'" if "read_lines p content line st = Some r" for p r
    by (rule read_lines.raw_induct[where
          P = "\<lambda>p _ _ st r. p = proc \<and> ok st \<and> r = Inr st' \<longrightarrow> ok st'", OF _ that])
       (auto simp: Let_def split: if_splits sum.splits dest: line_keeps)
  from this[OF assms(1)] assms(2) show ?thesis by simp
qed

end

end
