(* ===== verification/Input_Parameter.thy ===== *)
theory Input_Parameter
  imports Nsc_Types Option_File
begin

text \<open>
  \<^verbatim>\<open>src/src/InputParameter.h\<close> and \<^verbatim>\<open>InputParameter.cpp\<close>: the configuration record, its
  constructor, the strict value parsers, the handlers of the options of the configuration
  file in the order of the \<^verbatim>\<open>if\<close> statements, the reading loop, and the final validation;
  and the search-space macros of \<^verbatim>\<open>macros.h\<close>.  \<open>search_space\<close> holds the bounds that the
  exploration loops over, and \<open>input_parameter\<close> extends it with the other members.
  The constructor and the reading loop start from an arbitrary record and arbitrary
  buffers: members and buffers that the sources leave uninitialised keep that value.
\<close>

section \<open>The configuration record\<close>

record search_space =
  minNumRowSubArray :: int
  maxNumRowSubArray :: int
  minNumColumnSubArray :: int
  maxNumColumnSubArray :: int
  minNumActiveSubArrayPerRow :: int
  maxNumActiveSubArrayPerRow :: int
  minNumActiveSubArrayPerColumn :: int
  maxNumActiveSubArrayPerColumn :: int
  minNumRowMat :: int
  maxNumRowMat :: int
  minNumColumnMat :: int
  maxNumColumnMat :: int
  minNumActiveMatPerRow :: int
  maxNumActiveMatPerRow :: int
  minNumActiveMatPerColumn :: int
  maxNumActiveMatPerColumn :: int
  minMuxSenseAmp :: int
  maxMuxSenseAmp :: int
  minMuxOutputLev1 :: int
  maxMuxOutputLev1 :: int
  minMuxOutputLev2 :: int
  maxMuxOutputLev2 :: int
  minNumRowPerSet :: int
  maxNumRowPerSet :: int
  minAreaOptimizationLevel :: int
  maxAreaOptimizationLevel :: int
  minLocalWireType :: int
  maxLocalWireType :: int
  minGlobalWireType :: int
  maxGlobalWireType :: int
  minLocalWireRepeaterType :: int
  maxLocalWireRepeaterType :: int
  minGlobalWireRepeaterType :: int
  maxGlobalWireRepeaterType :: int
  minIsLocalWireLowSwing :: int
  maxIsLocalWireLowSwing :: int
  minIsGlobalWireLowSwing :: int
  maxIsGlobalWireLowSwing :: int
  minStackLayer :: int
  maxStackLayer :: int

record constrained_space = search_space +
  readLatencyConstraint :: real
  writeLatencyConstraint :: real
  readDynamicEnergyConstraint :: real
  writeDynamicEnergyConstraint :: real
  leakageConstraint :: real
  areaConstraint :: real
  readEdpConstraint :: real
  writeEdpConstraint :: real
  isConstraintApplied :: bool
  isPruningEnabled :: bool
  useCactiAssumption :: bool
  relaxSRAMCell :: bool
  bankAspectRatioLimit :: real
  forceMatSize :: bool
  forcedMatRows :: "64 word"
  forcedMatColumns :: "64 word"
  dramTargetResidualRatio :: real
  maxMatLayers :: int
  matLayerSet :: int

record input_parameter = constrained_space +
  designTarget :: DesignTarget
  optimizationTarget :: OptimizationTarget
  processNode :: int
  capacity :: int
  wordWidth :: int
  deviceRoadmap :: DeviceRoadmap
  fileMemCell :: "string list"
  temperature :: int
  maxDriverCurrent :: real
  writeScheme :: WriteScheme
  validated :: bool
  clockFreq :: real
  quantize :: bool
  associativity :: int
  cacheAccessMode :: CacheAccessMode
  pageSize :: int
  flashBlockSize :: int
  routingMode :: RoutingMode
  internalSensing :: bool
  maxNmosSize :: real
  delaytolerance :: real
  bufferSizeRatio :: real
  outputFilePrefix :: string
  numRepeaters :: int
  partitionGranularity :: int
  localTsvProjection :: int
  globalTsvProjection :: int
  tsvRedundancy :: real
  clockInput :: real
  monolithicStackCount :: int
  monolithic3DMat :: bool
  forcedStackLayers :: bool
  doublePrune :: bool
  printAllOptimals :: bool
  allowDifferentTagTech :: bool
  addRepeaters :: bool
  viewMatStats :: bool
  printLevel :: int

section \<open>Constructor\<close>

definition InputParameter_new :: "input_parameter \<Rightarrow> input_parameter" where
  "InputParameter_new m = m\<lparr>
     designTarget := cache, optimizationTarget := read_latency_optimized, processNode := 90,
     maxDriverCurrent := 0, maxNmosSize := MAX_NMOS_SIZE,
     minNumRowSubArray := 1, maxNumRowSubArray := 512,
     minNumColumnSubArray := 1, maxNumColumnSubArray := 512,
     minStackLayer := 1, maxStackLayer := 16,
     minNumActiveSubArrayPerRow := 1, maxNumActiveSubArrayPerRow := 512,
     minNumActiveSubArrayPerColumn := 1, maxNumActiveSubArrayPerColumn := 512,
     minNumRowMat := 4, maxNumRowMat := 4, minNumColumnMat := 4, maxNumColumnMat := 4,
     minNumActiveMatPerRow := 4, maxNumActiveMatPerRow := 4,
     minNumActiveMatPerColumn := 4, maxNumActiveMatPerColumn := 4,
     minMuxSenseAmp := 1, maxMuxSenseAmp := 256, minMuxOutputLev1 := 1, maxMuxOutputLev1 := 256,
     minMuxOutputLev2 := 1, maxMuxOutputLev2 := 256, minNumRowPerSet := 1, maxNumRowPerSet := 256,
     minAreaOptimizationLevel := buffer_num latency_first,
     maxAreaOptimizationLevel := buffer_num area_first,
     minLocalWireType := wire_num local_aggressive, maxLocalWireType := wire_num local_conservative,
     minGlobalWireType := wire_num global_aggressive, maxGlobalWireType := wire_num global_conservative,
     minLocalWireRepeaterType := repeater_num repeated_none,
     maxLocalWireRepeaterType := repeater_num repeated_50,
     minGlobalWireRepeaterType := repeater_num repeated_none,
     maxGlobalWireRepeaterType := repeater_num repeated_50,
     minIsLocalWireLowSwing := 0, maxIsLocalWireLowSwing := 1,
     minIsGlobalWireLowSwing := 0, maxIsGlobalWireLowSwing := 1,
     relaxSRAMCell := True, bankAspectRatioLimit := CONSTRAINT_ASPECT_RATIO_BANK,
     forceMatSize := False, forcedMatRows := 0, forcedMatColumns := 0,
     dramTargetResidualRatio := 1 / 10, delaytolerance := 1 / 10, numRepeaters := 0,
     bufferSizeRatio := 1, addRepeaters := False, clockFreq := 3 * 10 ^ 9, quantize := False,
     associativity := 1, routingMode := h_tree, internalSensing := True,
     useCactiAssumption := False, writeScheme := normal_write,
     cacheAccessMode := normal_access_mode,
     readLatencyConstraint := invalid_value, writeLatencyConstraint := invalid_value,
     readDynamicEnergyConstraint := invalid_value, writeDynamicEnergyConstraint := invalid_value,
     leakageConstraint := invalid_value, areaConstraint := invalid_value,
     readEdpConstraint := invalid_value, writeEdpConstraint := invalid_value,
     isConstraintApplied := False, isPruningEnabled := False, viewMatStats := False,
     monolithic3DMat := False, pageSize := 0, flashBlockSize := 0,
     outputFilePrefix := ''output'', partitionGranularity := 0, localTsvProjection := 1,
     globalTsvProjection := 1, tsvRedundancy := 3 / 2, monolithicStackCount := 1,
     maxMatLayers := 4, matLayerSet := 4, fileMemCell := [], doublePrune := False,
     printAllOptimals := False, allowDifferentTagTech := False, validated := True,
     printLevel := 1\<rparr>"

section \<open>Search-space macros\<close>

definition REDUCE_SEARCH_SIZE :: "input_parameter \<Rightarrow> input_parameter" where
  "REDUCE_SEARCH_SIZE ip = ip\<lparr>
     minNumRowSubArray := 1, maxNumRowSubArray := 64,
     minNumColumnSubArray := 1, maxNumColumnSubArray := 64,
     minNumActiveSubArrayPerRow := 1, maxNumActiveSubArrayPerRow := 64,
     minNumActiveSubArrayPerColumn := 1, maxNumActiveSubArrayPerColumn := 64,
     minNumRowMat := 1, maxNumRowMat := 2, minNumColumnMat := 1, maxNumColumnMat := 2,
     minNumActiveMatPerRow := 1, maxNumActiveMatPerRow := 2,
     minNumActiveMatPerColumn := 1, maxNumActiveMatPerColumn := 2,
     minMuxSenseAmp := 1, maxMuxSenseAmp := 64, minMuxOutputLev1 := 1, maxMuxOutputLev1 := 64,
     minMuxOutputLev2 := 1, maxMuxOutputLev2 := 64, minNumRowPerSet := 1, maxNumRowPerSet := 1,
     minAreaOptimizationLevel := buffer_num latency_first,
     maxAreaOptimizationLevel := buffer_num area_first,
     minLocalWireType := wire_num local_aggressive, maxLocalWireType := wire_num local_conservative,
     minGlobalWireType := wire_num global_aggressive, maxGlobalWireType := wire_num global_conservative,
     minLocalWireRepeaterType := repeater_num repeated_none,
     maxLocalWireRepeaterType := repeater_num repeated_opt,
     minGlobalWireRepeaterType := repeater_num repeated_none,
     maxGlobalWireRepeaterType := repeater_num repeated_opt,
     minIsLocalWireLowSwing := 0, maxIsLocalWireLowSwing := 1,
     minIsGlobalWireLowSwing := 0, maxIsGlobalWireLowSwing := 1\<rparr>"

definition RESTORE_SEARCH_SIZE :: "input_parameter \<Rightarrow> input_parameter" where
  "RESTORE_SEARCH_SIZE ip = ip\<lparr>
     minNumRowSubArray := 1, maxNumRowSubArray := 512,
     minNumColumnSubArray := 1, maxNumColumnSubArray := 512,
     minNumActiveSubArrayPerRow := 1, maxNumActiveSubArrayPerRow := 512,
     minNumActiveSubArrayPerColumn := 1, maxNumActiveSubArrayPerColumn := 512,
     minNumRowMat := 1, maxNumRowMat := 2, minNumColumnMat := 1, maxNumColumnMat := 2,
     minNumActiveMatPerRow := 1, maxNumActiveMatPerRow := 2,
     minNumActiveMatPerColumn := 1, maxNumActiveMatPerColumn := 2,
     minMuxSenseAmp := 1, maxMuxSenseAmp := 256, minMuxOutputLev1 := 1, maxMuxOutputLev1 := 256,
     minMuxOutputLev2 := 1, maxMuxOutputLev2 := 256,
     minNumRowPerSet := 1, maxNumRowPerSet := associativity ip,
     minAreaOptimizationLevel := buffer_num latency_first,
     maxAreaOptimizationLevel := buffer_num area_first,
     minLocalWireType := wire_num local_aggressive, maxLocalWireType := wire_num semi_conservative,
     minGlobalWireType := wire_num semi_aggressive, maxGlobalWireType := wire_num global_conservative,
     minLocalWireRepeaterType := repeater_num repeated_none,
     maxLocalWireRepeaterType := repeater_num repeated_50,
     minGlobalWireRepeaterType := repeater_num repeated_none,
     maxGlobalWireRepeaterType := repeater_num repeated_50,
     minIsLocalWireLowSwing := 0, maxIsLocalWireLowSwing := 1,
     minIsGlobalWireLowSwing := 0, maxIsGlobalWireLowSwing := 1\<rparr>"

section \<open>Strict value parsers\<close>

definition rtrim :: "string \<Rightarrow> string" where
  "rtrim s = rev (dropWhile isspace (rev s))"

definition ExtractStrictValue :: "string \<Rightarrow> string \<Rightarrow> string option" where
  "ExtractStrictValue line opt =
     (if \<not> prefix opt line then None
      else case skip_ws (drop (length opt) line) of
          [] \<Rightarrow> None
        | c # r \<Rightarrow>
            if c \<noteq> CHR '':'' then None
            else let v = rtrim (skip_ws r) in if v = [] then None else Some v)"

definition ParseStrictBool :: "string \<Rightarrow> bool option" where
  "ParseStrictBool value =
     (let normalized = map tolower value in
      if normalized = ''yes'' \<or> normalized = ''true'' \<or> normalized = ''1'' then Some True
      else if normalized = ''no'' \<or> normalized = ''false'' \<or> normalized = ''0'' then Some False
      else None)"

definition ParseStrictDouble :: "string \<Rightarrow> real option" where
  "ParseStrictDouble value =
     (case strtod value of
        Some (Fin x, erange, rest) \<Rightarrow> if erange \<or> rest \<noteq> [] then None else Some x
      | _ \<Rightarrow> None)"

fun parse_digits :: "64 word \<Rightarrow> string \<Rightarrow> (64 word \<times> string) option" where
  "parse_digits parsed [] = Some (parsed, [])"
| "parse_digits parsed (c # cs) =
     (if isdigit c then
        (let digit = of_nat (digit_val c) in
         if (- 1 - digit) div 10 < parsed then None
         else parse_digits (parsed * 10 + digit) cs)
      else Some (parsed, c # cs))"

definition ParseUnsignedToken :: "string \<Rightarrow> (64 word \<times> string) option" where
  "ParseUnsignedToken cursor =
     (let s = skip_ws cursor in
      if s = [] \<or> \<not> isdigit (hd s) then None else parse_digits 0 s)"

definition ParseStrictPositiveUint64 :: "string \<Rightarrow> 64 word option" where
  "ParseStrictPositiveUint64 value =
     (case ParseUnsignedToken value of
        None \<Rightarrow> None
      | Some (v, cursor) \<Rightarrow> if skip_ws cursor = [] \<and> 0 < v then Some v else None)"

definition ParseStrictMatSize :: "string \<Rightarrow> (64 word \<times> 64 word) option" where
  "ParseStrictMatSize value =
     (case ParseUnsignedToken value of
        None \<Rightarrow> None
      | Some (rows, c1) \<Rightarrow>
          if rows = 0 then None
          else case skip_ws c1 of
              [] \<Rightarrow> None
            | x # c2 \<Rightarrow>
                if x \<noteq> CHR ''x'' \<and> x \<noteq> CHR ''X'' then None
                else case ParseUnsignedToken c2 of
                    None \<Rightarrow> None
                  | Some (columns, c3) \<Rightarrow>
                      if columns = 0 \<or> skip_ws c3 \<noteq> [] then None else Some (rows, columns))"

section \<open>Option handlers\<close>

type_synonym reader = "input_parameter option_reader"
type_synonym handler = "input_parameter option_handler"

definition strict_handler :: "string \<Rightarrow> string \<Rightarrow> (string \<Rightarrow> 'v option)
    \<Rightarrow> ('v \<Rightarrow> input_parameter \<Rightarrow> input_parameter) \<Rightarrow> handler" where
  "strict_handler key opt parse upd line st =
     (case Option.bind (ExtractStrictValue line opt) parse of
        None \<Rightarrow> Inl (ConfigExit key)
      | Some v \<Rightarrow> Inr (upd v (fst st), snd st))"

definition opt_ForceMatSize :: handler where
  "opt_ForceMatSize = strict_handler ''-ForceMatSize'' ''-ForceMatSize (Rows x Columns)''
       ParseStrictMatSize
       (\<lambda>v ip. ip\<lparr>forceMatSize := True, forcedMatRows := fst v, forcedMatColumns := snd v\<rparr>)"

definition opt_PrintLevel :: handler where
  "opt_PrintLevel = int_handler ''-PrintLevel: %d''
       [\<lambda>v ip. ip\<lparr>printLevel := v\<rparr>]
       id"

definition target_options :: "input_parameter option_chain" where
  "target_options = [
     (''-DesignTarget'', True, word_handler ''-DesignTarget: %s'' (\<lambda>tmp ip.
       if tmp = ''cache'' then ip\<lparr>designTarget := cache\<rparr>
       else if tmp = ''RAM'' then ip\<lparr>designTarget := RAM_chip, minNumRowPerSet := 1, maxNumRowPerSet := 1\<rparr>
       else ip\<lparr>designTarget := CAM_chip, minNumRowPerSet := 1, maxNumRowPerSet := 1\<rparr>)),
     (''-OptimizationTarget'', True, word_handler ''-OptimizationTarget: %s'' (\<lambda>tmp ip.
       if tmp = ''ReadLatency'' then ip\<lparr>optimizationTarget := read_latency_optimized\<rparr>
       else if tmp = ''WriteLatency'' then ip\<lparr>optimizationTarget := write_latency_optimized\<rparr>
       else if tmp = ''ReadDynamicEnergy'' then ip\<lparr>optimizationTarget := read_energy_optimized\<rparr>
       else if tmp = ''WriteDynamicEnergy'' then ip\<lparr>optimizationTarget := write_energy_optimized\<rparr>
       else if tmp = ''ReadEDP'' then ip\<lparr>optimizationTarget := read_edp_optimized\<rparr>
       else if tmp = ''WriteEDP'' then ip\<lparr>optimizationTarget := write_edp_optimized\<rparr>
       else if tmp = ''ReadBandwidth'' then ip\<lparr>optimizationTarget := read_bandwidth_optimized\<rparr>
       else if tmp = ''WriteBandwidth'' then ip\<lparr>optimizationTarget := write_bandwidth_optimized\<rparr>
       else if tmp = ''LeakagePower'' then ip\<lparr>optimizationTarget := leakage_optimized\<rparr>
       else if tmp = ''Area'' then ip\<lparr>optimizationTarget := area_optimized\<rparr>
       else ip\<lparr>optimizationTarget := full_exploration\<rparr>)),
     (''-OutputFilePrefix'', True, word_handler ''-OutputFilePrefix: %s'' (\<lambda>tmp ip.
       ip\<lparr>outputFilePrefix := tmp\<rparr>))]"

definition capacity_options :: "input_parameter option_chain" where
  "capacity_options = [
     (''-ProcessNode'', True, int_handler ''-ProcessNode: %d''
       [\<lambda>v ip. ip\<lparr>processNode := v\<rparr>]
       id),
     (''-Capacity (B)'', True, long_handler ''-Capacity (B): %ld''
       (\<lambda>cap ip. ip\<lparr>capacity := cap\<rparr>)),
     (''-Capacity (KB)'', True, long_handler ''-Capacity (KB): %ld''
       (\<lambda>cap ip. ip\<lparr>capacity := cap * 1024\<rparr>)),
     (''-Capacity (MB)'', True, long_handler ''-Capacity (MB): %ld''
       (\<lambda>cap ip. ip\<lparr>capacity := cap * 1024 * 1024\<rparr>)),
     (''-WordWidth'', True, int_handler ''-WordWidth (bit): %ld''
       [\<lambda>v ip. ip\<lparr>wordWidth := v\<rparr>]
       id)]"

definition device_options :: "input_parameter option_chain" where
  "device_options = [
     (''-Associativity'', True, int_handler ''-Associativity (for cache only): %d''
       [\<lambda>v ip. ip\<lparr>associativity := v\<rparr>]
       id),
     (''-Temperature'', True, int_handler ''-Temperature (K): %d''
       [\<lambda>v ip. ip\<lparr>temperature := v\<rparr>]
       id),
     (''-MaxDriverCurrent'', True, double_handler ''-MaxDriverCurrent (uA): %lf''
       (\<lambda>v ip. ip\<lparr>maxDriverCurrent := v\<rparr>) id),
     (''-DeviceRoadmap'', True, word_handler ''-DeviceRoadmap: %s'' (\<lambda>tmp ip.
       if tmp = ''HP'' then ip\<lparr>deviceRoadmap := HP\<rparr>
       else if tmp = ''LSTP'' then ip\<lparr>deviceRoadmap := LSTP\<rparr>
       else ip\<lparr>deviceRoadmap := LOP\<rparr>)),
     (''-WriteScheme'', True, word_handler ''-WriteScheme: %s'' (\<lambda>tmp ip.
       if tmp = ''SetBeforeReset'' then ip\<lparr>writeScheme := set_before_reset\<rparr>
       else if tmp = ''ResetBeforeSet'' then ip\<lparr>writeScheme := reset_before_set\<rparr>
       else if tmp = ''EraseBeforeSet'' then ip\<lparr>writeScheme := erase_before_set\<rparr>
       else if tmp = ''EraseBeforeReset'' then ip\<lparr>writeScheme := erase_before_reset\<rparr>
       else if tmp = ''WriteAndVerify'' then ip\<lparr>writeScheme := write_and_verify\<rparr>
       else ip\<lparr>writeScheme := normal_write\<rparr>)),
     (''-CacheAccessMode'', True, word_handler ''-CacheAccessMode: %s'' (\<lambda>tmp ip.
       if tmp = ''Sequential'' then ip\<lparr>cacheAccessMode := sequential_access_mode\<rparr>
       else if tmp = ''Fast'' then ip\<lparr>cacheAccessMode := fast_access_mode\<rparr>
       else ip\<lparr>cacheAccessMode := normal_access_mode\<rparr>))]"

definition wire_options :: "input_parameter option_chain" where
  "wire_options = [
     (''-LocalWireType'', True, word_handler ''-LocalWireType: %s'' (\<lambda>tmp ip.
       if tmp = ''LocalAggressive'' then ip\<lparr>minLocalWireType := wire_num local_aggressive, maxLocalWireType := wire_num local_aggressive\<rparr>
       else if tmp = ''LocalConservative'' then ip\<lparr>minLocalWireType := wire_num local_conservative, maxLocalWireType := wire_num local_conservative\<rparr>
       else if tmp = ''SemiAggressive'' then ip\<lparr>minLocalWireType := wire_num semi_aggressive, maxLocalWireType := wire_num semi_aggressive\<rparr>
       else if tmp = ''SemiConservative'' then ip\<lparr>minLocalWireType := wire_num semi_conservative, maxLocalWireType := wire_num semi_conservative\<rparr>
       else if tmp = ''GlobalAggressive'' then ip\<lparr>minLocalWireType := wire_num global_aggressive, maxLocalWireType := wire_num global_aggressive\<rparr>
       else if tmp = ''GlobalConservative'' then ip\<lparr>minLocalWireType := wire_num global_conservative, maxLocalWireType := wire_num global_conservative\<rparr>
       else ip\<lparr>minLocalWireType := wire_num dram_wordline, maxLocalWireType := wire_num dram_wordline\<rparr>)),
     (''-LocalWireRepeaterType'', True, word_handler ''-LocalWireRepeaterType: %s'' (\<lambda>tmp ip.
       if tmp = ''RepeatedOpt'' then ip\<lparr>minLocalWireRepeaterType := repeater_num repeated_opt,
            maxLocalWireRepeaterType := repeater_num repeated_opt\<rparr>
       else if tmp = ''Repeated5%Penalty'' then ip\<lparr>minLocalWireRepeaterType := repeater_num repeated_5,
            maxLocalWireRepeaterType := repeater_num repeated_5\<rparr>
       else if tmp = ''Repeated10%Penalty'' then ip\<lparr>minLocalWireRepeaterType := repeater_num repeated_10,
            maxLocalWireRepeaterType := repeater_num repeated_10\<rparr>
       else if tmp = ''Repeated20%Penalty'' then ip\<lparr>minLocalWireRepeaterType := repeater_num repeated_20,
            maxLocalWireRepeaterType := repeater_num repeated_20\<rparr>
       else if tmp = ''Repeated30%Penalty'' then ip\<lparr>minLocalWireRepeaterType := repeater_num repeated_30,
            maxLocalWireRepeaterType := repeater_num repeated_30\<rparr>
       else if tmp = ''Repeated40%Penalty'' then ip\<lparr>minLocalWireRepeaterType := repeater_num repeated_40,
            maxLocalWireRepeaterType := repeater_num repeated_40\<rparr>
       else if tmp = ''Repeated50%Penalty'' then ip\<lparr>minLocalWireRepeaterType := repeater_num repeated_50,
            maxLocalWireRepeaterType := repeater_num repeated_50\<rparr>
       else ip\<lparr>minLocalWireRepeaterType := repeater_num repeated_none,
            maxLocalWireRepeaterType := repeater_num repeated_none\<rparr>)),
     (''-LocalWireUseLowSwing'', True, word_handler ''-LocalWireUseLowSwing: %s'' (\<lambda>tmp ip.
       if tmp = ''Yes'' then ip\<lparr>minIsLocalWireLowSwing := 1, maxIsLocalWireLowSwing := 1\<rparr>
       else ip\<lparr>minIsLocalWireLowSwing := 0, maxIsLocalWireLowSwing := 0\<rparr>)),
     (''-GlobalWireType'', True, word_handler ''-GlobalWireType: %s'' (\<lambda>tmp ip.
       if tmp = ''LocalAggressive'' then ip\<lparr>minGlobalWireType := wire_num local_aggressive, maxGlobalWireType := wire_num local_aggressive\<rparr>
       else if tmp = ''LocalConservative'' then ip\<lparr>minGlobalWireType := wire_num local_conservative, maxGlobalWireType := wire_num local_conservative\<rparr>
       else if tmp = ''SemiAggressive'' then ip\<lparr>minGlobalWireType := wire_num semi_aggressive, maxGlobalWireType := wire_num semi_aggressive\<rparr>
       else if tmp = ''SemiConservative'' then ip\<lparr>minGlobalWireType := wire_num semi_conservative, maxGlobalWireType := wire_num semi_conservative\<rparr>
       else if tmp = ''GlobalAggressive'' then ip\<lparr>minGlobalWireType := wire_num global_aggressive, maxGlobalWireType := wire_num global_aggressive\<rparr>
       else if tmp = ''GlobalConservative'' then ip\<lparr>minGlobalWireType := wire_num global_conservative, maxGlobalWireType := wire_num global_conservative\<rparr>
       else ip\<lparr>minGlobalWireType := wire_num dram_wordline, maxGlobalWireType := wire_num dram_wordline\<rparr>)),
     (''-GlobalWireRepeaterType'', True, word_handler ''-GlobalWireRepeaterType: %s'' (\<lambda>tmp ip.
       if tmp = ''RepeatedOpt'' then ip\<lparr>minGlobalWireRepeaterType := repeater_num repeated_opt,
            maxGlobalWireRepeaterType := repeater_num repeated_opt\<rparr>
       else if tmp = ''Repeated5%Penalty'' then ip\<lparr>minGlobalWireRepeaterType := repeater_num repeated_5,
            maxGlobalWireRepeaterType := repeater_num repeated_5\<rparr>
       else if tmp = ''Repeated10%Penalty'' then ip\<lparr>minGlobalWireRepeaterType := repeater_num repeated_10,
            maxGlobalWireRepeaterType := repeater_num repeated_10\<rparr>
       else if tmp = ''Repeated20%Penalty'' then ip\<lparr>minGlobalWireRepeaterType := repeater_num repeated_20,
            maxGlobalWireRepeaterType := repeater_num repeated_20\<rparr>
       else if tmp = ''Repeated30%Penalty'' then ip\<lparr>minGlobalWireRepeaterType := repeater_num repeated_30,
            maxGlobalWireRepeaterType := repeater_num repeated_30\<rparr>
       else if tmp = ''Repeated40%Penalty'' then ip\<lparr>minGlobalWireRepeaterType := repeater_num repeated_40,
            maxGlobalWireRepeaterType := repeater_num repeated_40\<rparr>
       else if tmp = ''Repeated50%Penalty'' then ip\<lparr>minGlobalWireRepeaterType := repeater_num repeated_50,
            maxGlobalWireRepeaterType := repeater_num repeated_50\<rparr>
       else ip\<lparr>minGlobalWireRepeaterType := repeater_num repeated_none,
            maxGlobalWireRepeaterType := repeater_num repeated_none\<rparr>)),
     (''-GlobalWireUseLowSwing'', True, word_handler ''-GlobalWireUseLowSwing: %s'' (\<lambda>tmp ip.
       if tmp = ''Yes'' then ip\<lparr>minIsGlobalWireLowSwing := 1, maxIsGlobalWireLowSwing := 1\<rparr>
       else ip\<lparr>minIsGlobalWireLowSwing := 0, maxIsGlobalWireLowSwing := 0\<rparr>))]"

definition sizing_options :: "input_parameter option_chain" where
  "sizing_options = [
     (''-Routing'', True, word_handler ''-Routing: %s'' (\<lambda>tmp ip.
       if tmp = ''H-tree'' then ip\<lparr>routingMode := h_tree\<rparr>
       else ip\<lparr>routingMode := non_h_tree\<rparr>)),
     (''-InternalSensing'', True, word_handler ''-InternalSensing: %s'' (\<lambda>tmp ip.
       if tmp = ''true'' then ip\<lparr>internalSensing := True\<rparr>
       else ip\<lparr>internalSensing := False\<rparr>)),
     (''-RelaxSRAMCell'', True, strict_handler ''-RelaxSRAMCell'' ''-RelaxSRAMCell''
       ParseStrictBool
       (\<lambda>v ip. ip\<lparr>relaxSRAMCell := v\<rparr>)),
     (''-MemoryCellInputFile'', True, word_handler ''-MemoryCellInputFile: %s'' (\<lambda>tmp ip.
       ip\<lparr>fileMemCell := fileMemCell ip @ [tmp]\<rparr>)),
     (''-MaxNmosSize'', True, double_handler ''-MaxNmosSize (F): %lf''
       (\<lambda>v ip. ip\<lparr>maxNmosSize := v\<rparr>) id),
     (''-BankAspectRatioLimit'', True, strict_handler ''-BankAspectRatioLimit'' ''-BankAspectRatioLimit''
       (\<lambda>s. Option.bind (ParseStrictDouble s) (\<lambda>x. if x \<noteq> 0 \<and> x < 1 then None else Some x))
       (\<lambda>v ip. ip\<lparr>bankAspectRatioLimit := v\<rparr>)),
     (''-DRAMTargetResidualRatio'', True, strict_handler ''-DRAMTargetResidualRatio'' ''-DRAMTargetResidualRatio''
       (\<lambda>s. Option.bind (ParseStrictDouble s) (\<lambda>x. if x \<le> 0 \<or> 1 \<le> x then None else Some x))
       (\<lambda>v ip. ip\<lparr>dramTargetResidualRatio := v\<rparr>))]"

definition design_options :: "input_parameter option_chain" where
  "design_options = [
     (''-UseCactiAssumption'', True, word_handler ''-UseCactiAssumption: %s'' (\<lambda>tmp ip.
       if tmp = ''Yes'' then ip\<lparr>useCactiAssumption := True,
            minNumActiveSubArrayPerRow := maxNumColumnSubArray ip, maxNumActiveSubArrayPerRow := maxNumColumnSubArray ip,
            minNumActiveSubArrayPerColumn := 1, maxNumActiveSubArrayPerColumn := 1,
            minNumRowMat := 2, maxNumRowMat := 2, minNumColumnMat := 2, maxNumColumnMat := 2,
            minNumActiveMatPerRow := 2, maxNumActiveMatPerRow := 2,
            minNumActiveMatPerColumn := 2, maxNumActiveMatPerColumn := 2\<rparr>
       else ip\<lparr>useCactiAssumption := False\<rparr>)),
     (''-EnablePruning'', True, word_handler ''-EnablePruning: %s'' (\<lambda>tmp ip.
       if tmp = ''Yes'' then ip\<lparr>isPruningEnabled := True\<rparr>
       else ip\<lparr>isPruningEnabled := False\<rparr>)),
     (''-BufferDesignOptimization'', False, word_handler ''-BufferDesignOptimization: %s'' (\<lambda>tmp ip.
       if tmp = ''latency'' then ip\<lparr>minAreaOptimizationLevel := 0, maxAreaOptimizationLevel := 0\<rparr>
       else if tmp = ''area'' then ip\<lparr>minAreaOptimizationLevel := 2, maxAreaOptimizationLevel := 2\<rparr>
       else ip\<lparr>minAreaOptimizationLevel := 1, maxAreaOptimizationLevel := 1\<rparr>))]"

definition force_options :: "input_parameter option_chain" where
  "force_options = [
     (''-ForceBank3DA'', True, int_handler ''-ForceBank3DA (Total AxBxC): %dx%dx%d''
       [\<lambda>v ip. ip\<lparr>minNumRowSubArray := v\<rparr>,
        \<lambda>v ip. ip\<lparr>minNumColumnSubArray := v\<rparr>,
        \<lambda>v ip. ip\<lparr>minStackLayer := v\<rparr>]
       (\<lambda>ip. ip\<lparr>maxNumRowSubArray := minNumRowSubArray ip,
        maxNumColumnSubArray := minNumColumnSubArray ip,
        maxStackLayer := minStackLayer ip,
        forcedStackLayers := True\<rparr>)),
     (''-ForceBank3D'', True, int_handler ''-ForceBank3D (Total AxBxC, Active DxE): %dx%dx%d, %dx%d''
       [\<lambda>v ip. ip\<lparr>minNumRowSubArray := v\<rparr>,
        \<lambda>v ip. ip\<lparr>minNumColumnSubArray := v\<rparr>,
        \<lambda>v ip. ip\<lparr>minStackLayer := v\<rparr>,
        \<lambda>v ip. ip\<lparr>minNumActiveSubArrayPerColumn := v\<rparr>,
        \<lambda>v ip. ip\<lparr>minNumActiveSubArrayPerRow := v\<rparr>]
       (\<lambda>ip. ip\<lparr>maxNumRowSubArray := minNumRowSubArray ip,
        maxNumColumnSubArray := minNumColumnSubArray ip,
        maxStackLayer := minStackLayer ip,
        maxNumActiveSubArrayPerColumn := minNumActiveSubArrayPerColumn ip,
        maxNumActiveSubArrayPerRow := minNumActiveSubArrayPerRow ip,
        forcedStackLayers := True\<rparr>)),
     (''-ForceBankA'', True, int_handler ''-ForceBankA (Total AxB): %dx%d''
       [\<lambda>v ip. ip\<lparr>minNumRowSubArray := v\<rparr>, \<lambda>v ip. ip\<lparr>minNumColumnSubArray := v\<rparr>]
       (\<lambda>ip. ip\<lparr>maxNumRowSubArray := minNumRowSubArray ip, maxNumColumnSubArray := minNumColumnSubArray ip\<rparr>)),
     (''-LimitMonolithicTier'', True, strict_handler ''-LimitMonolithicTier'' ''-LimitMonolithicTier (N)''
       (\<lambda>s. Option.bind (ParseStrictPositiveUint64 s) (\<lambda>x. if 2147483647 < x then None else Some x))
       (\<lambda>v ip. ip\<lparr>matLayerSet := uint v, maxMatLayers := uint v\<rparr>)),
     (''-ClockFrequency'', True, double_handler ''-ClockFrequency: %lf''
       (\<lambda>v ip. ip\<lparr>clockInput := v\<rparr>) (\<lambda>ip. ip\<lparr>clockFreq := clockInput ip\<rparr>)),
     (''-ForceBank'', True, int_handler ''-ForceBank (Total AxB, Active CxD): %dx%d, %dx%d''
       [\<lambda>v ip. ip\<lparr>minNumRowSubArray := v\<rparr>,
        \<lambda>v ip. ip\<lparr>minNumColumnSubArray := v\<rparr>,
        \<lambda>v ip. ip\<lparr>minNumActiveSubArrayPerColumn := v\<rparr>,
        \<lambda>v ip. ip\<lparr>minNumActiveSubArrayPerRow := v\<rparr>]
       (\<lambda>ip. ip\<lparr>maxNumRowSubArray := minNumRowSubArray ip,
        maxNumColumnSubArray := minNumColumnSubArray ip,
        maxNumActiveSubArrayPerColumn := minNumActiveSubArrayPerColumn ip,
        maxNumActiveSubArrayPerRow := minNumActiveSubArrayPerRow ip\<rparr>)),
     (''-ForceSubArrayA'', True, int_handler ''-ForceSubArrayA (Total AxB): %dx%d''
       [\<lambda>v ip. ip\<lparr>minNumRowMat := v\<rparr>, \<lambda>v ip. ip\<lparr>minNumColumnMat := v\<rparr>]
       (\<lambda>ip. ip\<lparr>maxNumRowMat := minNumRowMat ip, maxNumColumnMat := minNumColumnMat ip\<rparr>)),
     (''-ForceSubArray'', True, int_handler ''-ForceSubArray (Total AxB, Active CxD): %dx%d, %dx%d''
       [\<lambda>v ip. ip\<lparr>minNumRowMat := v\<rparr>,
        \<lambda>v ip. ip\<lparr>minNumColumnMat := v\<rparr>,
        \<lambda>v ip. ip\<lparr>minNumActiveMatPerColumn := v\<rparr>,
        \<lambda>v ip. ip\<lparr>minNumActiveMatPerRow := v\<rparr>]
       (\<lambda>ip. ip\<lparr>maxNumRowMat := minNumRowMat ip,
        maxNumColumnMat := minNumColumnMat ip,
        maxNumActiveMatPerColumn := minNumActiveMatPerColumn ip,
        maxNumActiveMatPerRow := minNumActiveMatPerRow ip\<rparr>)),
     (''-ForceMuxSenseAmp'', True, int_handler ''-ForceMuxSenseAmp: %d''
       [\<lambda>v ip. ip\<lparr>minMuxSenseAmp := v\<rparr>]
       (\<lambda>ip. ip\<lparr>maxMuxSenseAmp := minMuxSenseAmp ip\<rparr>)),
     (''-ForceMuxOutputLev1'', True, int_handler ''-ForceMuxOutputLev1: %d''
       [\<lambda>v ip. ip\<lparr>minMuxOutputLev1 := v\<rparr>]
       (\<lambda>ip. ip\<lparr>maxMuxOutputLev1 := minMuxOutputLev1 ip\<rparr>)),
     (''-ForceMuxOutputLev2'', True, int_handler ''-ForceMuxOutputLev2: %d''
       [\<lambda>v ip. ip\<lparr>minMuxOutputLev2 := v\<rparr>]
       (\<lambda>ip. ip\<lparr>maxMuxOutputLev2 := minMuxOutputLev2 ip\<rparr>))]"

definition constraint_options :: "input_parameter option_chain" where
  "constraint_options = [
     (''-FlashPageSize'', True, int_handler ''-FlashPageSize (Byte): %ld''
       [\<lambda>v ip. ip\<lparr>pageSize := v\<rparr>]
       (\<lambda>ip. ip\<lparr>pageSize := pageSize ip * 8\<rparr>)),
     (''-FlashBlockSize'', True, int_handler ''-FlashBlockSize (KB): %ld''
       [\<lambda>v ip. ip\<lparr>flashBlockSize := v\<rparr>]
       (\<lambda>ip. ip\<lparr>flashBlockSize := flashBlockSize ip * (8 * 1024)\<rparr>)),
     (''-ApplyReadLatencyConstraint'', True, double_handler ''-ApplyReadLatencyConstraint: %lf''
       (\<lambda>v ip. ip\<lparr>readLatencyConstraint := v\<rparr>) (\<lambda>ip. ip\<lparr>isConstraintApplied := True\<rparr>)),
     (''-ApplyWriteLatencyConstraint'', True, double_handler ''-ApplyWriteLatencyConstraint: %lf''
       (\<lambda>v ip. ip\<lparr>writeLatencyConstraint := v\<rparr>) (\<lambda>ip. ip\<lparr>isConstraintApplied := True\<rparr>)),
     (''-ApplyReadDynamicEnergyConstraint'', True, double_handler ''-ApplyReadDynamicEnergyConstraint: %lf''
       (\<lambda>v ip. ip\<lparr>readDynamicEnergyConstraint := v\<rparr>) (\<lambda>ip. ip\<lparr>isConstraintApplied := True\<rparr>)),
     (''-ApplyWriteDynamicEnergyConstraint'', True, double_handler ''-ApplyWriteDynamicEnergyConstraint: %lf''
       (\<lambda>v ip. ip\<lparr>writeDynamicEnergyConstraint := v\<rparr>) (\<lambda>ip. ip\<lparr>isConstraintApplied := True\<rparr>)),
     (''-ApplyLeakageConstraint'', True, double_handler ''-ApplyLeakageConstraint: %lf''
       (\<lambda>v ip. ip\<lparr>leakageConstraint := v\<rparr>) (\<lambda>ip. ip\<lparr>isConstraintApplied := True\<rparr>)),
     (''-ApplyAreaConstraint'', True, double_handler ''-ApplyAreaConstraint: %lf''
       (\<lambda>v ip. ip\<lparr>areaConstraint := v\<rparr>) (\<lambda>ip. ip\<lparr>isConstraintApplied := True\<rparr>)),
     (''-ApplyReadEdpConstraint'', True, double_handler ''-ApplyReadEdpConstraint: %lf''
       (\<lambda>v ip. ip\<lparr>readEdpConstraint := v\<rparr>) (\<lambda>ip. ip\<lparr>isConstraintApplied := True\<rparr>)),
     (''-ApplyWriteEdpConstraint'', True, double_handler ''-ApplyWriteEdpConstraint: %lf''
       (\<lambda>v ip. ip\<lparr>writeEdpConstraint := v\<rparr>) (\<lambda>ip. ip\<lparr>isConstraintApplied := True\<rparr>))]"

definition stacking_options :: "input_parameter option_chain" where
  "stacking_options = [
     (''-ViewMatStatistics'', True, word_handler ''-ViewMatStatistics: %s'' (\<lambda>tmp ip.
       ip\<lparr>viewMatStats := True\<rparr>)),
     (''-ViewQuantization'', True, word_handler ''-ViewQuantization: %s'' (\<lambda>tmp ip.
       ip\<lparr>quantize := True\<rparr>)),
     (''-M3DMemory'', True, strict_handler ''-M3DMemory'' ''-M3DMemory''
       ParseStrictBool
       (\<lambda>v ip. ip\<lparr>monolithic3DMat := v\<rparr>)),
     (''-PartitionGranularity'', True, int_handler ''-PartitionGranularity: %d''
       [\<lambda>v ip. ip\<lparr>partitionGranularity := v\<rparr>]
       id),
     (''-LocalTSVProjection'', True, int_handler ''-LocalTSVProjection: %d''
       [\<lambda>v ip. ip\<lparr>localTsvProjection := v\<rparr>]
       id),
     (''-GlobalTSVProjection'', True, int_handler ''-GlobalTSVProjection: %d''
       [\<lambda>v ip. ip\<lparr>globalTsvProjection := v\<rparr>]
       id),
     (''-TSVRedundancy'', True, double_handler ''-TSVRedundancy: %lf''
       (\<lambda>v ip. ip\<lparr>tsvRedundancy := v\<rparr>) id),
     (''-StackedDieCount'', True, int_handler ''-StackedDieCount: %d''
       [\<lambda>v ip. ip\<lparr>minStackLayer := v\<rparr>]
       (\<lambda>ip. ip\<lparr>maxStackLayer := minStackLayer ip, forcedStackLayers := True\<rparr>)),
     (''-MonolithicStackCount'', True, int_handler ''-MonolithicStackCount: %d''
       [\<lambda>v ip. ip\<lparr>monolithicStackCount := v\<rparr>]
       id),
     (''-PrintAllOptimals'', True, word_handler ''-PrintAllOptimals: %s'' (\<lambda>tmp ip.
       if tmp = ''true'' then ip\<lparr>printAllOptimals := True\<rparr>
       else ip\<lparr>printAllOptimals := False\<rparr>)),
     (''-AllowDifferentTagTech'', True, word_handler ''-AllowDifferentTagTech: %s'' (\<lambda>tmp ip.
       if tmp = ''true'' then ip\<lparr>allowDifferentTagTech := True\<rparr>
       else ip\<lparr>allowDifferentTagTech := False\<rparr>))]"

definition handlers :: "input_parameter option_chain" where
  "handlers = target_options @ capacity_options @ [(''-ForceMatSize'', True, opt_ForceMatSize)] @
     device_options @ wire_options @ sizing_options @ force_options @ design_options @
     constraint_options @ stacking_options @ [(''-PrintLevel'', False, opt_PrintLevel)]"

lemmas handler_table_defs = handlers_def target_options_def capacity_options_def device_options_def
  wire_options_def sizing_options_def force_options_def design_options_def constraint_options_def
  stacking_options_def

section \<open>Reading the file\<close>

definition process_line :: "string \<Rightarrow> reader \<Rightarrow> reader res" where
  "process_line line st = dispatch line handlers st"

definition read_loop :: "string \<Rightarrow> string \<Rightarrow> reader \<Rightarrow> reader res option" where
  "read_loop content line st = read_lines process_line content line st"

definition ValidateInputParameter :: "input_parameter \<Rightarrow> unit res" where
  "ValidateInputParameter ip =
     (if bankAspectRatioLimit ip \<noteq> 0 \<and> bankAspectRatioLimit ip < 1
      then Inl (ConfigExit ''-BankAspectRatioLimit'')
      else if forceMatSize ip \<and> (forcedMatRows ip = 0 \<or> forcedMatColumns ip = 0)
      then Inl (ConfigExit ''-ForceMatSize'')
      else if dramTargetResidualRatio ip \<le> 0 \<or> 1 \<le> dramTargetResidualRatio ip
      then Inl (ConfigExit ''-DRAMTargetResidualRatio'')
      else if maxMatLayers ip \<le> 0 then Inl (ConfigExit ''-LimitMonolithicTier'')
      else Inr ())"

text \<open>The file is \<open>None\<close> when it cannot be opened; \<open>line0\<close> and \<open>tmp0\<close> are the initial
  contents of the two stack buffers.\<close>

definition ReadInputParameterFromFile ::
    "string option \<Rightarrow> string \<Rightarrow> string \<Rightarrow> input_parameter \<Rightarrow> input_parameter res option" where
  "ReadInputParameterFromFile file line0 tmp0 ip =
     (case file of
        None \<Rightarrow> Some (Inl (ConfigExit ''cannot be found''))
      | Some content \<Rightarrow>
          Option.bind (read_loop content line0 (ip\<lparr>forcedStackLayers := False\<rparr>, tmp0))
            (\<lambda>r. Some (bindR r (\<lambda>st. bindR (ValidateInputParameter (fst st)) (\<lambda>_. Inr (fst st))))))"

end
