(* ===== verification/Input_Props.thy ===== *)
theory Input_Props
  imports Input_Parameter
begin

text \<open>
  Correctness of the configuration reader: the unsigned parser computes the decimal value
  exactly when it fits 64 bits, printed matrix sizes are read back, no option name hides a
  later one, the reading loop ends exactly when the file does not start with a newline,
  and every handler keeps the conditions that the final validation checks.
\<close>

section \<open>Unsigned numbers\<close>

lemma foldl_digits_mono: "a \<le> foldl (\<lambda>v c. v * 10 + digit_val c) a ds"
proof (induction ds arbitrary: a)
  case (Cons d ds)
  have "a \<le> a * 10 + digit_val d" by simp
  also have "\<dots> \<le> foldl (\<lambda>v c. v * 10 + digit_val c) (a * 10 + digit_val d) ds" by (rule Cons.IH)
  finally show ?case by simp
qed simp

lemma digit_val_le: "isdigit c \<Longrightarrow> digit_val c \<le> 9"
  by (auto simp: isdigit_def digit_val_def)

lemma overflow_guard:
  fixes p :: "64 word"
  assumes "d \<le> 9"
  shows "(- 1 - of_nat d) div 10 < p \<longleftrightarrow> 2 ^ 64 \<le> unat p * 10 + d"
proof -
  have "(of_nat (2 ^ 64 - 1 - d) :: 64 word) = of_nat (2 ^ 64 - 1) - of_nat d"
    using assms by (intro of_nat_diff) simp
  hence "- 1 - of_nat d = (of_nat (2 ^ 64 - 1 - d) :: 64 word)" by simp
  hence "unat (- 1 - of_nat d :: 64 word) = 2 ^ 64 - 1 - d"
    using unat64_of_nat[of "2 ^ 64 - 1 - d"] by simp
  hence q: "unat ((- 1 - of_nat d) div 10 :: 64 word) = (2 ^ 64 - 1 - d) div 10"
    by (simp add: unat_div)
  have "(- 1 - of_nat d) div 10 < p \<longleftrightarrow> (2 ^ 64 - 1 - d) div 10 < unat p"
    by (simp only: word_less_nat_alt q)
  also have "\<dots> \<longleftrightarrow> 2 ^ 64 \<le> unat p * 10 + d"
    using assms by (simp add: div_less_iff_less_mult) linarith
  finally show ?thesis .
qed

lemma parse_digits_spec:
  "parse_digits p s =
     (let v = foldl (\<lambda>v c. v * 10 + digit_val c) (unat p) (takeWhile isdigit s) in
      if v < 2 ^ 64 then Some (of_nat v, dropWhile isdigit s) else None)"
proof (induction p s rule: parse_digits.induct)
  case (1 p)
  show ?case using unat64_less[of p] by simp
next
  case (2 p c cs)
  show ?case
  proof (cases "isdigit c")
    case False
    thus ?thesis using unat64_less[of p] by simp
  next
    case dig: True
    let ?d = "digit_val c"
    show ?thesis
    proof (cases "2 ^ 64 \<le> unat p * 10 + ?d")
      case True
      hence "2 ^ 64 \<le> foldl (\<lambda>v c. v * 10 + digit_val c) (unat p * 10 + ?d) (takeWhile isdigit cs)"
        using foldl_digits_mono le_trans by blast
      with True dig overflow_guard[OF digit_val_le[OF dig]] show ?thesis
        by (simp add: Let_def not_less)
    next
      case False
      hence "unat (p * 10 + of_nat ?d) = unat p * 10 + ?d"
        using unat64_of_nat[of "unat p * 10 + ?d"] by simp
      with False dig 2 overflow_guard[OF digit_val_le[OF dig]] show ?thesis
        by (simp add: Let_def)
    qed
  qed
qed

text \<open>
  \<open>ParseUnsignedToken\<close> skips white space, takes the longest run of digits, and returns
  its decimal value with the rest of the text exactly when the run is not empty and the
  value is below 2 to the 64; a larger value is rejected rather than wrapped around.
\<close>
theorem ParseUnsignedToken_exact:
  "ParseUnsignedToken s =
     (let t = skip_ws s; ds = takeWhile isdigit t in
      if ds = [] \<or> 2 ^ 64 \<le> digits_val 10 ds then None
      else Some (of_nat (digits_val 10 ds), dropWhile isdigit t))"
proof (cases "skip_ws s")
  case Nil
  thus ?thesis by (simp add: ParseUnsignedToken_def)
next
  case (Cons c cs)
  have "parse_digits 0 (c # cs) =
    (if digits_val 10 (takeWhile isdigit (c # cs)) < 2 ^ 64
     then Some (of_nat (digits_val 10 (takeWhile isdigit (c # cs))), dropWhile isdigit (c # cs)) else None)"
    unfolding parse_digits_spec digits_val_def Let_def by simp
  with Cons show ?thesis
    by (simp add: ParseUnsignedToken_def Let_def del: parse_digits.simps)
qed

lemma ParseUnsignedToken_run:
  assumes "\<forall>c \<in> set ws. isspace c" "ds \<noteq> []" "\<forall>c \<in> set ds. isdigit c"
    and "rest = [] \<or> \<not> isdigit (hd rest)" "digits_val 10 ds < 2 ^ 64"
  shows "ParseUnsignedToken (ws @ ds @ rest) = Some (of_nat (digits_val 10 ds), rest)"
proof -
  obtain d ds' where d: "ds = d # ds'" using assms(2) by (cases ds) auto
  have "\<not> isspace d" using assms(3) d isdigit_not_space by auto
  hence "skip_ws (ws @ ds @ rest) = ds @ rest"
    using assms(1) d by (simp add: skip_ws_def dropWhile_append1 dropWhile_append2)
  moreover have "takeWhile isdigit (ds @ rest) = ds" "dropWhile isdigit (ds @ rest) = rest"
    using assms(3,4) by (cases rest; simp add: takeWhile_append2 dropWhile_append2)+
  moreover have "isdigit (hd (ds @ rest))" using assms(3) d by simp
  moreover have "parse_digits 0 (ds @ rest) = Some (of_nat (digits_val 10 ds), rest)"
    using calculation(2,3) assms(5) by (simp add: parse_digits_spec digits_val_def)
  ultimately show ?thesis using d by (simp add: ParseUnsignedToken_def)
qed

section \<open>Printed numbers\<close>

fun show_nat :: "nat \<Rightarrow> string" where
  "show_nat n = (if n < 10 then [char_of (n + 48)] else show_nat (n div 10) @ [char_of (n mod 10 + 48)])"

declare show_nat.simps [simp del]

lemma digit_char: "n < 10 \<Longrightarrow> isdigit (char_of (n + 48))" "n < 10 \<Longrightarrow> digit_val (char_of (n + 48)) = n"
  by (simp_all add: isdigit_def digit_val_def code_def)

lemma show_nat_ne [simp]: "show_nat n \<noteq> []"
  by (subst show_nat.simps) simp

lemma show_nat_digits: "\<forall>c \<in> set (show_nat n). isdigit c"
  by (induction n rule: show_nat.induct) (subst show_nat.simps, auto simp: digit_char)

lemma digits_val_show [simp]: "digits_val 10 (show_nat n) = n"
proof (induction n rule: show_nat.induct)
  case (1 n)
  thus ?case by (subst show_nat.simps) (auto simp: digits_val_def digit_char)
qed

lemma hd_show_digit: "isdigit (hd (show_nat n))"
  using show_nat_digits[of n] by (cases "show_nat n") auto

lemma show_nat_nonspace: "c \<in> set (show_nat n) \<Longrightarrow> \<not> isspace c"
  using show_nat_digits isdigit_not_space by blast

lemma ParseStrictMatSize_show:
  assumes "0 < r" "r < 2 ^ 64" "0 < c" "c < 2 ^ 64"
  shows "ParseStrictMatSize (show_nat r @ '' x '' @ show_nat c) = Some (of_nat r, of_nat c)"
proof -
  have sp: "isspace (CHR '' '')" "\<not> isspace (CHR ''x'')" "\<not> isdigit (CHR '' '')"
    by (simp_all add: isspace_def isdigit_def code_def)
  have 1: "ParseUnsignedToken (show_nat r @ '' x '' @ show_nat c) = Some (of_nat r, '' x '' @ show_nat c)"
    using ParseUnsignedToken_run[of "[]" "show_nat r" "'' x '' @ show_nat c"] assms show_nat_digits
    by (simp add: sp)
  have 2: "ParseUnsignedToken ('' '' @ show_nat c) = Some (of_nat c, [])"
    using ParseUnsignedToken_run[of "'' ''" "show_nat c" "[]"] assms show_nat_digits
    by (simp add: sp)
  have nz: "(of_nat r :: 64 word) \<noteq> 0" "(of_nat c :: 64 word) \<noteq> 0"
    using unat64_of_nat assms by (metis gr_implies_not0 unsigned_0)+
  have ws: "skip_ws ('' x '' @ show_nat c) = ''x '' @ show_nat c" "skip_ws [] = []"
    by (simp_all add: skip_ws_def sp)
  show ?thesis using 1 2 nz ws by (simp add: ParseStrictMatSize_def)
qed

section \<open>Dispatch\<close>

definition option_table :: "(string \<times> bool) list" where
  "option_table = [
     (''-DesignTarget'', True), (''-OptimizationTarget'', True), (''-OutputFilePrefix'', True),
     (''-ProcessNode'', True), (''-Capacity (B)'', True), (''-Capacity (KB)'', True),
     (''-Capacity (MB)'', True), (''-WordWidth'', True), (''-ForceMatSize'', True),
     (''-Associativity'', True), (''-Temperature'', True), (''-MaxDriverCurrent'', True),
     (''-DeviceRoadmap'', True), (''-WriteScheme'', True), (''-CacheAccessMode'', True),
     (''-LocalWireType'', True), (''-LocalWireRepeaterType'', True),
     (''-LocalWireUseLowSwing'', True), (''-GlobalWireType'', True),
     (''-GlobalWireRepeaterType'', True), (''-GlobalWireUseLowSwing'', True),
     (''-Routing'', True), (''-InternalSensing'', True), (''-RelaxSRAMCell'', True),
     (''-MemoryCellInputFile'', True), (''-MaxNmosSize'', True),
     (''-BankAspectRatioLimit'', True), (''-DRAMTargetResidualRatio'', True),
     (''-ForceBank3DA'', True), (''-ForceBank3D'', True), (''-ForceBankA'', True),
     (''-LimitMonolithicTier'', True), (''-ClockFrequency'', True), (''-ForceBank'', True),
     (''-ForceSubArrayA'', True), (''-ForceSubArray'', True), (''-ForceMuxSenseAmp'', True),
     (''-ForceMuxOutputLev1'', True), (''-ForceMuxOutputLev2'', True),
     (''-UseCactiAssumption'', True), (''-EnablePruning'', True),
     (''-BufferDesignOptimization'', False), (''-FlashPageSize'', True),
     (''-FlashBlockSize'', True), (''-ApplyReadLatencyConstraint'', True),
     (''-ApplyWriteLatencyConstraint'', True), (''-ApplyReadDynamicEnergyConstraint'', True),
     (''-ApplyWriteDynamicEnergyConstraint'', True), (''-ApplyLeakageConstraint'', True),
     (''-ApplyAreaConstraint'', True), (''-ApplyReadEdpConstraint'', True),
     (''-ApplyWriteEdpConstraint'', True), (''-ViewMatStatistics'', True),
     (''-ViewQuantization'', True), (''-M3DMemory'', True), (''-PartitionGranularity'', True),
     (''-LocalTSVProjection'', True), (''-GlobalTSVProjection'', True),
     (''-TSVRedundancy'', True), (''-StackedDieCount'', True), (''-MonolithicStackCount'', True),
     (''-PrintAllOptimals'', True), (''-AllowDifferentTagTech'', True), (''-PrintLevel'', False)]"

lemma handlers_table: "names handlers = option_table"
  by (simp only: names_def handler_table_defs append.simps option_table_def list.map fst_conv snd_conv)

lemma option_table_ok: "reach_ok option_table"
  by code_simp

text \<open>
  C26. Every option of the configuration file reaches its own handler: whatever the rest of
  the line is, a line that starts with an option name followed by a colon or a space is
  processed by exactly the handler of that name; no earlier option with a shorter name
  captures it, and the two handlers that do not end with \<^verbatim>\<open>continue\<close> fall through to no other.
\<close>
theorem process_line_own_handler:
  assumes "(key, cont, h) \<in> set handlers" "c \<in> set '': ''"
  shows "process_line (key @ c # rest) st = h (key @ c # rest) st"
  unfolding process_line_def
  using assms by (intro dispatch_own) (simp_all only: handlers_table option_table_ok)

theorem process_line_own_handler_witness:
  "(''-PrintLevel'', False, opt_PrintLevel) \<in> set handlers \<and>
   (\<forall>ip t. process_line ''-PrintLevel: 2'' (ip, t) = Inr (ip\<lparr>printLevel := 2\<rparr>, t))"
proof (intro conjI allI)
  show m: "(''-PrintLevel'', False, opt_PrintLevel) \<in> set handlers" by (simp add: handler_table_defs)
  fix ip t
  have "process_line (''-PrintLevel'' @ CHR '':'' # '' 2'') (ip, t) = opt_PrintLevel ''-PrintLevel: 2'' (ip, t)"
    using process_line_own_handler[OF m, of "CHR '':''" "'' 2''" "(ip, t)"] by simp
  thus "process_line ''-PrintLevel: 2'' (ip, t) = Inr (ip\<lparr>printLevel := 2\<rparr>, t)"
    by (simp add: opt_PrintLevel_def int_handler_def isspace_def code_def skip_ws_def apply_conv_def
        scan_long_def take_sign_def isdigit_def digits_val_def digit_val_def clamp64_def wrap32_def)
qed

lemma rtrim_id: "s \<noteq> [] \<Longrightarrow> \<not> isspace (last s) \<Longrightarrow> rtrim s = s"
  by (cases s rule: rev_cases) (auto simp: rtrim_def)

lemma ExtractStrictValue_plain:
  assumes "v \<noteq> []" "\<not> isspace (hd v)" "\<not> isspace (last v)"
  shows "ExtractStrictValue (opt @ '': '' @ v) opt = Some v"
proof -
  have c: "\<not> isspace (CHR '':'')" "isspace (CHR '' '')" by (simp_all add: isspace_def code_def)
  have 1: "skip_ws ('': '' @ v) = '': '' @ v" by (simp add: skip_ws_def c)
  have 2: "skip_ws ('' '' @ v) = v" using assms by (cases v) (simp_all add: skip_ws_def c)
  show ?thesis using assms rtrim_id[of v] 1 2 by (simp add: ExtractStrictValue_def Let_def)
qed

definition mat_size_line :: "nat \<Rightarrow> nat \<Rightarrow> string" where
  "mat_size_line r c = ''-ForceMatSize (Rows x Columns): '' @ show_nat r @ '' x '' @ show_nat c"

lemma dispatch_own_handlers:
  "(key, cont, h) \<in> set handlers \<Longrightarrow> c \<in> set '': '' \<Longrightarrow>
   process_line (key @ c # rest) st = h (key @ c # rest) st"
  unfolding process_line_def by (intro dispatch_own) (simp_all only: handlers_table option_table_ok)

text \<open>
  C27. Round trip of the forced mat size: a configuration line that prints two positive
  dimensions below 2 to the 64 in decimal is dispatched to its handler and read back as
  exactly these dimensions, changing no other member of the configuration.
\<close>
theorem force_mat_size_roundtrip:
  assumes "0 < r" "r < 2 ^ 64" "0 < c" "c < 2 ^ 64"
  shows "process_line (mat_size_line r c) (ip, tmp) =
    Inr (ip\<lparr>forceMatSize := True, forcedMatRows := of_nat r, forcedMatColumns := of_nat c\<rparr>, tmp)"
proof -
  let ?v = "show_nat r @ '' x '' @ show_nat c"
  have "(''-ForceMatSize'', True, opt_ForceMatSize) \<in> set handlers" by (simp add: handler_table_defs)
  hence own: "process_line (mat_size_line r c) (ip, tmp) = opt_ForceMatSize (mat_size_line r c) (ip, tmp)"
    using dispatch_own_handlers[where key = "''-ForceMatSize''" and c = "CHR '' ''"
        and rest = "''(Rows x Columns): '' @ ?v"] by (simp add: mat_size_line_def)
  have "\<not> isspace (hd ?v)" "\<not> isspace (last ?v)"
    using hd_show_digit[of r] isdigit_not_space show_nat_nonspace[of "last (show_nat c)" c] by auto
  hence "ExtractStrictValue (mat_size_line r c) ''-ForceMatSize (Rows x Columns)'' = Some ?v"
    using ExtractStrictValue_plain[of ?v "''-ForceMatSize (Rows x Columns)''"]
    by (simp add: mat_size_line_def)
  thus ?thesis
    using own ParseStrictMatSize_show[OF assms] by (simp add: opt_ForceMatSize_def strict_handler_def)
qed

theorem force_mat_size_roundtrip_witness:
  "\<forall>ip tmp. process_line (mat_size_line 512 1024) (ip, tmp) =
    Inr (ip\<lparr>forceMatSize := True, forcedMatRows := 512, forcedMatColumns := 1024\<rparr>, tmp)"
  using force_mat_size_roundtrip[of 512 1024] by simp

section \<open>The reading loop ends\<close>

lemma process_empty_line: "process_line [] st = Inr st"
  unfolding process_line_def handler_table_defs by simp

interpretation config: line_reader process_line
  by unfold_locales (rule process_empty_line)

lemmas read_loop_ends = read_lines_ends[of _ process_line, folded read_loop_def]
lemmas read_loop_stuck = read_lines_stuck[of process_line, folded read_loop_def]
lemmas read_loop_hangs = config.hangs[folded read_loop_def]

text \<open>
  C35. Reading a configuration file ends unless the file starts with a newline: then no
  configuration is ever returned, because the scan of the first line fails without moving the
  file position; with a line buffer that starts out empty the loop runs forever.
\<close>
theorem read_config_ends:
  "(content = [] \<or> hd content \<noteq> newline \<longrightarrow>
      (\<exists>r. ReadInputParameterFromFile (Some content) line0 tmp0 ip = Some r)) \<and>
   (\<nexists>ip'. ReadInputParameterFromFile (Some (newline # content)) line0 tmp0 ip = Some (Inr ip')) \<and>
   ReadInputParameterFromFile (Some (newline # content)) [] tmp0 ip = None"
proof (intro conjI impI)
  assume "content = [] \<or> hd content \<noteq> newline"
  then obtain r where "read_loop content line0 (ip\<lparr>forcedStackLayers := False\<rparr>, tmp0) = Some r"
    using read_loop_ends by blast
  thus "\<exists>r. ReadInputParameterFromFile (Some content) line0 tmp0 ip = Some r"
    by (simp add: ReadInputParameterFromFile_def)
next
  show "\<nexists>ip'. ReadInputParameterFromFile (Some (newline # content)) line0 tmp0 ip = Some (Inr ip')"
    using read_loop_stuck by (fastforce simp: ReadInputParameterFromFile_def split: bind_splits)
next
  show "ReadInputParameterFromFile (Some (newline # content)) [] tmp0 ip = None"
    by (simp add: ReadInputParameterFromFile_def read_loop_hangs)
qed

theorem read_config_ends_witness:
  "\<forall>ip. (\<exists>r. ReadInputParameterFromFile (Some ''-PrintLevel: 2'') [] [] ip = Some r) \<and>
        ReadInputParameterFromFile (Some (newline # ''-PrintLevel: 2'')) [] [] ip = None"
  using read_config_ends[of "''-PrintLevel: 2''" "[]" "[]"] by (simp add: newline_def)

section \<open>Validated configurations\<close>

definition config_ok :: "input_parameter \<Rightarrow> bool" where
  "config_ok ip \<longleftrightarrow>
     (bankAspectRatioLimit ip = 0 \<or> 1 \<le> bankAspectRatioLimit ip) \<and>
     (\<not> forceMatSize ip \<or> forcedMatRows ip \<noteq> 0 \<and> forcedMatColumns ip \<noteq> 0) \<and>
     0 < dramTargetResidualRatio ip \<and> dramTargetResidualRatio ip < 1 \<and>
     0 < maxMatLayers ip"

lemma Validate_iff: "ValidateInputParameter ip = Inr () \<longleftrightarrow> config_ok ip"
  by (auto simp: ValidateInputParameter_def config_ok_def)

lemma keeps_strict:
  "(\<And>s v ip. parse s = Some v \<Longrightarrow> config_ok ip \<Longrightarrow> config_ok (upd v ip)) \<Longrightarrow>
   keeps config_ok (strict_handler key opt parse upd)"
  by (auto simp: keeps_def strict_handler_def split: option.splits bind_splits)

lemmas keeps_intros =
  keeps_word keeps_int keeps_long keeps_double keeps_strict

lemmas opt_defs = opt_ForceMatSize_def opt_PrintLevel_def

lemma ParseStrictMatSize_pos: "ParseStrictMatSize s = Some (r, c) \<Longrightarrow> r \<noteq> 0 \<and> c \<noteq> 0"
  by (auto simp: ParseStrictMatSize_def split: option.splits list.splits if_splits)

lemma ParseStrictPositiveUint64_pos: "ParseStrictPositiveUint64 s = Some v \<Longrightarrow> 0 < v"
  by (auto simp: ParseStrictPositiveUint64_def split: option.splits if_splits)

lemma handlers_keep: "list_all (\<lambda>e. keeps config_ok (snd (snd e))) handlers"
  unfolding handler_table_defs opt_defs append.simps list.pred_inject snd_conv
  by (intro conjI TrueI keeps_intros)
     (auto simp: config_ok_def word_gt_0 uint_0_iff word_less_def split: if_splits bind_splits
       dest: ParseStrictMatSize_pos ParseStrictPositiveUint64_pos)

interpretation config: line_reader_inv process_line "\<lambda>st. config_ok (fst st)"
  by unfold_locales (auto simp: process_line_def dest: dispatch_keeps[OF handlers_keep])

lemmas read_loop_keeps = config.file_keeps[folded read_loop_def]

text \<open>
  C25. The final validation never rejects what the option handlers accepted: on a configuration
  that satisfies the validated conditions, such as the one the constructor builds, any
  file whose lines are all processed without an error exit is accepted, and the result
  satisfies the conditions again (aspect ratio limit zero or at least one, forced mat
  dimensions positive, residual ratio strictly between 0 and 1, at least one mat layer).
\<close>
theorem validation_accepts_processed_files:
  assumes "config_ok ip"
    and "read_loop content line0 (ip\<lparr>forcedStackLayers := False\<rparr>, tmp0) = Some (Inr (ip', tmp'))"
  shows "ReadInputParameterFromFile (Some content) line0 tmp0 ip = Some (Inr ip') \<and> config_ok ip'"
proof
  have "config_ok (ip\<lparr>forcedStackLayers := False\<rparr>)" using assms(1) by (simp add: config_ok_def)
  thus ok: "config_ok ip'" using read_loop_keeps[OF assms(2)] by simp
  show "ReadInputParameterFromFile (Some content) line0 tmp0 ip = Some (Inr ip')"
    using assms(2) ok by (simp add: ReadInputParameterFromFile_def Validate_iff[THEN iffD2])
qed

lemma InputParameter_new_ok: "config_ok (RESTORE_SEARCH_SIZE (InputParameter_new m))"
  by (simp add: config_ok_def RESTORE_SEARCH_SIZE_def InputParameter_new_def CONSTRAINT_ASPECT_RATIO_BANK_def)

lemma print_level_line:
  "process_line ''-PrintLevel: 2'' (ip, t) = Inr (ip\<lparr>printLevel := 2\<rparr>, t)"
proof -
  have "(''-PrintLevel'', False, opt_PrintLevel) \<in> set handlers" by (simp add: handler_table_defs)
  from dispatch_own_handlers[OF this, of "CHR '':''" "'' 2''" "(ip, t)"]
  show ?thesis
    by (simp add: opt_PrintLevel_def int_handler_def isspace_def code_def skip_ws_def apply_conv_def
        scan_long_def take_sign_def isdigit_def digits_val_def digit_val_def clamp64_def wrap32_def)
qed

lemma read_print_level:
  "read_loop ''-PrintLevel: 2'' l (ip, t) = Some (Inr (ip\<lparr>printLevel := 2\<rparr>, t))"
  by (simp add: read_loop_def read_lines_step newline_def print_level_line skip_ws_def)

theorem validation_accepts_processed_files_witness:
  "\<forall>m. ReadInputParameterFromFile (Some ''-PrintLevel: 2'') [] [] (RESTORE_SEARCH_SIZE (InputParameter_new m))
       = Some (Inr ((RESTORE_SEARCH_SIZE (InputParameter_new m))\<lparr>forcedStackLayers := False, printLevel := 2\<rparr>))"
  using validation_accepts_processed_files[OF InputParameter_new_ok read_print_level] by blast

end
