(* ===== verification/Design_Space.thy ===== *)
theory Design_Space
  imports Input_Parameter
begin

text \<open>
  The loop nests of \<^verbatim>\<open>src/src/macros.h\<close> (\<^verbatim>\<open>BIGFOR\<close> and the two \<^verbatim>\<open>REFINE_..._FORLOOP\<close>s) as state
  transformers.  A loop body may stop the program (a fault) and a doubling loop may run
  forever (\<open>None\<close>).  The main result is that with positive lower bounds the nest ends if its
  body does, and is one pass over the list of all design points of the search space.
\<close>

section \<open>Loops\<close>

type_synonym 's out = "'s res option"

definition bindO :: "'s out \<Rightarrow> ('s \<Rightarrow> 't out) \<Rightarrow> 't out" where
  "bindO m f = Option.bind m (\<lambda>r. case r of Inl e \<Rightarrow> Some (Inl e) | Inr s \<Rightarrow> f s)"

fun foldO :: "('a \<Rightarrow> 's \<Rightarrow> 's out) \<Rightarrow> 'a list \<Rightarrow> 's \<Rightarrow> 's out" where
  "foldO f [] s = Some (Inr s)"
| "foldO f (x # xs) s = bindO (f x s) (foldO f xs)"

partial_function (option) for_dbl :: "int \<Rightarrow> int \<Rightarrow> (int \<Rightarrow> 's \<Rightarrow> 's res option) \<Rightarrow> 's \<Rightarrow> 's res option" where
  "for_dbl i hi body s =
     (if i \<le> hi
      then Option.bind (body i s) (\<lambda>r. case r of Inl e \<Rightarrow> Some (Inl e) | Inr s' \<Rightarrow> for_dbl (i * 2) hi body s')
      else Some (Inr s))"

function for_inc :: "int \<Rightarrow> int \<Rightarrow> (int \<Rightarrow> 's \<Rightarrow> 's out) \<Rightarrow> 's \<Rightarrow> 's out" where
  "for_inc i hi body s =
     (if i \<le> hi then bindO (body i s) (\<lambda>s'. for_inc (i + 1) hi body s') else Some (Inr s))"
  by pat_completeness auto
termination
  by (relation "measure (\<lambda>(i, hi, _, _). nat (hi - i + 1))") auto

declare for_inc.simps [simp del]

lemma bindO_simps [simp]: "bindO (Some (Inr s)) f = f s" "bindO (Some (Inl e)) f = Some (Inl e)" "bindO None f = None"
  by (simp_all add: bindO_def)

lemma bindO_assoc: "bindO (bindO m f) g = bindO m (\<lambda>x. bindO (f x) g)"
  by (cases m) (auto simp: bindO_def split: sum.split)

lemma bindO_cong: "m = m' \<Longrightarrow> (\<And>s. f s = f' s) \<Longrightarrow> bindO m f = bindO m' f'"
  by (drule ext) simp

lemma foldO_append: "foldO f (xs @ ys) s = bindO (foldO f xs s) (foldO f ys)"
  by (induction xs arbitrary: s) (auto simp: bindO_assoc intro: bindO_cong)

lemma foldO_concat: "foldO (\<lambda>x. foldO f (g x)) xs s = foldO f (concat (map g xs)) s"
  by (induction xs arbitrary: s) (auto simp: foldO_append intro: bindO_cong)

lemma foldO_cong: "(\<And>x s. x \<in> set xs \<Longrightarrow> f x s = f' x s) \<Longrightarrow> foldO f xs s = foldO f' xs s"
  by (induction xs arbitrary: s) (auto intro: bindO_cong)

lemma for_dbl_fold: "dbl_range lo hi = Some xs \<Longrightarrow> for_dbl lo hi body s = foldO body xs s"
proof (induction xs arbitrary: lo s)
  case Nil
  hence "hi < lo" by (auto simp: dbl_range.simps[of lo hi] split: if_splits bind_splits)
  thus ?case by (subst for_dbl.simps) simp
next
  case (Cons x xs)
  hence x: "x = lo" "lo \<le> hi" "dbl_range (lo * 2) hi = Some xs"
    by (auto simp: dbl_range.simps[of lo hi] split: if_splits bind_splits)
  have "for_dbl lo hi body s = bindO (body lo s) (for_dbl (lo * 2) hi body)"
    using x(2) by (subst for_dbl.simps) (simp add: bindO_def)
  also have "\<dots> = bindO (body lo s) (foldO body xs)"
    using Cons.IH[OF x(3)] by (intro bindO_cong) auto
  finally show ?case using x(1) by simp
qed

definition dbl_list :: "int \<Rightarrow> int \<Rightarrow> int list" where
  "dbl_list lo hi = (case dbl_range lo hi of Some xs \<Rightarrow> xs | None \<Rightarrow> [])"

lemma dbl_list_iff:
  "0 < lo \<Longrightarrow> x \<in> set (dbl_list lo hi) \<longleftrightarrow> x \<le> hi \<and> (\<exists>k. x = lo * 2 ^ k)"
  using dbl_range_total[of lo hi] by (auto simp: dbl_list_def dbl_range_set split: option.split)

lemma dbl_list_pos: "0 < lo \<Longrightarrow> x \<in> set (dbl_list lo hi) \<Longrightarrow> 0 < x"
  using dbl_range_total[of lo hi] dbl_range_pos(3) by (auto simp: dbl_list_def)

lemma for_dbl_nest:
  assumes "0 < lo" "\<And>x s. 0 < x \<Longrightarrow> body x s = foldO f (g x) s"
  shows "for_dbl lo hi body s = foldO f (concat (map g (dbl_list lo hi))) s"
proof -
  obtain xs where xs: "dbl_range lo hi = Some xs" using dbl_range_total assms(1) by blast
  hence "for_dbl lo hi body s = foldO body xs s" by (rule for_dbl_fold)
  also have "\<dots> = foldO (\<lambda>x. foldO f (g x)) xs s"
    using dbl_range_pos(3)[OF xs] assms(2) by (intro foldO_cong) blast
  also have "\<dots> = foldO f (concat (map g xs)) s" by (rule foldO_concat)
  finally show ?thesis by (simp add: dbl_list_def xs)
qed

lemma for_inc_nest:
  assumes "\<And>x s. body x s = foldO f (g x) s"
  shows "for_inc lo hi body s = foldO f (concat (map g [lo..hi])) s"
proof (induction "nat (hi - lo + 1)" arbitrary: lo s)
  case 0
  thus ?case by (simp add: for_inc.simps[of lo])
next
  case (Suc n)
  hence le: "lo \<le> hi" "n = nat (hi - (lo + 1) + 1)" by auto
  have "for_inc lo hi body s = bindO (body lo s) (\<lambda>s'. for_inc (lo + 1) hi body s')"
    using le(1) by (subst for_inc.simps) simp
  also have "\<dots> = bindO (foldO f (g lo) s) (foldO f (concat (map g [lo + 1..hi])))"
    using Suc.hyps(1)[OF le(2)] assms by (intro bindO_cong) auto
  finally show ?case using le(1) by (simp add: upto_rec1[of lo] foldO_append)
qed

section \<open>The design space\<close>

datatype design = Design
  (d_numRowSubArray: int)
  (d_numColumnSubArray: int)
  (d_stackedDieCount: int)
  (d_numActiveSubArrayPerRow: int)
  (d_numActiveSubArrayPerColumn: int)
  (d_numRowMat: int)
  (d_numColumnMat: int)
  (d_numActiveMatPerRow: int)
  (d_numActiveMatPerColumn: int)
  (d_muxSenseAmp: int)
  (d_muxOutputLev1: int)
  (d_muxOutputLev2: int)
  (d_numRowPerSet: int)
  (d_areaOptimizationLevel: int)

definition BIGFOR :: "input_parameter \<Rightarrow> (design \<Rightarrow> 's \<Rightarrow> 's out) \<Rightarrow> 's \<Rightarrow> 's out" where
  "BIGFOR ip body s =
     for_dbl (minNumRowSubArray ip) (maxNumRowSubArray ip) (\<lambda>r.
     for_dbl (minNumColumnSubArray ip) (maxNumColumnSubArray ip) (\<lambda>c.
     for_dbl (minStackLayer ip) (maxStackLayer ip) (\<lambda>l.
     for_dbl (min c (minNumActiveSubArrayPerRow ip)) (min c (maxNumActiveSubArrayPerRow ip)) (\<lambda>ar.
     for_dbl (min r (minNumActiveSubArrayPerColumn ip)) (min r (maxNumActiveSubArrayPerColumn ip)) (\<lambda>ac.
     for_dbl (minNumRowMat ip) (maxNumRowMat ip) (\<lambda>rm.
     for_dbl (minNumColumnMat ip) (maxNumColumnMat ip) (\<lambda>cm.
     for_dbl (min cm (minNumActiveMatPerRow ip)) (min cm (maxNumActiveMatPerRow ip)) (\<lambda>amr.
     for_dbl (min rm (minNumActiveMatPerColumn ip)) (min rm (maxNumActiveMatPerColumn ip)) (\<lambda>amc.
     for_dbl (minMuxSenseAmp ip) (maxMuxSenseAmp ip) (\<lambda>ms.
     for_dbl (minMuxOutputLev1 ip) (maxMuxOutputLev1 ip) (\<lambda>m1.
     for_dbl (minMuxOutputLev2 ip) (maxMuxOutputLev2 ip) (\<lambda>m2.
     for_dbl (minNumRowPerSet ip) (min (maxNumRowPerSet ip) (associativity ip)) (\<lambda>rs.
     for_inc (minAreaOptimizationLevel ip) (maxAreaOptimizationLevel ip) (\<lambda>a.
       body (Design r c l ar ac rm cm amr amc ms m1 m2 rs a))))))))))))))) s"

definition points :: "input_parameter \<Rightarrow> design list" where
  "points ip =
     concat (map (\<lambda>r.
     concat (map (\<lambda>c.
     concat (map (\<lambda>l.
     concat (map (\<lambda>ar.
     concat (map (\<lambda>ac.
     concat (map (\<lambda>rm.
     concat (map (\<lambda>cm.
     concat (map (\<lambda>amr.
     concat (map (\<lambda>amc.
     concat (map (\<lambda>ms.
     concat (map (\<lambda>m1.
     concat (map (\<lambda>m2.
     concat (map (\<lambda>rs.
     map (\<lambda>a. Design r c l ar ac rm cm amr amc ms m1 m2 rs a)
         [minAreaOptimizationLevel ip..maxAreaOptimizationLevel ip]
     ) (dbl_list (minNumRowPerSet ip) (min (maxNumRowPerSet ip) (associativity ip))))
     ) (dbl_list (minMuxOutputLev2 ip) (maxMuxOutputLev2 ip)))
     ) (dbl_list (minMuxOutputLev1 ip) (maxMuxOutputLev1 ip)))
     ) (dbl_list (minMuxSenseAmp ip) (maxMuxSenseAmp ip)))
     ) (dbl_list (min rm (minNumActiveMatPerColumn ip)) (min rm (maxNumActiveMatPerColumn ip))))
     ) (dbl_list (min cm (minNumActiveMatPerRow ip)) (min cm (maxNumActiveMatPerRow ip))))
     ) (dbl_list (minNumColumnMat ip) (maxNumColumnMat ip)))
     ) (dbl_list (minNumRowMat ip) (maxNumRowMat ip)))
     ) (dbl_list (min r (minNumActiveSubArrayPerColumn ip)) (min r (maxNumActiveSubArrayPerColumn ip))))
     ) (dbl_list (min c (minNumActiveSubArrayPerRow ip)) (min c (maxNumActiveSubArrayPerRow ip))))
     ) (dbl_list (minStackLayer ip) (maxStackLayer ip)))
     ) (dbl_list (minNumColumnSubArray ip) (maxNumColumnSubArray ip)))
     ) (dbl_list (minNumRowSubArray ip) (maxNumRowSubArray ip)))"

definition bounds_pos :: "input_parameter \<Rightarrow> bool" where
  "bounds_pos ip \<longleftrightarrow>
     0 < minNumRowSubArray ip \<and>
     0 < minNumColumnSubArray ip \<and>
     0 < minStackLayer ip \<and>
     0 < minNumActiveSubArrayPerRow ip \<and>
     0 < minNumActiveSubArrayPerColumn ip \<and>
     0 < minNumRowMat ip \<and>
     0 < minNumColumnMat ip \<and>
     0 < minNumActiveMatPerRow ip \<and>
     0 < minNumActiveMatPerColumn ip \<and>
     0 < minMuxSenseAmp ip \<and>
     0 < minMuxOutputLev1 ip \<and>
     0 < minMuxOutputLev2 ip \<and>
     0 < minNumRowPerSet ip"

definition doubles :: "int \<Rightarrow> int \<Rightarrow> int \<Rightarrow> bool" where
  "doubles lo hi x \<longleftrightarrow> x \<le> hi \<and> (\<exists>k. x = lo * 2 ^ k)"

text \<open>The reference description of the design space: every count is its lower bound times a
  power of two and does not exceed its upper bound.\<close>

definition in_space :: "input_parameter \<Rightarrow> design \<Rightarrow> bool" where
  "in_space ip d \<longleftrightarrow>
     doubles (minNumRowSubArray ip) (maxNumRowSubArray ip) (d_numRowSubArray d) \<and>
     doubles (minNumColumnSubArray ip) (maxNumColumnSubArray ip) (d_numColumnSubArray d) \<and>
     doubles (minStackLayer ip) (maxStackLayer ip) (d_stackedDieCount d) \<and>
     doubles (min (d_numColumnSubArray d) (minNumActiveSubArrayPerRow ip))
             (min (d_numColumnSubArray d) (maxNumActiveSubArrayPerRow ip)) (d_numActiveSubArrayPerRow d) \<and>
     doubles (min (d_numRowSubArray d) (minNumActiveSubArrayPerColumn ip))
             (min (d_numRowSubArray d) (maxNumActiveSubArrayPerColumn ip)) (d_numActiveSubArrayPerColumn d) \<and>
     doubles (minNumRowMat ip) (maxNumRowMat ip) (d_numRowMat d) \<and>
     doubles (minNumColumnMat ip) (maxNumColumnMat ip) (d_numColumnMat d) \<and>
     doubles (min (d_numColumnMat d) (minNumActiveMatPerRow ip))
             (min (d_numColumnMat d) (maxNumActiveMatPerRow ip)) (d_numActiveMatPerRow d) \<and>
     doubles (min (d_numRowMat d) (minNumActiveMatPerColumn ip))
             (min (d_numRowMat d) (maxNumActiveMatPerColumn ip)) (d_numActiveMatPerColumn d) \<and>
     doubles (minMuxSenseAmp ip) (maxMuxSenseAmp ip) (d_muxSenseAmp d) \<and>
     doubles (minMuxOutputLev1 ip) (maxMuxOutputLev1 ip) (d_muxOutputLev1 d) \<and>
     doubles (minMuxOutputLev2 ip) (maxMuxOutputLev2 ip) (d_muxOutputLev2 d) \<and>
     doubles (minNumRowPerSet ip) (min (maxNumRowPerSet ip) (associativity ip)) (d_numRowPerSet d) \<and>
     minAreaOptimizationLevel ip \<le> d_areaOptimizationLevel d \<and>
     d_areaOptimizationLevel d \<le> maxAreaOptimizationLevel ip"

lemma bindO_Some_Inr [simp]: "bindO m (\<lambda>s. Some (Inr s)) = m"
  by (cases m) (auto simp: bindO_def split: sum.split)

lemma foldO_Nil: "foldO f [] = (\<lambda>s. Some (Inr s))"
  by (rule ext) simp

lemma foldO_single [simp]: "foldO f [x] s = f x s"
  by (simp add: foldO_Nil)

lemma for_inc_points: "for_inc lo hi (\<lambda>a. body (D a)) s = foldO body (map D [lo..hi]) s"
proof -
  have "for_inc lo hi (\<lambda>a. body (D a)) s = foldO body (concat (map (\<lambda>a. [D a]) [lo..hi])) s"
    by (rule for_inc_nest) (simp only: foldO_single)
  thus ?thesis by (simp only: concat_map_singleton)
qed

lemma BIGFOR_points:
  assumes "bounds_pos ip"
  shows "BIGFOR ip body s = foldO body (points ip) s"
  using assms unfolding BIGFOR_def points_def bounds_pos_def
  by (elim conjE, intro for_dbl_nest for_inc_points) simp_all

lemma doubles_pos: "0 < lo \<Longrightarrow> doubles lo hi x \<Longrightarrow> 0 < x"
  by (auto simp: doubles_def)

lemma dbl_list_doubles: "0 < lo \<Longrightarrow> x \<in> set (dbl_list lo hi) \<longleftrightarrow> doubles lo hi x"
  by (simp add: dbl_list_iff doubles_def)

lemma dbl_list_doublesD: "x \<in> set (dbl_list lo hi) \<Longrightarrow> doubles lo hi x"
proof -
  assume x: "x \<in> set (dbl_list lo hi)"
  then obtain xs where "dbl_range lo hi = Some xs" by (cases "dbl_range lo hi") (auto simp: dbl_list_def)
  hence "0 < lo" using dbl_range_Some_bound[of lo hi xs] x by (force simp: dbl_list_def)
  thus ?thesis using x dbl_list_doubles by blast
qed

lemma all_concat_map: "(\<And>x. x \<in> set xs \<Longrightarrow> list_all P (f x)) \<Longrightarrow> list_all P (concat (map f xs))"
  by (induction xs) auto

lemma points_iff:
  assumes "bounds_pos ip"
  shows "d \<in> set (points ip) \<longleftrightarrow> in_space ip d"
proof -
  obtain r c l ar ac rm cm amr amc ms m1 m2 rs a where
    d: "d = Design r c l ar ac rm cm amr amc ms m1 m2 rs a" by (cases d)
  note pos = assms[unfolded bounds_pos_def]
  show ?thesis
  proof (cases "0 < r \<and> 0 < c \<and> 0 < rm \<and> 0 < cm")
    case True
    have "d \<in> set (points ip)" if "in_space ip d"
      unfolding points_def set_concat set_map d image_image UN_iff
      using that pos True by (intro bexI imageI) (auto simp: d in_space_def dbl_list_doubles)
    moreover have "list_all (in_space ip) (points ip)"
      unfolding points_def
      by (intro all_concat_map) (simp add: list_all_iff in_space_def dbl_list_doublesD)
    ultimately show ?thesis by (auto simp: list_all_iff)
  next
    case False
    hence "\<not> in_space ip d" using pos doubles_pos by (auto simp: d in_space_def)
    moreover have "d \<notin> set (points ip)" using False pos dbl_list_pos by (auto simp: d points_def)
    ultimately show ?thesis by simp
  qed
qed

section \<open>Each point once\<close>

lemma dbl_list_sorted: "0 < lo \<Longrightarrow> sorted_wrt (<) (dbl_list lo hi)"
proof (induction "nat (hi - lo + 1)" arbitrary: lo rule: less_induct)
  case less
  show ?case
  proof (cases "lo \<le> hi")
    case True
    obtain xs where xs: "dbl_range (lo * 2) hi = Some xs" using dbl_range_total less.prems by force
    have "sorted_wrt (<) (dbl_list (lo * 2) hi)" using less.prems True by (intro less.hyps) auto
    moreover have "\<forall>x \<in> set xs. lo < x" using dbl_range_pos(1)[OF xs] less.prems by force
    ultimately show ?thesis
      using True xs by (simp add: dbl_list_def dbl_range.simps[of lo hi])
  qed (simp add: dbl_list_def)
qed

lemma distinct_dbl_list: "distinct (dbl_list lo hi)"
proof (cases "0 < lo")
  case True
  thus ?thesis using dbl_list_sorted strict_sorted_iff by blast
next
  case False
  thus ?thesis using dbl_range_defined_iff[of lo hi] dbl_range_empty[of hi lo]
    by (cases "hi < lo") (auto simp: dbl_list_def split: option.split)
qed

lemma distinct_concat_key:
  assumes "distinct xs" "\<And>x. distinct (f x)" "\<And>x. list_all (\<lambda>d. key d = x) (f x)"
  shows "distinct (concat (map f xs))"
  using assms(1)
proof (induction xs)
  case (Cons x xs)
  have "key d = x" if "d \<in> set (f x)" for d x using assms(3)[of x] that by (simp add: list_all_iff)
  thus ?case using Cons by (auto simp: assms(2))
qed simp

lemma points_distinct: "distinct (points ip)"
  unfolding points_def
  apply (rule distinct_concat_key[where key = d_numRowSubArray, OF distinct_dbl_list])
  apply (rule distinct_concat_key[where key = d_numColumnSubArray, OF distinct_dbl_list])
  apply (rule distinct_concat_key[where key = d_stackedDieCount, OF distinct_dbl_list])
  apply (rule distinct_concat_key[where key = d_numActiveSubArrayPerRow, OF distinct_dbl_list])
  apply (rule distinct_concat_key[where key = d_numActiveSubArrayPerColumn, OF distinct_dbl_list])
  apply (rule distinct_concat_key[where key = d_numRowMat, OF distinct_dbl_list])
  apply (rule distinct_concat_key[where key = d_numColumnMat, OF distinct_dbl_list])
  apply (rule distinct_concat_key[where key = d_numActiveMatPerRow, OF distinct_dbl_list])
  apply (rule distinct_concat_key[where key = d_numActiveMatPerColumn, OF distinct_dbl_list])
  apply (rule distinct_concat_key[where key = d_muxSenseAmp, OF distinct_dbl_list])
  apply (rule distinct_concat_key[where key = d_muxOutputLev1, OF distinct_dbl_list])
  apply (rule distinct_concat_key[where key = d_muxOutputLev2, OF distinct_dbl_list])
  apply (rule distinct_concat_key[where key = d_numRowPerSet, OF distinct_dbl_list])
  apply (simp add: distinct_map inj_on_def)
  apply (simp add: list_all_iff)
  apply (intro all_concat_map, simp add: list_all_iff)+
  done

text \<open>
  C17. With positive lower bounds the loop nest \<^verbatim>\<open>BIGFOR\<close> runs its body exactly once for every
  design of the search space and for nothing else: it equals one pass over a list without
  repetitions whose elements are exactly the designs in which every count is its lower bound
  times a power of two, at most its upper bound, and the active counts do not exceed the
  physical ones.  In particular the nest ends whenever its body does.
\<close>
theorem BIGFOR_visits_each_design_once:
  assumes "bounds_pos ip"
  shows "BIGFOR ip body s = foldO body (points ip) s \<and> distinct (points ip) \<and>
         (\<forall>d. d \<in> set (points ip) \<longleftrightarrow> in_space ip d)"
  by (intro conjI allI BIGFOR_points points_distinct points_iff assms)

lemma RESTORE_bounds_pos: "bounds_pos (RESTORE_SEARCH_SIZE (InputParameter_new m))"
  by (simp add: bounds_pos_def RESTORE_SEARCH_SIZE_def InputParameter_new_def)

lemma foldO_count: "foldO (\<lambda>_ n. Some (Inr (Suc n))) xs n = Some (Inr (n + length xs))"
  by (induction xs arbitrary: n) auto

theorem BIGFOR_visits_each_design_once_witness:
  "\<forall>m. bounds_pos (RESTORE_SEARCH_SIZE (InputParameter_new m)) \<and>
     BIGFOR (RESTORE_SEARCH_SIZE (InputParameter_new m)) (\<lambda>_ n. Some (Inr (Suc n))) 0 =
     Some (Inr (length (points (RESTORE_SEARCH_SIZE (InputParameter_new m)))))"
proof (intro allI conjI RESTORE_bounds_pos)
  fix m
  have "BIGFOR (RESTORE_SEARCH_SIZE (InputParameter_new m)) (\<lambda>_ n. Some (Inr (Suc n))) 0 =
        foldO (\<lambda>_ n. Some (Inr (Suc n))) (points (RESTORE_SEARCH_SIZE (InputParameter_new m))) 0"
    by (rule BIGFOR_visits_each_design_once[OF RESTORE_bounds_pos, THEN conjunct1])
  thus "BIGFOR (RESTORE_SEARCH_SIZE (InputParameter_new m)) (\<lambda>_ n. Some (Inr (Suc n))) 0 =
     Some (Inr (length (points (RESTORE_SEARCH_SIZE (InputParameter_new m)))))"
    by (simp only: foldO_count add_0)
qed

end
