(* ===== verification/Result_Update.thy ===== *)
theory Result_Update
  imports Nsc_Types
begin

text \<open>
  \<^verbatim>\<open>src/src/Result.h\<close>, \<^verbatim>\<open>Result.cpp\<close>: a design-space exploration result, its bandwidths, and
  \<^verbatim>\<open>compareAndUpdate\<close>, by which every search of the tool keeps its best candidate; with the
  members of \<^verbatim>\<open>Bank.h\<close>, \<^verbatim>\<open>FunctionUnit.h\<close>, \<^verbatim>\<open>Wire.h\<close> and \<^verbatim>\<open>MemCell.h\<close> that it and the exploration
  read.  Doubles are real numbers, so \<^verbatim>\<open>std::isfinite\<close> is true of every value of the model.
  The lemmas show that a run of updates computes an admissible optimum: the first
  candidate within the limits that attains the best value of the target.
\<close>

section \<open>Banks, wires, cells\<close>

record mat =
  mat_numRow :: int
  mat_numColumn :: int
  mat_readLatency :: real
  mat_writeLatency :: real
  rowDecoder_readLatency :: real
  gcRowDecoder_readLatency :: real
  precharger_readLatency :: real
  dram_readCycleLatency :: real

record bank =
  height :: real
  width :: real
  area :: real
  readLatency :: real
  writeLatency :: real
  readDynamicEnergy :: real
  writeDynamicEnergy :: real
  leakage :: real
  initialized :: bool
  invalid :: bool
  numRowSubArray :: int
  numColumnSubArray :: int
  b_capacity :: int
  blockSize :: int
  b_associativity :: int
  numRowPerSet :: int
  numActiveSubArrayPerRow :: int
  numActiveSubArrayPerColumn :: int
  muxSenseAmp :: int
  muxOutputLev1 :: int
  muxOutputLev2 :: int
  numRowMat :: int
  numColumnMat :: int
  numActiveMatPerRow :: int
  numActiveMatPerColumn :: int
  areaOptimizationLevel :: int
  stackedDieCount :: int
  b_partitionGranularity :: int
  bank_mat :: mat

record wire =
  featureSizeInNano :: int
  wireType :: int
  wireRepeaterType :: int
  wire_temperature :: int
  isLowSwing :: bool

record mem_cell =
  memCellType :: MemCellType

section \<open>Results\<close>

record 'x result =
  target :: OptimizationTarget
  r_bank :: bank
  r_localWire :: wire
  r_globalWire :: wire
  limitReadLatency :: real
  limitWriteLatency :: real
  limitReadDynamicEnergy :: real
  limitWriteDynamicEnergy :: real
  limitReadEdp :: real
  limitWriteEdp :: real
  limitReadBandwidth :: real
  limitWriteBandwidth :: real
  limitArea :: real
  limitLeakage :: real
  cellTech :: "'x mem_cell_scheme option"

definition worst_bank :: "bank \<Rightarrow> bank" where
  "worst_bank b = b\<lparr>readLatency := invalid_value, writeLatency := invalid_value,
     readDynamicEnergy := invalid_value, writeDynamicEnergy := invalid_value,
     leakage := invalid_value, height := invalid_value, width := invalid_value,
     area := invalid_value\<rparr>"

text \<open>The constructor; \<open>b0\<close>, \<open>lw0\<close> and \<open>gw0\<close> are the members of the new bank and the new wires
  that their constructors leave uninitialised.\<close>

definition Result_new :: "bank \<Rightarrow> wire \<Rightarrow> wire \<Rightarrow> 'x mem_cell_scheme option \<Rightarrow> 'x result" where
  "Result_new b0 lw0 gw0 cell = \<lparr>
     target = read_latency_optimized,
     r_bank = worst_bank (b0\<lparr>initialized := False, invalid := False\<rparr>),
     r_localWire = lw0, r_globalWire = gw0,
     limitReadLatency = invalid_value, limitWriteLatency = invalid_value,
     limitReadDynamicEnergy = invalid_value, limitWriteDynamicEnergy = invalid_value,
     limitReadEdp = invalid_value, limitWriteEdp = invalid_value,
     limitReadBandwidth = invalid_value_min, limitWriteBandwidth = invalid_value_min,
     limitArea = invalid_value, limitLeakage = invalid_value,
     cellTech = cell\<rparr>"

definition Result_reset :: "'x result \<Rightarrow> 'x result" where
  "Result_reset r = r\<lparr>r_bank := worst_bank (r_bank r)\<rparr>"

definition read_cycle :: "MemCellType \<Rightarrow> mat \<Rightarrow> real" where
  "read_cycle t m =
     (if t = DRAM \<or> t = eDRAM then dram_readCycleLatency m
      else if t = gcDRAM then mat_readLatency m - gcRowDecoder_readLatency m + precharger_readLatency m
      else mat_readLatency m - rowDecoder_readLatency m + precharger_readLatency m)"

definition getReadBandwidth :: "'x result \<Rightarrow> real" where
  "getReadBandwidth r =
     (case cellTech r of
        None \<Rightarrow> 0
      | Some c \<Rightarrow>
          let b = r_bank r; t = read_cycle (memCellType c) (bank_mat b) in
          if invalid_value / 10 \<le> readLatency b \<or> blockSize b \<le> 0 then 0
          else if t \<le> 0 \<or> invalid_value / 10 \<le> t then 0
          else of_int (blockSize b) / t / 8)"

definition getWriteBandwidth :: "'x result \<Rightarrow> real" where
  "getWriteBandwidth r =
     (case cellTech r of
        None \<Rightarrow> 0
      | Some c \<Rightarrow>
          let b = r_bank r; t = mat_writeLatency (bank_mat b) in
          if invalid_value / 10 \<le> writeLatency b \<or> blockSize b \<le> 0 then 0
          else if t \<le> 0 \<or> invalid_value / 10 \<le> t then 0
          else of_int (blockSize b) / t / 8)"

definition within_limits :: "'x result \<Rightarrow> 'x result \<Rightarrow> bool" where
  "within_limits r new \<longleftrightarrow>
     (let b = r_bank new in
      readLatency b \<le> limitReadLatency r \<and> writeLatency b \<le> limitWriteLatency r \<and>
      readDynamicEnergy b \<le> limitReadDynamicEnergy r \<and>
      writeDynamicEnergy b \<le> limitWriteDynamicEnergy r \<and>
      readLatency b * readDynamicEnergy b \<le> limitReadEdp r \<and>
      writeLatency b * writeDynamicEnergy b \<le> limitWriteEdp r \<and>
      limitReadBandwidth r \<le> getReadBandwidth new \<and>
      limitWriteBandwidth r \<le> getWriteBandwidth new \<and>
      area b \<le> limitArea r \<and> leakage b \<le> limitLeakage r)"

definition improves :: "'x result \<Rightarrow> 'x result \<Rightarrow> bool" where
  "improves r new =
     (let b = r_bank r; b' = r_bank new in
      case target r of
        read_latency_optimized \<Rightarrow> readLatency b' < readLatency b
      | write_latency_optimized \<Rightarrow> writeLatency b' < writeLatency b
      | read_energy_optimized \<Rightarrow> readDynamicEnergy b' < readDynamicEnergy b
      | write_energy_optimized \<Rightarrow> writeDynamicEnergy b' < writeDynamicEnergy b
      | read_edp_optimized \<Rightarrow>
          readLatency b' * readDynamicEnergy b' < readLatency b * readDynamicEnergy b
      | write_edp_optimized \<Rightarrow>
          writeLatency b' * writeDynamicEnergy b' < writeLatency b * writeDynamicEnergy b
      | read_bandwidth_optimized \<Rightarrow> getReadBandwidth new > getReadBandwidth r
      | write_bandwidth_optimized \<Rightarrow> getWriteBandwidth new > getWriteBandwidth r
      | area_optimized \<Rightarrow> area b' < area b
      | leakage_optimized \<Rightarrow> leakage b' < leakage b
      | full_exploration \<Rightarrow> False)"

definition compareAndUpdate :: "'x result \<Rightarrow> 'x result \<Rightarrow> bool \<times> 'x result" where
  "compareAndUpdate r new =
     (let toUpdate = within_limits r new \<and> improves r new in
      (toUpdate,
       if toUpdate
       then r\<lparr>r_bank := r_bank new, r_localWire := r_localWire new, r_globalWire := r_globalWire new,
              cellTech := cellTech new\<rparr>
       else r))"

abbreviation updated :: "'x result \<Rightarrow> 'x result \<Rightarrow> 'x result" where
  "updated r new \<equiv> snd (compareAndUpdate r new)"

section \<open>The cost of a target\<close>

text \<open>The reference view: every target minimises a cost, where a bandwidth counts negatively.\<close>

definition cost :: "OptimizationTarget \<Rightarrow> 'x result \<Rightarrow> real" where
  "cost t r =
     (let b = r_bank r in
      case t of
        read_latency_optimized \<Rightarrow> readLatency b
      | write_latency_optimized \<Rightarrow> writeLatency b
      | read_energy_optimized \<Rightarrow> readDynamicEnergy b
      | write_energy_optimized \<Rightarrow> writeDynamicEnergy b
      | read_edp_optimized \<Rightarrow> readLatency b * readDynamicEnergy b
      | write_edp_optimized \<Rightarrow> writeLatency b * writeDynamicEnergy b
      | read_bandwidth_optimized \<Rightarrow> - getReadBandwidth r
      | write_bandwidth_optimized \<Rightarrow> - getWriteBandwidth r
      | area_optimized \<Rightarrow> area b
      | leakage_optimized \<Rightarrow> leakage b
      | full_exploration \<Rightarrow> 0)"

definition same_candidate :: "'x result \<Rightarrow> 'x result \<Rightarrow> bool" where
  "same_candidate r r' \<longleftrightarrow>
     r_bank r = r_bank r' \<and> r_localWire r = r_localWire r' \<and> r_globalWire r = r_globalWire r' \<and>
     cellTech r = cellTech r'"

definition same_goal :: "'x result \<Rightarrow> 'x result \<Rightarrow> bool" where
  "same_goal r r' \<longleftrightarrow>
     target r = target r' \<and>
     limitReadLatency r = limitReadLatency r' \<and> limitWriteLatency r = limitWriteLatency r' \<and>
     limitReadDynamicEnergy r = limitReadDynamicEnergy r' \<and>
     limitWriteDynamicEnergy r = limitWriteDynamicEnergy r' \<and>
     limitReadEdp r = limitReadEdp r' \<and> limitWriteEdp r = limitWriteEdp r' \<and>
     limitReadBandwidth r = limitReadBandwidth r' \<and> limitWriteBandwidth r = limitWriteBandwidth r' \<and>
     limitArea r = limitArea r' \<and> limitLeakage r = limitLeakage r'"

lemma bandwidth_candidate:
  "r_bank r = r_bank r' \<Longrightarrow> cellTech r = cellTech r' \<Longrightarrow> getReadBandwidth r = getReadBandwidth r'"
  "r_bank r = r_bank r' \<Longrightarrow> cellTech r = cellTech r' \<Longrightarrow> getWriteBandwidth r = getWriteBandwidth r'"
  by (simp_all add: getReadBandwidth_def getWriteBandwidth_def split: option.split)

lemma cost_candidate: "same_candidate r r' \<Longrightarrow> cost t r = cost t r'"
  using bandwidth_candidate[of r r']
  by (auto simp: cost_def same_candidate_def Let_def split: OptimizationTarget.split)

lemma within_limits_goal: "same_goal r r' \<Longrightarrow> within_limits r new = within_limits r' new"
  by (simp add: same_goal_def within_limits_def)

lemma within_limits_candidate:
  "same_candidate new new' \<Longrightarrow> within_limits r new = within_limits r new'"
  using bandwidth_candidate[of new new'] by (simp add: same_candidate_def within_limits_def)

lemma improves_cost: "improves r new \<longleftrightarrow> cost (target r) new < cost (target r) r"
  by (auto simp: improves_def cost_def Let_def split: OptimizationTarget.split)

lemma same_refl [simp]: "same_candidate r r" "same_goal r r"
  by (simp_all add: same_candidate_def same_goal_def)

lemma same_goal_trans: "same_goal r r' \<Longrightarrow> same_goal r' r'' \<Longrightarrow> same_goal r r''"
  by (simp add: same_goal_def)

lemma compareAndUpdate_iff:
  "fst (compareAndUpdate r new) \<longleftrightarrow> within_limits r new \<and> cost (target r) new < cost (target r) r"
  by (simp add: compareAndUpdate_def improves_cost Let_def)

lemma updated_goal [simp]: "same_goal r (updated r new)"
  by (simp add: compareAndUpdate_def same_goal_def Let_def)

lemma updated_cases:
  "updated r new =
     (if within_limits r new \<and> cost (target r) new < cost (target r) r
      then r\<lparr>r_bank := r_bank new, r_localWire := r_localWire new, r_globalWire := r_globalWire new,
             cellTech := cellTech new\<rparr>
      else r)"
  by (simp add: compareAndUpdate_def improves_cost Let_def)

lemma updated_candidate:
  "within_limits r new \<and> cost (target r) new < cost (target r) r \<Longrightarrow> same_candidate (updated r new) new"
  by (simp add: updated_cases same_candidate_def)

section \<open>Runs of updates\<close>

text \<open>The contract that the searches rely on: an update adopts a candidate exactly when it is
  admissible and strictly cheaper, and changes neither the limits nor the target.\<close>

locale best_scan =
  fixes upd :: "'r \<Rightarrow> 'r \<Rightarrow> 'r"
    and adm :: "'r \<Rightarrow> 'r \<Rightarrow> bool"
    and val :: "'r \<Rightarrow> 'r \<Rightarrow> real"
    and same :: "'r \<Rightarrow> 'r \<Rightarrow> bool"
  assumes upd_adm: "adm (upd r x) = adm r"
    and upd_val: "val (upd r x) = val r"
    and upd_take: "adm r x \<Longrightarrow> val r x < val r r \<Longrightarrow> same (upd r x) x \<and> val r (upd r x) = val r x"
    and upd_keep: "\<not> (adm r x \<and> val r x < val r r) \<Longrightarrow> upd r x = r"
begin

lemma run_adm: "adm (fold (\<lambda>x r. upd r x) xs r) = adm r"
  by (induction xs arbitrary: r) (simp_all add: upd_adm)

lemma run_val: "val (fold (\<lambda>x r. upd r x) xs r) = val r"
  by (induction xs arbitrary: r) (simp_all add: upd_val)

lemma run_monotone: "val r (fold (\<lambda>x r. upd r x) xs r) \<le> val r r"
proof (induction xs arbitrary: r)
  case (Cons x xs)
  have "val r (upd r x) \<le> val r r" using upd_take upd_keep by (cases "adm r x \<and> val r x < val r r") force+
  moreover have "val r (fold (\<lambda>x r. upd r x) xs (upd r x)) \<le> val r (upd r x)"
    using Cons.IH[of "upd r x"] by (simp add: upd_val)
  ultimately show ?case by simp
qed simp

lemma run_optimal: "x \<in> set xs \<Longrightarrow> adm r x \<Longrightarrow> val r (fold (\<lambda>x r. upd r x) xs r) \<le> val r x"
proof (induction xs arbitrary: r)
  case (Cons y xs)
  show ?case
  proof (cases "x \<in> set xs")
    case True
    thus ?thesis using Cons.IH[of "upd r y"] Cons.prems(2) by (simp add: upd_adm upd_val)
  next
    case False
    hence "x = y" using Cons.prems(1) by simp
    hence "val r (upd r y) \<le> val r x" using Cons.prems(2) upd_take[of r x] upd_keep[of r x]
      by (cases "val r x < val r r") auto
    moreover have "val r (fold (\<lambda>x r. upd r x) xs (upd r y)) \<le> val r (upd r y)"
      using run_monotone[of "upd r y" xs] by (simp add: upd_val)
    ultimately show ?thesis by simp
  qed
qed simp

lemma run_origin:
  "fold (\<lambda>x r. upd r x) xs r = r \<or>
   (\<exists>x \<in> set xs. adm r x \<and> val r x < val r r \<and> same (fold (\<lambda>x r. upd r x) xs r) x)"
proof (induction xs arbitrary: r)
  case (Cons y xs)
  show ?case
  proof (cases "adm r y \<and> val r y < val r r")
    case True
    hence t: "same (upd r y) y" "val r (upd r y) = val r y" using upd_take by auto
    from Cons.IH[of "upd r y"] show ?thesis
    proof
      assume "fold (\<lambda>x r. upd r x) xs (upd r y) = upd r y"
      thus ?thesis using True t by auto
    next
      assume "\<exists>x \<in> set xs. adm (upd r y) x \<and> val (upd r y) x < val (upd r y) (upd r y) \<and>
        same (fold (\<lambda>x r. upd r x) xs (upd r y)) x"
      then obtain x where "x \<in> set xs" "adm r x" "val r x < val r (upd r y)"
        "same (fold (\<lambda>x r. upd r x) xs (upd r y)) x" by (auto simp: upd_adm upd_val)
      moreover have "val r (upd r y) < val r r" using True t by simp
      ultimately show ?thesis by (auto intro!: bexI[of _ x])
    qed
  next
    case False
    thus ?thesis using Cons.IH[of r] upd_keep[OF False] by auto
  qed
qed simp

end

interpretation scan: best_scan "\<lambda>r x. updated r x" within_limits "\<lambda>r. cost (target r)" same_candidate
proof
  fix r x :: "'a result"
  have g: "same_goal r (updated r x)" by simp
  show "within_limits (updated r x) = within_limits r"
    using within_limits_goal[OF g] by (intro ext) simp
  show "cost (target (updated r x)) = cost (target r)" using g by (simp add: same_goal_def)
  show "\<not> (within_limits r x \<and> cost (target r) x < cost (target r) r) \<Longrightarrow> updated r x = r"
    by (auto simp: updated_cases)
  assume "within_limits r x" "cost (target r) x < cost (target r) r"
  hence "same_candidate (updated r x) x" using updated_candidate by blast
  thus "same_candidate (updated r x) x \<and> cost (target r) (updated r x) = cost (target r) x"
    using cost_candidate by blast
qed

text \<open>
  C23. A run of \<open>compareAndUpdate\<close> over any sequence of candidate results computes an admissible
  optimum for every optimisation target: no candidate within the limits is cheaper than the
  result, the result is never worse than it was before, and it either is unchanged or holds
  the bank, wires and cell of a candidate that satisfies all ten limits.
\<close>
theorem compareAndUpdate_run_optimal:
  "let best = fold (\<lambda>new r. updated r new) news r; t = target r in
   (\<forall>new \<in> set news. within_limits r new \<longrightarrow> cost t best \<le> cost t new) \<and>
   cost t best \<le> cost t r \<and>
   (best = r \<or> (\<exists>new \<in> set news. within_limits r new \<and> same_candidate best new))"
  using scan.run_optimal[of _ news r] scan.run_monotone[of r news] scan.run_origin[of news r]
  unfolding Let_def by blast

text \<open>A small SRAM bank with a given read latency, for concrete instances.\<close>

definition demo_mat :: mat where
  "demo_mat = \<lparr>mat_numRow = 8, mat_numColumn = 8, mat_readLatency = 3, mat_writeLatency = 2,
     rowDecoder_readLatency = 1, gcRowDecoder_readLatency = 0, precharger_readLatency = 0,
     dram_readCycleLatency = 0\<rparr>"

definition demo_bank :: "real \<Rightarrow> bank" where
  "demo_bank l = \<lparr>height = 1, width = 1, area = 1, readLatency = l, writeLatency = 1,
     readDynamicEnergy = 1, writeDynamicEnergy = 1, leakage = 1, initialized = True,
     invalid = False, numRowSubArray = 1, numColumnSubArray = 1, b_capacity = 64, blockSize = 8,
     b_associativity = 1, numRowPerSet = 1, numActiveSubArrayPerRow = 1,
     numActiveSubArrayPerColumn = 1, muxSenseAmp = 1, muxOutputLev1 = 1, muxOutputLev2 = 1,
     numRowMat = 1, numColumnMat = 1, numActiveMatPerRow = 1, numActiveMatPerColumn = 1,
     areaOptimizationLevel = 0, stackedDieCount = 1, b_partitionGranularity = 0,
     bank_mat = demo_mat\<rparr>"

definition demo_wire :: wire where
  "demo_wire = \<lparr>featureSizeInNano = 90, wireType = 0, wireRepeaterType = 0, wire_temperature = 300,
     isLowSwing = False\<rparr>"

definition demo_cell :: mem_cell where
  "demo_cell = \<lparr>memCellType = SRAM\<rparr>"

definition demo_result :: "real \<Rightarrow> unit result" where
  "demo_result l =
     (Result_new (demo_bank l) demo_wire demo_wire (Some demo_cell))\<lparr>r_bank := demo_bank l\<rparr>"

definition demo_start :: "unit result" where
  "demo_start = Result_new (demo_bank 0) demo_wire demo_wire (Some demo_cell)"

lemmas demo_defs = demo_result_def demo_start_def demo_bank_def demo_mat_def demo_wire_def demo_cell_def

lemma demo_bandwidth: "l \<le> 5 \<Longrightarrow> getReadBandwidth (demo_result l) = 1 / 2"
  "getWriteBandwidth (demo_result l) = 1 / 2"
  by (simp_all add: getReadBandwidth_def getWriteBandwidth_def demo_defs Result_new_def read_cycle_def
      invalid_value_def)

lemma demo_within: "0 \<le> l \<Longrightarrow> l \<le> 5 \<Longrightarrow> within_limits demo_start (demo_result l)"
  by (simp add: within_limits_def demo_bandwidth Let_def)
     (simp add: demo_defs Result_new_def invalid_value_def invalid_value_min_def)

theorem compareAndUpdate_run_optimal_witness:
  "within_limits demo_start (demo_result 1) \<and>
   cost read_latency_optimized (fold (\<lambda>new r. updated r new) [demo_result 2, demo_result 1] demo_start) \<le> 1"
proof
  show w: "within_limits demo_start (demo_result 1)" by (simp add: demo_within)
  have "target demo_start = read_latency_optimized" by (simp add: demo_start_def Result_new_def)
  moreover have "cost read_latency_optimized (demo_result 1) = 1"
    by (simp add: cost_def demo_result_def demo_bank_def)
  ultimately show "cost read_latency_optimized
      (fold (\<lambda>new r. updated r new) [demo_result 2, demo_result 1] demo_start) \<le> 1"
    using compareAndUpdate_run_optimal[of "[demo_result 2, demo_result 1]" demo_start] w
    by (simp add: Let_def del: fold.simps)
qed

end
