(* ===== verification/Exploration.thy ===== *)
theory Exploration
  imports Design_Space Result_Update
begin

text \<open>
  \<^verbatim>\<open>src/src/main.cpp\<close> and the remaining macros of \<^verbatim>\<open>macros.h\<close>: the search for tag and data
  arrays (\<^verbatim>\<open>nvsim\<close>), its constraint checks, the constrained search, the comparison of cell
  types in \<^verbatim>\<open>main\<close>, and the choice of technology nodes to interpolate.

  The electrical evaluation of one design (\<^verbatim>\<open>Initialize\<close>, \<^verbatim>\<open>CalculateArea\<close>, \<^verbatim>\<open>CalculateRC\<close>,
  \<^verbatim>\<open>CalculateLatencyAndPower\<close> of a bank) is a function argument \<open>ev\<close>: the exploration is
  proved correct for every evaluation.  Its arguments are all the state that the
  evaluation reads: the configuration, the cell, the layer count stored in the global
  technology, the two global wires, and the arguments of \<^verbatim>\<open>Initialize\<close>.  It may stop the
  program.
\<close>

section \<open>State\<close>

type_synonym 'x evaluator =
  "input_parameter \<Rightarrow> 'x mem_cell_scheme \<Rightarrow> int \<Rightarrow> wire \<Rightarrow> wire \<Rightarrow> MemoryType \<Rightarrow> int \<Rightarrow> int \<Rightarrow> int \<Rightarrow> int
   \<Rightarrow> design \<Rightarrow> bank res"

text \<open>The rows that the exploration hands to the output stream, in order.  The stream is only
  open during a full exploration; rows handed to it otherwise are lost.\<close>

datatype 'x csv_row = DataRow "'x result" | CacheRow "'x result" "'x result"

record 'x nv =
  nv_ip :: input_parameter
  tagBest :: "'x result list"
  dataBest :: "'x result list"
  numSolution :: int
  numDesigns :: int
  layerCount :: int
  nv_localWire :: wire
  nv_globalWire :: wire
  nv_temp :: "'x result"
  csv :: "'x csv_row list"

definition get_best :: "MemoryType \<Rightarrow> 'x nv \<Rightarrow> 'x result list" where
  "get_best mt s = (if mt = MT_tag then tagBest s else dataBest s)"

definition set_best :: "MemoryType \<Rightarrow> 'x result list \<Rightarrow> 'x nv \<Rightarrow> 'x nv" where
  "set_best mt rs s = (if mt = MT_tag then s\<lparr>tagBest := rs\<rparr> else s\<lparr>dataBest := rs\<rparr>)"

section \<open>Wires\<close>

definition Wire_Initialize :: "input_parameter \<Rightarrow> int \<Rightarrow> int \<Rightarrow> bool \<Rightarrow> wire res" where
  "Wire_Initialize ip t rep low =
     (if rep \<noteq> repeater_num repeated_none \<and> low
      then Inl (ConfigExit ''Low Swing is not supported for repeated wires'')
      else Inr \<lparr>featureSizeInNano = processNode ip, wireType = t, wireRepeaterType = rep,
                wire_temperature = temperature ip, isLowSwing = low\<rparr>)"

definition basic :: "int \<Rightarrow> int \<Rightarrow> int \<Rightarrow> int" where
  "basic lo hi dflt = (if lo = hi then lo else dflt)"

definition INITIAL_BASIC_WIRE :: "'x nv \<Rightarrow> 'x nv res" where
  "INITIAL_BASIC_WIRE s =
     (let ip = nv_ip s in
      bindR (Wire_Initialize ip
               (basic (minLocalWireType ip) (maxLocalWireType ip) (wire_num local_aggressive))
               (basic (minLocalWireRepeaterType ip) (maxLocalWireRepeaterType ip) (repeater_num repeated_none))
               (basic (minIsLocalWireLowSwing ip) (maxIsLocalWireLowSwing ip) 0 \<noteq> 0)) (\<lambda>lw.
      bindR (Wire_Initialize ip
               (basic (minGlobalWireType ip) (maxGlobalWireType ip) (wire_num global_aggressive))
               (basic (minGlobalWireRepeaterType ip) (maxGlobalWireRepeaterType ip) (repeater_num repeated_none))
               (basic (minIsGlobalWireLowSwing ip) (maxIsGlobalWireLowSwing ip) 0 \<noteq> 0)) (\<lambda>gw.
      Inr (s\<lparr>nv_localWire := lw, nv_globalWire := gw\<rparr>))))"

definition LOAD_GLOBAL_WIRE :: "'x result \<Rightarrow> 'x nv \<Rightarrow> 'x nv res" where
  "LOAD_GLOBAL_WIRE r s =
     bindR (Wire_Initialize (nv_ip s) (wireType (r_globalWire r)) (wireRepeaterType (r_globalWire r))
              (isLowSwing (r_globalWire r)))
       (\<lambda>w. Inr (s\<lparr>nv_globalWire := w\<rparr>))"

definition LOAD_LOCAL_WIRE :: "'x result \<Rightarrow> 'x nv \<Rightarrow> 'x nv res" where
  "LOAD_LOCAL_WIRE r s =
     bindR (Wire_Initialize (nv_ip s) (wireType (r_localWire r)) (wireRepeaterType (r_localWire r))
              (isLowSwing (r_localWire r)))
       (\<lambda>w. Inr (s\<lparr>nv_localWire := w\<rparr>))"

section \<open>Candidates\<close>

definition candidate :: "'x mem_cell_scheme \<Rightarrow> bank \<Rightarrow> wire \<Rightarrow> wire \<Rightarrow> 'x result" where
  "candidate cell b lw gw = (Result_new b lw gw (Some cell))\<lparr>r_bank := b\<rparr>"

definition active_product :: "design \<Rightarrow> int" where
  "active_product d = d_numActiveSubArrayPerRow d * d_numActiveSubArrayPerColumn d *
     d_numActiveMatPerRow d * d_numActiveMatPerColumn d"

definition capacity_ok :: "design \<Rightarrow> int \<Rightarrow> bank \<Rightarrow> bool" where
  "capacity_ok d cap b \<longleftrightarrow>
     mat_numColumn (bank_mat b) * mat_numRow (bank_mat b) * numColumnSubArray b * numRowSubArray b *
       numColumnMat b * numRowMat b * d_stackedDieCount d = cap"

text \<open>\<^verbatim>\<open>UPDATE_BEST_DATA\<close> and \<^verbatim>\<open>UPDATE_BEST_TAG\<close>.\<close>

definition UPDATE_BEST :: "MemoryType \<Rightarrow> 'x result \<Rightarrow> 'x nv \<Rightarrow> 'x nv" where
  "UPDATE_BEST mt new s = set_best mt (map (\<lambda>r. updated r new) (get_best mt s)) s"

text \<open>Evaluation, validity test, \<^verbatim>\<open>VERIFY_..._CAPACITY\<close> and update of one design of \<^verbatim>\<open>BIGFOR\<close>;
  \<open>keep\<close> is the extra condition of the constrained search and \<open>fin\<close> the output that follows.\<close>

definition consider_design :: "'x evaluator \<Rightarrow> 'x mem_cell_scheme \<Rightarrow> MemoryType \<Rightarrow> int \<Rightarrow> int \<Rightarrow> int \<Rightarrow> int
    \<Rightarrow> (bank \<Rightarrow> bool) \<Rightarrow> ('x result \<Rightarrow> 'x nv \<Rightarrow> 'x nv) \<Rightarrow> design \<Rightarrow> 'x nv \<Rightarrow> 'x nv res" where
  "consider_design ev cell mt cap blk assoc pg keep fin d s =
     bindR (ev (nv_ip s) cell (layerCount s) (nv_localWire s) (nv_globalWire s) mt cap blk assoc pg d) (\<lambda>b.
     let s1 = s\<lparr>numDesigns := numDesigns s + 1\<rparr> in
     if invalid b \<or> \<not> keep b then Inr s1
     else if \<not> capacity_ok d cap b then Inl (ConfigExit ''capacity violation'')
     else let new = candidate cell b (nv_localWire s) (nv_globalWire s) in
          Inr (fin new (UPDATE_BEST mt new (s1\<lparr>numSolution := numSolution s + 1\<rparr>))))"

section \<open>Tag search\<close>

definition round_up :: "int \<Rightarrow> int \<Rightarrow> int" where
  "round_up blk act = (if c_rem blk act \<noteq> 0 then (c_div blk act + 1) * act else blk)"

text \<open>\<^verbatim>\<open>numIndexBit\<close> and \<^verbatim>\<open>numOffsetBit\<close>; the logarithm of a non-positive number is not finite.\<close>

definition tag_bits :: "input_parameter \<Rightarrow> (int \<times> int) res" where
  "tag_bits ip =
     (if wordWidth ip = 0 \<or> associativity ip = 0 then Inl DivByZero
      else let numDataSet = wrap32 (c_div (c_div (capacity ip * 8) (wordWidth ip)) (associativity ip));
               bytes = c_div (wordWidth ip) 8
           in if numDataSet \<le> 0 \<or> bytes \<le> 0 then Inl NonFinite
              else Inr (ilog2 (of_int numDataSet), ilog2 (of_int bytes)))"

definition tag_design :: "'x evaluator \<Rightarrow> 'x mem_cell_scheme \<Rightarrow> int \<Rightarrow> int \<Rightarrow> int \<Rightarrow> design \<Rightarrow> 'x nv \<Rightarrow> 'x nv res" where
  "tag_design ev cell pg idx off d s =
     (let s = s\<lparr>layerCount := d_stackedDieCount d\<rparr>;
          ip = nv_ip s;
          blk = TOTAL_ADDRESS_BIT - idx - off + 2;
          act = active_product d
      in if act = 0 then Inl DivByZero
         else if c_div blk act = 0 then Inr s
         else consider_design ev cell MT_tag
                (c_div (capacity ip * 8) (wordWidth ip) * round_up blk act) (round_up blk act)
                (associativity ip) pg (\<lambda>_. True) (\<lambda>_ s. s) d s)"

definition tag_search :: "'x evaluator \<Rightarrow> 'x mem_cell_scheme \<Rightarrow> int \<Rightarrow> 'x nv \<Rightarrow> 'x nv out" where
  "tag_search ev cell pg s =
     bindO (Some (bindR (tag_bits (nv_ip s)) (\<lambda>b. bindR (INITIAL_BASIC_WIRE s) (\<lambda>s. Inr (b, s)))))
       (\<lambda>(b, s). BIGFOR (nv_ip s) (\<lambda>d s. Some (tag_design ev cell pg (fst b) (snd b) d s)) s)"

section \<open>Wire refinement\<close>

definition design_of :: "bank \<Rightarrow> design" where
  "design_of b = Design (numRowSubArray b) (numColumnSubArray b) (stackedDieCount b)
     (numActiveSubArrayPerRow b) (numActiveSubArrayPerColumn b) (numRowMat b) (numColumnMat b)
     (numActiveMatPerRow b) (numActiveMatPerColumn b) (muxSenseAmp b) (muxOutputLev1 b)
     (muxOutputLev2 b) (numRowPerSet b) (areaOptimizationLevel b)"

definition TRY_AND_UPDATE :: "'x evaluator \<Rightarrow> 'x mem_cell_scheme \<Rightarrow> MemoryType \<Rightarrow> nat \<Rightarrow> 'x nv \<Rightarrow> 'x nv res" where
  "TRY_AND_UPDATE ev cell mt i s =
     (let r = get_best mt s ! i; b = r_bank r in
      bindR (ev (nv_ip s) cell (layerCount s) (nv_localWire s) (nv_globalWire s) mt
               (b_capacity b) (blockSize b) (b_associativity b) (b_partitionGranularity b) (design_of b)) (\<lambda>tb.
      let temp = candidate cell tb (nv_localWire s) (nv_globalWire s) in
      Inr ((set_best mt ((get_best mt s)[i := updated r temp]) s)\<lparr>nv_temp := temp\<rparr>)))"

definition refine_local :: "'x evaluator \<Rightarrow> 'x mem_cell_scheme \<Rightarrow> MemoryType \<Rightarrow> ('x nv \<Rightarrow> 'x nv)
    \<Rightarrow> int \<Rightarrow> int \<Rightarrow> int \<Rightarrow> 'x nv \<Rightarrow> 'x nv res" where
  "refine_local ev cell mt fin t rep low s =
     bindR (Wire_Initialize (nv_ip s) t rep (low \<noteq> 0)) (\<lambda>w.
     bindR (foldR (\<lambda>i s. bindR (LOAD_GLOBAL_WIRE (get_best mt s ! i) s) (TRY_AND_UPDATE ev cell mt i))
              [0..<10] (s\<lparr>nv_localWire := w\<rparr>))
       (\<lambda>s. Inr (fin s)))"

definition refine_global :: "'x evaluator \<Rightarrow> 'x mem_cell_scheme \<Rightarrow> MemoryType \<Rightarrow> ('x nv \<Rightarrow> 'x nv)
    \<Rightarrow> int \<Rightarrow> int \<Rightarrow> int \<Rightarrow> 'x nv \<Rightarrow> 'x nv res" where
  "refine_global ev cell mt fin t rep low s =
     bindR (Wire_Initialize (nv_ip s) t rep (low \<noteq> 0)) (\<lambda>w.
     bindR (foldR (\<lambda>i s. bindR (LOAD_LOCAL_WIRE (get_best mt s ! i) s) (TRY_AND_UPDATE ev cell mt i))
              [0..<10] (s\<lparr>nv_globalWire := w\<rparr>))
       (\<lambda>s. Inr (fin s)))"

text \<open>The three nested loops of a \<^verbatim>\<open>REFINE_..._FORLOOP\<close>, with their guard against repeated
  low-swing wires.\<close>

definition refine_loop :: "int \<times> int \<Rightarrow> int \<times> int \<Rightarrow> int \<times> int \<Rightarrow> (int \<Rightarrow> int \<Rightarrow> int \<Rightarrow> 's \<Rightarrow> 's res) \<Rightarrow> 's \<Rightarrow> 's out" where
  "refine_loop ts reps lows body s =
     for_inc (fst ts) (snd ts) (\<lambda>t. for_inc (fst reps) (snd reps) (\<lambda>rep.
       for_inc (fst lows) (snd lows) (\<lambda>low s.
         if rep = repeater_num repeated_none \<or> low = 0 then Some (body t rep low s) else Some (Inr s)))) s"

definition REFINE_LOCAL_WIRE :: "input_parameter \<Rightarrow> (int \<Rightarrow> int \<Rightarrow> int \<Rightarrow> 's \<Rightarrow> 's res) \<Rightarrow> 's \<Rightarrow> 's out" where
  "REFINE_LOCAL_WIRE ip =
     refine_loop (minLocalWireType ip, maxLocalWireType ip)
       (minLocalWireRepeaterType ip, maxLocalWireRepeaterType ip)
       (minIsLocalWireLowSwing ip, maxIsLocalWireLowSwing ip)"

definition REFINE_GLOBAL_WIRE :: "input_parameter \<Rightarrow> (int \<Rightarrow> int \<Rightarrow> int \<Rightarrow> 's \<Rightarrow> 's res) \<Rightarrow> 's \<Rightarrow> 's out" where
  "REFINE_GLOBAL_WIRE ip =
     refine_loop (minGlobalWireType ip, maxGlobalWireType ip)
       (minGlobalWireRepeaterType ip, maxGlobalWireRepeaterType ip)
       (minIsGlobalWireLowSwing ip, maxIsGlobalWireLowSwing ip)"

definition refine :: "'x evaluator \<Rightarrow> 'x mem_cell_scheme \<Rightarrow> MemoryType \<Rightarrow> ('x nv \<Rightarrow> 'x nv) \<Rightarrow> 'x nv \<Rightarrow> 'x nv out" where
  "refine ev cell mt fin s =
     (if numSolution s > 0
      then bindO (REFINE_LOCAL_WIRE (nv_ip s) (refine_local ev cell mt fin) s)
                 (\<lambda>s. REFINE_GLOBAL_WIRE (nv_ip s) (refine_global ev cell mt fin) s)
      else Some (Inr s))"

section \<open>Constraints\<close>

definition applyConstraint :: "'x mem_cell_scheme \<Rightarrow> input_parameter \<Rightarrow> input_parameter res" where
  "applyConstraint cell ip =
     (if designTarget ip = CAM_chip then Inl (ConfigExit ''CAM model is still under development'')
      else if memCellType cell = MLCNAND
      then Inl (ConfigExit ''MLC NAND flash model is still under development'')
      else let ip = (if designTarget ip \<noteq> cache \<and> associativity ip > 1 then ip\<lparr>associativity := 1\<rparr> else ip) in
           if routingMode ip = h_tree \<and> \<not> internalSensing ip
           then Inl (ConfigExit ''H-tree does not support external sensing scheme in this version'')
           else Inr ip)"

definition constrain :: "'x mem_cell_scheme \<Rightarrow> 'x nv \<Rightarrow> 'x nv res" where
  "constrain cell s = bindR (applyConstraint cell (nv_ip s)) (\<lambda>ip. Inr (s\<lparr>nv_ip := ip\<rparr>))"

definition init_best :: "'x mem_cell_scheme \<Rightarrow> 'x result list \<Rightarrow> 'x result list" where
  "init_best cell rs = map (\<lambda>(r, t). r\<lparr>target := t, cellTech := Some cell\<rparr>) (zip rs all_targets)"

text \<open>The tag part of \<^verbatim>\<open>nvsim\<close>; the flag is false when it returns early because no tag array is
  valid.  \<open>reread\<close> is the second reading of the configuration file.\<close>

definition tag_phase :: "'x evaluator \<Rightarrow> (input_parameter \<Rightarrow> input_parameter out) \<Rightarrow> 'x mem_cell_scheme \<Rightarrow> int
    \<Rightarrow> 'x nv \<Rightarrow> (bool \<times> 'x nv) out" where
  "tag_phase ev reread cell pg s =
     (if designTarget (nv_ip s) = cache then
        bindO (tag_search ev cell pg (s\<lparr>nv_ip := REDUCE_SEARCH_SIZE (nv_ip s)\<rparr>)) (\<lambda>s.
        bindO (refine ev cell MT_tag id s) (\<lambda>s.
        if numSolution s = 0 then Some (Inr (False, s))
        else bindO (reread (RESTORE_SEARCH_SIZE (nv_ip s))) (\<lambda>ip.
             bindO (Some (constrain cell (s\<lparr>numSolution := 0, numDesigns := 0, nv_ip := ip\<rparr>))) (\<lambda>s.
             Some (Inr (True, s))))))
      else Some (Inr (True, s)))"

section \<open>Data search\<close>

text \<open>Capacity in bits, block size and associativity of the data array, and the configuration
  that the access mode leaves behind.\<close>

definition data_shape :: "'x mem_cell_scheme \<Rightarrow> input_parameter \<Rightarrow> input_parameter \<times> int \<times> int \<times> int" where
  "data_shape cell ip =
     (let cap = capacity ip * 8;
          (ip, blk, assoc) =
            (if designTarget ip = cache then
               (case cacheAccessMode ip of
                  sequential_access_mode \<Rightarrow> (ip, wordWidth ip, 1)
                | fast_access_mode \<Rightarrow> (ip, wordWidth ip * associativity ip, 1)
                | normal_access_mode \<Rightarrow>
                    (ip\<lparr>minNumRowPerSet := 1, maxNumRowPerSet := 1\<rparr>, wordWidth ip, associativity ip))
             else (ip, wordWidth ip, associativity ip))
      in if designTarget ip = RAM_chip \<and> (memCellType cell = SLCNAND \<or> memCellType cell = DRAM)
         then (ip, cap, pageSize ip, 1) else (ip, cap, blk, assoc))"

definition OUTPUT_TO_FILE :: "'x result \<Rightarrow> 'x nv \<Rightarrow> 'x nv" where
  "OUTPUT_TO_FILE temp s =
     s\<lparr>csv := csv s @ (if designTarget (nv_ip s) = cache then map (CacheRow temp) (tagBest s) else [DataRow temp])\<rparr>"

definition full_output :: "'x result \<Rightarrow> 'x nv \<Rightarrow> 'x nv" where
  "full_output temp s =
     (if optimizationTarget (nv_ip s) = full_exploration \<and> \<not> isPruningEnabled (nv_ip s)
      then OUTPUT_TO_FILE temp s else s)"

definition data_design :: "'x evaluator \<Rightarrow> 'x mem_cell_scheme \<Rightarrow> int \<Rightarrow> int \<Rightarrow> int \<Rightarrow> int
    \<Rightarrow> (bank \<Rightarrow> bool) \<Rightarrow> ('x result \<Rightarrow> 'x nv \<Rightarrow> 'x nv) \<Rightarrow> design \<Rightarrow> 'x nv \<Rightarrow> 'x nv res" where
  "data_design ev cell pg cap blk assoc keep fin d s =
     (let act = active_product d in
      if act = 0 then Inl DivByZero
      else if c_div blk act = 0 then Inr s
      else consider_design ev cell MT_data cap blk assoc pg keep fin d s)"

definition data_search :: "'x evaluator \<Rightarrow> 'x mem_cell_scheme \<Rightarrow> int \<Rightarrow> int \<Rightarrow> int \<Rightarrow> int
    \<Rightarrow> (bank \<Rightarrow> bool) \<Rightarrow> ('x result \<Rightarrow> 'x nv \<Rightarrow> 'x nv) \<Rightarrow> 'x nv \<Rightarrow> 'x nv out" where
  "data_search ev cell pg cap blk assoc keep fin s =
     bindO (Some (INITIAL_BASIC_WIRE s))
       (\<lambda>s. BIGFOR (nv_ip s) (\<lambda>d s. Some (data_design ev cell pg cap blk assoc keep fin d s)) s)"

section \<open>Pruning\<close>

definition overhead :: "nat \<Rightarrow> real" where
  "overhead k = 1 + (real k + 1) / 10"

text \<open>\<^verbatim>\<open>pruningResults[i][j][k]\<close>: the result optimised for \<open>i\<close> with a limit on \<open>j\<close>.\<close>

definition pruning_result :: "'x result \<Rightarrow> 'x result list \<Rightarrow> nat \<Rightarrow> nat \<Rightarrow> nat \<Rightarrow> 'x result" where
  "pruning_result fresh best i j k =
     (let bi = best ! i; bj = best ! j; b = r_bank bj;
          r = fresh\<lparr>target := all_targets ! i, r_localWire := r_localWire bi, r_globalWire := r_globalWire bi\<rparr>
      in case all_targets ! j of
           read_latency_optimized \<Rightarrow> r\<lparr>limitReadLatency := readLatency b * overhead k\<rparr>
         | write_latency_optimized \<Rightarrow> r\<lparr>limitWriteLatency := writeLatency b * overhead k\<rparr>
         | read_energy_optimized \<Rightarrow> r\<lparr>limitReadDynamicEnergy := readDynamicEnergy b * overhead k\<rparr>
         | write_energy_optimized \<Rightarrow> r\<lparr>limitWriteDynamicEnergy := writeDynamicEnergy b * overhead k\<rparr>
         | read_edp_optimized \<Rightarrow> r\<lparr>limitReadEdp := readLatency b * readDynamicEnergy b * overhead k\<rparr>
         | write_edp_optimized \<Rightarrow> r\<lparr>limitWriteEdp := writeLatency b * writeDynamicEnergy b * overhead k\<rparr>
         | read_bandwidth_optimized \<Rightarrow> r\<lparr>limitReadBandwidth := getReadBandwidth bj / overhead k\<rparr>
         | write_bandwidth_optimized \<Rightarrow> r\<lparr>limitWriteBandwidth := getWriteBandwidth bj / overhead k\<rparr>
         | area_optimized \<Rightarrow> r\<lparr>limitArea := area b * overhead k\<rparr>
         | leakage_optimized \<Rightarrow> r\<lparr>limitLeakage := leakage b * overhead k\<rparr>
         | full_exploration \<Rightarrow> r)"

text \<open>The pruned results are deleted again; what remains are the printed rows.\<close>

definition prune :: "'x nv \<Rightarrow> 'x nv" where
  "prune s =
     (if optimizationTarget (nv_ip s) = full_exploration \<and> isPruningEnabled (nv_ip s)
      then s\<lparr>csv := csv s @ map2 CacheRow (dataBest s) (tagBest s)\<rparr> else s)"

section \<open>Constrained search\<close>

record allowed =
  allowedReadLatency :: real
  allowedWriteLatency :: real
  allowedReadDynamicEnergy :: real
  allowedWriteDynamicEnergy :: real
  allowedReadEdp :: real
  allowedWriteEdp :: real
  allowedArea :: real
  allowedLeakage :: real

definition best_for :: "'x nv \<Rightarrow> nat \<Rightarrow> bank" where
  "best_for s i = r_bank (dataBest s ! i)"

definition allowed_limits :: "'x nv \<Rightarrow> allowed" where
  "allowed_limits s =
     (let ip = nv_ip s in
      \<lparr>allowedReadLatency = readLatency (best_for s 0) * (readLatencyConstraint ip + 1),
       allowedWriteLatency = writeLatency (best_for s 1) * (writeLatencyConstraint ip + 1),
       allowedReadDynamicEnergy = readDynamicEnergy (best_for s 2) * (readDynamicEnergyConstraint ip + 1),
       allowedWriteDynamicEnergy = writeDynamicEnergy (best_for s 3) * (writeDynamicEnergyConstraint ip + 1),
       allowedReadEdp = readLatency (best_for s 4) * readDynamicEnergy (best_for s 4) * (readEdpConstraint ip + 1),
       allowedWriteEdp = writeLatency (best_for s 5) * writeDynamicEnergy (best_for s 5) * (writeEdpConstraint ip + 1),
       allowedArea = area (best_for s 9) * (areaConstraint ip + 1),
       allowedLeakage = leakage (best_for s 8) * (leakageConstraint ip + 1)\<rparr>)"

definition APPLY_LIMIT :: "allowed \<Rightarrow> 'x result \<Rightarrow> 'x result" where
  "APPLY_LIMIT a r = (Result_reset r)\<lparr>
     limitReadLatency := allowedReadLatency a, limitWriteLatency := allowedWriteLatency a,
     limitReadDynamicEnergy := allowedReadDynamicEnergy a,
     limitWriteDynamicEnergy := allowedWriteDynamicEnergy a,
     limitReadEdp := allowedReadEdp a, limitWriteEdp := allowedWriteEdp a,
     limitArea := allowedArea a, limitLeakage := allowedLeakage a\<rparr>"

definition allows :: "allowed \<Rightarrow> bank \<Rightarrow> bool" where
  "allows a b \<longleftrightarrow>
     readLatency b \<le> allowedReadLatency a \<and> writeLatency b \<le> allowedWriteLatency a \<and>
     readDynamicEnergy b \<le> allowedReadDynamicEnergy a \<and> writeDynamicEnergy b \<le> allowedWriteDynamicEnergy a \<and>
     leakage b \<le> allowedLeakage a \<and> area b \<le> allowedArea a \<and>
     readLatency b * readDynamicEnergy b \<le> allowedReadEdp a \<and>
     writeLatency b * writeDynamicEnergy b \<le> allowedWriteEdp a"

definition print_row :: "'x result \<Rightarrow> 'x nv \<Rightarrow> 'x nv" where
  "print_row temp s = s\<lparr>csv := csv s @ [DataRow temp]\<rparr>"

definition constrained_search :: "'x evaluator \<Rightarrow> 'x mem_cell_scheme \<Rightarrow> int \<Rightarrow> int \<Rightarrow> int \<Rightarrow> int \<Rightarrow> 'x nv \<Rightarrow> 'x nv out" where
  "constrained_search ev cell pg cap blk assoc s =
     (if optimizationTarget (nv_ip s) \<noteq> full_exploration \<and> isConstraintApplied (nv_ip s)
      then let a = allowed_limits s in
           data_search ev cell pg cap blk assoc (allows a) print_row
             (s\<lparr>dataBest := map (APPLY_LIMIT a) (dataBest s), numSolution := 0\<rparr>)
      else Some (Inr s))"

definition data_phase :: "'x evaluator \<Rightarrow> 'x mem_cell_scheme \<Rightarrow> int \<Rightarrow> 'x nv \<Rightarrow> 'x nv out" where
  "data_phase ev cell pg s =
     (let (ip, cap, blk, assoc) = data_shape cell (nv_ip s) in
      bindO (data_search ev cell pg cap blk assoc (\<lambda>_. True) full_output (s\<lparr>nv_ip := ip\<rparr>)) (\<lambda>s.
      bindO (refine ev cell MT_data (\<lambda>s. full_output (nv_temp s) s) s) (\<lambda>s.
      constrained_search ev cell pg cap blk assoc (prune s))))"

section \<open>One cell type\<close>

text \<open>\<^verbatim>\<open>nvsim\<close>; the result is true when the function returns 0.\<close>

definition nvsim :: "'x evaluator \<Rightarrow> (input_parameter \<Rightarrow> input_parameter out) \<Rightarrow> 'x mem_cell_scheme
    \<Rightarrow> 'x nv \<Rightarrow> (bool \<times> 'x nv) out" where
  "nvsim ev reread cell s =
     bindO (Some (constrain cell s)) (\<lambda>s.
     let s = s\<lparr>dataBest := init_best cell (dataBest s), tagBest := init_best cell (tagBest s), numDesigns := 0\<rparr>;
         pg = partitionGranularity (nv_ip s)
     in bindO (tag_phase ev reread cell pg s) (\<lambda>(ok, s).
        if \<not> ok then Some (Inr (False, s))
        else bindO (data_phase ev cell pg s) (\<lambda>s. Some (Inr (True, s)))))"

section \<open>All cell types\<close>

record 'x run =
  run_ip :: input_parameter
  run_layers :: int
  run_csv :: "'x csv_row list"
  failures :: int
  totalSolutions :: int
  dataResults :: "'x result list list"
  tagResults :: "'x result list list"

text \<open>\<open>fresh\<close> is a newly constructed result for a cell, \<open>lw\<close> and \<open>gw\<close> the new wires.\<close>

definition explore_cell :: "'x evaluator \<Rightarrow> (input_parameter \<Rightarrow> input_parameter out)
    \<Rightarrow> ('x mem_cell_scheme \<Rightarrow> 'x result) \<Rightarrow> wire \<Rightarrow> wire \<Rightarrow> 'x mem_cell_scheme \<Rightarrow> 'x run \<Rightarrow> 'x run out" where
  "explore_cell ev reread fresh lw gw cell m =
     bindO (nvsim ev reread cell
              \<lparr>nv_ip = run_ip m, tagBest = replicate 10 (fresh cell), dataBest = replicate 10 (fresh cell),
               numSolution = 0, numDesigns = 0, layerCount = run_layers m, nv_localWire = lw,
               nv_globalWire = gw, nv_temp = fresh cell, csv = run_csv m\<rparr>) (\<lambda>(ok, s).
     Some (Inr (m\<lparr>run_ip := nv_ip s, run_layers := layerCount s, run_csv := csv s,
       failures := failures m + (if ok then 0 else 1),
       totalSolutions := totalSolutions m + (if ok then numSolution s else 0),
       dataResults := dataResults m @ [dataBest s], tagResults := tagResults m @ [tagBest s]\<rparr>)))"

definition adopt :: "'x result \<Rightarrow> 'x result \<Rightarrow> 'x result" where
  "adopt r new = r\<lparr>r_bank := r_bank new, r_localWire := r_localWire new, r_globalWire := r_globalWire new\<rparr>"

text \<open>One step of the comparison of cell types: \<open>(d, t)\<close> is the best data and tag result so far,
  \<open>(d', t')\<close> the result of another cell type.\<close>

definition merge_target :: "bool \<Rightarrow> 'x mem_cell_scheme \<Rightarrow> 'x result \<times> 'x result \<Rightarrow> 'x result \<times> 'x result
    \<Rightarrow> 'x result \<times> 'x result" where
  "merge_target differentTag cell old new =
     (let upd = fst (compareAndUpdate (fst old) (fst new));
          d = updated (fst old) (fst new);
          d = (if upd then d\<lparr>cellTech := Some cell\<rparr> else d);
          t = (if upd \<and> \<not> differentTag then (adopt (snd old) (snd new))\<lparr>cellTech := Some cell\<rparr> else snd old);
          t = (if differentTag
               then (let t' = updated t (snd new) in
                     if fst (compareAndUpdate t (snd new)) then t'\<lparr>cellTech := Some cell\<rparr> else t')
               else t)
      in (d, t))"

definition merge_cells :: "bool \<Rightarrow> ('x mem_cell_scheme \<times> ('x result \<times> 'x result) list) list
    \<Rightarrow> ('x result \<times> 'x result) list \<Rightarrow> ('x result \<times> 'x result) list" where
  "merge_cells differentTag others best0 =
     fold (\<lambda>(cell, news) best. map2 (merge_target differentTag cell) best news) others best0"

text \<open>\<^verbatim>\<open>main\<close>: \<open>read\<close> reads the configuration, \<open>read_cell\<close> reads a cell file and applies the
  operating conditions; \<open>m0\<close> is the uninitialised memory of the configuration.  The result is
  the list of the best data and tag results with the counters.\<close>

definition main_run :: "'x evaluator \<Rightarrow> (input_parameter \<Rightarrow> input_parameter out) \<Rightarrow> (string \<Rightarrow> 'x mem_cell_scheme out)
    \<Rightarrow> ('x mem_cell_scheme \<Rightarrow> 'x result) \<Rightarrow> wire \<Rightarrow> wire \<Rightarrow> input_parameter
    \<Rightarrow> (('x result \<times> 'x result) list \<times> 'x run) out" where
  "main_run ev read read_cell fresh lw gw m0 =
     bindO (read (RESTORE_SEARCH_SIZE (InputParameter_new m0))) (\<lambda>ip.
     bindO (foldO (\<lambda>f cells. bindO (read_cell f) (\<lambda>c. Some (Inr (cells @ [c])))) (fileMemCell ip) []) (\<lambda>cells.
     bindO (foldO (explore_cell ev read fresh lw gw) cells
              \<lparr>run_ip = ip, run_layers = 2, run_csv = [], failures = 0, totalSolutions = 0,
               dataResults = [], tagResults = []\<rparr>) (\<lambda>m.
     if cells = [] \<or> optimizationTarget (run_ip m) = full_exploration then Some (Inr ([], m))
     else let rows = map2 (\<lambda>ds ts. zip ds ts) (dataResults m) (tagResults m)
          in Some (Inr (merge_cells (allowDifferentTagTech (run_ip m)) (zip (tl cells) (tl rows)) (hd rows), m)))))"

section \<open>Technology interpolation\<close>

text \<open>The upper technology node and the weight with which \<^verbatim>\<open>initializeTechnology\<close> interpolates.\<close>

definition interpolation :: "int \<Rightarrow> (int \<times> real) option" where
  "interpolation node =
     (let w = (\<lambda>hi lo n. Some (hi, (of_int node - lo) / n)) in
      if node > 200 then None
      else if node > 120 then w 200 120 60
      else if node > 90 then w 120 90 30
      else if node > 65 then w 90 65 25
      else if node > 45 then w 65 45 20
      else if node \<ge> 32 then w 45 32 13
      else if node \<ge> 22 then w 32 22 10
      else if node \<ge> 14 then w 22 14 8
      else if node \<ge> 10 then w 14 10 4
      else if node \<ge> 7 then w 10 7 3
      else if node \<ge> 5 then w 7 5 2
      else if node \<ge> 3 then w 5 3 2
      else if node \<ge> 2 then w 3 2 1
      else if node \<ge> 1 then w 2 1 1
      else None)"

end
