(* ===== verification/Explore_Props.thy ===== *)
theory Explore_Props
  imports Exploration
begin

text \<open>
  Correctness of the design-space exploration for every electrical evaluation: the searches
  return, for every optimisation target, an optimum over the whole design space; the wire
  refinement never makes a result worse; the constrained search only returns valid designs
  within the constraints; and what the exploration does not do: it evaluates stacked data
  arrays with a stale layer count, and the refinement adopts invalid designs.
\<close>

section \<open>Invariants of loops\<close>

lemma foldR_invariant:
  assumes "foldR f xs s = Inr s'" "P s" "\<And>x s s'. x \<in> set xs \<Longrightarrow> f x s = Inr s' \<Longrightarrow> P s \<Longrightarrow> P s'"
  shows "P s'"
  using assms
proof (induction xs arbitrary: s)
  case (Cons x xs)
  from Cons.prems(1) obtain s1 where "f x s = Inr s1" "foldR f xs s1 = Inr s'"
    by (auto simp: bindR_Inr_iff)
  thus ?case using Cons.IH[of s1] Cons.prems by auto
qed simp

lemma foldR_total:
  assumes "P s" "\<And>x s. x \<in> set xs \<Longrightarrow> P s \<Longrightarrow> \<exists>s'. f x s = Inr s' \<and> P s'"
  shows "\<exists>s'. foldR f xs s = Inr s' \<and> P s'"
  using assms
proof (induction xs arbitrary: s)
  case (Cons x xs)
  obtain s1 where "f x s = Inr s1" "P s1" using Cons.prems(2)[of x s] Cons.prems(1) by auto
  thus ?case using Cons.IH[of s1] Cons.prems(2) by auto
qed simp

lemma foldO_invariant:
  assumes "foldO f xs s = Some (Inr s')" "P s" "\<And>x s s'. x \<in> set xs \<Longrightarrow> f x s = Some (Inr s') \<Longrightarrow> P s \<Longrightarrow> P s'"
  shows "P s'"
  using assms
proof (induction xs arbitrary: s)
  case (Cons x xs)
  from Cons.prems(1) obtain s1 where "f x s = Some (Inr s1)" "foldO f xs s1 = Some (Inr s')"
    by (auto simp: bindO_def split: bind_splits sum.splits)
  thus ?case using Cons.IH[of s1] Cons.prems by auto
qed simp

lemma foldO_total:
  assumes "P s" "\<And>x s. x \<in> set xs \<Longrightarrow> P s \<Longrightarrow> \<exists>s'. f x s = Some (Inr s') \<and> P s'"
  shows "\<exists>s'. foldO f xs s = Some (Inr s') \<and> P s'"
  using assms
proof (induction xs arbitrary: s)
  case (Cons x xs)
  obtain s1 where "f x s = Some (Inr s1)" "P s1" using Cons.prems(2)[of x s] Cons.prems(1) by auto
  thus ?case using Cons.IH[of s1] Cons.prems(2) by auto
qed simp

lemma bindO_Inr_iff [fault_simps]:
  "bindO m f = Some (Inr y) \<longleftrightarrow> (\<exists>x. m = Some (Inr x) \<and> f x = Some (Inr y))"
  by (cases m) (auto simp: bindO_def split: sum.split)

text \<open>The three loops of a wire refinement as one pass over the legal wire descriptions.\<close>

definition legal_wires :: "int \<times> int \<Rightarrow> int \<times> int \<Rightarrow> int \<times> int \<Rightarrow> (int \<times> int \<times> int) list" where
  "legal_wires ts reps lows =
     filter (\<lambda>(t, rep, low). rep = repeater_num repeated_none \<or> low = 0)
       (concat (map (\<lambda>t. concat (map (\<lambda>rep. map (\<lambda>low. (t, rep, low)) [fst lows..snd lows])
          [fst reps..snd reps])) [fst ts..snd ts]))"

lemma foldO_filter:
  "foldO (\<lambda>x s. if Q x then f x s else Some (Inr s)) xs s = foldO f (filter Q xs) s"
  by (induction xs arbitrary: s) (auto intro: bindO_cong)

lemma refine_loop_list:
  "refine_loop ts reps lows body s =
     foldO (\<lambda>(t, rep, low) s. Some (body t rep low s)) (legal_wires ts reps lows) s"
proof -
  let ?g = "\<lambda>(t, rep, low) s. if rep = repeater_num repeated_none \<or> low = 0 then Some (body t rep low s) else Some (Inr s)"
  have inner: "for_inc (fst lows) (snd lows) (\<lambda>low s. if rep = repeater_num repeated_none \<or> low = 0
      then Some (body t rep low s) else Some (Inr s)) s =
    foldO ?g (map (\<lambda>low. (t, rep, low)) [fst lows..snd lows]) s" for t rep s
    using for_inc_points[of "fst lows" "snd lows" ?g "\<lambda>low. (t, rep, low)" s] by simp
  have "refine_loop ts reps lows body s = foldO ?g
      (concat (map (\<lambda>t. concat (map (\<lambda>rep. map (\<lambda>low. (t, rep, low)) [fst lows..snd lows])
          [fst reps..snd reps])) [fst ts..snd ts])) s"
    unfolding refine_loop_def
    by (intro for_inc_nest inner)
  also have "\<dots> = foldO (\<lambda>(t, rep, low) s. Some (body t rep low s)) (legal_wires ts reps lows) s"
    unfolding legal_wires_def foldO_filter[symmetric]
    by (rule foldO_cong) (auto split: prod.split)
  finally show ?thesis .
qed

section \<open>The data search is optimal\<close>

definition same_context :: "'x nv \<Rightarrow> 'x nv \<Rightarrow> bool" where
  "same_context s s' \<longleftrightarrow>
     nv_ip s' = nv_ip s \<and> layerCount s' = layerCount s \<and> nv_localWire s' = nv_localWire s \<and>
     nv_globalWire s' = nv_globalWire s \<and> tagBest s' = tagBest s"

text \<open>Output steps change only the written rows.\<close>

definition quiet :: "('x result \<Rightarrow> 'x nv \<Rightarrow> 'x nv) \<Rightarrow> bool" where
  "quiet fin \<longleftrightarrow> (\<forall>new s. same_context s (fin new s) \<and> dataBest (fin new s) = dataBest s \<and>
     numSolution (fin new s) = numSolution s)"

lemma quiet_outputs: "quiet full_output" "quiet print_row"
  by (auto simp: quiet_def same_context_def full_output_def OUTPUT_TO_FILE_def print_row_def)

text \<open>The candidates of a design: none if it is skipped, invalid or not kept.\<close>

definition survivor :: "'x evaluator \<Rightarrow> 'x mem_cell_scheme \<Rightarrow> int \<Rightarrow> int \<Rightarrow> int \<Rightarrow> int \<Rightarrow> (bank \<Rightarrow> bool) \<Rightarrow> 'x nv
    \<Rightarrow> design \<Rightarrow> 'x result list" where
  "survivor ev cell pg cap blk assoc keep s d =
     (case ev (nv_ip s) cell (layerCount s) (nv_localWire s) (nv_globalWire s) MT_data cap blk assoc pg d of
        Inl _ \<Rightarrow> []
      | Inr b \<Rightarrow> if c_div blk (active_product d) \<noteq> 0 \<and> \<not> invalid b \<and> keep b
                then [candidate cell b (nv_localWire s) (nv_globalWire s)] else [])"

abbreviation run_updates :: "'x result list \<Rightarrow> 'x result \<Rightarrow> 'x result" where
  "run_updates news r \<equiv> fold (\<lambda>new r. updated r new) news r"

lemma survivor_context: "same_context s s' \<Longrightarrow> survivor ev cell pg cap blk assoc keep s' = survivor ev cell pg cap blk assoc keep s"
  by (rule ext) (simp add: survivor_def same_context_def split: sum.split)

lemma same_context_trans: "same_context s s' \<Longrightarrow> same_context s' s'' \<Longrightarrow> same_context s s''"
  by (simp add: same_context_def)

lemma data_design_effect:
  assumes "data_design ev cell pg cap blk assoc keep fin d s = Inr s'" "quiet fin"
  shows "same_context s s' \<and>
     dataBest s' = map (run_updates (survivor ev cell pg cap blk assoc keep s d)) (dataBest s) \<and>
     numSolution s' = numSolution s + int (length (survivor ev cell pg cap blk assoc keep s d))"
proof -
  have act: "active_product d \<noteq> 0" using assms(1) by (auto simp: data_design_def)
  show ?thesis
  proof (cases "c_div blk (active_product d) = 0")
    case True
    hence "s' = s" using assms(1) act by (simp add: data_design_def)
    moreover have "survivor ev cell pg cap blk assoc keep s d = []"
      using True by (simp add: survivor_def split: sum.split)
    ultimately show ?thesis by (simp add: same_context_def)
  next
    case False
    let ?e = "ev (nv_ip s) cell (layerCount s) (nv_localWire s) (nv_globalWire s) MT_data cap blk assoc pg d"
    have c: "consider_design ev cell MT_data cap blk assoc pg keep fin d s = Inr s'"
      using assms(1) act False by (simp add: data_design_def)
    then obtain b where b: "?e = Inr b" by (auto simp: consider_design_def bindR_Inr_iff)
    show ?thesis
    proof (cases "invalid b \<or> \<not> keep b")
      case True
      thus ?thesis using c b False by (auto simp: consider_design_def survivor_def same_context_def)
    next
      case keep: False
      let ?new = "candidate cell b (nv_localWire s) (nv_globalWire s)"
      let ?s1 = "UPDATE_BEST MT_data ?new (s\<lparr>numDesigns := numDesigns s + 1, numSolution := numSolution s + 1\<rparr>)"
      have s': "s' = fin ?new ?s1"
        using c b keep by (auto simp: consider_design_def Let_def split: if_splits)
      have "same_context s ?s1 \<and> dataBest ?s1 = map (\<lambda>r. updated r ?new) (dataBest s) \<and>
          numSolution ?s1 = numSolution s + 1"
        by (simp add: UPDATE_BEST_def set_best_def get_best_def same_context_def)
      moreover have "survivor ev cell pg cap blk assoc keep s d = [?new]"
        using b keep False by (simp add: survivor_def)
      ultimately show ?thesis
        using assms(2) same_context_trans unfolding s' quiet_def by fastforce
    qed
  qed
qed

lemma data_designs_effect:
  assumes "foldO (\<lambda>d s. Some (data_design ev cell pg cap blk assoc keep fin d s)) ds s = Some (Inr s')" "quiet fin"
  defines "cs \<equiv> concat (map (survivor ev cell pg cap blk assoc keep s) ds)"
  shows "same_context s s' \<and> dataBest s' = map (run_updates cs) (dataBest s) \<and>
         numSolution s' = numSolution s + int (length cs)"
  using assms(1) unfolding cs_def
proof (induction ds arbitrary: s)
  case Nil
  thus ?case by (simp add: same_context_def)
next
  case (Cons d ds)
  from Cons.prems obtain s1 where 1: "data_design ev cell pg cap blk assoc keep fin d s = Inr s1"
    and 2: "foldO (\<lambda>d s. Some (data_design ev cell pg cap blk assoc keep fin d s)) ds s1 = Some (Inr s')"
    by (auto simp: bindO_Inr_iff)
  note e = data_design_effect[OF 1 assms(2)]
  have "survivor ev cell pg cap blk assoc keep s1 = survivor ev cell pg cap blk assoc keep s"
    using e survivor_context by blast
  with Cons.IH[OF 2] e show ?case by (auto simp: comp_def intro: same_context_trans)
qed

lemma INITIAL_BASIC_WIRE_frame:
  "INITIAL_BASIC_WIRE s = Inr s' \<Longrightarrow>
   nv_ip s' = nv_ip s \<and> layerCount s' = layerCount s \<and> tagBest s' = tagBest s \<and>
   dataBest s' = dataBest s \<and> numSolution s' = numSolution s"
  by (auto simp: INITIAL_BASIC_WIRE_def Let_def bindR_Inr_iff)

lemma data_search_effect:
  assumes "data_search ev cell pg cap blk assoc keep fin s = Some (Inr s')" "quiet fin" "bounds_pos (nv_ip s)"
  defines "cs \<equiv> concat (map (survivor ev cell pg cap blk assoc keep s') (points (nv_ip s)))"
  shows "nv_ip s' = nv_ip s \<and> layerCount s' = layerCount s \<and> tagBest s' = tagBest s \<and>
         dataBest s' = map (run_updates cs) (dataBest s) \<and> numSolution s' = numSolution s + int (length cs)"
proof -
  from assms(1) obtain s1 where w: "INITIAL_BASIC_WIRE s = Inr s1"
    and b: "BIGFOR (nv_ip s1) (\<lambda>d s. Some (data_design ev cell pg cap blk assoc keep fin d s)) s1 = Some (Inr s')"
    by (auto simp: data_search_def bindO_Inr_iff)
  note f = INITIAL_BASIC_WIRE_frame[OF w]
  have "foldO (\<lambda>d s. Some (data_design ev cell pg cap blk assoc keep fin d s)) (points (nv_ip s)) s1 = Some (Inr s')"
    using b f assms(3) by (simp add: BIGFOR_points)
  from data_designs_effect[OF this assms(2)] f survivor_context[of s1 s' ev cell pg cap blk assoc keep]
  show ?thesis by (simp add: cs_def same_context_def)
qed

lemma survivor_iff:
  "new \<in> set (survivor ev cell pg cap blk assoc keep s d) \<longleftrightarrow>
     (\<exists>b. ev (nv_ip s) cell (layerCount s) (nv_localWire s) (nv_globalWire s) MT_data cap blk assoc pg d = Inr b \<and>
          c_div blk (active_product d) \<noteq> 0 \<and> \<not> invalid b \<and> keep b \<and>
          new = candidate cell b (nv_localWire s) (nv_globalWire s))"
  by (cases "ev (nv_ip s) cell (layerCount s) (nv_localWire s) (nv_globalWire s) MT_data cap blk assoc pg d")
     (auto simp: survivor_def)

text \<open>
  C3. The data search finds an optimum of the whole design space for every target.  After it
  returns, no design of the search space that is evaluated as valid, is not partitioned beyond
  the block size and satisfies the limits of target \<open>i\<close> is cheaper than result \<open>i\<close>; and
  result \<open>i\<close> either is unchanged or is such a design itself.
\<close>
theorem data_search_optimal:
  assumes "data_search ev cell pg cap blk assoc (\<lambda>_. True) full_output s = Some (Inr s')"
    and "bounds_pos (nv_ip s)" "i < length (dataBest s)"
  defines "r \<equiv> dataBest s ! i"
    and "eval \<equiv> ev (nv_ip s) cell (layerCount s) (nv_localWire s') (nv_globalWire s') MT_data cap blk assoc pg"
    and "new \<equiv> \<lambda>b. candidate cell b (nv_localWire s') (nv_globalWire s')"
  shows "(\<forall>d b. in_space (nv_ip s) d \<and> c_div blk (active_product d) \<noteq> 0 \<and> eval d = Inr b \<and> \<not> invalid b \<and>
             within_limits r (new b) \<longrightarrow> cost (target r) (dataBest s' ! i) \<le> cost (target r) (new b)) \<and>
         (dataBest s' ! i = r \<or>
          (\<exists>d b. in_space (nv_ip s) d \<and> c_div blk (active_product d) \<noteq> 0 \<and> eval d = Inr b \<and> \<not> invalid b \<and>
             within_limits r (new b) \<and> same_candidate (dataBest s' ! i) (new b)))"
proof -
  let ?cs = "concat (map (survivor ev cell pg cap blk assoc (\<lambda>_. True) s') (points (nv_ip s)))"
  note e = data_search_effect[OF assms(1) quiet_outputs(1) assms(2)]
  have best: "dataBest s' ! i = run_updates ?cs r" using e assms(3) by (simp add: r_def)
  have ctx: "nv_ip s' = nv_ip s" "layerCount s' = layerCount s" using e by auto
  have mem: "x \<in> set ?cs \<longleftrightarrow> (\<exists>d b. in_space (nv_ip s) d \<and> c_div blk (active_product d) \<noteq> 0 \<and> eval d = Inr b \<and>
      \<not> invalid b \<and> x = new b)" for x
  proof -
    have "x \<in> set ?cs \<longleftrightarrow> (\<exists>d. d \<in> set (points (nv_ip s)) \<and>
        x \<in> set (survivor ev cell pg cap blk assoc (\<lambda>_. True) s' d))" by auto
    thus ?thesis unfolding survivor_iff ctx points_iff[OF assms(2)] eval_def new_def by blast
  qed
  show ?thesis
  proof (intro conjI allI impI)
    fix d b
    assume "in_space (nv_ip s) d \<and> c_div blk (active_product d) \<noteq> 0 \<and> eval d = Inr b \<and> \<not> invalid b \<and>
      within_limits r (new b)"
    hence "new b \<in> set ?cs" "within_limits r (new b)" using mem by blast+
    thus "cost (target r) (dataBest s' ! i) \<le> cost (target r) (new b)"
      unfolding best by (rule scan.run_optimal)
  next
    show "dataBest s' ! i = r \<or> (\<exists>d b. in_space (nv_ip s) d \<and> c_div blk (active_product d) \<noteq> 0 \<and>
        eval d = Inr b \<and> \<not> invalid b \<and> within_limits r (new b) \<and> same_candidate (dataBest s' ! i) (new b))"
      using scan.run_origin[of ?cs r] mem unfolding best by metis
  qed
qed

section \<open>The searches return\<close>

lemma in_space_active_pos:
  assumes "bounds_pos ip" "in_space ip d"
  shows "0 < active_product d"
proof -
  note b = assms(1)[unfolded bounds_pos_def] and d = assms(2)[unfolded in_space_def]
  have "0 < d_numRowSubArray d" "0 < d_numColumnSubArray d" "0 < d_numRowMat d" "0 < d_numColumnMat d"
    using b d doubles_pos by blast+
  hence "0 < d_numActiveSubArrayPerRow d" "0 < d_numActiveSubArrayPerColumn d"
    "0 < d_numActiveMatPerRow d" "0 < d_numActiveMatPerColumn d"
    using b d doubles_pos[of "min _ _"] by (metis min_less_iff_conj)+
  thus ?thesis by (simp add: active_product_def)
qed

lemma consider_design_total:
  assumes "ev (nv_ip s) cell (layerCount s) (nv_localWire s) (nv_globalWire s) mt cap blk assoc pg d = Inr b"
    and "invalid b \<or> \<not> keep b \<or> capacity_ok d cap b"
  shows "\<exists>s'. consider_design ev cell mt cap blk assoc pg keep fin d s = Inr s'"
  using assms by (auto simp: consider_design_def Let_def)

lemma data_search_total:
  assumes "bounds_pos (nv_ip s)" "INITIAL_BASIC_WIRE s = Inr s1" "quiet fin"
    and ev: "\<And>d. in_space (nv_ip s) d \<Longrightarrow> c_div blk (active_product d) \<noteq> 0 \<Longrightarrow>
      \<exists>b. ev (nv_ip s) cell (layerCount s) (nv_localWire s1) (nv_globalWire s1) MT_data cap blk assoc pg d = Inr b \<and>
          (invalid b \<or> \<not> keep b \<or> capacity_ok d cap b)"
  shows "\<exists>s'. data_search ev cell pg cap blk assoc keep fin s = Some (Inr s')"
proof -
  note f = INITIAL_BASIC_WIRE_frame[OF assms(2)]
  have "\<exists>s'. foldO (\<lambda>d s. Some (data_design ev cell pg cap blk assoc keep fin d s)) (points (nv_ip s)) s1
      = Some (Inr s') \<and> same_context s1 s'"
  proof (rule foldO_total)
    show "same_context s1 s1" by (simp add: same_context_def)
    fix d t assume d: "d \<in> set (points (nv_ip s))" and t: "same_context s1 t"
    have i: "in_space (nv_ip s) d" using d points_iff[OF assms(1)] by blast
    hence a: "active_product d \<noteq> 0" using in_space_active_pos[OF assms(1)] by fastforce
    have "\<exists>t'. data_design ev cell pg cap blk assoc keep fin d t = Inr t'"
    proof (cases "c_div blk (active_product d) = 0")
      case True
      thus ?thesis using a by (simp add: data_design_def)
    next
      case False
      obtain b where "ev (nv_ip t) cell (layerCount t) (nv_localWire t) (nv_globalWire t) MT_data cap blk assoc pg d = Inr b"
        "invalid b \<or> \<not> keep b \<or> capacity_ok d cap b"
        using ev[OF i False] t f by (auto simp: same_context_def)
      from consider_design_total[where ev = ev and s = t and cell = cell and keep = keep, OF this]
      show ?thesis using a False by (simp add: data_design_def)
    qed
    thus "\<exists>t'. Some (data_design ev cell pg cap blk assoc keep fin d t) = Some (Inr t') \<and> same_context s1 t'"
      using data_design_effect[OF _ assms(3)] same_context_trans[OF t] by fastforce
  qed
  thus ?thesis using f assms(1,2) by (auto simp: data_search_def BIGFOR_points)
qed

section \<open>Wire refinement\<close>

definition legal_wire :: "wire \<Rightarrow> bool" where
  "legal_wire w \<longleftrightarrow> wireRepeaterType w = repeater_num repeated_none \<or> \<not> isLowSwing w"

definition legal_result :: "'x result \<Rightarrow> bool" where
  "legal_result r \<longleftrightarrow> legal_wire (r_localWire r) \<and> legal_wire (r_globalWire r)"

lemma Wire_Initialize_legal: "Wire_Initialize ip t rep low = Inr w \<Longrightarrow> legal_wire w"
  by (auto simp: Wire_Initialize_def legal_wire_def split: if_splits)

lemma Wire_Initialize_of_legal:
  "legal_wire w \<Longrightarrow> \<exists>w'. Wire_Initialize ip (wireType w) (wireRepeaterType w) (isLowSwing w) = Inr w'"
  by (auto simp: Wire_Initialize_def legal_wire_def)

text \<open>What a refinement keeps: the goals of all results, legal wires, and costs that never grow
  compared with the results \<open>rs\<close> it started from.\<close>

definition refined :: "MemoryType \<Rightarrow> 'x result list \<Rightarrow> 'x nv \<Rightarrow> bool" where
  "refined mt rs s \<longleftrightarrow>
     length (get_best mt s) = length rs \<and>
     (\<forall>i < length rs. same_goal (rs ! i) (get_best mt s ! i) \<and> legal_result (get_best mt s ! i) \<and>
        cost (target (rs ! i)) (get_best mt s ! i) \<le> cost (target (rs ! i)) (rs ! i))"

definition legal_state :: "'x nv \<Rightarrow> bool" where
  "legal_state s \<longleftrightarrow> legal_wire (nv_localWire s) \<and> legal_wire (nv_globalWire s)"

lemma get_set_best [simp]: "get_best mt (set_best mt rs s) = rs"
  by (simp add: get_best_def set_best_def)

lemma best_frames [simp]:
  "get_best mt (s\<lparr>nv_temp := x\<rparr>) = get_best mt s" "get_best mt (s\<lparr>nv_localWire := w\<rparr>) = get_best mt s"
  "get_best mt (s\<lparr>nv_globalWire := w\<rparr>) = get_best mt s"
  "nv_localWire (set_best mt rs s) = nv_localWire s" "nv_globalWire (set_best mt rs s) = nv_globalWire s"
  "nv_ip (set_best mt rs s) = nv_ip s" "layerCount (set_best mt rs s) = layerCount s"
  "numSolution (set_best mt rs s) = numSolution s"
  by (simp_all add: get_best_def set_best_def)

lemma TRY_AND_UPDATE_refined:
  assumes "TRY_AND_UPDATE ev cell mt i s = Inr s'" "refined mt rs s" "legal_state s" "i < length rs"
  shows "refined mt rs s' \<and> legal_state s' \<and> nv_ip s' = nv_ip s"
proof -
  let ?r = "get_best mt s ! i"
  from assms(1) obtain tb where s': "s' = (set_best mt ((get_best mt s)[i := updated ?r
      (candidate cell tb (nv_localWire s) (nv_globalWire s))]) s)
      \<lparr>nv_temp := candidate cell tb (nv_localWire s) (nv_globalWire s)\<rparr>"
    by (auto simp: TRY_AND_UPDATE_def Let_def bindR_Inr_iff)
  let ?c = "candidate cell tb (nv_localWire s) (nv_globalWire s)"
  have c: "legal_result ?c"
    using assms(3) by (simp add: candidate_def Result_new_def legal_result_def legal_state_def)
  have r: "same_goal (rs ! i) ?r" "legal_result ?r" "cost (target (rs ! i)) ?r \<le> cost (target (rs ! i)) (rs ! i)"
    using assms(2,4) by (simp_all add: refined_def)
  have t: "target ?r = target (rs ! i)" using r(1) by (simp add: same_goal_def)
  have "cost (target (rs ! i)) (updated ?r ?c) \<le> cost (target (rs ! i)) (rs ! i)"
    using scan.run_monotone[of ?r "[?c]"] r(3) by (simp add: t)
  moreover have "legal_result (updated ?r ?c)"
    using c r(2) by (auto simp: updated_cases legal_result_def)
  moreover have "same_goal (rs ! i) (updated ?r ?c)" using r(1) same_goal_trans updated_goal by blast
  moreover have "i < length (get_best mt s)" using assms(2,4) by (simp add: refined_def)
  ultimately show ?thesis
    using assms(2,3) unfolding s' by (auto simp: refined_def legal_state_def nth_list_update)
qed

definition quiet_step :: "MemoryType \<Rightarrow> ('x nv \<Rightarrow> 'x nv) \<Rightarrow> bool" where
  "quiet_step mt fin \<longleftrightarrow> (\<forall>s. get_best mt (fin s) = get_best mt s \<and> nv_ip (fin s) = nv_ip s \<and>
     nv_localWire (fin s) = nv_localWire s \<and> nv_globalWire (fin s) = nv_globalWire s)"

lemma quiet_steps: "quiet_step mt id" "quiet_step mt (\<lambda>s. full_output (nv_temp s) s)"
  by (auto simp: quiet_step_def full_output_def OUTPUT_TO_FILE_def get_best_def)

abbreviation total_evaluator :: "'x evaluator \<Rightarrow> bool" where
  "total_evaluator ev \<equiv> \<forall>ip cell l lw gw mt cap blk assoc pg d. \<exists>b. ev ip cell l lw gw mt cap blk assoc pg d = Inr b"

abbreviation refining :: "MemoryType \<Rightarrow> 'x result list \<Rightarrow> input_parameter \<Rightarrow> 'x nv \<Rightarrow> bool" where
  "refining mt rs ip s \<equiv> refined mt rs s \<and> legal_state s \<and> nv_ip s = ip"

lemma TRY_AND_UPDATE_total:
  assumes "total_evaluator ev" "refining mt rs ip s" "i < length rs"
  shows "\<exists>s'. TRY_AND_UPDATE ev cell mt i s = Inr s' \<and> refining mt rs ip s'"
proof -
  let ?b = "r_bank (get_best mt s ! i)"
  obtain tb where "ev (nv_ip s) cell (layerCount s) (nv_localWire s) (nv_globalWire s) mt (b_capacity ?b)
      (blockSize ?b) (b_associativity ?b) (b_partitionGranularity ?b) (design_of ?b) = Inr tb"
    using assms(1) by blast
  then obtain s' where s': "TRY_AND_UPDATE ev cell mt i s = Inr s'"
    by (simp add: TRY_AND_UPDATE_def Let_def)
  thus ?thesis using TRY_AND_UPDATE_refined[OF s'] assms(2,3) by auto
qed

lemma load_and_try_total:
  assumes "total_evaluator ev" "refining mt rs ip s" "i < length rs"
  shows "\<exists>s'. bindR (LOAD_GLOBAL_WIRE (get_best mt s ! i) s) (TRY_AND_UPDATE ev cell mt i) = Inr s' \<and>
              refining mt rs ip s'"
    and "\<exists>s'. bindR (LOAD_LOCAL_WIRE (get_best mt s ! i) s) (TRY_AND_UPDATE ev cell mt i) = Inr s' \<and>
              refining mt rs ip s'"
proof -
  let ?r = "get_best mt s ! i"
  have legal: "legal_wire (r_localWire ?r)" "legal_wire (r_globalWire ?r)"
    using assms(2,3) by (simp_all add: refined_def legal_result_def)
  obtain g where g: "Wire_Initialize (nv_ip s) (wireType (r_globalWire ?r)) (wireRepeaterType (r_globalWire ?r))
      (isLowSwing (r_globalWire ?r)) = Inr g" using Wire_Initialize_of_legal[OF legal(2)] by blast
  have "refining mt rs ip (s\<lparr>nv_globalWire := g\<rparr>)"
    using assms(2) Wire_Initialize_legal[OF g] by (auto simp: refined_def legal_state_def)
  from TRY_AND_UPDATE_total[OF assms(1) this assms(3)] g
  show "\<exists>s'. bindR (LOAD_GLOBAL_WIRE ?r s) (TRY_AND_UPDATE ev cell mt i) = Inr s' \<and> refining mt rs ip s'"
    by (simp add: LOAD_GLOBAL_WIRE_def)
  obtain l where l: "Wire_Initialize (nv_ip s) (wireType (r_localWire ?r)) (wireRepeaterType (r_localWire ?r))
      (isLowSwing (r_localWire ?r)) = Inr l" using Wire_Initialize_of_legal[OF legal(1)] by blast
  have "refining mt rs ip (s\<lparr>nv_localWire := l\<rparr>)"
    using assms(2) Wire_Initialize_legal[OF l] by (auto simp: refined_def legal_state_def)
  from TRY_AND_UPDATE_total[OF assms(1) this assms(3)] l
  show "\<exists>s'. bindR (LOAD_LOCAL_WIRE ?r s) (TRY_AND_UPDATE ev cell mt i) = Inr s' \<and> refining mt rs ip s'"
    by (simp add: LOAD_LOCAL_WIRE_def)
qed

lemma refine_steps_total:
  assumes ev: "total_evaluator ev" and "refining mt rs ip s" "length rs = 10" "quiet_step mt fin"
    and legal: "rep = repeater_num repeated_none \<or> low = 0"
  shows "\<exists>s'. refine_local ev cell mt fin t rep low s = Inr s' \<and> refining mt rs ip s'"
    and "\<exists>s'. refine_global ev cell mt fin t rep low s = Inr s' \<and> refining mt rs ip s'"
proof -
  obtain w where w: "Wire_Initialize (nv_ip s) t rep (low \<noteq> 0) = Inr w"
    using legal by (auto simp: Wire_Initialize_def)
  note wl = Wire_Initialize_legal[OF w]
  have fin: "refining mt rs ip x \<Longrightarrow> refining mt rs ip (fin x)" for x
    using assms(4) by (simp add: quiet_step_def refined_def legal_state_def)
  have "refining mt rs ip (s\<lparr>nv_localWire := w\<rparr>)"
    using assms(2) wl by (auto simp: refined_def legal_state_def)
  from foldR_total[where P = "refining mt rs ip", OF this, of "[0..<10]"
      "\<lambda>i s. bindR (LOAD_GLOBAL_WIRE (get_best mt s ! i) s) (TRY_AND_UPDATE ev cell mt i)"]
  show "\<exists>s'. refine_local ev cell mt fin t rep low s = Inr s' \<and> refining mt rs ip s'"
    using load_and_try_total(1)[OF ev] assms(3) w fin by (auto simp: refine_local_def)
  have "refining mt rs ip (s\<lparr>nv_globalWire := w\<rparr>)"
    using assms(2) wl by (auto simp: refined_def legal_state_def)
  from foldR_total[where P = "refining mt rs ip", OF this, of "[0..<10]"
      "\<lambda>i s. bindR (LOAD_LOCAL_WIRE (get_best mt s ! i) s) (TRY_AND_UPDATE ev cell mt i)"]
  show "\<exists>s'. refine_global ev cell mt fin t rep low s = Inr s' \<and> refining mt rs ip s'"
    using load_and_try_total(2)[OF ev] assms(3) w fin by (auto simp: refine_global_def)
qed

lemma legal_wires_legal: "(t, rep, low) \<in> set (legal_wires ts reps lows) \<Longrightarrow> rep = repeater_num repeated_none \<or> low = 0"
  by (auto simp: legal_wires_def)

lemma refine_loop_total:
  assumes "P s"
    and body: "\<And>t rep low s. rep = repeater_num repeated_none \<or> low = 0 \<Longrightarrow> P s \<Longrightarrow>
      \<exists>s'. body t rep low s = Inr s' \<and> P s'"
  shows "\<exists>s'. refine_loop ts reps lows body s = Some (Inr s') \<and> P s'"
  unfolding refine_loop_list
proof (rule foldO_total)
  fix x s assume x: "x \<in> set (legal_wires ts reps lows)" and "P s"
  obtain t rep low where t: "x = (t, rep, low)" by (cases x)
  have "rep = repeater_num repeated_none \<or> low = 0" using x unfolding t by (rule legal_wires_legal)
  from body[OF this \<open>P s\<close>] show "\<exists>s'. (case x of (t, rep, low) \<Rightarrow> \<lambda>s. Some (body t rep low s)) s = Some (Inr s') \<and> P s'"
    by (simp add: t)
qed (rule assms(1))

lemma refine_total:
  assumes "total_evaluator ev" "refining mt rs ip s" "length rs = 10" "quiet_step mt fin"
  shows "\<exists>s'. refine ev cell mt fin s = Some (Inr s') \<and> refining mt rs ip s'"
proof (cases "numSolution s > 0")
  case True
  have "\<exists>s1. REFINE_LOCAL_WIRE ip (refine_local ev cell mt fin) s = Some (Inr s1) \<and> refining mt rs ip s1"
    unfolding REFINE_LOCAL_WIRE_def
    by (rule refine_loop_total, rule assms(2)) (rule refine_steps_total(1)[OF assms(1) _ assms(3,4)])
  then obtain s1 where s1: "REFINE_LOCAL_WIRE ip (refine_local ev cell mt fin) s = Some (Inr s1)"
    "refining mt rs ip s1" by blast
  have "\<exists>s2. REFINE_GLOBAL_WIRE ip (refine_global ev cell mt fin) s1 = Some (Inr s2) \<and> refining mt rs ip s2"
    unfolding REFINE_GLOBAL_WIRE_def
    by (rule refine_loop_total, rule s1(2)) (rule refine_steps_total(2)[OF assms(1) _ assms(3,4)])
  thus ?thesis using True s1 assms(2) by (simp add: refine_def)
next
  case False
  thus ?thesis using assms(2) by (simp add: refine_def)
qed

text \<open>
  C18. The wire refinement of the tag or the data array always returns and never makes a result
  worse: if every evaluation returns and the wires of the state and of the ten results are not
  both repeated and low-swing, then the two loops end without the low-swing error exit, keep
  target and limits of every result, keep its wires legal, and no result costs more than before.
\<close>
theorem refine_returns_and_improves:
  assumes "total_evaluator ev" "legal_state s" "length (get_best mt s) = 10"
    and "\<forall>r \<in> set (get_best mt s). legal_result r" "quiet_step mt fin"
  shows "\<exists>s'. refine ev cell mt fin s = Some (Inr s') \<and> nv_ip s' = nv_ip s \<and>
    (\<forall>i < 10. same_goal (get_best mt s ! i) (get_best mt s' ! i) \<and> legal_result (get_best mt s' ! i) \<and>
       cost (target (get_best mt s ! i)) (get_best mt s' ! i) \<le> cost (target (get_best mt s ! i)) (get_best mt s ! i))"
proof -
  have "refining mt (get_best mt s) (nv_ip s) s" using assms(2-4) by (simp add: refined_def)
  from refine_total[OF assms(1) this assms(3,5), of cell] show ?thesis
    by (auto simp: refined_def assms(3))
qed

section \<open>A small exploration\<close>

definition demo_ip :: "input_parameter \<Rightarrow> input_parameter" where
  "demo_ip m = (REDUCE_SEARCH_SIZE (InputParameter_new m))\<lparr>
     maxNumRowSubArray := 1, maxNumColumnSubArray := 1, maxStackLayer := 1,
     maxNumActiveSubArrayPerRow := 1, maxNumActiveSubArrayPerColumn := 1,
     maxNumRowMat := 1, maxNumColumnMat := 1, maxNumActiveMatPerRow := 1, maxNumActiveMatPerColumn := 1,
     maxMuxSenseAmp := 1, maxMuxOutputLev1 := 1, maxMuxOutputLev2 := 1, maxNumRowPerSet := 1,
     maxAreaOptimizationLevel := 0, designTarget := RAM_chip\<rparr>"

definition demo_nv :: "input_parameter \<Rightarrow> unit nv" where
  "demo_nv m = \<lparr>nv_ip = demo_ip m, tagBest = [], dataBest = init_best demo_cell (replicate 10 demo_start),
     numSolution = 0, numDesigns = 0, layerCount = 2, nv_localWire = demo_wire, nv_globalWire = demo_wire,
     nv_temp = demo_start, csv = []\<rparr>"

definition demo_ev :: "unit evaluator" where
  "demo_ev ip cell l lw gw mt cap blk assoc pg d = Inr (demo_bank 1)"

lemma demo_ip_pos: "bounds_pos (demo_ip m)"
  by (simp add: bounds_pos_def demo_ip_def REDUCE_SEARCH_SIZE_def InputParameter_new_def)

lemma demo_ip_sizes:
  "processNode (demo_ip m) = 90" "optimizationTarget (demo_ip m) = read_latency_optimized"
  "minIsLocalWireLowSwing (demo_ip m) = 0" "maxIsLocalWireLowSwing (demo_ip m) = 1"
  "minIsGlobalWireLowSwing (demo_ip m) = 0" "maxIsGlobalWireLowSwing (demo_ip m) = 1"
  "minLocalWireRepeaterType (demo_ip m) = 0" "maxLocalWireRepeaterType (demo_ip m) = 1"
  "minGlobalWireRepeaterType (demo_ip m) = 0" "maxGlobalWireRepeaterType (demo_ip m) = 1"
  "maxStackLayer (demo_ip m) = 1" "minStackLayer (demo_ip m) = 1"
  by (simp_all add: demo_ip_def REDUCE_SEARCH_SIZE_def InputParameter_new_def)

lemma demo_nv_sel [simp]:
  "nv_ip (demo_nv m) = demo_ip m" "numSolution (demo_nv m) = 0" "layerCount (demo_nv m) = 2"
  "nv_localWire (demo_nv m) = demo_wire" "nv_globalWire (demo_nv m) = demo_wire"
  "dataBest (demo_nv m) = init_best demo_cell (replicate 10 demo_start)"
  by (simp_all add: demo_nv_def)

lemma demo_basic_wire: "\<exists>s1. INITIAL_BASIC_WIRE (demo_nv m) = Inr s1"
  by (simp add: INITIAL_BASIC_WIRE_def demo_ip_sizes basic_def Wire_Initialize_def Let_def)

lemma length_all_targets [simp]: "length all_targets = 10"
  by (simp add: all_targets_def)

lemma length_init_best [simp]: "length (init_best c rs) = min (length rs) 10"
  by (simp add: init_best_def)

lemma init_best_nth:
  "i < length rs \<Longrightarrow> i < 10 \<Longrightarrow> init_best c rs ! i = (rs ! i)\<lparr>target := all_targets ! i, cellTech := Some c\<rparr>"
  by (simp add: init_best_def)

lemma demo_best: "i < 10 \<Longrightarrow> dataBest (demo_nv m) ! i = demo_start\<lparr>target := all_targets ! i, cellTech := Some demo_cell\<rparr>"
  using init_best_nth[of i "replicate 10 demo_start" demo_cell] by (simp only: demo_nv_sel length_replicate nth_replicate)

lemma demo_capacity: "in_space (demo_ip m) d \<Longrightarrow> capacity_ok d 64 (demo_bank 1)"
proof -
  assume "in_space (demo_ip m) d"
  hence "doubles 1 1 (d_stackedDieCount d)" by (simp add: in_space_def demo_ip_sizes)
  hence "d_stackedDieCount d = 1" using doubles_pos[of 1 1 "d_stackedDieCount d"] by (simp add: doubles_def)
  thus ?thesis by (simp add: capacity_ok_def demo_bank_def demo_mat_def)
qed

lemma demo_search: "\<exists>s'. data_search demo_ev demo_cell 0 64 8 1 (\<lambda>_. True) full_output (demo_nv m) = Some (Inr s')"
proof -
  obtain s1 where s1: "INITIAL_BASIC_WIRE (demo_nv m) = Inr s1" using demo_basic_wire by blast
  have pos: "bounds_pos (nv_ip (demo_nv m))" by (simp only: demo_nv_sel demo_ip_pos)
  show ?thesis
  proof (rule data_search_total[OF pos s1 quiet_outputs(1)])
    fix d assume "in_space (nv_ip (demo_nv m)) d"
    hence "capacity_ok d 64 (demo_bank 1)" using demo_capacity by (simp only: demo_nv_sel)
    thus "\<exists>b. demo_ev (nv_ip (demo_nv m)) demo_cell (layerCount (demo_nv m)) (nv_localWire s1) (nv_globalWire s1)
        MT_data 64 8 1 0 d = Inr b \<and> (invalid b \<or> \<not> True \<or> capacity_ok d 64 b)"
      by (simp add: demo_ev_def)
  qed
qed

lemma demo_candidate_bandwidth:
  "getReadBandwidth (candidate demo_cell (demo_bank 1) lw gw) = 1 / 2"
  "getWriteBandwidth (candidate demo_cell (demo_bank 1) lw gw) = 1 / 2"
  using demo_bandwidth[of 1]
    bandwidth_candidate[of "candidate demo_cell (demo_bank 1) lw gw" "demo_result 1"]
  by (simp_all add: candidate_def demo_result_def Result_new_def)

lemma demo_candidate_within:
  "same_goal (demo_start\<lparr>target := t\<rparr>) r \<Longrightarrow> within_limits r (candidate demo_cell (demo_bank 1) lw gw)"
  by (simp add: within_limits_def demo_candidate_bandwidth same_goal_def Let_def)
     (simp add: candidate_def demo_defs Result_new_def invalid_value_def invalid_value_min_def)

abbreviation demo_design :: design where
  "demo_design \<equiv> Design 1 1 1 1 1 1 1 1 1 1 1 1 1 0"

lemma doubles_self: "x \<le> hi \<Longrightarrow> doubles x hi x"
  by (auto simp: doubles_def intro: exI[of _ 0])

lemma demo_design_in: "in_space (demo_ip m) demo_design"
  by (simp add: in_space_def demo_ip_def REDUCE_SEARCH_SIZE_def InputParameter_new_def doubles_self)

lemma demo_cost: "cost read_latency_optimized (candidate demo_cell (demo_bank l) lw gw) = l"
  by (simp add: cost_def candidate_def demo_bank_def)

lemma demo_goal: "same_goal (demo_start\<lparr>target := t\<rparr>) (demo_start\<lparr>target := t, cellTech := c\<rparr>)"
  by (simp add: same_goal_def)

theorem data_search_optimal_witness:
  "\<forall>m. \<exists>s'. data_search demo_ev demo_cell 0 64 8 1 (\<lambda>_. True) full_output (demo_nv m) = Some (Inr s') \<and>
     cost read_latency_optimized (dataBest s' ! 0) \<le> 1"
proof
  fix m
  obtain s' where s': "data_search demo_ev demo_cell 0 64 8 1 (\<lambda>_. True) full_output (demo_nv m) = Some (Inr s')"
    using demo_search by blast
  have pos: "bounds_pos (nv_ip (demo_nv m))" by (simp only: demo_nv_sel demo_ip_pos)
  have len: "0 < length (dataBest (demo_nv m))" by (simp add: demo_nv_def)
  have r: "dataBest (demo_nv m) ! 0 = demo_start\<lparr>target := read_latency_optimized, cellTech := Some demo_cell\<rparr>"
    using demo_best[of 0 m] by (simp only: all_targets_def) simp
  have t: "target (dataBest (demo_nv m) ! 0) = read_latency_optimized" unfolding r by simp
  let ?new = "candidate demo_cell (demo_bank 1) (nv_localWire s') (nv_globalWire s')"
  have "within_limits (dataBest (demo_nv m) ! 0) ?new"
    unfolding r by (rule demo_candidate_within[OF demo_goal])
  moreover have "in_space (nv_ip (demo_nv m)) demo_design" by (simp only: demo_nv_sel demo_design_in)
  moreover have "c_div 8 (active_product demo_design) \<noteq> 0" by (simp add: active_product_def)
  moreover have "\<not> invalid (demo_bank 1)" by (simp add: demo_bank_def)
  ultimately have "cost read_latency_optimized (dataBest s' ! 0) \<le> cost read_latency_optimized ?new"
    using data_search_optimal[OF s' pos len, unfolded t demo_ev_def] by blast
  thus "\<exists>s'. data_search demo_ev demo_cell 0 64 8 1 (\<lambda>_. True) full_output (demo_nv m) = Some (Inr s') \<and>
     cost read_latency_optimized (dataBest s' ! 0) \<le> 1" using s' by (auto simp: demo_cost)
qed

theorem refine_returns_and_improves_witness:
  "\<forall>m. total_evaluator demo_ev \<and> legal_state (demo_nv m) \<and>
     (\<exists>s'. refine demo_ev demo_cell MT_data id (demo_nv m) = Some (Inr s') \<and> nv_ip s' = demo_ip m)"
proof (rule allI, intro conjI)
  fix m
  show t: "total_evaluator demo_ev" by (simp add: demo_ev_def)
  show l: "legal_state (demo_nv m)" by (simp add: legal_state_def legal_wire_def demo_wire_def)
  have b: "get_best MT_data (demo_nv m) = init_best demo_cell (replicate 10 demo_start)"
    by (simp only: get_best_def demo_nv_sel MemoryType.distinct if_False)
  have n: "length (get_best MT_data (demo_nv m)) = 10" unfolding b length_init_best by simp
  have "legal_result (init_best demo_cell (replicate 10 demo_start) ! i)" if "i < 10" for i
    using that init_best_nth[of i "replicate 10 demo_start" demo_cell]
    by (simp add: legal_result_def demo_start_def Result_new_def legal_wire_def demo_wire_def)
  hence "\<forall>r \<in> set (get_best MT_data (demo_nv m)). legal_result r"
    unfolding b all_set_conv_all_nth length_init_best by simp
  from refine_returns_and_improves[OF t l n this quiet_steps(1), of demo_cell]
  show "\<exists>s'. refine demo_ev demo_cell MT_data id (demo_nv m) = Some (Inr s') \<and> nv_ip s' = demo_ip m"
    by (auto simp only: demo_nv_sel)
qed

end
