(* ===== verification/Explore_Limits.thy ===== *)
theory Explore_Limits
  imports Explore_Props
begin

text \<open>
  The constrained search, the comparison of cell types, the checks before the search, the
  width of a tag, the technology weights, and two behaviours of the exploration that the
  sources do not intend: the layer count of the data search and invalid refined designs.
\<close>

section \<open>Constrained search\<close>

lemma APPLY_LIMIT_bank [simp]: "r_bank (APPLY_LIMIT a r) = worst_bank (r_bank r)"
  by (simp add: APPLY_LIMIT_def Result_reset_def)

text \<open>
  C16. The constrained search returns only valid designs within the constraints: afterwards
  each of the ten results either still holds the sentinel values of a reset result or is a
  valid design of the search space whose latencies, energies, energy-delay products, area and
  leakage are all at most the allowed multiples of the best unconstrained values.
\<close>
theorem constrained_results_allowed:
  assumes "constrained_search ev cell pg cap blk assoc s = Some (Inr s')"
    and "optimizationTarget (nv_ip s) \<noteq> full_exploration" "isConstraintApplied (nv_ip s)"
    and "bounds_pos (nv_ip s)" "i < length (dataBest s)"
  shows "r_bank (dataBest s' ! i) = worst_bank (r_bank (dataBest s ! i)) \<or>
    (\<not> invalid (r_bank (dataBest s' ! i)) \<and> allows (allowed_limits s) (r_bank (dataBest s' ! i)) \<and>
     (\<exists>d. in_space (nv_ip s) d \<and>
       ev (nv_ip s) cell (layerCount s) (nv_localWire s') (nv_globalWire s') MT_data cap blk assoc pg d
         = Inr (r_bank (dataBest s' ! i))))"
proof -
  let ?a = "allowed_limits s"
  let ?s0 = "s\<lparr>dataBest := map (APPLY_LIMIT ?a) (dataBest s), numSolution := 0\<rparr>"
  let ?cs = "concat (map (survivor ev cell pg cap blk assoc (allows ?a) s') (points (nv_ip s)))"
  have run: "data_search ev cell pg cap blk assoc (allows ?a) print_row ?s0 = Some (Inr s')"
    using assms(1-3) by (simp add: constrained_search_def Let_def)
  have pos: "bounds_pos (nv_ip ?s0)" using assms(4) by simp
  note e = data_search_effect[OF run quiet_outputs(2) pos, simplified]
  have best: "dataBest s' ! i = run_updates ?cs (APPLY_LIMIT ?a (dataBest s ! i))"
    using e assms(5) by simp
  from scan.run_origin[of ?cs "APPLY_LIMIT ?a (dataBest s ! i)"] show ?thesis
  proof
    assume "run_updates ?cs (APPLY_LIMIT ?a (dataBest s ! i)) = APPLY_LIMIT ?a (dataBest s ! i)"
    thus ?thesis using best by simp
  next
    assume "\<exists>x \<in> set ?cs. within_limits (APPLY_LIMIT ?a (dataBest s ! i)) x \<and>
      cost (target (APPLY_LIMIT ?a (dataBest s ! i))) x < cost (target (APPLY_LIMIT ?a (dataBest s ! i)))
        (APPLY_LIMIT ?a (dataBest s ! i)) \<and>
      same_candidate (run_updates ?cs (APPLY_LIMIT ?a (dataBest s ! i))) x"
    then obtain x where x: "x \<in> set ?cs" "r_bank (dataBest s' ! i) = r_bank x"
      unfolding best by (auto simp: same_candidate_def)
    then obtain d where d: "d \<in> set (points (nv_ip s))"
      "x \<in> set (survivor ev cell pg cap blk assoc (allows ?a) s' d)" by auto
    from d(2) obtain b where b: "ev (nv_ip s') cell (layerCount s') (nv_localWire s') (nv_globalWire s') MT_data cap blk assoc pg d = Inr b"
      "\<not> invalid b" "allows ?a b" "x = candidate cell b (nv_localWire s') (nv_globalWire s')"
      unfolding survivor_iff by blast
    have "r_bank (dataBest s' ! i) = b" using x(2) b(4) by (simp add: candidate_def)
    thus ?thesis using b d(1) points_iff[OF assms(4)] e by auto
  qed
qed

section \<open>Layer count\<close>

lemma foldO_cong_inv:
  assumes "P s" "\<And>x s. P s \<Longrightarrow> f x s = f' x s" "\<And>x s s'. P s \<Longrightarrow> f x s = Some (Inr s') \<Longrightarrow> P s'"
  shows "foldO f xs s = foldO f' xs s"
  using assms(1)
proof (induction xs arbitrary: s)
  case (Cons x xs)
  show ?case
  proof (cases "f x s")
    case None
    thus ?thesis using assms(2)[OF Cons.prems, of x] by simp
  next
    case (Some r)
    thus ?thesis using assms(2)[OF Cons.prems, of x] assms(3)[OF Cons.prems, of x] Cons.IH by (cases r) auto
  qed
qed simp

text \<open>
  The data search evaluates every design with the layer count that the technology happens
  to hold when the search starts, whatever number of stacked dies the design has: two
  evaluations that agree at this one layer count lead to the same search.  (Only the tag
  search sets the layer count of the technology to that of the design.)
\<close>
theorem data_search_single_layer_count:
  fixes s :: "'c nv"
  assumes "bounds_pos (nv_ip s)"
    and "\<And>ip lw gw d. ev ip cell (layerCount s) lw gw MT_data cap blk assoc pg d
                     = ev' ip cell (layerCount s) lw gw MT_data cap blk assoc pg d"
  shows "data_search ev cell pg cap blk assoc (\<lambda>_. True) full_output s =
         data_search ev' cell pg cap blk assoc (\<lambda>_. True) full_output s"
proof (cases "INITIAL_BASIC_WIRE s")
  case (Inl e)
  thus ?thesis by (simp add: data_search_def)
next
  case (Inr s1)
  note f = INITIAL_BASIC_WIRE_frame[OF Inr]
  have "foldO (\<lambda>d s. Some (data_design ev cell pg cap blk assoc (\<lambda>_. True) full_output d s)) (points (nv_ip s)) s1 =
        foldO (\<lambda>d s. Some (data_design ev' cell pg cap blk assoc (\<lambda>_. True) full_output d s)) (points (nv_ip s)) s1"
  proof (rule foldO_cong_inv[where P = "\<lambda>t. layerCount t = layerCount s"])
    show "layerCount s1 = layerCount s" using f by simp
    fix d and t t' :: "'c nv"
    assume t: "layerCount t = layerCount s"
    show "Some (data_design ev cell pg cap blk assoc (\<lambda>_. True) full_output d t) =
          Some (data_design ev' cell pg cap blk assoc (\<lambda>_. True) full_output d t)"
      by (simp add: data_design_def consider_design_def Let_def t assms(2))
    assume "Some (data_design ev cell pg cap blk assoc (\<lambda>_. True) full_output d t) = Some (Inr t')"
    thus "layerCount t' = layerCount s"
      using data_design_effect[OF _ quiet_outputs(1)] t by (fastforce simp: same_context_def)
  qed
  thus ?thesis using Inr f assms(1) by (simp add: data_search_def BIGFOR_points)
qed

section \<open>Invalid designs in the refinement\<close>

text \<open>
  The wire refinement does not look at the validity of the design it evaluates: an invalid
  bank that meets the limits and has a lower cost replaces the best result.
\<close>
theorem refinement_adopts_invalid:
  assumes "i < length (get_best mt s)"
  defines "r \<equiv> get_best mt s ! i"
  assumes "ev (nv_ip s) cell (layerCount s) (nv_localWire s) (nv_globalWire s) mt (b_capacity (r_bank r))
      (blockSize (r_bank r)) (b_associativity (r_bank r)) (b_partitionGranularity (r_bank r))
      (design_of (r_bank r)) = Inr b" "invalid b"
    and "within_limits r (candidate cell b (nv_localWire s) (nv_globalWire s))"
    and "cost (target r) (candidate cell b (nv_localWire s) (nv_globalWire s)) < cost (target r) r"
  shows "\<exists>s'. TRY_AND_UPDATE ev cell mt i s = Inr s' \<and> invalid (r_bank (get_best mt s' ! i))"
  using assms by (auto simp: TRY_AND_UPDATE_def Let_def updated_cases candidate_def)

section \<open>Comparison of cell types\<close>

text \<open>The results of one cell type carry this cell type.\<close>

definition of_cell :: "'x mem_cell_scheme \<Rightarrow> 'x result \<Rightarrow> bool" where
  "of_cell cell r \<longleftrightarrow> cellTech r = Some cell"

lemma merge_target_data:
  "of_cell cell (fst new) \<Longrightarrow> fst (merge_target dt cell old new) = updated (fst old) (fst new)"
  by (auto simp: merge_target_def Let_def of_cell_def compareAndUpdate_iff updated_cases)

lemma merge_target_same_cell:
  assumes "of_cell cell (fst new)" "cellTech (fst old) = cellTech (snd old)"
  shows "cellTech (updated (fst old) (fst new)) = cellTech (snd (merge_target False cell old new))"
  using assms by (simp add: merge_target_def Let_def adopt_def of_cell_def compareAndUpdate_iff updated_cases)

lemma run_updates_goal: "same_goal r (run_updates xs r)"
  by (induction xs arbitrary: r) (auto intro: same_goal_trans[OF updated_goal])

lemma merge_cells_nth:
  assumes "\<forall>(cell, news) \<in> set others. length news = length best0" "j < length best0"
  shows "length (merge_cells dt others best0) = length best0 \<and>
    merge_cells dt others best0 ! j = fold (\<lambda>(cell, news) b. merge_target dt cell b (news ! j)) others (best0 ! j)"
  using assms
proof (induction others arbitrary: best0)
  case (Cons x others)
  obtain cell news where x: "x = (cell, news)" by (cases x)
  show ?case using Cons.IH[of "map2 (merge_target dt cell) best0 news"] Cons.prems
    by (auto simp: merge_cells_def x)
qed (simp add: merge_cells_def)

lemma fold_merge:
  assumes "\<forall>(cell, news) \<in> set others. of_cell cell (fst (news ! j))" "cellTech (fst b) = cellTech (snd b)"
  shows "fst (fold (\<lambda>(cell, news) b. merge_target False cell b (news ! j)) others b) =
      run_updates (map (\<lambda>(cell, news). fst (news ! j)) others) (fst b) \<and>
    (let r = fold (\<lambda>(cell, news) b. merge_target False cell b (news ! j)) others b
     in cellTech (fst r) = cellTech (snd r))"
  using assms
proof (induction others arbitrary: b)
  case (Cons x others)
  obtain cell news where x: "x = (cell, news)" by (cases x)
  show ?case using Cons.IH[of "merge_target False cell b (news ! j)"] Cons.prems
    by (simp add: x merge_target_data merge_target_same_cell)
qed simp

text \<open>
  The comparison of the cell types keeps the best: when the tag array must use the cell
  type of the data array and every result carries its own cell type, the merged data result of
  each optimisation target costs at most as much as the first cell type's and as that of every
  other cell type within the limits, and the tag result next to it is of the same cell type.
\<close>
theorem merge_cells_best:
  assumes "\<forall>(cell, news) \<in> set others. length news = length best0 \<and> (\<forall>(d, t) \<in> set news. of_cell cell d)"
    and "\<forall>(d, t) \<in> set best0. cellTech d = cellTech t" "j < length best0"
  shows "let r = merge_cells False others best0 ! j; d0 = fst (best0 ! j) in
    same_goal d0 (fst r) \<and> cellTech (fst r) = cellTech (snd r) \<and>
    cost (target d0) (fst r) \<le> cost (target d0) d0 \<and>
    (\<forall>(cell, news) \<in> set others. within_limits d0 (fst (news ! j)) \<longrightarrow>
       cost (target d0) (fst r) \<le> cost (target d0) (fst (news ! j)))"
proof -
  have n: "merge_cells False others best0 ! j = fold (\<lambda>(cell, news) b. merge_target False cell b (news ! j)) others (best0 ! j)"
    using merge_cells_nth[of others best0 j False] assms(1,3) by auto
  have cells: "\<forall>(cell, news) \<in> set others. of_cell cell (fst (news ! j))"
    using assms(1,3) by (fastforce dest: nth_mem simp: split_beta)
  have same: "cellTech (fst (best0 ! j)) = cellTech (snd (best0 ! j))"
    using assms(2,3) by (auto dest: nth_mem simp: split_beta)
  note f = fold_merge[OF cells same]
  show ?thesis
    unfolding n Let_def using f
    by (auto simp: Let_def run_updates_goal scan.run_monotone intro!: scan.run_optimal)
qed

section \<open>Checks before the search\<close>

text \<open>
  The checks before the search are complete and change nothing twice: a configuration that
  passes \<open>applyConstraint\<close> is for no CAM and no multi-level NAND cell, is direct-mapped unless it
  is a cache, uses an H-tree only with internal sensing, differs from the input at most in the
  associativity, and passes the checks again unchanged.  The checks reject exactly the three
  unsupported combinations.
\<close>
theorem applyConstraint_sound:
  "case applyConstraint cell ip of
     Inl e \<Rightarrow> designTarget ip = CAM_chip \<or> memCellType cell = MLCNAND \<or>
             (routingMode ip = h_tree \<and> \<not> internalSensing ip)
   | Inr ip' \<Rightarrow> designTarget ip' \<noteq> CAM_chip \<and> memCellType cell \<noteq> MLCNAND \<and>
              (designTarget ip' = cache \<or> associativity ip' \<le> 1) \<and>
              (routingMode ip' = h_tree \<longrightarrow> internalSensing ip') \<and>
              ip' = ip\<lparr>associativity := associativity ip'\<rparr> \<and> applyConstraint cell ip' = Inr ip'"
  by (cases "designTarget ip \<noteq> cache \<and> associativity ip > 1") (auto simp: applyConstraint_def Let_def)

section \<open>Width of a tag\<close>

lemma round_up_bounds:
  assumes "0 < act" "0 \<le> blk"
  shows "act dvd round_up blk act" "blk \<le> round_up blk act" "round_up blk act < blk + act"
proof -
  have eq: "(blk div act + 1) * act = blk - blk mod act + act" by (simp add: minus_mod_eq_mult_div algebra_simps)
  have m: "0 \<le> blk mod act" "blk mod act < act" using assms(1) by simp_all
  have c: "round_up blk act = (if blk mod act \<noteq> 0 then (blk div act + 1) * act else blk)"
    using assms by (cases "blk = 0") (auto simp: round_up_def c_div_def c_rem_def)
  show "act dvd round_up blk act" unfolding c by auto
  show "blk \<le> round_up blk act" "round_up blk act < blk + act"
    unfolding c eq using m by simp_all
qed

text \<open>
  Every tag array that the search evaluates holds whole tags: the evaluated block size is
  the least multiple of the number of active subarrays that holds the tag and its two status
  bits, and the evaluated capacity is one such block per way of every set.  Two evaluations
  that agree on designs of this shape give the same step.
\<close>
theorem tag_design_shape:
  fixes s :: "'c nv" and d :: design and idx off :: int
  defines "act \<equiv> active_product d" and "tag \<equiv> TOTAL_ADDRESS_BIT - idx - off + 2"
  assumes "0 < active_product d" "0 \<le> TOTAL_ADDRESS_BIT - idx - off + 2"
    and agree: "\<And>blk lw gw. act dvd blk \<Longrightarrow> tag \<le> blk \<Longrightarrow> blk < tag + act \<Longrightarrow>
      ev (nv_ip s) cell (d_stackedDieCount d) lw gw MT_tag (c_div (capacity (nv_ip s) * 8) (wordWidth (nv_ip s)) * blk)
        blk (associativity (nv_ip s)) pg d =
      ev' (nv_ip s) cell (d_stackedDieCount d) lw gw MT_tag (c_div (capacity (nv_ip s) * 8) (wordWidth (nv_ip s)) * blk)
        blk (associativity (nv_ip s)) pg d"
  shows "tag_design ev cell pg idx off d s = tag_design ev' cell pg idx off d s"
  using agree[OF round_up_bounds[of act tag]] assms(3,4)
  unfolding act_def tag_def by (simp add: tag_design_def consider_design_def Let_def)

section \<open>Technology weights\<close>

text \<open>
  The weight with which two technology nodes are interpolated lies between 0 and 1 for
  every supported feature size of at most 120 nm and the feature size is at most the upper
  node; between 181 and 200 nm the weight exceeds 1, so that the code extrapolates past the
  200 nm node.
\<close>
theorem interpolation_weight:
  "(1 \<le> node \<and> node \<le> 120 \<longrightarrow>
      (case interpolation node of None \<Rightarrow> False | Some (hi, w) \<Rightarrow> 0 \<le> w \<and> w \<le> 1 \<and> node \<le> hi)) \<and>
   (180 < node \<and> node \<le> 200 \<longrightarrow>
      (case interpolation node of None \<Rightarrow> False | Some (hi, w) \<Rightarrow> hi = 200 \<and> 1 < w))"
  by (simp add: interpolation_def Let_def)

theorem interpolation_weight_witness:
  "case interpolation 200 of None \<Rightarrow> False | Some (hi, w) \<Rightarrow> hi = 200 \<and> 1 < w"
  using interpolation_weight[of 200] by simp

section \<open>Concrete instances\<close>

text \<open>An evaluation that differs from \<open>demo_ev\<close> at other layer counts and other block sizes.\<close>

definition demo_ev2 :: "unit evaluator" where
  "demo_ev2 ip cell l lw gw mt cap blk assoc pg d =
     Inr (demo_bank (if l = 2 \<and> mt = MT_data \<or> mt = MT_tag \<and> blk \<le> 100 then 1 else 3))"

theorem data_search_single_layer_count_witness:
  "\<forall>m. data_search demo_ev demo_cell 0 64 8 1 (\<lambda>_. True) full_output (demo_nv m) =
       data_search demo_ev2 demo_cell 0 64 8 1 (\<lambda>_. True) full_output (demo_nv m)"
proof
  fix m
  have pos: "bounds_pos (nv_ip (demo_nv m))" by (simp only: demo_nv_sel demo_ip_pos)
  show "data_search demo_ev demo_cell 0 64 8 1 (\<lambda>_. True) full_output (demo_nv m) =
        data_search demo_ev2 demo_cell 0 64 8 1 (\<lambda>_. True) full_output (demo_nv m)"
    by (rule data_search_single_layer_count[OF pos]) (simp only: demo_ev_def demo_ev2_def demo_nv_sel, simp)
qed

theorem tag_design_shape_witness:
  "\<forall>m. tag_design demo_ev demo_cell 0 10 6 demo_design (demo_nv m) =
       tag_design demo_ev2 demo_cell 0 10 6 demo_design (demo_nv m)"
proof
  fix m
  show "tag_design demo_ev demo_cell 0 10 6 demo_design (demo_nv m) =
        tag_design demo_ev2 demo_cell 0 10 6 demo_design (demo_nv m)"
  proof (rule tag_design_shape)
    show "0 < active_product demo_design" by (simp add: active_product_def)
    show "0 \<le> TOTAL_ADDRESS_BIT - 10 - 6 + 2" by (simp add: TOTAL_ADDRESS_BIT_def)
    fix blk :: int and lw gw
    assume "blk < TOTAL_ADDRESS_BIT - 10 - 6 + 2 + active_product demo_design"
    hence "blk \<le> 100" by (simp add: TOTAL_ADDRESS_BIT_def active_product_def)
    thus "demo_ev (nv_ip (demo_nv m)) demo_cell (d_stackedDieCount demo_design) lw gw MT_tag
        (c_div (capacity (nv_ip (demo_nv m)) * 8) (wordWidth (nv_ip (demo_nv m))) * blk) blk
        (associativity (nv_ip (demo_nv m))) 0 demo_design =
      demo_ev2 (nv_ip (demo_nv m)) demo_cell (d_stackedDieCount demo_design) lw gw MT_tag
        (c_div (capacity (nv_ip (demo_nv m)) * 8) (wordWidth (nv_ip (demo_nv m))) * blk) blk
        (associativity (nv_ip (demo_nv m))) 0 demo_design"
      by (simp only: demo_ev_def demo_ev2_def) simp
  qed
qed

text \<open>An evaluation whose banks miss their retention time.\<close>

definition demo_bad_ev :: "unit evaluator" where
  "demo_bad_ev ip cell l lw gw mt cap blk assoc pg d = Inr ((demo_bank 1)\<lparr>invalid := True\<rparr>)"

lemma demo_invalid_candidate:
  "within_limits r (candidate demo_cell ((demo_bank 1)\<lparr>invalid := True\<rparr>) lw gw) =
   within_limits r (candidate demo_cell (demo_bank 1) lw gw)"
  by (simp add: within_limits_def candidate_def getReadBandwidth_def getWriteBandwidth_def demo_cell_def
      read_cycle_def Result_new_def Let_def)

theorem refinement_adopts_invalid_witness:
  "\<forall>m. \<exists>s'. TRY_AND_UPDATE demo_bad_ev demo_cell MT_data 0 (demo_nv m) = Inr s' \<and>
     invalid (r_bank (get_best MT_data s' ! 0))"
proof
  fix m
  let ?b = "(demo_bank 1)\<lparr>invalid := True\<rparr>"
  have best: "get_best MT_data (demo_nv m) = dataBest (demo_nv m)" by (simp add: get_best_def)
  have r: "dataBest (demo_nv m) ! 0 = demo_start\<lparr>target := read_latency_optimized, cellTech := Some demo_cell\<rparr>"
    using demo_best[of 0 m] by (simp only: all_targets_def) simp
  show "\<exists>s'. TRY_AND_UPDATE demo_bad_ev demo_cell MT_data 0 (demo_nv m) = Inr s' \<and>
     invalid (r_bank (get_best MT_data s' ! 0))"
  proof (rule refinement_adopts_invalid[where b = ?b])
    show "0 < length (get_best MT_data (demo_nv m))" unfolding best by (simp add: demo_nv_def)
    show "within_limits (get_best MT_data (demo_nv m) ! 0)
        (candidate demo_cell ?b (nv_localWire (demo_nv m)) (nv_globalWire (demo_nv m)))"
      unfolding best r demo_invalid_candidate by (rule demo_candidate_within[OF demo_goal])
    show "cost (target (get_best MT_data (demo_nv m) ! 0))
        (candidate demo_cell ?b (nv_localWire (demo_nv m)) (nv_globalWire (demo_nv m)))
        < cost (target (get_best MT_data (demo_nv m) ! 0)) (get_best MT_data (demo_nv m) ! 0)"
      unfolding best r by (simp add: cost_def candidate_def demo_bank_def demo_start_def Result_new_def
          worst_bank_def invalid_value_def)
  qed (simp_all add: demo_bad_ev_def)
qed

text \<open>Two cell types with one result each; the second has the lower read latency.\<close>

theorem merge_cells_best_witness:
  "let c2 = \<lparr>memCellType = eDRAM\<rparr>;
       new = (demo_result 1)\<lparr>cellTech := Some c2\<rparr>;
       best = merge_cells False [(c2, [(new, new)])] [(demo_result 2, demo_result 2)]
   in cost read_latency_optimized (fst (best ! 0)) \<le> 2 \<and> cellTech (fst (best ! 0)) = cellTech (snd (best ! 0))"
proof -
  let ?c2 = "\<lparr>memCellType = eDRAM\<rparr>" and ?n = "(demo_result 1)\<lparr>cellTech := Some \<lparr>memCellType = eDRAM\<rparr>\<rparr>"
  have "cost read_latency_optimized (demo_result 2) = 2" "target (demo_result 2) = read_latency_optimized"
    by (simp_all add: cost_def demo_result_def Result_new_def demo_bank_def)
  thus ?thesis
    using merge_cells_best[of "[(?c2, [(?n, ?n)])]" "[(demo_result 2, demo_result 2)]" 0]
    by (simp add: Let_def of_cell_def)
qed

definition demo_limited :: "input_parameter \<Rightarrow> unit nv" where
  "demo_limited m = (demo_nv m)\<lparr>nv_ip := (demo_ip m)\<lparr>isConstraintApplied := True\<rparr>\<rparr>"

lemma demo_limited_frame:
  "in_space (nv_ip (demo_limited m)) d = in_space (demo_ip m) d"
  "bounds_pos (nv_ip (demo_limited m))"
  "optimizationTarget (nv_ip (demo_limited m)) = read_latency_optimized"
  "isConstraintApplied (nv_ip (demo_limited m))"
  "dataBest (demo_limited m) = dataBest (demo_nv m)"
  using demo_ip_pos[of m] by (simp_all add: demo_limited_def in_space_def bounds_pos_def demo_ip_sizes)

lemma demo_limited_search: "\<exists>s'. constrained_search demo_ev demo_cell 0 64 8 1 (demo_limited m) = Some (Inr s')"
proof -
  let ?a = "allowed_limits (demo_limited m)"
  let ?s0 = "(demo_limited m)\<lparr>dataBest := map (APPLY_LIMIT ?a) (dataBest (demo_limited m)), numSolution := 0\<rparr>"
  have "\<exists>s1. INITIAL_BASIC_WIRE ?s0 = Inr s1"
    by (simp add: INITIAL_BASIC_WIRE_def demo_limited_def demo_ip_sizes basic_def Wire_Initialize_def Let_def)
  then obtain s1 where s1: "INITIAL_BASIC_WIRE ?s0 = Inr s1" by blast
  have pos: "bounds_pos (nv_ip ?s0)" using demo_limited_frame(2)[of m] by simp
  have "\<exists>s'. data_search demo_ev demo_cell 0 64 8 1 (allows ?a) print_row ?s0 = Some (Inr s')"
  proof (rule data_search_total[OF pos s1 quiet_outputs(2)])
    fix d assume "in_space (nv_ip ?s0) d"
    hence "in_space (demo_ip m) d" using demo_limited_frame(1)[of m d] by simp
    hence "capacity_ok d 64 (demo_bank 1)" by (rule demo_capacity)
    thus "\<exists>b. demo_ev (nv_ip ?s0) demo_cell (layerCount ?s0) (nv_localWire s1) (nv_globalWire s1)
        MT_data 64 8 1 0 d = Inr b \<and> (invalid b \<or> \<not> allows ?a b \<or> capacity_ok d 64 b)"
      by (simp only: demo_ev_def) blast
  qed
  thus ?thesis by (simp add: constrained_search_def demo_limited_frame(3,4) Let_def)
qed

theorem constrained_results_allowed_witness:
  "\<forall>m. \<exists>s'. constrained_search demo_ev demo_cell 0 64 8 1 (demo_limited m) = Some (Inr s') \<and>
     (r_bank (dataBest s' ! 0) = worst_bank (r_bank (dataBest (demo_limited m) ! 0)) \<or>
      allows (allowed_limits (demo_limited m)) (r_bank (dataBest s' ! 0)))"
proof
  fix m
  obtain s' where s': "constrained_search demo_ev demo_cell 0 64 8 1 (demo_limited m) = Some (Inr s')"
    using demo_limited_search by blast
  have "0 < length (dataBest (demo_limited m))" unfolding demo_limited_frame(5) by (simp add: demo_nv_def)
  moreover have "optimizationTarget (nv_ip (demo_limited m)) \<noteq> full_exploration"
    by (simp add: demo_limited_frame(3))
  ultimately show "\<exists>s'. constrained_search demo_ev demo_cell 0 64 8 1 (demo_limited m) = Some (Inr s') \<and>
     (r_bank (dataBest s' ! 0) = worst_bank (r_bank (dataBest (demo_limited m) ! 0)) \<or>
      allows (allowed_limits (demo_limited m)) (r_bank (dataBest s' ! 0)))"
    using constrained_results_allowed[OF s' _ demo_limited_frame(4,2), of 0] s' by blast
qed

theorem applyConstraint_sound_witness:
  "\<forall>m. \<exists>ip'. applyConstraint demo_cell ((demo_ip m)\<lparr>associativity := 8, routingMode := h_tree, internalSensing := True\<rparr>) = Inr ip' \<and>
     associativity ip' \<le> 1 \<and> applyConstraint demo_cell ip' = Inr ip'"
proof
  fix m
  let ?ip = "(demo_ip m)\<lparr>associativity := 8, routingMode := h_tree, internalSensing := True\<rparr>"
  have d: "designTarget ?ip = RAM_chip" by (simp add: demo_ip_def)
  hence "\<exists>ip'. applyConstraint demo_cell ?ip = Inr ip' \<and> designTarget ip' = RAM_chip"
    by (simp add: applyConstraint_def demo_cell_def)
  then obtain ip' where "applyConstraint demo_cell ?ip = Inr ip'" "designTarget ip' = RAM_chip" by blast
  thus "\<exists>ip'. applyConstraint demo_cell ?ip = Inr ip' \<and> associativity ip' \<le> 1 \<and> applyConstraint demo_cell ip' = Inr ip'"
    using applyConstraint_sound[where cell = demo_cell and ip = ?ip] by simp
qed

end
