(* ===== verification/Bank_Geometry.thy ===== *)
theory Bank_Geometry
  imports Exploration
begin

text \<open>
  The geometry of a bank: \<^verbatim>\<open>BankWithHtree::Initialize\<close>, \<^verbatim>\<open>BankWithoutHtree::Initialize\<close> and
  \<^verbatim>\<open>SubArray::Initialize\<close> of \<^verbatim>\<open>src/src\<close>, which distribute the address bits, data bits and
  cache ways of an array over subarrays and mats.

  The routing arrays of an H-tree are lists of optional records, one record for the six
  arrays of a direction: a read outside an array is the fault \<open>BadIndex\<close> and a read before a
  write the fault \<open>Uninit\<close>.  An operation that marks the bank invalid and returns early gives
  \<open>None\<close>.  The electrical models below a mat enter as one argument \<open>mat_ok\<close> that says whether
  they accept the mat.
\<close>

unbundle bit_operations_syntax

section \<open>Early returns and loops\<close>

text \<open>\<open>Inr None\<close> is an early return with \<^verbatim>\<open>invalid = true\<close>.\<close>

type_synonym 'a legal = "'a option res"

definition bindI :: "'a legal \<Rightarrow> ('a \<Rightarrow> 'b legal) \<Rightarrow> 'b legal" where
  "bindI m f = bindR m (\<lambda>x. case x of None \<Rightarrow> Inr None | Some y \<Rightarrow> f y)"

partial_function (option) whileI :: "('s \<Rightarrow> bool) \<Rightarrow> ('s \<Rightarrow> 's legal) \<Rightarrow> 's \<Rightarrow> 's legal option" where
  "whileI c body s =
     (if c s then (case body s of
                     Inl e \<Rightarrow> Some (Inl e)
                   | Inr None \<Rightarrow> Some (Inr None)
                   | Inr (Some s') \<Rightarrow> whileI c body s')
      else Some (Inr (Some s)))"

definition bindW :: "'a legal option \<Rightarrow> ('a \<Rightarrow> 'b legal option) \<Rightarrow> 'b legal option" where
  "bindW m f =
     (case m of None \<Rightarrow> None | Some (Inl e) \<Rightarrow> Some (Inl e) | Some (Inr None) \<Rightarrow> Some (Inr None)
      | Some (Inr (Some x)) \<Rightarrow> f x)"

definition log2R :: "real \<Rightarrow> int res" where
  "log2R x = (if x \<le> 0 then Inl NonFinite else Inr (ilog2 x))"

text \<open>\<^verbatim>\<open>isPow2\<close> of \<^verbatim>\<open>formula.cpp\<close>\<close>

definition isPow2 :: "int \<Rightarrow> bool" where
  "isPow2 n = (if n < 1 then False else n AND (n - 1) = 0)"

definition divR :: "int \<Rightarrow> int \<Rightarrow> int res" where
  "divR a b = (if b = 0 then Inl DivByZero else Inr (c_div a b))"

text \<open>\<^verbatim>\<open>1 << n\<close> of a 32-bit integer.\<close>

definition shl1 :: "int \<Rightarrow> int res" where
  "shl1 n = (if 0 \<le> n \<and> n < 31 then Inr (2 ^ nat n) else Inl Undefined)"

text \<open>\<^verbatim>\<open>(int)pow(2, n)\<close>\<close>

definition pow2 :: "int \<Rightarrow> int" where
  "pow2 n = (if n < 0 then 0 else 2 ^ nat n)"

section \<open>H-tree routing\<close>

record level =
  numAddressBitToRoute :: int
  numDataDistributeBitToRoute :: int
  numDataBroadcastBitToRoute :: int
  numWire :: int
  numSumWire :: int
  numActiveWire :: int

definition readL :: "'a option list \<Rightarrow> int \<Rightarrow> 'a res" where
  "readL xs i = bindR (nthR xs i) (\<lambda>x. case x of None \<Rightarrow> Inl Uninit | Some y \<Rightarrow> Inr y)"

definition writeL :: "'a option list \<Rightarrow> int \<Rightarrow> 'a \<Rightarrow> 'a option list res" where
  "writeL xs i y = (if 0 \<le> i \<and> i < int (length xs) then Inr (xs[nat i := Some y]) else Inl BadIndex)"

text \<open>The local variables of the routing loops.\<close>

record route =
  levelHorizontal :: int
  levelVertical :: int
  horizontal :: "level option list"
  vertical :: "level option list"
  rt_h :: int
  rt_v :: int
  rowToActive :: int
  columnToActive :: int
  addressBits :: int
  distributeBits :: int
  broadcastBits :: int
  hTemp :: int
  vTemp :: int

definition nothing_to_route :: "route \<Rightarrow> bool" where
  "nothing_to_route s \<longleftrightarrow> distributeBits s + broadcastBits s = 0 \<or> addressBits s = 0"

definition level_of :: "route \<Rightarrow> int \<Rightarrow> int \<Rightarrow> int \<Rightarrow> level" where
  "level_of s w wsum act =
     \<lparr>numAddressBitToRoute = addressBits s, numDataDistributeBitToRoute = distributeBits s,
      numDataBroadcastBitToRoute = broadcastBits s, numWire = w, numSumWire = wsum, numActiveWire = act\<rparr>"

text \<open>Splitting the columns, or the rows, in two halves: either both halves are active and
  share the data bits, or one address bit selects a half.  The first component is the growth of
  the number of active wires.\<close>

definition split_columns :: "route \<Rightarrow> int \<times> route" where
  "split_columns s =
     (if columnToActive s > 1
      then (2, s\<lparr>distributeBits := c_div (distributeBits s) 2, columnToActive := c_div (columnToActive s) 2\<rparr>)
      else (1, s\<lparr>addressBits := addressBits s - 1\<rparr>))"

definition split_rows :: "route \<Rightarrow> int \<times> route" where
  "split_rows s =
     (if rowToActive s > 1
      then (2, s\<lparr>distributeBits := c_div (distributeBits s) 2, rowToActive := c_div (rowToActive s) 2\<rparr>)
      else (1, s\<lparr>addressBits := addressBits s - 1\<rparr>))"

definition first_level :: "route \<Rightarrow> route legal" where
  "first_level s =
     (if rt_h s > 0 then
        if nothing_to_route s then Inr None
        else bindR (writeL (horizontal s) 0 (level_of s 1 1 1)) (\<lambda>hz.
             Inr (Some (s\<lparr>horizontal := hz, rt_h := rt_h s - 1\<rparr>)))
      else Inr (Some s))"

definition reduce_h :: "route \<Rightarrow> route legal" where
  "reduce_h s =
     (if nothing_to_route s then Inr None
      else let (f, t) = split_columns s; i = levelHorizontal s - rt_h s in
           bindR (readL (horizontal s) (i - 1)) (\<lambda>p.
           bindR (writeL (horizontal t) i (level_of t 1 (2 * numSumWire p) (f * numActiveWire p))) (\<lambda>hz.
           Inr (Some (t\<lparr>horizontal := hz, rt_h := rt_h s - 1, vTemp := vTemp s * 2\<rparr>)))))"

definition reduce_v :: "route \<Rightarrow> route legal" where
  "reduce_v s =
     (if nothing_to_route s then Inr None
      else let (f, t) = split_rows s; i = levelVertical s - rt_v s in
           bindR (if rt_v s = levelVertical s then Inr (1, 1)
                  else bindR (readL (vertical s) (i - 1)) (\<lambda>p. Inr (numSumWire p, numActiveWire p))) (\<lambda>(wsum, act).
           bindR (writeL (vertical t) i (level_of t 1 (2 * wsum) (f * act))) (\<lambda>vt.
           Inr (Some (t\<lparr>vertical := vt, rt_v := rt_v s - 1, hTemp := hTemp s * 2\<rparr>)))))"

definition reduce_hv_column :: "route \<Rightarrow> route legal" where
  "reduce_hv_column s =
     (if nothing_to_route s then Inr None
      else let (f, t) = split_columns s; i = levelHorizontal s - rt_h s in
           bindR (if rt_v s = levelVertical s then readL (horizontal s) (i - 1)
                  else readL (vertical s) (levelVertical s - rt_v s - 1)) (\<lambda>p.
           bindR (writeL (horizontal t) i (level_of t (hTemp s) (2 * numSumWire p) (f * numActiveWire p))) (\<lambda>hz.
           Inr (Some (t\<lparr>horizontal := hz\<rparr>)))))"

definition reduce_hv_row :: "route \<Rightarrow> route legal" where
  "reduce_hv_row s =
     (if nothing_to_route s then Inr None
      else let (f, t) = split_rows s in
           bindR (readL (horizontal s) (levelHorizontal s - rt_h s)) (\<lambda>p.
           bindR (writeL (vertical t) (levelVertical s - rt_v s)
                   (level_of t (if levelHorizontal s = 2 then vTemp s else 2 * vTemp s)
                      (2 * numSumWire p) (f * numActiveWire p))) (\<lambda>vt.
           Inr (Some (t\<lparr>vertical := vt, rt_h := rt_h s - 1, rt_v := rt_v s - 1,
                        hTemp := hTemp s * 2, vTemp := vTemp s * 2\<rparr>)))))"

definition last_split :: "route \<Rightarrow> route legal" where
  "last_split s =
     (if nothing_to_route s then Inr None
      else if columnToActive s > 1 then Inr (Some (snd (split_columns s)))
      else if levelHorizontal s > 0 then Inr (Some (s\<lparr>addressBits := addressBits s - 1\<rparr>))
      else Inr (Some s))"

definition htree_routing :: "route \<Rightarrow> route legal option" where
  "htree_routing s =
     bindW (Some (first_level s)) (\<lambda>s.
     bindW (whileI (\<lambda>s. rt_h s > rt_v s) reduce_h s) (\<lambda>s.
     bindW (whileI (\<lambda>s. rt_v s > rt_h s) reduce_v s) (\<lambda>s.
     bindW (whileI (\<lambda>s. rt_h s > 0) (\<lambda>s. bindI (reduce_hv_column s) reduce_hv_row) s) (\<lambda>s.
     Some (last_split s)))))"

section \<open>Mats and subarrays\<close>

definition is_dram :: "'x mem_cell_scheme \<Rightarrow> bool" where
  "is_dram cell \<longleftrightarrow> memCellType cell \<in> {DRAM, eDRAM, gcDRAM}"

text \<open>The checks at the beginning of \<^verbatim>\<open>Mat::Initialize\<close>.\<close>

definition Mat_legal :: "input_parameter \<Rightarrow> 'x mem_cell_scheme \<Rightarrow> int \<Rightarrow> int \<Rightarrow> int \<Rightarrow> bool \<Rightarrow> int \<Rightarrow> int \<Rightarrow> bool res" where
  "Mat_legal ip cell numRow numColumn mux internal lev1 lev2 =
     (if numRow \<le> 0 \<or> numColumn \<le> 0 \<or> mux \<le> 0 \<or> lev1 \<le> 0 \<or> lev2 \<le> 0 \<or> monolithicStackCount ip \<le> 0
      then Inr False
      else if memCellType cell = MLCNAND then Inr False
      else if designTarget ip = cache \<and> cacheAccessMode ip \<noteq> sequential_access_mode \<and> numColumn < associativity ip
      then Inr False
      else if is_dram cell \<and> mux > 1 then Inr False
      else bindR (if memCellType cell = SLCNAND
                  then bindR (divR (flashBlockSize ip) (pageSize ip)) (\<lambda>pages.
                       Inr (pages \<le> numRow \<and> \<not> (internal \<and> mux < 2)))
                  else Inr True) (\<lambda>ok.
           Inr (ok \<and> \<not> (memCellType cell \<in> {memristor, FBRAM} \<and> internal \<and> mux < 2))))"

record subarray =
  sa_numRow :: int
  sa_numColumn :: int
  rowPredecoder :: "int \<times> int"
  bitlineMuxPredecoder :: "int \<times> int"
  senseAmpMuxLev1Predecoder :: "int \<times> int"
  senseAmpMuxLev2Predecoder :: "int \<times> int"
  totalPredecoderOutputBits :: int

definition at_most :: "int \<Rightarrow> int \<Rightarrow> int" where
  "at_most a b = (if a > b then b else a)"

text \<open>The address bits of the two predecode blocks of a decoder.\<close>

definition predecoder_blocks :: "int \<Rightarrow> int \<times> int" where
  "predecoder_blocks n = (if n > 3 then (n - c_div n 2, c_div n 2) else (n, 0))"

definition predecoder_outputs :: "int \<times> int \<Rightarrow> int res" where
  "predecoder_outputs b = bindR (shl1 (fst b)) (\<lambda>x. bindR (shl1 (snd b)) (\<lambda>y. Inr (x + y)))"

definition gating_bits :: "int \<Rightarrow> int \<Rightarrow> int \<Rightarrow> int \<Rightarrow> int res" where
  "gating_bits rows columns activeColumn activeRow =
     bindR (divR (rows * columns) activeColumn) (\<lambda>x. bindR (divR x activeRow) (\<lambda>y. log2R (of_int y)))"

definition subarray_predecoders :: "int \<Rightarrow> int \<Rightarrow> int \<Rightarrow> int \<times> int \<times> int \<Rightarrow> subarray legal" where
  "subarray_predecoders numRow numColumn addr mux =
     (case mux of (sa, lev1, lev2) \<Rightarrow>
     bindR (log2R (of_int (sa * lev1 * lev2))) (\<lambda>m.
     if addr - m < 0 then Inr None
     else bindR (log2R (of_int sa)) (\<lambda>b. bindR (log2R (of_int lev1)) (\<lambda>l1. bindR (log2R (of_int lev2)) (\<lambda>l2.
          let r = predecoder_blocks (addr - m); b = predecoder_blocks b;
              l1 = predecoder_blocks l1; l2 = predecoder_blocks l2 in
          bindR (predecoder_outputs r) (\<lambda>x. bindR (predecoder_outputs b) (\<lambda>y.
          bindR (predecoder_outputs l1) (\<lambda>z. bindR (predecoder_outputs l2) (\<lambda>w.
          Inr (Some \<lparr>sa_numRow = numRow, sa_numColumn = numColumn, rowPredecoder = r,
                     bitlineMuxPredecoder = b, senseAmpMuxLev1Predecoder = l1,
                     senseAmpMuxLev2Predecoder = l2, totalPredecoderOutputBits = x + y + z + w\<rparr>))))))))))"

definition SubArray_Initialize :: "(int \<Rightarrow> int \<Rightarrow> bool) \<Rightarrow> input_parameter \<Rightarrow> 'x mem_cell_scheme
    \<Rightarrow> int \<Rightarrow> int \<Rightarrow> int \<Rightarrow> int \<Rightarrow> int \<Rightarrow> int \<Rightarrow> int \<Rightarrow> int \<times> int \<times> int \<Rightarrow> bool \<Rightarrow> MemoryType \<Rightarrow> subarray legal" where
  "SubArray_Initialize mat_ok ip cell rowMat columnMat numAddressBit numDataBit numWay
      actRow actColumn mux internal mt =
     (let actRow = at_most actRow columnMat; actColumn = at_most actColumn rowMat;
          (sa, lev1, lev2) = mux; m = sa * lev1 * lev2 in
      bindR (gating_bits rowMat columnMat actColumn actRow) (\<lambda>g.
      let addr = numAddressBit - g in
      if addr \<le> 0 then Inr None
      else bindR (shl1 addr) (\<lambda>r.
           bindR (divR (if mt = MT_data then r * numWay else r) m) (\<lambda>numRow.
           if numRow = 0 then Inr None
           else bindR (divR numDataBit (actRow * actColumn)) (\<lambda>c.
           if c = 0 then Inr None
           else let numColumn = c * m * (if mt = MT_tag then numWay else 1) in
                if mt = MT_data \<and> forceMatSize ip \<and>
                   (word_of_int numRow \<noteq> forcedMatRows ip \<or> word_of_int numColumn \<noteq> forcedMatColumns ip)
                then Inr None
                else bindR (Mat_legal ip cell numRow numColumn sa internal lev1 lev2) (\<lambda>ok.
                     if \<not> ok \<or> \<not> mat_ok numRow numColumn then Inr None
                     else subarray_predecoders numRow numColumn addr mux))))))"

section \<open>Banks\<close>

definition address_bits :: "int \<Rightarrow> int \<Rightarrow> int \<Rightarrow> int \<Rightarrow> int res" where
  "address_bits cap blk assoc dies =
     (if blk = 0 \<or> assoc = 0 then Inl NonFinite
      else let x = of_int cap / of_int blk / of_int assoc
           in log2R (if dies > 1 then x / of_int dies else x))"

text \<open>Extra multiplexing for several ways in one row.\<close>

definition way_muxes :: "bool \<Rightarrow> int \<Rightarrow> int \<times> int \<times> int \<Rightarrow> int \<times> int \<times> int" where
  "way_muxes dram ways mux =
     (case mux of (sa, lev1, lev2) \<Rightarrow>
      if ways > 1 then
        (let lg = ilog2 (of_int ways) in
         if dram then (let e2 = pow2 (c_div lg 2) in (sa, lev1 * c_div ways e2, lev2 * e2))
         else (let e = pow2 (c_div lg 3) in (sa * c_div (c_div ways e) e, lev1 * e, lev2 * e)))
      else mux)"

definition mux_of :: "design \<Rightarrow> int \<times> int \<times> int" where
  "mux_of d = (d_muxSenseAmp d, d_muxOutputLev1 d, d_muxOutputLev2 d)"

text \<open>The bits that are distributed over, and broadcast to, the active subarrays.\<close>

definition data_signals :: "MemoryType \<Rightarrow> int \<Rightarrow> int \<Rightarrow> (int \<times> int) res" where
  "data_signals mt blk assoc =
     (case mt of
        MT_data \<Rightarrow> if assoc \<le> 0 then Inl NonFinite else Inr (blk, c_trunc (log 2 (of_int assoc)))
      | MT_tag \<Rightarrow> Inr (assoc, blk)
      | MT_CAM \<Rightarrow> Inr (0, blk))"

definition new_route :: "int \<Rightarrow> int \<Rightarrow> int \<Rightarrow> int \<times> int \<Rightarrow> int \<Rightarrow> int \<Rightarrow> route" where
  "new_route lh lv addr sig actRow actColumn =
     \<lparr>levelHorizontal = lh, levelVertical = lv, horizontal = replicate (nat lh) None,
      vertical = replicate (nat lv) None, rt_h = lh, rt_v = lv, rowToActive = actColumn,
      columnToActive = actRow, addressBits = addr, distributeBits = fst sig, broadcastBits = snd sig,
      hTemp = 1, vTemp = 1\<rparr>"

definition htree_subarray :: "(int \<Rightarrow> int \<Rightarrow> bool) \<Rightarrow> input_parameter \<Rightarrow> 'x mem_cell_scheme \<Rightarrow> bool \<Rightarrow> MemoryType
    \<Rightarrow> design \<Rightarrow> route \<Rightarrow> subarray legal" where
  "htree_subarray mat_ok ip cell internal mt d s =
     (let ways = pow2 (broadcastBits s);
          sub = (\<lambda>blk numWay mux. SubArray_Initialize mat_ok ip cell (d_numRowMat d) (d_numColumnMat d)
                   (addressBits s) blk numWay (at_most (d_numActiveMatPerRow d) (d_numColumnMat d))
                   (at_most (d_numActiveMatPerColumn d) (d_numRowMat d)) mux internal mt) in
      case mt of
        MT_data \<Rightarrow>
          if d_numRowPerSet d > ways then Inr None
          else bindR (divR ways (d_numRowPerSet d)) (\<lambda>w.
               sub (distributeBits s) ways (way_muxes (is_dram cell) w (mux_of d)))
      | MT_tag \<Rightarrow>
          if d_numRowPerSet d > 1 \<or> distributeBits s = 0 then Inr None
          else sub (broadcastBits s) (distributeBits s) (mux_of d)
      | MT_CAM \<Rightarrow> sub (broadcastBits s) 1 (mux_of d))"

definition liftW :: "'a res \<Rightarrow> 'a legal option" where
  "liftW m = Some (bindR m (\<lambda>x. Inr (Some x)))"

definition BankWithHtree_Initialize :: "(int \<Rightarrow> int \<Rightarrow> bool) \<Rightarrow> input_parameter \<Rightarrow> 'x mem_cell_scheme \<Rightarrow> bool
    \<Rightarrow> MemoryType \<Rightarrow> int \<Rightarrow> int \<Rightarrow> int \<Rightarrow> design \<Rightarrow> (route \<times> subarray) legal option" where
  "BankWithHtree_Initialize mat_ok ip cell internal mt cap blk assoc d =
     (if d_numRowSubArray d = 0 \<or> d_numColumnSubArray d = 0 \<or> \<not> internal then Some (Inr None)
      else bindW (liftW (address_bits cap blk assoc (d_stackedDieCount d))) (\<lambda>addr.
           bindW (liftW (data_signals mt blk assoc)) (\<lambda>sig.
           bindW (liftW (log2R (of_int (d_numColumnSubArray d)))) (\<lambda>lh.
           bindW (liftW (log2R (of_int (d_numRowSubArray d)))) (\<lambda>lv.
           bindW (htree_routing (new_route lh lv addr sig
                    (at_most (d_numActiveSubArrayPerRow d) (d_numColumnSubArray d))
                    (at_most (d_numActiveSubArrayPerColumn d) (d_numRowSubArray d)))) (\<lambda>s.
           bindW (Some (htree_subarray mat_ok ip cell internal mt d s)) (\<lambda>sub.
           Some (Inr (Some (s, sub))))))))))"

text \<open>\<open>outer_ok\<close> says whether the area of the subarray and the global sense amplifiers are valid.\<close>

definition BankWithoutHtree_Initialize :: "(int \<Rightarrow> int \<Rightarrow> bool) \<Rightarrow> (subarray \<Rightarrow> bool) \<Rightarrow> input_parameter
    \<Rightarrow> 'x mem_cell_scheme \<Rightarrow> wire \<Rightarrow> bool \<Rightarrow> MemoryType \<Rightarrow> int \<Rightarrow> int \<Rightarrow> int \<Rightarrow> design \<Rightarrow> subarray legal" where
  "BankWithoutHtree_Initialize mat_ok outer_ok ip cell gw internal mt cap blk assoc d =
     (if \<not> internal \<and> (is_dram cell \<or> wireRepeaterType gw \<noteq> repeater_num repeated_none) then Inr None
      else bindR (address_bits cap blk assoc (d_stackedDieCount d)) (\<lambda>numAddressBit.
       let actRow = at_most (d_numActiveSubArrayPerRow d) (d_numColumnSubArray d);
           actColumn = at_most (d_numActiveSubArrayPerColumn d) (d_numRowSubArray d) in
       bindR (gating_bits (d_numRowSubArray d) (d_numColumnSubArray d) actColumn actRow) (\<lambda>g.
       let sub = (\<lambda>dataBits numWay mux.
             bindI (SubArray_Initialize mat_ok ip cell (d_numRowMat d) (d_numColumnMat d)
                   (numAddressBit - g) dataBits numWay (at_most (d_numActiveMatPerRow d) (d_numColumnMat d))
                   (at_most (d_numActiveMatPerColumn d) (d_numRowMat d)) mux internal mt)
               (\<lambda>s. Inr (if outer_ok s then Some s else None)))
       in case mt of
            MT_data \<Rightarrow>
              bindR (divR blk actColumn) (\<lambda>x. bindR (divR x actRow) (\<lambda>dataBits.
              if d_numRowPerSet d > assoc then Inr None
              else bindR (divR assoc (d_numRowPerSet d)) (\<lambda>w.
                   sub dataBits assoc (way_muxes (is_dram cell) w (mux_of d)))))
          | MT_tag \<Rightarrow>
              if d_numRowPerSet d > 1 then Inr None
              else bindR (divR assoc actColumn) (\<lambda>x. bindR (divR x actRow) (\<lambda>numWay.
                   if numWay < 1 then Inr None else sub blk numWay (mux_of d)))
          | MT_CAM \<Rightarrow> sub blk 1 (mux_of d))))"

end
