(* ===== verification/Bank_Props.thy ===== *)
theory Bank_Props
  imports Bank_Geometry Gem5_Base
begin

text \<open>
  The geometry of banks is right.  The routing loops of an H-tree stay inside their arrays,
  read no level before it is written, and end with the same address and data bits per subarray
  as the closed formulas of the bank without H-tree; for sizes that are powers of two the two
  bank organisations accept the same designs with the same mats, and every accepted design
  stores exactly the capacity of the array, so that the capacity check of the exploration
  never stops the program.
\<close>

section \<open>Loops with early returns\<close>

lemma whileI_rule:
  fixes m :: "'s \<Rightarrow> nat"
  assumes "P s"
    and "\<And>s. P s \<Longrightarrow> c s \<Longrightarrow> (body s = Inr None \<and> Q s) \<or> (\<exists>s'. body s = Inr (Some s') \<and> P s' \<and> m s' < m s)"
  shows "(whileI c body s = Some (Inr None) \<and> (\<exists>t. P t \<and> c t \<and> Q t)) \<or>
         (\<exists>s'. whileI c body s = Some (Inr (Some s')) \<and> P s' \<and> \<not> c s')"
  using assms(1)
proof (induction "m s" arbitrary: s rule: less_induct)
  case less
  show ?case
  proof (cases "c s")
    case True
    from assms(2)[OF less.prems True] show ?thesis
    proof
      assume "body s = Inr None \<and> Q s"
      thus ?thesis using True less.prems by (subst (1 2) whileI.simps) auto
    next
      assume "\<exists>s'. body s = Inr (Some s') \<and> P s' \<and> m s' < m s"
      then obtain s' where s': "body s = Inr (Some s')" "P s'" "m s' < m s" by blast
      hence "whileI c body s = whileI c body s'" using True by (subst whileI.simps) simp
      thus ?thesis using less.hyps[OF s'(3,2)] by simp
    qed
  next
    case False
    thus ?thesis using less.prems by (subst (2) whileI.simps) simp
  qed
qed

lemma bindW_simps [simp]:
  "bindW None f = None" "bindW (Some (Inl e)) f = Some (Inl e)"
  "bindW (Some (Inr None)) f = Some (Inr None)" "bindW (Some (Inr (Some x))) f = f x"
  by (simp_all add: bindW_def)

lemma bindI_simps [simp]:
  "bindI (Inl e) f = Inl e" "bindI (Inr None) f = Inr None" "bindI (Inr (Some x)) f = f x"
  by (simp_all add: bindI_def)

lemma liftW_simps [simp]: "liftW (Inl e) = Some (Inl e)" "liftW (Inr x) = Some (Inr (Some x))"
  by (simp_all add: liftW_def)

section \<open>Routing arrays\<close>

definition filled :: "nat \<Rightarrow> 'a option list \<Rightarrow> bool" where
  "filled n xs \<longleftrightarrow> n \<le> length xs \<and> (\<forall>i < n. xs ! i \<noteq> None)"

lemma readL_filled: "filled n xs \<Longrightarrow> i < n \<Longrightarrow> \<exists>x. readL xs (int i) = Inr x"
  by (auto simp: filled_def readL_def nthR_def split: option.split)

lemma writeL_filled:
  "filled n xs \<Longrightarrow> n < length xs \<Longrightarrow>
   \<exists>ys. writeL xs (int n) x = Inr ys \<and> length ys = length xs \<and> filled (Suc n) ys"
  by (auto simp: filled_def writeL_def nth_list_update less_Suc_eq)

section \<open>Progress of the routing\<close>

text \<open>An H-tree with \<open>2 ^ L\<^sub>h\<close> columns and \<open>2 ^ L\<^sub>v\<close> rows of subarrays of which \<open>2 ^ a\<close> columns and
  \<open>2 ^ b\<close> rows are active, after \<open>k\<close> splits of the columns and \<open>j\<close> splits of the rows.\<close>

record tree =
  tr_lh :: nat
  tr_lv :: nat
  tr_a :: nat
  tr_b :: nat
  tr_addr :: int
  tr_dist :: int
  tr_bcast :: int

definition split_at :: "tree \<Rightarrow> nat \<Rightarrow> nat \<Rightarrow> route \<Rightarrow> bool" where
  "split_at T k j s \<longleftrightarrow>
     levelHorizontal s = int (tr_lh T) \<and> levelVertical s = int (tr_lv T) \<and>
     length (horizontal s) = tr_lh T \<and> length (vertical s) = tr_lv T \<and>
     columnToActive s = 2 ^ (tr_a T - k) \<and> rowToActive s = 2 ^ (tr_b T - j) \<and>
     distributeBits s = tr_dist T div 2 ^ (min (tr_a T) k + min (tr_b T) j) \<and>
     broadcastBits s = tr_bcast T \<and>
     addressBits s = tr_addr T - int (k - tr_a T) - int (j - tr_b T)"

definition tree_ok :: "tree \<Rightarrow> bool" where
  "tree_ok T \<longleftrightarrow> tr_a T \<le> tr_lh T \<and> tr_b T \<le> tr_lv T \<and> 0 \<le> tr_dist T"

lemma halve_power: "n > 0 \<Longrightarrow> c_div (2 ^ n) 2 = 2 ^ (n - 1)"
  by (cases n) simp_all

lemma power_gt_one_iff: "(1 :: int) < 2 ^ n \<longleftrightarrow> 0 < n"
  by (cases "n = 0") (simp_all add: one_less_power)

lemma split_columns_at:
  assumes "split_at T k j s" "tree_ok T"
  shows "split_at T (Suc k) j (snd (split_columns s))"
    and "horizontal (snd (split_columns s)) = horizontal s" "vertical (snd (split_columns s)) = vertical s"
proof -
  let ?D = "tr_dist T"
  have D: "0 \<le> ?D div 2 ^ n" for n using assms(2) by (simp add: tree_ok_def pos_imp_zdiv_nonneg_iff)
  show "split_at T (Suc k) j (snd (split_columns s))"
  proof (cases "k < tr_a T")
    case True
    hence "min (tr_a T) (Suc k) = Suc k" "min (tr_a T) k = k" by simp_all
    moreover have "c_div (2 ^ (tr_a T - k)) 2 = 2 ^ (tr_a T - Suc k)" using halve_power[of "tr_a T - k"] True by simp
    moreover have "c_div (?D div 2 ^ (k + n)) 2 = ?D div 2 ^ (Suc k + n)" for n
      using D[of "k + n"] by (simp add: zdiv_zmult2_eq[symmetric] mult.commute)
    ultimately show ?thesis using assms(1) True
      by (simp add: split_at_def split_columns_def power_gt_one_iff)
  next
    case False
    thus ?thesis using assms(1) by (simp add: split_at_def split_columns_def power_gt_one_iff Suc_diff_le)
  qed
qed (simp_all add: split_columns_def)

lemma split_rows_at:
  assumes "split_at T k j s" "tree_ok T"
  shows "split_at T k (Suc j) (snd (split_rows s))"
    and "horizontal (snd (split_rows s)) = horizontal s" "vertical (snd (split_rows s)) = vertical s"
proof -
  let ?D = "tr_dist T"
  have D: "0 \<le> ?D div 2 ^ n" for n using assms(2) by (simp add: tree_ok_def pos_imp_zdiv_nonneg_iff)
  show "split_at T k (Suc j) (snd (split_rows s))"
  proof (cases "j < tr_b T")
    case True
    hence "min (tr_b T) (Suc j) = Suc j" "min (tr_b T) j = j" by simp_all
    moreover have "c_div (2 ^ (tr_b T - j)) 2 = 2 ^ (tr_b T - Suc j)" using halve_power[of "tr_b T - j"] True by simp
    moreover have "c_div (?D div 2 ^ (n + j)) 2 = ?D div 2 ^ (n + Suc j)" for n
      using D[of "n + j"] by (simp add: zdiv_zmult2_eq[symmetric] mult.commute)
    ultimately show ?thesis using assms(1) True
      by (simp add: split_at_def split_rows_def power_gt_one_iff)
  next
    case False
    thus ?thesis using assms(1) by (simp add: split_at_def split_rows_def power_gt_one_iff Suc_diff_le)
  qed
qed (simp_all add: split_rows_def)

definition progress :: "tree \<Rightarrow> nat \<Rightarrow> nat \<Rightarrow> route \<Rightarrow> bool" where
  "progress T k j s \<longleftrightarrow>
     split_at T k j s \<and> rt_h s = int (tr_lh T - Suc k) \<and> rt_v s = int (tr_lv T - j) \<and>
     j \<le> tr_lv T \<and> (k < tr_lh T \<or> k = 0) \<and>
     filled (min (tr_lh T) (Suc k)) (horizontal s) \<and> filled j (vertical s)"

text \<open>A loop body either stops because there is nothing left to route, or makes the step.\<close>

abbreviation routes_to :: "route legal \<Rightarrow> route \<Rightarrow> (route \<Rightarrow> bool) \<Rightarrow> bool" where
  "routes_to r s P \<equiv> (r = Inr None \<and> nothing_to_route s) \<or> (\<exists>s'. r = Inr (Some s') \<and> P s')"

lemma split_at_update:
  "split_at T k j s \<Longrightarrow> length hz = tr_lh T \<Longrightarrow> split_at T k j (s\<lparr>horizontal := hz\<rparr>)"
  "split_at T k j s \<Longrightarrow> length vt = tr_lv T \<Longrightarrow> split_at T k j (s\<lparr>vertical := vt\<rparr>)"
  "split_at T k j (s\<lparr>rt_h := x\<rparr>) = split_at T k j s" "split_at T k j (s\<lparr>rt_v := x\<rparr>) = split_at T k j s"
  "split_at T k j (s\<lparr>hTemp := x\<rparr>) = split_at T k j s" "split_at T k j (s\<lparr>vTemp := x\<rparr>) = split_at T k j s"
  by (simp_all add: split_at_def)

lemma split_frame [simp]:
  "rt_h (snd (split_columns s)) = rt_h s" "rt_v (snd (split_columns s)) = rt_v s"
  "rt_h (snd (split_rows s)) = rt_h s" "rt_v (snd (split_rows s)) = rt_v s"
  by (simp_all add: split_columns_def split_rows_def)

lemma first_level_progress:
  assumes "split_at T 0 0 s" "rt_h s = int (tr_lh T)" "rt_v s = int (tr_lv T)"
  shows "routes_to (first_level s) s (progress T 0 0)"
proof (cases "nothing_to_route s \<or> tr_lh T = 0")
  case True
  thus ?thesis using assms by (auto simp: first_level_def progress_def filled_def)
next
  case False
  hence "filled 0 (horizontal s)" "0 < length (horizontal s)" using assms(1) by (simp_all add: filled_def split_at_def)
  from writeL_filled[OF this] obtain hz where "writeL (horizontal s) 0 (level_of s 1 1 1) = Inr hz"
    "length hz = length (horizontal s)" "filled 1 hz" by auto
  moreover have "min (tr_lh T) (Suc 0) = 1" using False by simp
  ultimately show ?thesis using assms False split_at_update(1)[OF assms(1), of hz]
    by (auto simp: first_level_def progress_def split_at_update(3) split_at_def filled_def[of 0])
qed

lemma reduce_h_progress:
  assumes "progress T k j s" "tree_ok T" "rt_h s > rt_v s"
  shows "routes_to (reduce_h s) s (progress T (Suc k) j)"
proof (cases "nothing_to_route s")
  case False
  let ?t = "snd (split_columns s)" and ?f = "fst (split_columns s)"
  have k: "Suc k < tr_lh T" using assms(1,3) by (auto simp: progress_def)
  note sp = split_columns_at[OF _ assms(2), of k j s]
  have at: "split_at T k j s" and f: "filled (Suc k) (horizontal s)"
    using assms(1) k by (simp_all add: progress_def min_def)
  have i: "levelHorizontal s - rt_h s = int (Suc k)" using assms(1) k by (simp add: progress_def split_at_def of_nat_diff)
  obtain p where p: "readL (horizontal s) (int (Suc k) - 1) = Inr p" using readL_filled[OF f, of k] by auto
  have "Suc k < length (horizontal s)" using at k by (simp add: split_at_def)
  from writeL_filled[OF f this] obtain hz where
    hz: "writeL (horizontal s) (int (Suc k)) (level_of ?t 1 (2 * numSumWire p) (?f * numActiveWire p)) = Inr hz"
      "length hz = length (horizontal s)" "filled (Suc (Suc k)) hz" by blast
  let ?s' = "?t\<lparr>horizontal := hz, rt_h := rt_h s - 1, vTemp := vTemp s * 2\<rparr>"
  have "reduce_h s = Inr (Some ?s')"
    using False p hz(1) sp(2)[OF at] by (simp add: reduce_h_def i split_beta Let_def del: of_nat_Suc)
  moreover have "min (tr_lh T) (Suc (Suc k)) = Suc (Suc k)" using k by simp
  hence "progress T (Suc k) j ?s'"
    using assms(1) k hz sp[OF at] at split_at_update(1)[OF sp(1)[OF at], of hz]
    by (simp add: progress_def split_at_update split_at_def of_nat_diff)
  ultimately show ?thesis by blast
qed (simp add: reduce_h_def)

lemma reduce_v_progress:
  assumes "progress T k j s" "tree_ok T" "rt_v s > rt_h s"
  shows "routes_to (reduce_v s) s (progress T k (Suc j))"
proof (cases "nothing_to_route s")
  case False
  let ?t = "snd (split_rows s)" and ?f = "fst (split_rows s)"
  have j: "j < tr_lv T" using assms(1,3) by (auto simp: progress_def)
  note sp = split_rows_at[OF _ assms(2), of k j s]
  have at: "split_at T k j s" and f: "filled j (vertical s)" using assms(1) by (simp_all add: progress_def)
  have i: "levelVertical s - rt_v s = int j" using assms(1) j by (simp add: progress_def split_at_def of_nat_diff)
  have "\<exists>wsum act. (if rt_v s = levelVertical s then Inr (1, 1)
       else bindR (readL (vertical s) (int j - 1)) (\<lambda>p. Inr (numSumWire p, numActiveWire p))) = Inr (wsum, act)"
  proof (cases j)
    case (Suc j')
    thus ?thesis using readL_filled[OF f, of j'] by auto
  qed (use i in simp)
  then obtain wsum act where p: "(if rt_v s = levelVertical s then Inr (1, 1)
       else bindR (readL (vertical s) (int j - 1)) (\<lambda>p. Inr (numSumWire p, numActiveWire p))) = Inr (wsum, act)" by blast
  have "j < length (vertical s)" using at j by (simp add: split_at_def)
  from writeL_filled[OF f this] obtain vt where
    vt: "writeL (vertical s) (int j) (level_of ?t 1 (2 * wsum) (?f * act)) = Inr vt"
      "length vt = length (vertical s)" "filled (Suc j) vt" by blast
  let ?s' = "?t\<lparr>vertical := vt, rt_v := rt_v s - 1, hTemp := hTemp s * 2\<rparr>"
  have "reduce_v s = Inr (Some ?s')"
    using False p vt(1) sp(3)[OF at] by (simp add: reduce_v_def i split_beta Let_def)
  moreover have "progress T k (Suc j) ?s'"
    using assms(1) j vt sp[OF at] at split_at_update(2)[OF sp(1)[OF at], of vt]
    by (simp add: progress_def split_at_update split_at_def of_nat_diff)
  ultimately show ?thesis by blast
qed (simp add: reduce_v_def)

lemma reduce_hv_progress:
  assumes "progress T k j s" "tree_ok T" "rt_h s > 0" "rt_h s = rt_v s"
  shows "(bindI (reduce_hv_column s) reduce_hv_row = Inr None \<and>
           (\<exists>k' t. k' \<le> Suc k \<and> split_at T k' j t \<and> nothing_to_route t)) \<or>
         (\<exists>s'. bindI (reduce_hv_column s) reduce_hv_row = Inr (Some s') \<and> progress T (Suc k) (Suc j) s')"
proof (cases "nothing_to_route s")
  case True
  thus ?thesis using assms(1) by (auto simp: reduce_hv_column_def progress_def intro!: exI[of _ k])
next
  case False
  let ?t = "snd (split_columns s)" and ?f = "fst (split_columns s)"
  have k: "Suc k < tr_lh T" and j: "j < tr_lv T" using assms(1,3,4) by (auto simp: progress_def)
  note sp = split_columns_at[OF _ assms(2), of k j s]
  have at: "split_at T k j s" and fh: "filled (Suc k) (horizontal s)" and fv: "filled j (vertical s)"
    using assms(1) k by (simp_all add: progress_def)
  have ih: "levelHorizontal s - rt_h s = int (Suc k)" and iv: "levelVertical s - rt_v s = int j"
    using assms(1) k j by (simp_all add: progress_def split_at_def of_nat_diff)
  have "\<exists>p. (if rt_v s = levelVertical s then readL (horizontal s) (int (Suc k) - 1)
             else readL (vertical s) (int j - 1)) = Inr p"
  proof (cases j)
    case 0
    thus ?thesis using readL_filled[OF fh, of k] iv by simp
  next
    case (Suc j')
    thus ?thesis using readL_filled[OF fv, of j'] iv by auto
  qed
  then obtain p where p: "(if rt_v s = levelVertical s then readL (horizontal s) (int (Suc k) - 1)
             else readL (vertical s) (int j - 1)) = Inr p" by blast
  have lh: "Suc k < length (horizontal s)" using at k by (simp add: split_at_def)
  from writeL_filled[OF fh lh] obtain hz where
    hz: "writeL (horizontal s) (int (Suc k)) (level_of ?t (hTemp s) (2 * numSumWire p) (?f * numActiveWire p)) = Inr hz"
      "length hz = length (horizontal s)" "filled (Suc (Suc k)) hz" by blast
  let ?u = "?t\<lparr>horizontal := hz\<rparr>"
  have col: "reduce_hv_column s = Inr (Some ?u)"
    using False p hz(1) sp(2)[OF at]
    by (cases "rt_v s = levelVertical s") (simp_all add: reduce_hv_column_def ih iv split_beta Let_def del: of_nat_Suc)
  have au: "split_at T (Suc k) j ?u" using split_at_update(1)[OF sp(1)[OF at], of hz] hz(2) at by (simp add: split_at_def)
  have u: "rt_h ?u = rt_h s" "rt_v ?u = rt_v s" "vertical ?u = vertical s" "horizontal ?u = hz"
    "levelHorizontal ?u = levelHorizontal s" "levelVertical ?u = levelVertical s"
    using sp(3)[OF at] au at by (simp_all add: split_at_def)
  show ?thesis
  proof (cases "nothing_to_route ?u")
    case True
    hence "bindI (reduce_hv_column s) reduce_hv_row = Inr None" by (simp only: col bindI_simps) (simp add: reduce_hv_row_def)
    thus ?thesis using True au by blast
  next
    case False
    note sp = split_rows_at[OF au assms(2)]
    let ?w = "snd (split_rows ?u)" and ?g = "fst (split_rows ?u)"
    obtain q where q: "readL hz (int (Suc k)) = Inr q" using readL_filled[OF hz(3), of "Suc k"] by auto
    have lv: "j < length (vertical s)" using at j by (simp add: split_at_def)
    from writeL_filled[OF fv lv] obtain vt where
      vt: "writeL (vertical s) (int j) (level_of ?w (if levelHorizontal ?u = 2 then vTemp ?u else 2 * vTemp ?u)
             (2 * numSumWire q) (?g * numActiveWire q)) = Inr vt"
        "length vt = length (vertical s)" "filled (Suc j) vt" by blast
    let ?s' = "?w\<lparr>vertical := vt, rt_h := rt_h ?u - 1, rt_v := rt_v ?u - 1, hTemp := hTemp ?u * 2, vTemp := vTemp ?u * 2\<rparr>"
    have i: "levelHorizontal ?u - rt_h ?u = int (Suc k)" "levelVertical ?u - rt_v ?u = int j"
      unfolding u using ih iv by simp_all
    have "reduce_hv_row ?u = Inr (Some ?s')"
      unfolding reduce_hv_row_def split_beta Let_def i if_not_P[OF False] u(4) q bindR.simps sp(3) u(3) vt(1) ..
    hence "bindI (reduce_hv_column s) reduce_hv_row = Inr (Some ?s')" by (simp only: col bindI_simps)
    moreover have "progress T (Suc k) (Suc j) ?s'"
    proof -
      have "split_at T (Suc k) (Suc j) ?s'"
        using split_at_update(2)[OF sp(1), of vt] vt(2) at by (simp add: split_at_update split_at_def)
      moreover have "min (tr_lh T) (Suc (Suc k)) = Suc (Suc k)" using k by simp
      moreover have "horizontal ?s' = hz" using sp(2) by simp
      moreover have "rt_h ?s' = int (tr_lh T - Suc (Suc k))" "rt_v ?s' = int (tr_lv T - Suc j)"
        using assms(1) k j by (simp_all add: progress_def of_nat_diff)
      ultimately show ?thesis unfolding progress_def using k j hz(3) vt(3) by simp
    qed
    ultimately show ?thesis by blast
  qed
qed

text \<open>The routing gives up only when too few address bits, or no data bits, are left for the
  subarrays.\<close>

definition too_small :: "tree \<Rightarrow> bool" where
  "too_small T \<longleftrightarrow>
     tr_addr T \<le> int (tr_lh T - tr_a T) + int (tr_lv T - tr_b T) \<or>
     tr_dist T div 2 ^ (tr_a T + tr_b T) + tr_bcast T = 0"

lemma nothing_to_route_too_small:
  assumes "split_at T k j s" "nothing_to_route s" "k \<le> tr_lh T" "j \<le> tr_lv T" "tree_ok T" "0 \<le> tr_bcast T"
  shows "too_small T"
proof (cases "addressBits s = 0")
  case True
  thus ?thesis using assms by (auto simp: too_small_def split_at_def)
next
  case False
  let ?n = "min (tr_a T) k + min (tr_b T) j" and ?m = "tr_a T + tr_b T"
  have D: "0 \<le> tr_dist T div 2 ^ ?n" using assms(5) by (simp add: tree_ok_def pos_imp_zdiv_nonneg_iff)
  hence z: "tr_dist T div 2 ^ ?n = 0" "tr_bcast T = 0"
    using False assms(1,2,6) by (simp_all add: nothing_to_route_def split_at_def)
  have "?n \<le> ?m" by simp
  then obtain r where "?m = ?n + r" using le_Suc_ex by blast
  hence "tr_dist T div 2 ^ ?m = tr_dist T div 2 ^ ?n div 2 ^ r" by (simp add: power_add zdiv_zmult2_eq)
  thus ?thesis using z by (simp add: too_small_def)
qed

abbreviation loops_to :: "tree \<Rightarrow> route legal option \<Rightarrow> (route \<Rightarrow> bool) \<Rightarrow> bool" where
  "loops_to T r P \<equiv> (r = Some (Inr None) \<and> too_small T) \<or> (\<exists>s'. r = Some (Inr (Some s')) \<and> P s')"

abbreviation in_progress :: "tree \<Rightarrow> route \<Rightarrow> bool" where
  "in_progress T s \<equiv> \<exists>k j. progress T k j s"

lemma progress_too_small:
  "progress T k j t \<Longrightarrow> nothing_to_route t \<Longrightarrow> tree_ok T \<Longrightarrow> 0 \<le> tr_bcast T \<Longrightarrow> too_small T"
  using nothing_to_route_too_small[of T k j t] by (auto simp: progress_def)

lemma loop_h:
  assumes "in_progress T s" "tree_ok T" "0 \<le> tr_bcast T"
  shows "loops_to T (whileI (\<lambda>s. rt_h s > rt_v s) reduce_h s) (\<lambda>s'. in_progress T s' \<and> \<not> rt_h s' > rt_v s')"
proof -
  have "(whileI (\<lambda>s. rt_h s > rt_v s) reduce_h s = Some (Inr None) \<and> (\<exists>t. in_progress T t \<and> rt_h t > rt_v t \<and> too_small T)) \<or>
      (\<exists>s'. whileI (\<lambda>s. rt_h s > rt_v s) reduce_h s = Some (Inr (Some s')) \<and> in_progress T s' \<and> \<not> rt_h s' > rt_v s')"
  proof (rule whileI_rule[where m = "\<lambda>s. nat (rt_h s)"])
    fix t assume "in_progress T t" and c: "rt_h t > rt_v t"
    then obtain k j where t: "progress T k j t" by blast
    have "progress T (Suc k) j s' \<Longrightarrow> nat (rt_h s') < nat (rt_h t)" for s'
      using t c by (auto simp: progress_def)
    thus "(reduce_h t = Inr None \<and> too_small T) \<or>
        (\<exists>s'. reduce_h t = Inr (Some s') \<and> in_progress T s' \<and> nat (rt_h s') < nat (rt_h t))"
      using reduce_h_progress[OF t assms(2) c] progress_too_small[OF t _ assms(2,3)] by blast
  qed (rule assms(1))
  thus ?thesis by blast
qed

lemma loop_v:
  assumes "in_progress T s" "\<not> rt_h s > rt_v s" "tree_ok T" "0 \<le> tr_bcast T"
  shows "loops_to T (whileI (\<lambda>s. rt_v s > rt_h s) reduce_v s) (\<lambda>s'. in_progress T s' \<and> rt_h s' = rt_v s')"
proof -
  have "(whileI (\<lambda>s. rt_v s > rt_h s) reduce_v s = Some (Inr None) \<and>
        (\<exists>t. (in_progress T t \<and> \<not> rt_h t > rt_v t) \<and> rt_v t > rt_h t \<and> too_small T)) \<or>
      (\<exists>s'. whileI (\<lambda>s. rt_v s > rt_h s) reduce_v s = Some (Inr (Some s')) \<and>
        (in_progress T s' \<and> \<not> rt_h s' > rt_v s') \<and> \<not> rt_v s' > rt_h s')"
  proof (rule whileI_rule[where m = "\<lambda>s. nat (rt_v s)"])
    fix t assume "in_progress T t \<and> \<not> rt_h t > rt_v t" and c: "rt_v t > rt_h t"
    then obtain k j where t: "progress T k j t" by blast
    have "progress T k (Suc j) s' \<Longrightarrow> nat (rt_v s') < nat (rt_v t) \<and> \<not> rt_h s' > rt_v s'" for s'
      using t c by (auto simp: progress_def)
    thus "(reduce_v t = Inr None \<and> too_small T) \<or>
        (\<exists>s'. reduce_v t = Inr (Some s') \<and> (in_progress T s' \<and> \<not> rt_h s' > rt_v s') \<and> nat (rt_v s') < nat (rt_v t))"
      using reduce_v_progress[OF t assms(3) c] progress_too_small[OF t _ assms(3,4)] by blast
  qed (use assms in blast)
  thus ?thesis by (metis linorder_less_linear)
qed

lemma loop_hv:
  assumes "in_progress T s" "rt_h s = rt_v s" "tree_ok T" "0 \<le> tr_bcast T"
  shows "loops_to T (whileI (\<lambda>s. rt_h s > 0) (\<lambda>s. bindI (reduce_hv_column s) reduce_hv_row) s)
           (\<lambda>s'. in_progress T s' \<and> rt_h s' = rt_v s' \<and> \<not> rt_h s' > 0)"
proof -
  let ?body = "\<lambda>s. bindI (reduce_hv_column s) reduce_hv_row"
  have "(whileI (\<lambda>s. rt_h s > 0) ?body s = Some (Inr None) \<and>
        (\<exists>t. (in_progress T t \<and> rt_h t = rt_v t) \<and> rt_h t > 0 \<and> too_small T)) \<or>
      (\<exists>s'. whileI (\<lambda>s. rt_h s > 0) ?body s = Some (Inr (Some s')) \<and>
        (in_progress T s' \<and> rt_h s' = rt_v s') \<and> \<not> rt_h s' > 0)"
  proof (rule whileI_rule[where m = "\<lambda>s. nat (rt_h s)"])
    fix t assume "in_progress T t \<and> rt_h t = rt_v t" and c: "rt_h t > 0"
    then obtain k j where t: "progress T k j t" and eq: "rt_h t = rt_v t" by blast
    have step: "nat (rt_h s') < nat (rt_h t) \<and> rt_h s' = rt_v s'" if "progress T (Suc k) (Suc j) s'" for s'
      using t c eq that by (auto simp: progress_def)
    have "too_small T" if "k' \<le> Suc k" "split_at T k' j u" "nothing_to_route u" for k' u
      using nothing_to_route_too_small[OF that(2,3) _ _ assms(3,4)] that(1) t c by (auto simp: progress_def)
    thus "(?body t = Inr None \<and> too_small T) \<or>
        (\<exists>s'. ?body t = Inr (Some s') \<and> (in_progress T s' \<and> rt_h s' = rt_v s') \<and> nat (rt_h s') < nat (rt_h t))"
      using reduce_hv_progress[OF t assms(3) c eq] step by blast
  qed (use assms in blast)
  thus ?thesis by blast
qed

lemma last_split_result:
  assumes "progress T k j s" "rt_h s = rt_v s" "\<not> rt_h s > 0" "tree_ok T" "0 \<le> tr_bcast T"
  shows "loops_to T (Some (last_split s)) (\<lambda>s'. split_at T (tr_lh T) (tr_lv T) s' \<and>
           filled (tr_lh T) (horizontal s') \<and> filled (tr_lv T) (vertical s'))"
proof (cases "nothing_to_route s")
  case True
  thus ?thesis using progress_too_small[OF assms(1) _ assms(4,5)] by (simp add: last_split_def)
next
  case False
  have j: "j = tr_lv T" and k: "tr_lh T = Suc k \<or> (tr_lh T = 0 \<and> k = 0)"
    using assms(1-3) by (auto simp: progress_def)
  have at: "split_at T k j s" and f: "filled (tr_lh T) (horizontal s)" "filled (tr_lv T) (vertical s)"
    using assms(1) j k by (auto simp: progress_def)
  note sp = split_columns_at[OF at assms(4)]
  show ?thesis
  proof (cases "tr_lh T = 0")
    case True
    hence "tr_a T = 0" using assms(4) by (simp add: tree_ok_def)
    thus ?thesis using True False at f j k by (simp add: last_split_def split_at_def)
  next
    case lh: False
    hence "last_split s = Inr (Some (snd (split_columns s)))"
      using False at by (auto simp: last_split_def split_columns_def split_at_def)
    thus ?thesis using sp f k lh j by auto
  qed
qed

lemma loops_bind:
  assumes "loops_to T m P" "\<And>s. P s \<Longrightarrow> loops_to T (f s) Q"
  shows "loops_to T (bindW m f) Q"
  using assms(1)
proof
  assume "\<exists>s'. m = Some (Inr (Some s')) \<and> P s'"
  then obtain s' where "m = Some (Inr (Some s'))" "P s'" by blast
  thus ?thesis using assms(2)[of s'] by simp
qed simp

lemma htree_routing_result:
  assumes "split_at T 0 0 s" "rt_h s = int (tr_lh T)" "rt_v s = int (tr_lv T)" "tree_ok T" "0 \<le> tr_bcast T"
  shows "loops_to T (htree_routing s) (\<lambda>s'. split_at T (tr_lh T) (tr_lv T) s' \<and>
           filled (tr_lh T) (horizontal s') \<and> filled (tr_lv T) (vertical s'))"
proof -
  note ok = assms(4,5)
  have first: "loops_to T (Some (first_level s)) (in_progress T)"
    using first_level_progress[OF assms(1-3)] nothing_to_route_too_small[OF assms(1) _ _ _ ok] by auto
  show ?thesis unfolding htree_routing_def
  proof (rule loops_bind[OF first])
    fix s1 assume "in_progress T s1"
    note r1 = loop_h[OF this ok]
    show "loops_to T (bindW (whileI (\<lambda>s. rt_h s > rt_v s) reduce_h s1) (\<lambda>s.
        bindW (whileI (\<lambda>s. rt_v s > rt_h s) reduce_v s) (\<lambda>s.
        bindW (whileI (\<lambda>s. rt_h s > 0) (\<lambda>s. bindI (reduce_hv_column s) reduce_hv_row) s) (\<lambda>s. Some (last_split s)))))
      (\<lambda>s'. split_at T (tr_lh T) (tr_lv T) s' \<and> filled (tr_lh T) (horizontal s') \<and> filled (tr_lv T) (vertical s'))"
    proof (rule loops_bind[OF r1], rule loops_bind)
      fix s2 assume "in_progress T s2 \<and> \<not> rt_h s2 > rt_v s2"
      thus "loops_to T (whileI (\<lambda>s. rt_v s > rt_h s) reduce_v s2) (\<lambda>s'. in_progress T s' \<and> rt_h s' = rt_v s')"
        using loop_v[OF _ _ ok] by blast
    next
      fix s3 assume "in_progress T s3 \<and> rt_h s3 = rt_v s3"
      hence r3: "loops_to T (whileI (\<lambda>s. rt_h s > 0) (\<lambda>s. bindI (reduce_hv_column s) reduce_hv_row) s3)
           (\<lambda>s'. in_progress T s' \<and> rt_h s' = rt_v s' \<and> \<not> rt_h s' > 0)" using loop_hv[OF _ _ ok] by blast
      show "loops_to T (bindW (whileI (\<lambda>s. rt_h s > 0) (\<lambda>s. bindI (reduce_hv_column s) reduce_hv_row) s3)
          (\<lambda>s. Some (last_split s)))
        (\<lambda>s'. split_at T (tr_lh T) (tr_lv T) s' \<and> filled (tr_lh T) (horizontal s') \<and> filled (tr_lv T) (vertical s'))"
      proof (rule loops_bind[OF r3])
        fix s4 assume "in_progress T s4 \<and> rt_h s4 = rt_v s4 \<and> \<not> rt_h s4 > 0"
        then obtain k j where "progress T k j s4" "rt_h s4 = rt_v s4" "\<not> rt_h s4 > 0" by blast
        thus "loops_to T (Some (last_split s4)) (\<lambda>s'. split_at T (tr_lh T) (tr_lv T) s' \<and>
            filled (tr_lh T) (horizontal s') \<and> filled (tr_lv T) (vertical s'))"
          by (rule last_split_result[OF _ _ _ ok])
      qed
    qed
  qed
qed

text \<open>
  C19. The H-tree routing always ends, stays inside its arrays, and never reads a level before
  it is written; when it does not give up because too few address or data bits are left, every
  level of both directions has been routed, every subarray gets the address bits that remain
  after one bit per inactive half, and the data bits are divided by the number of active
  subarrays.
\<close>
theorem htree_routing_safe:
  assumes "a \<le> lh" "b \<le> lv" "0 \<le> dbits" "0 \<le> bcast"
  shows "htree_routing (new_route (int lh) (int lv) addr (dbits, bcast) (2 ^ a) (2 ^ b)) = Some (Inr None) \<and>
      (addr \<le> int (lh - a) + int (lv - b) \<or> dbits div 2 ^ (a + b) + bcast = 0) \<or>
    (\<exists>s. htree_routing (new_route (int lh) (int lv) addr (dbits, bcast) (2 ^ a) (2 ^ b)) = Some (Inr (Some s)) \<and>
      length (horizontal s) = lh \<and> None \<notin> set (horizontal s) \<and> length (vertical s) = lv \<and> None \<notin> set (vertical s) \<and>
      addressBits s = addr - int (lh - a) - int (lv - b) \<and> distributeBits s = dbits div 2 ^ (a + b) \<and>
      broadcastBits s = bcast)"
proof -
  let ?T = "\<lparr>tr_lh = lh, tr_lv = lv, tr_a = a, tr_b = b, tr_addr = addr, tr_dist = dbits, tr_bcast = bcast\<rparr>"
  let ?s = "new_route (int lh) (int lv) addr (dbits, bcast) (2 ^ a) (2 ^ b)"
  have "split_at ?T 0 0 ?s" "rt_h ?s = int (tr_lh ?T)" "rt_v ?s = int (tr_lv ?T)" "tree_ok ?T" "0 \<le> tr_bcast ?T"
    using assms by (simp_all add: split_at_def new_route_def tree_ok_def)
  from htree_routing_result[OF this] show ?thesis
    using assms by (auto simp: too_small_def split_at_def filled_def in_set_conv_nth min_absorb1)
qed

theorem htree_routing_safe_witness:
  "(\<exists>s. htree_routing (new_route 2 1 10 (64, 0) 2 2) = Some (Inr (Some s)) \<and>
      addressBits s = 9 \<and> distributeBits s = 16)"
  using htree_routing_safe[of 1 2 1 1 64 0 10] by auto

end
