(* ===== verification/Bank_Capacity.thy ===== *)
theory Bank_Capacity
  imports Bank_Props Explore_Props
begin

text \<open>
  Powers of two: the sizes of a design as exponents, the agreement of the two bank
  organisations, and the capacity of an accepted design.
\<close>

unbundle bit_operations_syntax

section \<open>Powers of two\<close>

lemma isPow2_iff: "isPow2 n \<longleftrightarrow> (\<exists>k. n = 2 ^ k)"
proof (cases "n < 1")
  case True
  have "n \<noteq> 2 ^ k" for k :: nat using True one_le_power[of "2 :: int" k] by linarith
  thus ?thesis using True by (simp add: isPow2_def)
next
  case False
  then obtain m where m: "n = int m" "0 < m" by (metis zero_less_imp_eq_int not_less int_one_le_iff_zero_less)
  have "n AND (n - 1) = int (m AND (m - 1))" using m by (simp add: of_nat_and_eq of_nat_diff)
  hence "isPow2 n \<longleftrightarrow> isPowerOf2 m" using False m by (simp add: isPow2_def isPowerOf2_def)
  also have "\<dots> \<longleftrightarrow> (\<exists>k. n = 2 ^ k)"
    unfolding isPowerOf2_iff m by (metis of_nat_eq_iff of_nat_numeral of_nat_power)
  finally show ?thesis .
qed

lemma power_div: "(2 :: int) ^ a div 2 ^ b = (if b \<le> a then 2 ^ (a - b) else 0)"
proof (cases "b \<le> a")
  case True
  thus ?thesis by (simp add: power_diff)
next
  case False
  thus ?thesis by (simp add: div_pos_pos_trivial)
qed

lemma log2R_power [simp]: "log2R (2 ^ n) = Inr (int n)"
  by (simp add: log2R_def not_le)

lemma log2R_le_one: "0 < x \<Longrightarrow> x \<le> 1 \<Longrightarrow> \<exists>n \<le> 0. log2R x = Inr n"
proof -
  assume x: "0 < x" "x \<le> 1"
  hence "log 2 x \<le> 0" by (simp add: log_le_zero_cancel_iff)
  hence "ilog2 x \<le> 0" by (auto simp: ilog2_def c_trunc_def floor_le_iff ceiling_le_iff)
  thus ?thesis using x by (simp add: log2R_def)
qed

lemma divR_pos [simp]: "0 \<le> a \<Longrightarrow> 0 < b \<Longrightarrow> divR a b = Inr (a div b)"
  by (simp add: divR_def)

lemma gating_bits_power:
  assumes "ac \<le> r" "ar \<le> c"
  shows "gating_bits (2 ^ r) (2 ^ c) (2 ^ ac) (2 ^ ar) = Inr (int (r + c - ac - ar))"
proof -
  have e: "(2 :: int) ^ r * 2 ^ c = 2 ^ (r + c)" by (simp add: power_add)
  have le: "ac \<le> r + c" "ar \<le> r + c - ac" using assms by simp_all
  have "divR (2 ^ (r + c)) (2 ^ ac) = Inr (2 ^ (r + c - ac))" "divR (2 ^ (r + c - ac)) (2 ^ ar) = Inr (2 ^ (r + c - ac - ar))"
    using le power_div[of "r + c" ac] power_div[of "r + c - ac" ar] by simp_all
  thus ?thesis unfolding gating_bits_def e by simp
qed

lemma at_most_le: "a \<le> b \<Longrightarrow> at_most a b = a"
  by (simp add: at_most_def)

lemma address_bits_power:
  assumes "0 < blk"
  shows "address_bits (2 ^ s * blk) blk (2 ^ w) (2 ^ t) = Inr (int (s - w - t)) \<and> w + t \<le> s \<or>
    (\<exists>n \<le> 0. address_bits (2 ^ s * blk) blk (2 ^ w) (2 ^ t) = Inr n)"
proof -
  let ?x = "(2 :: real) ^ s / 2 ^ w / 2 ^ t"
  have "of_int (2 ^ s * blk) / of_int blk / of_int (2 ^ w) = (2 :: real) ^ s / 2 ^ w" using assms by simp
  hence e: "address_bits (2 ^ s * blk) blk (2 ^ w) (2 ^ t) = log2R ?x"
    using assms by (cases "t = 0") (simp_all add: address_bits_def one_less_power)
  show ?thesis
  proof (cases "w + t \<le> s")
    case True
    hence "?x = 2 ^ (s - w - t)" using power_diff[of "2 :: real" w s] power_diff[of "2 :: real" t "s - w"] by simp
    thus ?thesis using e True by simp
  next
    case False
    hence "(2 :: real) ^ s \<le> 2 ^ (w + t)" by (simp add: power_increasing)
    hence "0 < ?x" "?x \<le> 1" by (simp_all add: power_add divide_le_eq)
    thus ?thesis using log2R_le_one[of ?x] unfolding e by blast
  qed
qed

section \<open>Multiplexing\<close>

definition mux_exp :: "int \<times> int \<times> int \<Rightarrow> nat \<Rightarrow> bool" where
  "mux_exp mux m \<longleftrightarrow> (\<exists>m1 m2 m3. mux = (2 ^ m1, 2 ^ m2, 2 ^ m3) \<and> m = m1 + m2 + m3)"

lemma mux_expI: "mux = (2 ^ m1, 2 ^ m2, 2 ^ m3) \<Longrightarrow> m = m1 + m2 + m3 \<Longrightarrow> mux_exp mux m"
  by (auto simp: mux_exp_def)

lemma way_muxes_exp:
  assumes "mux_exp mux m"
  shows "mux_exp (way_muxes dram (2 ^ w) mux) (m + w)"
proof -
  obtain m1 m2 m3 where m: "mux = (2 ^ m1, 2 ^ m2, 2 ^ m3)" "m = m1 + m2 + m3" using assms by (auto simp: mux_exp_def)
  have half: "pow2 (c_div (int w) 2) = 2 ^ (w div 2)" and third: "pow2 (c_div (int w) 3) = 2 ^ (w div 3)"
    by (simp_all add: pow2_def nat_div_distrib)
  have "w div 3 \<le> w" "w div 3 \<le> w - w div 3" "w div 2 \<le> w" by linarith+
  hence "c_div (c_div (2 ^ w) (2 ^ (w div 3))) (2 ^ (w div 3)) = 2 ^ (w - w div 3 - w div 3)"
    "c_div (2 ^ w) (2 ^ (w div 2)) = 2 ^ (w - w div 2)" by (simp_all add: power_div)
  note divs = this
  have lg: "ilog2 (real_of_int (2 ^ w)) = int w" by simp
  show ?thesis
  proof (cases "w = 0")
    case True
    thus ?thesis using assms m by (simp add: way_muxes_def)
  next
    case False
    hence "(1 :: int) < 2 ^ w" by (simp add: power_gt_one_iff)
    hence e: "way_muxes dram (2 ^ w) mux =
        (if dram then (2 ^ m1, 2 ^ (m2 + (w - w div 2)), 2 ^ (m3 + w div 2))
         else (2 ^ (m1 + (w - w div 3 - w div 3)), 2 ^ (m2 + w div 3), 2 ^ (m3 + w div 3)))"
      unfolding way_muxes_def m(1) split lg half third Let_def divs power_add by simp
    have s: "m + w = m1 + (m2 + (w - w div 2)) + (m3 + w div 2)"
      "m + w = m1 + (w - w div 3 - w div 3) + (m2 + w div 3) + (m3 + w div 3)"
      unfolding m(2) by linarith+
    show ?thesis
    proof (cases dram)
      case True
      show ?thesis using e True by (intro mux_expI[OF _ s(1)]) (simp only: if_True)
    next
      case False
      show ?thesis using e False by (intro mux_expI[OF _ s(2)]) (simp only: if_False)
    qed
  qed
qed

section \<open>Subarrays\<close>

lemma subarray_predecoders_size:
  "subarray_predecoders r c addr mux = Inr (Some sub) \<Longrightarrow> sa_numRow sub = r \<and> sa_numColumn sub = c"
  by (cases mux) (auto simp: subarray_predecoders_def Let_def fault_simps split: if_splits)

lemma SubArray_size:
  assumes "SubArray_Initialize mat_ok ip cell (2 ^ r) (2 ^ c) n db numWay (2 ^ ar) (2 ^ ac) mux internal mt = Inr (Some sub)"
    and "ar \<le> c" "ac \<le> r" "mux_exp mux m" "0 \<le> db" "0 < numWay"
  shows "\<exists>q. n = int (q + (r + c - ac - ar)) \<and> 0 < q \<and>
    sa_numRow sub = (if mt = MT_data then 2 ^ q * numWay else 2 ^ q) div 2 ^ m \<and> sa_numRow sub \<noteq> 0 \<and>
    sa_numColumn sub = db div 2 ^ (ar + ac) * 2 ^ m * (if mt = MT_tag then numWay else 1) \<and> db div 2 ^ (ar + ac) \<noteq> 0"
proof -
  obtain m1 m2 m3 where m: "mux = (2 ^ m1, 2 ^ m2, 2 ^ m3)" "m = m1 + m2 + m3" using assms(4) by (auto simp: mux_exp_def)
  have mm: "(2 :: int) ^ m1 * 2 ^ m2 * 2 ^ m3 = 2 ^ m" "(2 :: int) ^ ar * 2 ^ ac = 2 ^ (ar + ac)"
    by (simp_all add: m(2) power_add)
  have le: "at_most (2 ^ ar) (2 ^ c) = 2 ^ ar" "at_most (2 ^ ac) (2 ^ r) = 2 ^ ac"
    using assms(2,3) by (simp_all add: at_most_le power_increasing)
  let ?addr = "n - int (r + c - ac - ar)"
  note run = assms(1)[unfolded SubArray_Initialize_def m(1) split Let_def le gating_bits_power[OF assms(3,2)] bindR.simps mm]
  have pos: "0 < ?addr" using run by (auto split: if_splits)
  obtain x where x: "shl1 ?addr = Inr x" using run pos by (cases "shl1 ?addr") auto
  define q where "q = nat ?addr"
  have x2: "x = 2 ^ q" using x by (simp add: shl1_def q_def split: if_splits)
  have n: "n = int (q + (r + c - ac - ar))" using pos by (simp add: q_def)
  let ?row = "(if mt = MT_data then 2 ^ q * numWay else 2 ^ q) :: int"
  have row: "divR ?row (2 ^ m) = Inr (?row div 2 ^ m)" and col: "divR db (2 ^ (ar + ac)) = Inr (db div 2 ^ (ar + ac))"
    using assms(5,6) by simp_all
  have "\<not> ?addr \<le> 0" using pos by simp
  note run2 = run[unfolded if_not_P[OF this] x bindR.simps x2 row col]
  have z: "?row div 2 ^ m \<noteq> 0" "db div 2 ^ (ar + ac) \<noteq> 0" using run2 by (auto split: if_splits)
  have "subarray_predecoders (?row div 2 ^ m) (db div 2 ^ (ar + ac) * 2 ^ m * (if mt = MT_tag then numWay else 1))
      ?addr (2 ^ m1, 2 ^ m2, 2 ^ m3) = Inr (Some sub)"
    using run2 z by (auto simp: fault_simps simp del: of_nat_diff split: if_split_asm)
  moreover have "0 < q" using pos by (simp add: q_def)
  ultimately show ?thesis using subarray_predecoders_size z n by auto
qed

lemma SubArray_no_address:
  assumes "ar \<le> c" "ac \<le> r" "n \<le> 0"
  shows "SubArray_Initialize mat_ok ip cell (2 ^ r) (2 ^ c) n db numWay (2 ^ ar) (2 ^ ac) mux internal mt = Inr None"
proof -
  have le: "at_most (2 ^ ar) (2 ^ c) = 2 ^ ar" "at_most (2 ^ ac) (2 ^ r) = 2 ^ ac"
    using assms(1,2) by (simp_all add: at_most_le power_increasing)
  have "n - int (r + c - ac - ar) \<le> 0" using assms(3) by simp
  thus ?thesis
    by (cases mux) (simp only: SubArray_Initialize_def split Let_def le gating_bits_power[OF assms(2,1)] bindR.simps if_True)
qed

section \<open>Designs\<close>

definition pow2_design :: "design \<Rightarrow> bool" where
  "pow2_design d \<longleftrightarrow>
     isPow2 (d_numRowSubArray d) \<and> isPow2 (d_numColumnSubArray d) \<and> isPow2 (d_stackedDieCount d) \<and>
     isPow2 (d_numActiveSubArrayPerRow d) \<and> isPow2 (d_numActiveSubArrayPerColumn d) \<and>
     isPow2 (d_numRowMat d) \<and> isPow2 (d_numColumnMat d) \<and>
     isPow2 (d_numActiveMatPerRow d) \<and> isPow2 (d_numActiveMatPerColumn d) \<and>
     isPow2 (d_muxSenseAmp d) \<and> isPow2 (d_muxOutputLev1 d) \<and> isPow2 (d_muxOutputLev2 d) \<and>
     isPow2 (d_numRowPerSet d) \<and>
     d_numActiveSubArrayPerRow d \<le> d_numColumnSubArray d \<and> d_numActiveSubArrayPerColumn d \<le> d_numRowSubArray d \<and>
     d_numActiveMatPerRow d \<le> d_numColumnMat d \<and> d_numActiveMatPerColumn d \<le> d_numRowMat d"

text \<open>The exponents of a design.\<close>

record exponents =
  e_r :: nat
  e_c :: nat
  e_t :: nat
  e_ar :: nat
  e_ac :: nat
  e_mr :: nat
  e_mc :: nat
  e_mar :: nat
  e_mac :: nat
  e_p :: nat
  e_m :: nat

definition has_exponents :: "design \<Rightarrow> exponents \<Rightarrow> bool" where
  "has_exponents d e \<longleftrightarrow>
     d_numRowSubArray d = 2 ^ e_r e \<and> d_numColumnSubArray d = 2 ^ e_c e \<and> d_stackedDieCount d = 2 ^ e_t e \<and>
     d_numActiveSubArrayPerRow d = 2 ^ e_ar e \<and> d_numActiveSubArrayPerColumn d = 2 ^ e_ac e \<and>
     d_numRowMat d = 2 ^ e_mr e \<and> d_numColumnMat d = 2 ^ e_mc e \<and>
     d_numActiveMatPerRow d = 2 ^ e_mar e \<and> d_numActiveMatPerColumn d = 2 ^ e_mac e \<and>
     d_numRowPerSet d = 2 ^ e_p e \<and> mux_exp (mux_of d) (e_m e) \<and>
     e_ar e \<le> e_c e \<and> e_ac e \<le> e_r e \<and> e_mar e \<le> e_mc e \<and> e_mac e \<le> e_mr e"

lemma pow2_design_exponents: "pow2_design d \<Longrightarrow> \<exists>e. has_exponents d e"
proof -
  assume p: "pow2_design d"
  obtain r c t ar ac mr mc mar mac m1 m2 m3 p' where
    v: "d_numRowSubArray d = 2 ^ r" "d_numColumnSubArray d = 2 ^ c" "d_stackedDieCount d = 2 ^ t"
      "d_numActiveSubArrayPerRow d = 2 ^ ar" "d_numActiveSubArrayPerColumn d = 2 ^ ac"
      "d_numRowMat d = 2 ^ mr" "d_numColumnMat d = 2 ^ mc" "d_numActiveMatPerRow d = 2 ^ mar"
      "d_numActiveMatPerColumn d = 2 ^ mac" "d_muxSenseAmp d = 2 ^ m1" "d_muxOutputLev1 d = 2 ^ m2"
      "d_muxOutputLev2 d = 2 ^ m3" "d_numRowPerSet d = 2 ^ p'"
    using p unfolding pow2_design_def isPow2_iff by (elim conjE exE) blast
  have "ar \<le> c" "ac \<le> r" "mar \<le> mc" "mac \<le> mr" using p v by (simp_all add: pow2_design_def)
  hence "has_exponents d \<lparr>e_r = r, e_c = c, e_t = t, e_ar = ar, e_ac = ac, e_mr = mr, e_mc = mc,
      e_mar = mar, e_mac = mac, e_p = p', e_m = m1 + m2 + m3\<rparr>"
    using v by (auto simp: has_exponents_def mux_of_def mux_exp_def)
  thus ?thesis by blast
qed

text \<open>The shape of an array: a data array has a power of two of bits in blocks of a power of
  two, a tag array a power of two of blocks that split evenly over the active mats.\<close>

definition array_shape :: "MemoryType \<Rightarrow> int \<Rightarrow> int \<Rightarrow> design \<Rightarrow> bool" where
  "array_shape mt cap blk d \<longleftrightarrow>
     (case mt of
        MT_data \<Rightarrow> isPow2 cap \<and> isPow2 blk \<and> active_product d \<le> blk
      | MT_tag \<Rightarrow> 0 < blk \<and> active_product d dvd blk \<and> blk dvd cap \<and> isPow2 (cap div blk)
      | MT_CAM \<Rightarrow> False)"

lemma div_power_le_one: "0 < x \<Longrightarrow> x \<le> 1 \<Longrightarrow> 0 < x / 2 ^ n \<and> x / 2 ^ n \<le> (1 :: real)"
proof -
  assume x: "0 < x" "x \<le> 1"
  have "x \<le> 2 ^ n" using x one_le_power[of "2 :: real" n] by linarith
  thus ?thesis using x by (simp add: divide_le_eq)
qed

lemma address_bits_small:
  assumes "0 < cap" "cap \<le> blk"
  shows "\<exists>n \<le> 0. address_bits cap blk (2 ^ w) (2 ^ t) = Inr n"
proof -
  let ?x = "of_int cap / of_int blk / 2 ^ w :: real"
  have "0 < of_int cap / (of_int blk :: real)" "of_int cap / (of_int blk :: real) \<le> 1" using assms by simp_all
  from div_power_le_one[OF this] have x: "0 < ?x" "?x \<le> 1" by simp_all
  from div_power_le_one[OF this] have y: "0 < ?x / 2 ^ t" "?x / 2 ^ t \<le> 1" by simp_all
  have "address_bits cap blk (2 ^ w) (2 ^ t) = log2R (if t = 0 then ?x else ?x / 2 ^ t)"
    using assms by (cases "t = 0") (simp_all add: address_bits_def one_less_power)
  thus ?thesis using log2R_le_one[OF x] log2R_le_one[OF y] by simp
qed

lemma array_address_bits:
  assumes "array_shape mt cap blk d"
  shows "0 < blk \<and>
    (mt = MT_data \<and> (\<exists>k x. cap = 2 ^ k \<and> blk = 2 ^ x) \<or> mt = MT_tag \<and> active_product d dvd blk) \<and>
    ((\<exists>s. cap = 2 ^ s * blk \<and> w + t \<le> s \<and> address_bits cap blk (2 ^ w) (2 ^ t) = Inr (int (s - w - t))) \<or>
     (\<exists>n \<le> 0. address_bits cap blk (2 ^ w) (2 ^ t) = Inr n))"
proof (cases mt)
  case MT_data
  then obtain k x where c: "cap = 2 ^ k" "blk = 2 ^ x" using assms by (auto simp: array_shape_def isPow2_iff)
  show ?thesis
  proof (cases "x \<le> k")
    case True
    hence e: "cap = 2 ^ (k - x) * blk" unfolding c by (simp add: power_add[symmetric])
    have pos: "0 < blk" unfolding c by simp
    show ?thesis using address_bits_power[OF pos, of "k - x" w t, folded e] MT_data c e pos by blast
  next
    case False
    hence "cap \<le> blk" unfolding c by (simp add: power_increasing)
    thus ?thesis using address_bits_small[of cap blk w t] MT_data c by auto
  qed
next
  case MT_tag
  then obtain s where s: "0 < blk" "active_product d dvd blk" "cap div blk = 2 ^ s" "blk dvd cap"
    using assms by (auto simp: array_shape_def isPow2_iff)
  hence e: "cap = 2 ^ s * blk" by (metis dvd_div_mult_self)
  show ?thesis using address_bits_power[OF s(1), of s w t, folded e] MT_tag s e by blast
qed (use assms in \<open>simp add: array_shape_def\<close>)

text \<open>What \<^verbatim>\<open>Initialize\<close> stores of a design in the bank.\<close>

definition stores :: "design \<Rightarrow> subarray \<Rightarrow> bank \<Rightarrow> bool" where
  "stores d sub b \<longleftrightarrow>
     numRowSubArray b = d_numRowSubArray d \<and> numColumnSubArray b = d_numColumnSubArray d \<and>
     numRowMat b = d_numRowMat d \<and> numColumnMat b = d_numColumnMat d \<and>
     mat_numRow (bank_mat b) = sa_numRow sub \<and> mat_numColumn (bank_mat b) = sa_numColumn sub"

lemma sum_exponents:
  fixes r c mr mc ac ar mac mar n q :: nat
  assumes "ac \<le> r" "ar \<le> c" "mac \<le> mr" "mar \<le> mc"
    and "int n - int ((r - ac) + (c - ar)) = int (q + ((mr - mac) + (mc - mar)))"
  shows "n + ac + ar + mac + mar = q + r + c + mr + mc"
  using assms by (simp add: of_nat_diff)

lemma subarray_capacity_data:
  assumes "SubArray_Initialize mat_ok ip cell (2 ^ mr) (2 ^ mc) (int (k - x - w - t) - int (r + c - ac - ar))
      (2 ^ x div 2 ^ (ar + ac)) (2 ^ w) (2 ^ mar) (2 ^ mac) mux internal MT_data = Inr (Some sub)"
    and "mar \<le> mc" "mac \<le> mr" "ar \<le> c" "ac \<le> r" "mux_exp mux m" "x + w + t \<le> k"
  shows "sa_numColumn sub * sa_numRow sub * 2 ^ c * 2 ^ r * 2 ^ mc * 2 ^ mr * 2 ^ t = 2 ^ k"
proof -
  have db: "0 \<le> (2 :: int) ^ x div 2 ^ (ar + ac)" and nw: "0 < (2 :: int) ^ w" by (simp_all add: pos_imp_zdiv_nonneg_iff)
  obtain q where q: "int (k - x - w - t) - int (r + c - ac - ar) = int (q + (mr + mc - mac - mar))"
    "sa_numRow sub = 2 ^ q * 2 ^ w div 2 ^ m" "sa_numRow sub \<noteq> 0"
    "sa_numColumn sub = 2 ^ x div 2 ^ (ar + ac) div 2 ^ (mar + mac) * 2 ^ m"
    "(2 :: int) ^ x div 2 ^ (ar + ac) div 2 ^ (mar + mac) \<noteq> 0"
    using SubArray_size[OF assms(1,2,3,6) db nw, unfolded if_not_P[OF MemoryType.distinct(1)] if_P[OF refl] mult_1_right]
    by (elim exE conjE) (rule that)
  have row: "m \<le> q + w" "sa_numRow sub = 2 ^ (q + w - m)"
    using q(2,3) unfolding power_add[symmetric] power_div by (auto split: if_splits)
  have col: "ar + ac \<le> x" "mar + mac \<le> x - (ar + ac)"
    "sa_numColumn sub = 2 ^ (x - (ar + ac) - (mar + mac)) * 2 ^ m"
    using q(4,5) by (auto simp: power_div split: if_splits)
  have g: "r + c - ac - ar = (r - ac) + (c - ar)" "mr + mc - mac - mar = (mr - mac) + (mc - mar)" using assms(2-5) by simp_all
  define n u y where "n = k - x - w - t" and "u = q + w - m" and "y = x - (ar + ac) - (mar + mac)"
  have "k = x + w + t + n" "q + w = m + u" "x = ar + ac + (mar + mac) + y"
    using assms(7) row(1) col(1,2) by (simp_all add: n_def u_def y_def)
  moreover have "n + ac + ar + mac + mar = q + r + c + mr + mc"
    by (rule sum_exponents[OF assms(5,4,3,2) q(1)[unfolded g, folded n_def]])
  ultimately have k: "k = y + m + u + c + r + mc + mr + t" by linarith
  have "sa_numColumn sub * sa_numRow sub * 2 ^ c * 2 ^ r * 2 ^ mc * 2 ^ mr * 2 ^ t =
      2 ^ (y + m + u + c + r + mc + mr + t)"
    unfolding row(2) col(3) u_def[symmetric] y_def[symmetric] by (simp only: power_add)
  thus ?thesis by (simp only: k[symmetric])
qed

lemma subarray_capacity_tag:
  assumes "SubArray_Initialize mat_ok ip cell (2 ^ mr) (2 ^ mc) (int (s - w - t) - int (r + c - ac - ar))
      blk (2 ^ w div 2 ^ (ar + ac)) (2 ^ mar) (2 ^ mac) mux internal MT_tag = Inr (Some sub)"
    and "mar \<le> mc" "mac \<le> mr" "ar \<le> c" "ac \<le> r" "mux_exp mux m" "w + t \<le> s" "0 < blk" "2 ^ (mar + mac) dvd blk"
    and way: "1 \<le> (2 :: int) ^ w div 2 ^ (ar + ac)"
  shows "sa_numColumn sub * sa_numRow sub * 2 ^ c * 2 ^ r * 2 ^ mc * 2 ^ mr * 2 ^ t = 2 ^ s * blk"
proof -
  have w: "ar + ac \<le> w" "(2 :: int) ^ w div 2 ^ (ar + ac) = 2 ^ (w - (ar + ac))"
    using way by (auto simp: power_div split: if_splits)
  have db: "0 \<le> blk" and nw: "0 < (2 :: int) ^ w div 2 ^ (ar + ac)" using assms(8) way by simp_all
  obtain q where q: "int (s - w - t) - int (r + c - ac - ar) = int (q + (mr + mc - mac - mar))"
    "sa_numRow sub = 2 ^ q div 2 ^ m" "sa_numRow sub \<noteq> 0"
    "sa_numColumn sub = blk div 2 ^ (mar + mac) * 2 ^ m * 2 ^ (w - (ar + ac))"
    using SubArray_size[OF assms(1,2,3,6) db nw, unfolded if_not_P[OF MemoryType.distinct(2)] if_P[OF refl] w(2)]
    by (elim exE conjE) (rule that)
  have row: "m \<le> q" "sa_numRow sub = 2 ^ (q - m)" using q(2,3) by (auto simp: power_div split: if_splits)
  have b: "blk = blk div 2 ^ (mar + mac) * 2 ^ (mar + mac)" using assms(9) by simp
  have g: "r + c - ac - ar = (r - ac) + (c - ar)" "mr + mc - mac - mar = (mr - mac) + (mc - mar)" using assms(2-5) by simp_all
  define n u y where "n = s - w - t" and "u = q - m" and "y = w - (ar + ac)"
  have "s = w + t + n" "q = m + u" "w = ar + ac + y" using assms(7) row(1) w(1) by (simp_all add: n_def u_def y_def)
  moreover have "n + ac + ar + mac + mar = q + r + c + mr + mc"
    by (rule sum_exponents[OF assms(5,4,3,2) q(1)[unfolded g, folded n_def]])
  ultimately have e: "s + (mar + mac) = m + y + u + c + r + mc + mr + t" by linarith
  have "sa_numColumn sub * sa_numRow sub * 2 ^ c * 2 ^ r * 2 ^ mc * 2 ^ mr * 2 ^ t =
      blk div 2 ^ (mar + mac) * 2 ^ (m + y + u + c + r + mc + mr + t)"
    unfolding q(4) row(2) u_def[symmetric] y_def[symmetric] power_add by (simp only: ac_simps)
  also have "\<dots> = 2 ^ s * (blk div 2 ^ (mar + mac) * 2 ^ (mar + mac))"
    unfolding e[symmetric] power_add by (simp only: ac_simps)
  finally show ?thesis using b by simp
qed

section \<open>The two bank organisations\<close>

lemma exponents_active:
  assumes "has_exponents d e"
  shows "at_most (d_numActiveSubArrayPerRow d) (d_numColumnSubArray d) = 2 ^ e_ar e"
    "at_most (d_numActiveSubArrayPerColumn d) (d_numRowSubArray d) = 2 ^ e_ac e"
    "at_most (d_numActiveMatPerRow d) (d_numColumnMat d) = 2 ^ e_mar e"
    "at_most (d_numActiveMatPerColumn d) (d_numRowMat d) = 2 ^ e_mac e"
  using assms by (simp_all add: has_exponents_def at_most_le power_increasing)

abbreviation sub_of :: "(int \<Rightarrow> int \<Rightarrow> bool) \<Rightarrow> input_parameter \<Rightarrow> 'x mem_cell_scheme \<Rightarrow> bool \<Rightarrow> MemoryType \<Rightarrow> exponents
    \<Rightarrow> int \<Rightarrow> int \<Rightarrow> int \<Rightarrow> int \<times> int \<times> int \<Rightarrow> subarray legal" where
  "sub_of mat_ok ip cell internal mt e n db numWay mux \<equiv>
     SubArray_Initialize mat_ok ip cell (2 ^ e_mr e) (2 ^ e_mc e) n db numWay (2 ^ e_mar e) (2 ^ e_mac e) mux internal mt"

text \<open>The subarray that both organisations build when a subarray has \<open>n\<close> address bits.\<close>

definition common_subarray :: "(int \<Rightarrow> int \<Rightarrow> bool) \<Rightarrow> input_parameter \<Rightarrow> 'x mem_cell_scheme \<Rightarrow> bool \<Rightarrow> MemoryType
    \<Rightarrow> int \<Rightarrow> int \<Rightarrow> nat \<Rightarrow> design \<Rightarrow> exponents \<Rightarrow> subarray legal" where
  "common_subarray mat_ok ip cell internal mt n blk w d e =
     (if mt = MT_data then
        if d_numRowPerSet d > 2 ^ w then Inr None
        else sub_of mat_ok ip cell internal mt e n (blk div 2 ^ (e_ar e + e_ac e)) (2 ^ w)
               (way_muxes (is_dram cell) (2 ^ w div 2 ^ e_p e) (mux_of d))
      else if d_numRowPerSet d > 1 \<or> (2 :: int) ^ w div 2 ^ (e_ar e + e_ac e) = 0 then Inr None
      else sub_of mat_ok ip cell internal mt e n blk (2 ^ w div 2 ^ (e_ar e + e_ac e)) (mux_of d))"

lemma common_no_address:
  assumes "has_exponents d e" "n \<le> 0"
  shows "common_subarray mat_ok ip cell internal mt n blk w d e = Inr None"
proof -
  have "e_mar e \<le> e_mc e" "e_mac e \<le> e_mr e" using assms(1) by (simp_all add: has_exponents_def)
  thus ?thesis unfolding common_subarray_def SubArray_no_address[OF \<open>e_mar e \<le> e_mc e\<close> \<open>e_mac e \<le> e_mr e\<close> assms(2)] by simp
qed

lemma div_div_power: "0 \<le> a \<Longrightarrow> (a :: int) div 2 ^ m div 2 ^ n = a div 2 ^ (n + m)"
  by (simp add: zdiv_zmult2_eq power_add mult.commute)

lemma divR_div_power:
  "0 \<le> a \<Longrightarrow> bindR (divR a (2 ^ m)) (\<lambda>x. bindR (divR x (2 ^ n)) f) = f (a div 2 ^ (n + m))"
  by (simp add: div_div_power[symmetric] pos_imp_zdiv_nonneg_iff)

lemma plain_bank:
  assumes "has_exponents d e" "mt \<noteq> MT_CAM" "0 \<le> blk" "address_bits cap blk (2 ^ w) (2 ^ e_t e) = Inr A"
    and "\<not> (\<not> internal \<and> (is_dram cell \<or> wireRepeaterType gw \<noteq> repeater_num repeated_none))"
  shows "BankWithoutHtree_Initialize mat_ok outer_ok ip cell gw internal mt cap blk (2 ^ w) d =
    bindI (common_subarray mat_ok ip cell internal mt
             (A - int (e_r e + e_c e - e_ac e - e_ar e)) blk w d e)
      (\<lambda>s. Inr (if outer_ok s then Some s else None))"
proof -
  have x: "d_numRowSubArray d = 2 ^ e_r e" "d_numColumnSubArray d = 2 ^ e_c e" "d_stackedDieCount d = 2 ^ e_t e"
    "d_numRowMat d = 2 ^ e_mr e" "d_numColumnMat d = 2 ^ e_mc e" "d_numRowPerSet d = 2 ^ e_p e"
    "e_ac e \<le> e_r e" "e_ar e \<le> e_c e"
    using assms(1) by (simp_all add: has_exponents_def)
  note act = exponents_active[OF assms(1), unfolded x(1-6)]
  have g: "gating_bits (2 ^ e_r e) (2 ^ e_c e) (2 ^ e_ac e) (2 ^ e_ar e) = Inr (int (e_r e + e_c e - e_ac e - e_ar e))"
    by (rule gating_bits_power[OF x(7,8)])
  have way: "(2 :: int) ^ w div 2 ^ n < 1 \<longleftrightarrow> (2 :: int) ^ w div 2 ^ n = 0" for n
    using pos_imp_zdiv_nonneg_iff[of "2 ^ n" "(2 :: int) ^ w"] by auto
  have w: "0 \<le> (2 :: int) ^ w" "divR (2 ^ w) (2 ^ e_p e) = Inr (2 ^ w div 2 ^ e_p e)" by simp_all
  show ?thesis
  proof (cases mt)
    case MT_data
    thus ?thesis
      unfolding BankWithoutHtree_Initialize_def if_not_P[OF assms(5)] x(1-6) act assms(4) bindR.simps Let_def g
        common_subarray_def MT_data MemoryType.case if_P[OF refl] divR_div_power[OF assms(3)] w(2)
      by (simp only: if_distrib[of "\<lambda>m. bindI m f" for f] bindI_simps)
  next
    case MT_tag
    thus ?thesis
      unfolding BankWithoutHtree_Initialize_def if_not_P[OF assms(5)] x(1-6) act assms(4) bindR.simps Let_def g
        common_subarray_def MT_tag MemoryType.case if_not_P[OF MemoryType.distinct(2)] divR_div_power[OF w(1)] way
      by (cases "(2 :: int) ^ e_p e > 1"; cases "(2 :: int) ^ w div 2 ^ (e_ar e + e_ac e) = 0")
         (simp_all only: bindI_simps if_True if_False simp_thms)
  qed (use assms(2) in simp)
qed

lemma bindW_pair:
  "\<exists>r. bindW (Some m) (\<lambda>x. Some (Inr (Some (s, x)))) = Some r \<and> bindI r (\<lambda>p. Inr (Some (snd p))) = m"
proof (cases m)
  case (Inr b)
  thus ?thesis by (cases b) simp_all
qed simp

lemma htree_bank:
  assumes "has_exponents d e" "mt \<noteq> MT_CAM" "0 < blk" "address_bits cap blk (2 ^ w) (2 ^ e_t e) = Inr A"
    and "mt = MT_data \<Longrightarrow> blk div 2 ^ (e_ar e + e_ac e) \<noteq> 0"
  shows "\<exists>r. BankWithHtree_Initialize mat_ok ip cell True mt cap blk (2 ^ w) d = Some r \<and>
    bindI r (\<lambda>p. Inr (Some (snd p))) =
      common_subarray mat_ok ip cell True mt (A - int (e_r e + e_c e - e_ac e - e_ar e)) blk w d e"
proof -
  have x: "d_numRowSubArray d = 2 ^ e_r e" "d_numColumnSubArray d = 2 ^ e_c e" "d_stackedDieCount d = 2 ^ e_t e"
    "d_numRowMat d = 2 ^ e_mr e" "d_numColumnMat d = 2 ^ e_mc e" "d_numRowPerSet d = 2 ^ e_p e"
    "e_ac e \<le> e_r e" "e_ar e \<le> e_c e" "e_mar e \<le> e_mc e" "e_mac e \<le> e_mr e"
    using assms(1) by (simp_all add: has_exponents_def)
  note act = exponents_active[OF assms(1), unfolded x(1-6)]
  define D B where "D = (if mt = MT_data then blk else 2 ^ w)" and "B = (if mt = MT_data then int w else blk)"
  have sig: "data_signals mt blk (2 ^ w) = Inr (D, B)"
    using assms(2) c_trunc_of_int[of "int w"] by (cases mt) (simp_all add: data_signals_def D_def B_def log_nat_power)
  let ?T = "\<lparr>tr_lh = e_c e, tr_lv = e_r e, tr_a = e_ar e, tr_b = e_ac e, tr_addr = A, tr_dist = D, tr_bcast = B\<rparr>"
  let ?s = "new_route (int (e_c e)) (int (e_r e)) A (D, B) (2 ^ e_ar e) (2 ^ e_ac e)"
  let ?n = "A - int (e_r e + e_c e - e_ac e - e_ar e)"
  have T: "split_at ?T 0 0 ?s" "rt_h ?s = int (tr_lh ?T)" "rt_v ?s = int (tr_lv ?T)" "tree_ok ?T" "0 \<le> tr_bcast ?T"
    using x assms(3) by (simp_all add: split_at_def new_route_def tree_ok_def D_def B_def)
  have run: "BankWithHtree_Initialize mat_ok ip cell True mt cap blk (2 ^ w) d =
      bindW (htree_routing ?s) (\<lambda>s. bindW (Some (htree_subarray mat_ok ip cell True mt d s)) (\<lambda>sub. Some (Inr (Some (s, sub)))))"
    unfolding BankWithHtree_Initialize_def x(1-6) act assms(4) sig by simp
  have w: "pow2 (int w) = 2 ^ w" "divR (2 ^ w) (2 ^ e_p e) = Inr (2 ^ w div 2 ^ e_p e)" by (simp_all add: pow2_def)
  have nonneg: "0 \<le> blk div 2 ^ n" "0 \<le> (2 :: int) ^ w div 2 ^ n" for n
    using assms(3) by (simp_all add: pos_imp_zdiv_nonneg_iff)
  from htree_routing_result[OF T] show ?thesis
  proof
    assume none: "htree_routing ?s = Some (Inr None) \<and> too_small ?T"
    have "D div 2 ^ (e_ar e + e_ac e) + B \<noteq> 0"
      using assms(3,5) nonneg[of "e_ar e + e_ac e"] by (cases "mt = MT_data") (auto simp: D_def B_def)
    hence "A \<le> int (e_c e - e_ar e) + int (e_r e - e_ac e)" using none by (simp add: too_small_def)
    hence "?n \<le> 0" using x(7,8) by (simp add: of_nat_diff)
    hence "common_subarray mat_ok ip cell True mt ?n blk w d e = Inr None" by (rule common_no_address[OF assms(1)])
    thus ?thesis using none run by simp
  next
    assume "\<exists>s'. htree_routing ?s = Some (Inr (Some s')) \<and> split_at ?T (tr_lh ?T) (tr_lv ?T) s' \<and>
      filled (tr_lh ?T) (horizontal s') \<and> filled (tr_lv ?T) (vertical s')"
    then obtain s' where s': "htree_routing ?s = Some (Inr (Some s'))" "split_at ?T (tr_lh ?T) (tr_lv ?T) s'" by blast
    have v: "addressBits s' = ?n" "distributeBits s' = D div 2 ^ (e_ar e + e_ac e)" "broadcastBits s' = B"
      using s'(2) x(7,8) by (simp_all add: split_at_def of_nat_diff min_absorb1)
    have "htree_subarray mat_ok ip cell True mt d s' = common_subarray mat_ok ip cell True mt ?n blk w d e"
      using assms(2) by (cases mt)
        (simp_all only: htree_subarray_def common_subarray_def Let_def x(4-6) act v D_def B_def if_P[OF refl]
           MemoryType.case w if_not_P[OF MemoryType.distinct(2)] bindR.simps simp_thms if_True if_False)
    thus ?thesis using s'(1) run bindW_pair[of "common_subarray mat_ok ip cell True mt ?n blk w d e" s'] by simp
  qed
qed

lemma active_exponents:
  "has_exponents d e \<Longrightarrow> active_product d = 2 ^ (e_ar e + e_ac e) * 2 ^ (e_mar e + e_mac e)"
  by (simp add: has_exponents_def active_product_def power_add)

lemma array_shape_blocks:
  assumes "array_shape mt cap blk d" "has_exponents d e" "mt = MT_data"
  shows "blk div 2 ^ (e_ar e + e_ac e) \<noteq> 0"
proof -
  have "(2 :: int) ^ (e_ar e + e_ac e) * 1 \<le> 2 ^ (e_ar e + e_ac e) * 2 ^ (e_mar e + e_mac e)"
    by (rule mult_left_mono) simp_all
  also have "\<dots> \<le> blk" using assms unfolding active_exponents[OF assms(2), symmetric] by (simp add: array_shape_def)
  finally have "2 ^ (e_ar e + e_ac e) \<le> blk" by simp
  thus ?thesis using pos_imp_zdiv_pos_iff[of "2 ^ (e_ar e + e_ac e)" blk] by simp
qed

lemma common_capacity:
  assumes sub: "common_subarray mat_ok ip cell internal mt (A - int (e_r e + e_c e - e_ac e - e_ar e)) blk w d e = Inr (Some sub)"
    and e: "has_exponents d e" and mt: "mt \<noteq> MT_CAM" "0 < blk"
    and s: "0 < blk \<and>
      (mt = MT_data \<and> (\<exists>k x. cap = 2 ^ k \<and> blk = 2 ^ x) \<or> mt = MT_tag \<and> active_product d dvd blk) \<and>
      ((\<exists>s. cap = 2 ^ s * blk \<and> w + e_t e \<le> s \<and> address_bits cap blk (2 ^ w) (2 ^ e_t e) = Inr (int (s - w - e_t e))) \<or>
       (\<exists>n \<le> 0. address_bits cap blk (2 ^ w) (2 ^ e_t e) = Inr n))"
    and A: "address_bits cap blk (2 ^ w) (2 ^ e_t e) = Inr A"
  shows "sa_numColumn sub * sa_numRow sub * 2 ^ e_c e * 2 ^ e_r e * 2 ^ e_mc e * 2 ^ e_mr e * 2 ^ e_t e = cap"
proof -
  have le: "e_mar e \<le> e_mc e" "e_mac e \<le> e_mr e" "e_ar e \<le> e_c e" "e_ac e \<le> e_r e" "mux_exp (mux_of d) (e_m e)"
    "d_numRowPerSet d = 2 ^ e_p e" using e by (simp_all add: has_exponents_def)
  let ?n = "A - int (e_r e + e_c e - e_ac e - e_ar e)"
  have "\<not> ?n \<le> 0" using sub common_no_address[OF e, of ?n mat_ok ip cell internal mt blk w] by auto
  hence "0 < A" by simp
  then obtain k where k: "cap = 2 ^ k * blk" "w + e_t e \<le> k" "A = int (k - w - e_t e)" using s A by fastforce
  show ?thesis
  proof (cases "mt = MT_data")
    case True
    then obtain x where x: "blk = 2 ^ x" using s by auto
    have p: "e_p e \<le> w" using sub True le(6) by (auto simp: common_subarray_def split: if_splits)
    hence ways: "(2 :: int) ^ w div 2 ^ e_p e = 2 ^ (w - e_p e)" by (simp add: power_div)
    have "sub_of mat_ok ip cell internal MT_data e (int (k + x - x - w - e_t e) - int (e_r e + e_c e - e_ac e - e_ar e))
        (2 ^ x div 2 ^ (e_ar e + e_ac e)) (2 ^ w) (way_muxes (is_dram cell) (2 ^ (w - e_p e)) (mux_of d)) = Inr (Some sub)"
      using sub True unfolding common_subarray_def ways x k(3) by (auto split: if_splits)
    from subarray_capacity_data[OF this le(1-4) way_muxes_exp[OF le(5)]] k x
    show ?thesis by (simp add: power_add)
  next
    case False
    hence tag: "mt = MT_tag" using mt(1) by (cases mt) auto
    have "2 ^ (e_mar e + e_mac e) dvd blk" using s tag active_exponents[OF e] by (auto intro: dvd_mult_right)
    moreover have "1 \<le> (2 :: int) ^ w div 2 ^ (e_ar e + e_ac e)"
      using sub False by (auto simp: common_subarray_def power_div split: if_splits)
    moreover have "sub_of mat_ok ip cell internal MT_tag e (int (k - w - e_t e) - int (e_r e + e_c e - e_ac e - e_ar e))
        blk (2 ^ w div 2 ^ (e_ar e + e_ac e)) (mux_of d) = Inr (Some sub)"
      using sub tag unfolding common_subarray_def k(3) by (auto split: if_splits)
    ultimately show ?thesis using subarray_capacity_tag[OF _ le(1-5) k(2) mt(2)] k(1) by blast
  qed
qed

text \<open>
  C9. The two bank organisations agree: for every design whose sizes are powers of two, the
  H-tree bank (with its routing loops) and the bank without H-tree (with its closed formulas)
  reject the same designs and give the accepted ones the same subarray, down to the rows and
  columns of a mat and the predecoders.
\<close>
theorem bank_organisations_agree:
  assumes "pow2_design d" "isPow2 assoc" "array_shape mt cap blk d"
  shows "\<exists>r. BankWithHtree_Initialize mat_ok ip cell True mt cap blk assoc d = Some r \<and>
    bindI r (\<lambda>p. Inr (Some (snd p))) =
      BankWithoutHtree_Initialize mat_ok (\<lambda>_. True) ip cell gw True mt cap blk assoc d"
proof -
  obtain e where e: "has_exponents d e" using pow2_design_exponents[OF assms(1)] by blast
  obtain w where w: "assoc = 2 ^ w" using assms(2) by (auto simp: isPow2_iff)
  note s = array_address_bits[OF assms(3), of w "e_t e"]
  obtain A where A: "address_bits cap blk (2 ^ w) (2 ^ e_t e) = Inr A" using s by blast
  have mt: "mt \<noteq> MT_CAM" "0 < blk" using assms(3) s by (auto simp: array_shape_def)
  have id: "bindI m (\<lambda>s. Inr (if True then Some s else None)) = m" for m :: "subarray legal"
    by (cases m) (auto simp: bindI_def split: option.split)
  show ?thesis
    using htree_bank[OF e mt A array_shape_blocks[OF assms(3) e]]
      plain_bank[OF e mt(1) less_imp_le[OF mt(2)] A, of True cell gw mat_ok "\<lambda>_. True" ip]
    unfolding w id by simp
qed

text \<open>
  C2. The capacity check of the exploration never fails: every design whose sizes are powers
  of two that a bank without H-tree accepts stores exactly the capacity of the array in its
  mats, for data arrays and for tag arrays with rounded-up tags.  (By the agreement of the two
  organisations the same holds for an H-tree bank.)
\<close>
theorem accepted_design_has_capacity:
  assumes "BankWithoutHtree_Initialize mat_ok outer_ok ip cell gw internal mt cap blk assoc d = Inr (Some sub)"
    and "pow2_design d" "isPow2 assoc" "array_shape mt cap blk d" "stores d sub b"
  shows "capacity_ok d cap b"
proof -
  obtain e where e: "has_exponents d e" using pow2_design_exponents[OF assms(2)] by blast
  obtain w where w: "assoc = 2 ^ w" using assms(3) by (auto simp: isPow2_iff)
  note s = array_address_bits[OF assms(4), of w "e_t e"]
  obtain A where A: "address_bits cap blk (2 ^ w) (2 ^ e_t e) = Inr A" using s by blast
  have mt: "mt \<noteq> MT_CAM" "0 < blk" using assms(4) s by (auto simp: array_shape_def)
  have legal: "\<not> (\<not> internal \<and> (is_dram cell \<or> wireRepeaterType gw \<noteq> repeater_num repeated_none))"
  proof
    assume "\<not> internal \<and> (is_dram cell \<or> wireRepeaterType gw \<noteq> repeater_num repeated_none)"
    hence "BankWithoutHtree_Initialize mat_ok outer_ok ip cell gw internal mt cap blk assoc d = Inr None"
      unfolding BankWithoutHtree_Initialize_def by (rule if_P)
    thus False using assms(1) by simp
  qed
  let ?n = "A - int (e_r e + e_c e - e_ac e - e_ar e)"
  have "bindI (common_subarray mat_ok ip cell internal mt ?n blk w d e)
      (\<lambda>s. Inr (if outer_ok s then Some s else None)) = Inr (Some sub)"
    using assms(1) plain_bank[OF e mt(1) less_imp_le[OF mt(2)] A legal, of mat_ok outer_ok ip] unfolding w by simp
  hence sub: "common_subarray mat_ok ip cell internal mt ?n blk w d e = Inr (Some sub)"
    by (cases "common_subarray mat_ok ip cell internal mt ?n blk w d e")
       (auto simp: bindI_def split: option.splits if_splits)
  show ?thesis using common_capacity[OF sub e mt s A] assms(5) e
    by (simp add: capacity_ok_def stores_def has_exponents_def)
qed

section \<open>Concrete instances\<close>

theorem bank_organisations_agree_witness:
  "\<forall>m gw. pow2_design (Design 4 8 2 2 2 2 4 1 2 1 2 1 2 0) \<and>
     array_shape MT_data 1048576 512 (Design 4 8 2 2 2 2 4 1 2 1 2 1 2 0) \<and>
     (\<exists>r. BankWithHtree_Initialize (\<lambda>_ _. True) (demo_ip m) demo_cell True MT_data 1048576 512 8
            (Design 4 8 2 2 2 2 4 1 2 1 2 1 2 0) = Some r \<and>
        bindI r (\<lambda>p. Inr (Some (snd p))) =
          BankWithoutHtree_Initialize (\<lambda>_ _. True) (\<lambda>_. True) (demo_ip m) demo_cell gw True MT_data 1048576 512 8
            (Design 4 8 2 2 2 2 4 1 2 1 2 1 2 0))"
proof (intro allI conjI)
  let ?d = "Design 4 8 2 2 2 2 4 1 2 1 2 1 2 0"
  show p: "pow2_design ?d" by (simp add: pow2_design_def isPow2_def)
  show a: "array_shape MT_data 1048576 512 ?d" by (simp add: array_shape_def isPow2_def active_product_def)
  have w: "isPow2 8" by (simp add: isPow2_def)
  show "\<exists>r. BankWithHtree_Initialize (\<lambda>_ _. True) (demo_ip m) demo_cell True MT_data 1048576 512 8 ?d = Some r \<and>
        bindI r (\<lambda>p. Inr (Some (snd p))) =
          BankWithoutHtree_Initialize (\<lambda>_ _. True) (\<lambda>_. True) (demo_ip m) demo_cell gw True MT_data 1048576 512 8 ?d" for m gw
    by (rule bank_organisations_agree[OF p w a])
qed

text \<open>The eight rows and columns of the small bank of the exploration.\<close>

definition demo_sub :: subarray where
  "demo_sub = \<lparr>sa_numRow = 8, sa_numColumn = 8, rowPredecoder = (3, 0), bitlineMuxPredecoder = (0, 0),
     senseAmpMuxLev1Predecoder = (0, 0), senseAmpMuxLev2Predecoder = (0, 0), totalPredecoderOutputBits = 15\<rparr>"

lemma demo_ip_mat:
  "forceMatSize (demo_ip m) = False" "designTarget (demo_ip m) = RAM_chip" "monolithicStackCount (demo_ip m) = 1"
  by (simp_all add: demo_ip_def REDUCE_SEARCH_SIZE_def InputParameter_new_def)

lemma demo_bank_geometry:
  "BankWithoutHtree_Initialize (\<lambda>_ _. True) (\<lambda>_. True) (demo_ip m) demo_cell gw True MT_data 64 8 1 demo_design = Inr (Some demo_sub)"
proof -
  have l: "log2R 8 = Inr 3" "log2R 1 = Inr 0" using log2R_power[of 3] log2R_power[of 0] by simp_all
  have s: "shl1 3 = Inr 8" "shl1 0 = Inr 1" by (simp_all add: shl1_def)
  have sub: "SubArray_Initialize (\<lambda>_ _. True) (demo_ip m) demo_cell 1 1 3 8 1 1 1 (1, 1, 1) True MT_data = Inr (Some demo_sub)"
    by (simp add: SubArray_Initialize_def at_most_def gating_bits_def l s Mat_legal_def demo_ip_mat demo_cell_def is_dram_def
        subarray_predecoders_def predecoder_blocks_def predecoder_outputs_def demo_sub_def Let_def)
  show ?thesis
    by (simp add: BankWithoutHtree_Initialize_def address_bits_def at_most_def gating_bits_def l way_muxes_def mux_of_def sub)
qed

theorem accepted_design_has_capacity_witness:
  "\<forall>m gw. BankWithoutHtree_Initialize (\<lambda>_ _. True) (\<lambda>_. True) (demo_ip m) demo_cell gw True MT_data 64 8 1 demo_design
        = Inr (Some demo_sub) \<and> capacity_ok demo_design 64 (demo_bank 1)"
proof (intro allI conjI)
  fix m gw
  show g: "BankWithoutHtree_Initialize (\<lambda>_ _. True) (\<lambda>_. True) (demo_ip m) demo_cell gw True MT_data 64 8 1 demo_design
        = Inr (Some demo_sub)" by (rule demo_bank_geometry)
  show "capacity_ok demo_design 64 (demo_bank 1)"
  proof (rule accepted_design_has_capacity[OF g])
    show "pow2_design demo_design" by (simp add: pow2_design_def isPow2_def)
    show "isPow2 1" by (simp add: isPow2_def)
    show "array_shape MT_data 64 8 demo_design" by (simp add: array_shape_def isPow2_def active_product_def)
    show "stores demo_design demo_sub (demo_bank 1)" by (simp add: stores_def demo_sub_def demo_bank_def demo_mat_def)
  qed
qed

end
