(* ===== verification/Aos_Model.thy ===== *)
theory Aos_Model
  imports C_Text
begin

text \<open>
  \<^verbatim>\<open>src/src/AOSFETCompactModel.h\<close> and \<^verbatim>\<open>AOSFETCompactModel.cpp\<close>: the compact model of an
  amorphous-oxide transistor, which the memory cells with oxide transistors evaluate to get
  their on and off currents.  The whole class is modelled: parameter validation, derived
  coefficients, mobility, the surface-potential iteration, drift and leakage current, the
  contact-resistance solver, charges, capacitances and the operating point.  A C++ exception
  is the fault \<open>Thrown\<close>.  Arithmetic is exact; a value is finite when it is below
  the overflow threshold of a double, so the finiteness checks of the code keep their meaning.
\<close>

section \<open>Guards\<close>

definition isfinite :: "real \<Rightarrow> bool" where
  "isfinite x \<longleftrightarrow> \<bar>x\<bar> < dbl_max_bound"

definition throw_unless :: "bool \<Rightarrow> string \<Rightarrow> unit res" where
  "throw_unless b msg = (if b then Inr () else Inl (Thrown msg))"

lemma throw_unless_iff [fault_simps]: "throw_unless b msg = Inr u \<longleftrightarrow> b"
  by (simp add: throw_unless_def)

lemma throw_unless_simps [simp]: "throw_unless True msg = Inr ()" "throw_unless False msg = Inl (Thrown msg)"
  by (simp_all add: throw_unless_def)

definition RequireFinite :: "real \<Rightarrow> string \<Rightarrow> unit res" where
  "RequireFinite value name = throw_unless (isfinite value) (name @ '' must be finite'')"

definition RequirePositive :: "real \<Rightarrow> string \<Rightarrow> unit res" where
  "RequirePositive value name =
     bindR (RequireFinite value name) (\<lambda>_.
       throw_unless (\<not> value \<le> 0) (name @ '' must be greater than zero''))"

definition RequireNonnegative :: "real \<Rightarrow> string \<Rightarrow> unit res" where
  "RequireNonnegative value name =
     bindR (RequireFinite value name) (\<lambda>_.
       throw_unless (\<not> value < 0) (name @ '' must not be negative''))"

definition RequireFiniteResult :: "real \<Rightarrow> string \<Rightarrow> unit res" where
  "RequireFiniteResult value name = throw_unless (isfinite value) (''produced non-finite '' @ name)"

fun all_of :: "unit res list \<Rightarrow> unit res" where
  "all_of [] = Inr ()"
| "all_of (c # cs) = bindR c (\<lambda>_. all_of cs)"

lemma all_of_iff [fault_simps]: "all_of cs = Inr u \<longleftrightarrow> (\<forall>c \<in> set cs. c = Inr ())"
  by (induction cs) (auto simp: fault_simps)

lemma Require_iff [fault_simps]:
  "RequireFinite v n = Inr u \<longleftrightarrow> isfinite v"
  "RequirePositive v n = Inr u \<longleftrightarrow> isfinite v \<and> 0 < v"
  "RequireNonnegative v n = Inr u \<longleftrightarrow> isfinite v \<and> 0 \<le> v"
  "RequireFiniteResult v n = Inr u \<longleftrightarrow> isfinite v"
  by (auto simp: RequireFinite_def RequirePositive_def RequireNonnegative_def RequireFiniteResult_def
      fault_simps)

section \<open>Parameters\<close>

record aos_parameters =
  p_q :: real
  p_k :: real
  p_temperature :: real
  p_tailTemperature :: real
  p_eps0 :: real
  p_semiconductorPermittivity :: real
  p_nu0T0 :: real
  p_flatBandVoltage :: real
  p_width :: real
  p_length :: real
  p_trapDensity :: real
  p_fermiReference :: real
  p_oxideCapacitance :: real
  p_overlapCapacitance :: real
  p_vrhThreshold :: real
  p_percolationThreshold :: real
  p_vrhPrefactor :: real
  p_percolationPrefactor :: real
  p_percolationExponent :: real
  p_useConstantMobility :: bool
  p_mobility :: real
  p_mobilityScale :: real
  p_leakageSwingFactor :: real
  p_leakageSurfacePotentialReference :: real
  p_leakageScale :: real
  p_currentFloor :: real
  p_totalContactResistanceKohmUm :: real

definition DefaultParameters :: aos_parameters where
  "DefaultParameters =
     \<lparr>p_q = 1602 / 10 ^ 22, p_k = 1380649 / 10 ^ 29,
      p_temperature = 300, p_tailTemperature = 400,
      p_eps0 = 8854 / 10 ^ 15, p_semiconductorPermittivity = 8854 / 10 ^ 15 * 10,
      p_nu0T0 = 1, p_flatBandVoltage = 15 / 100,
      p_width = 1 / 10 ^ 6, p_length = 2 / 10 ^ 6,
      p_trapDensity = 10 ^ 17, p_fermiReference = 0,
      p_oxideCapacitance = 8854 / 10 ^ 15 * 21 / (5 / 10 ^ 9),
      p_overlapCapacitance = 30 / 10 ^ 18,
      p_vrhThreshold = - 15 / 10, p_percolationThreshold = - 1,
      p_vrhPrefactor = 15, p_percolationPrefactor = 35, p_percolationExponent = 3 / 10,
      p_useConstantMobility = False, p_mobility = 0, p_mobilityScale = 1,
      p_leakageSwingFactor = 2, p_leakageSurfacePotentialReference = 15 / 100,
      p_leakageScale = 1, p_currentFloor = 1 / 10 ^ 17,
      p_totalContactResistanceKohmUm = 0\<rparr>"

record aos_model =
  parameters :: aos_parameters
  mobilityVrhExponent :: real
  voltageNormalization :: real
  thermalVoltage :: real
  trapCoefficient :: real
  deepStateCoefficient :: real
  leakagePrefactor :: real

definition ValidateParameters :: "aos_parameters \<Rightarrow> unit res" where
  "ValidateParameters p = all_of [
     RequirePositive (p_q p) ''q'',
     RequirePositive (p_k p) ''k'',
     RequirePositive (p_temperature p) ''temperature'',
     RequirePositive (p_tailTemperature p) ''tail temperature'',
     throw_unless (\<not> p_tailTemperature p \<le> p_temperature p)
       ''0 < operating temperature < tail temperature'',
     RequirePositive (p_eps0 p) ''vacuum permittivity'',
     RequirePositive (p_semiconductorPermittivity p) ''semiconductor permittivity'',
     RequirePositive (p_nu0T0 p) ''nu0T0'',
     RequireFinite (p_flatBandVoltage p) ''flat-band voltage'',
     RequirePositive (p_width p) ''width'',
     RequirePositive (p_length p) ''length'',
     RequirePositive (p_trapDensity p) ''trap density'',
     RequireFinite (p_fermiReference p) ''Fermi reference'',
     RequirePositive (p_oxideCapacitance p) ''oxide capacitance'',
     RequireNonnegative (p_overlapCapacitance p) ''overlap capacitance'',
     RequireFinite (p_vrhThreshold p) ''VRH threshold'',
     RequireFinite (p_percolationThreshold p) ''percolation threshold'',
     RequirePositive (p_vrhPrefactor p) ''VRH prefactor'',
     RequirePositive (p_percolationPrefactor p) ''percolation prefactor'',
     RequirePositive (p_percolationExponent p) ''percolation exponent'',
     (if p_useConstantMobility p then RequirePositive (p_mobility p) ''constant mobility''
      else RequireNonnegative (p_mobility p) ''constant mobility''),
     RequirePositive (p_mobilityScale p) ''mobility scale'',
     RequirePositive (p_leakageSwingFactor p) ''leakage swing factor'',
     RequirePositive (p_leakageSurfacePotentialReference p) ''leakage surface-potential reference'',
     RequirePositive (p_leakageScale p) ''leakage scale'',
     RequireNonnegative (p_currentFloor p) ''current floor'',
     RequireNonnegative (p_totalContactResistanceKohmUm p) ''total contact resistance'']"

definition LimExp :: "real \<Rightarrow> real res" where
  "LimExp v =
     bindR (RequireFinite v ''exponential argument'') (\<lambda>_. Inr (exp (min (max v (- 50)) 50)))"

definition GateNormalized :: "aos_model \<Rightarrow> real \<Rightarrow> real" where
  "GateNormalized m vgs = (vgs - p_flatBandVoltage (parameters m)) / voltageNormalization m"

definition DrainNormalized :: "aos_model \<Rightarrow> real \<Rightarrow> real" where
  "DrainNormalized m vds = vds / voltageNormalization m"

section \<open>Mobility and the derived coefficients\<close>

definition Mobility :: "aos_model \<Rightarrow> real \<Rightarrow> real res" where
  "Mobility m vgs =
     (let p = parameters m in
      bindR (RequireFinite vgs ''Vgs'') (\<lambda>_.
      bindR
        (if p_useConstantMobility p then Inr (p_mobility p)
         else
           let baseVrh = max (vgs - p_vrhThreshold p) (1 / 10 ^ 9);
               basePercolation = max (vgs - p_percolationThreshold p) (1 / 10 ^ 9);
               mobilityVrhCm = p_vrhPrefactor p * (baseVrh powr mobilityVrhExponent m);
               mobilityPercolationCm =
                 p_percolationPrefactor p * (basePercolation powr p_percolationExponent p);
               denominator = mobilityVrhCm + mobilityPercolationCm
           in bindR (throw_unless (0 < denominator \<and> isfinite denominator)
                       ''invalid mobility components'')
                (\<lambda>_. Inr (mobilityVrhCm * mobilityPercolationCm / denominator * (1 / 10 ^ 4))))
        (\<lambda>mobility0.
           let mobility = mobility0 * p_mobilityScale p in
           bindR (RequireFiniteResult mobility ''mobility'') (\<lambda>_.
           bindR (throw_unless (\<not> mobility \<le> 0) ''nonpositive mobility'') (\<lambda>_.
             Inr mobility)))))"

definition kPi :: real where
  "kPi = 3141592653589793238462643383279502884 / 10 ^ 36"

definition UpdateDerivedParameters :: "aos_model \<Rightarrow> aos_model res" where
  "UpdateDerivedParameters m0 =
     (let p = parameters m0;
          m1 = m0\<lparr>mobilityVrhExponent := 2 * (p_tailTemperature p / p_temperature p - 1),
                  voltageNormalization := 2 * p_k p * p_tailTemperature p / p_q p,
                  thermalVoltage := p_k p * p_temperature p / p_q p\<rparr>;
          z = p_temperature p / p_tailTemperature p;
          gammaDenominator = sin (kPi * z)
      in
      bindR (throw_unless (isfinite gammaDenominator \<and> \<not> gammaDenominator \<le> 0)
               ''gamma term is singular'') (\<lambda>_.
      let gammaProduct = (kPi * z) / gammaDenominator in
      bindR (LimExp (p_fermiReference p / (p_k p * p_tailTemperature p))) (\<lambda>expTail.
      let trapTerm = p_q p * p_semiconductorPermittivity p * p_trapDensity p
            * (p_k p * p_tailTemperature p / p_q p) * gammaProduct * expTail in
      bindR (LimExp (p_fermiReference p / (p_k p * p_temperature p))) (\<lambda>expDeep.
      let deepStateTerm = p_q p * p_semiconductorPermittivity p * p_nu0T0 p * p_trapDensity p
            * (p_k p * p_temperature p / p_q p) * expDeep in
      bindR (throw_unless (0 < trapTerm \<and> 0 < deepStateTerm \<and> isfinite trapTerm \<and> isfinite deepStateTerm)
               ''invalid state coefficient'') (\<lambda>_.
      let m2 = m1\<lparr>trapCoefficient := sqrt trapTerm / p_oxideCapacitance p,
                   deepStateCoefficient := sqrt deepStateTerm / p_oxideCapacitance p\<rparr> in
      bindR (Mobility m2 (max (p_flatBandVoltage p) 0)) (\<lambda>referenceMobility.
      let leakageSqrtTerm = sqrt ((p_q p * p_semiconductorPermittivity p * p_trapDensity p)
            / (2 * p_leakageSurfacePotentialReference p));
          m3 = m2\<lparr>leakagePrefactor := (p_width p / p_length p) * referenceMobility
            * leakageSqrtTerm * thermalVoltage m2 * thermalVoltage m2\<rparr> in
      bindR (all_of [
        RequireFiniteResult (mobilityVrhExponent m3) ''mobility exponent'',
        RequireFiniteResult (voltageNormalization m3) ''voltage normalization'',
        RequireFiniteResult (thermalVoltage m3) ''thermal voltage'',
        RequireFiniteResult (trapCoefficient m3) ''trap coefficient'',
        RequireFiniteResult (deepStateCoefficient m3) ''deep-state coefficient'',
        RequireFiniteResult (leakagePrefactor m3) ''leakage prefactor'',
        throw_unless (\<not> (referenceMobility \<le> 0 \<or> leakagePrefactor m3 \<le> 0))
          ''derived mobility/current scale must be positive'']) (\<lambda>_. Inr m3)))))))"

text \<open>\<open>m\<close> is the object before construction.\<close>

definition Initialize :: "aos_model \<Rightarrow> aos_parameters \<Rightarrow> aos_model res" where
  "Initialize m p =
     bindR (ValidateParameters p) (\<lambda>_. UpdateDerivedParameters (m\<lparr>parameters := p\<rparr>))"

section \<open>The surface potential\<close>

definition InitialSurfacePotentialGuess :: "aos_model \<Rightarrow> real \<Rightarrow> real \<Rightarrow> real" where
  "InitialSurfacePotentialGuess m vgs vds =
     (let normalizedGate = GateNormalized m vgs;
          normalizedDrain = DrainNormalized m vds
      in if normalizedGate \<le> 0 then normalizedGate
         else
           let normalizedTrapCoefficient = trapCoefficient m / voltageNormalization m;
               logArgument = max (normalizedGate / normalizedTrapCoefficient) (1 / 10 ^ 12);
               sqrtTerm = (normalizedGate + 1) * (normalizedGate + 1)
                 + 2 * normalizedDrain + 2 * ln logArgument
           in if sqrtTerm < 0 then normalizedGate
              else normalizedGate * (sqrt sqrtTerm - normalizedGate - 1))"

text \<open>One pass of the loop: the correction of the iterate \<open>x\<close>.\<close>

definition sp_correction :: "aos_model \<Rightarrow> real \<Rightarrow> real \<Rightarrow> real \<Rightarrow> real res" where
  "sp_correction m normalizedGate normalizedDrain x =
     (let normalizedTrapCoefficient = trapCoefficient m / voltageNormalization m;
          normalizedDeepStateCoefficient = deepStateCoefficient m / voltageNormalization m;
          temperatureRatio = p_tailTemperature (parameters m) / p_temperature (parameters m)
      in
      bindR (LimExp (x - normalizedDrain)) (\<lambda>expDeep.
      bindR (LimExp ((x - normalizedDrain) * temperatureRatio)) (\<lambda>expTail.
      let f = (normalizedGate - x) - normalizedTrapCoefficient * expDeep
            - normalizedDeepStateCoefficient * expTail;
          df = - 1 - normalizedTrapCoefficient * expDeep
            - normalizedDeepStateCoefficient * temperatureRatio * expTail;
          d2f = - normalizedTrapCoefficient * expDeep
            - normalizedDeepStateCoefficient * temperatureRatio * temperatureRatio * expTail
      in
      bindR (throw_unless (isfinite f \<and> isfinite df \<and> isfinite d2f \<and> \<not> \<bar>df\<bar> < 1 / 10 ^ 14)
               ''surface-potential solver became singular'') (\<lambda>_.
      let correction = (f / df) * (1 + (d2f * f) / (2 * df * df)) in
      bindR (throw_unless (isfinite correction) ''surface-potential solver diverged'') (\<lambda>_.
        Inr correction)))))"

fun sp_loop :: "aos_model \<Rightarrow> real \<Rightarrow> real \<Rightarrow> real \<Rightarrow> nat \<Rightarrow> real \<Rightarrow> real res" where
  "sp_loop m normalizedGate normalizedDrain tolerance 0 x =
     Inl (Thrown ''surface-potential solver did not converge'')"
| "sp_loop m normalizedGate normalizedDrain tolerance (Suc n) x =
     bindR (sp_correction m normalizedGate normalizedDrain x) (\<lambda>correction.
     let x' = x - correction in
     bindR (throw_unless (isfinite x') ''surface-potential solver diverged'') (\<lambda>_.
     if \<bar>correction\<bar> < tolerance then
       let r = x' * voltageNormalization m in
       bindR (RequireFiniteResult r ''surface potential'') (\<lambda>_. Inr r)
     else sp_loop m normalizedGate normalizedDrain tolerance n x'))"

definition SurfacePotential :: "aos_model \<Rightarrow> real \<Rightarrow> real \<Rightarrow> int \<Rightarrow> real \<Rightarrow> real res" where
  "SurfacePotential m vgs vch maxIteration tolerance =
     bindR (all_of [
       RequireFinite vgs ''Vgs'',
       RequireFinite vch ''channel voltage'',
       RequirePositive tolerance ''surface-potential tolerance'',
       throw_unless (\<not> maxIteration \<le> 0) ''iteration limit must be positive'']) (\<lambda>_.
     if vgs < p_flatBandVoltage (parameters m) then Inr (vgs - p_flatBandVoltage (parameters m))
     else sp_loop m (GateNormalized m vgs) (DrainNormalized m vch) tolerance (nat maxIteration)
            (InitialSurfacePotentialGuess m vgs vch))"

text \<open>The default arguments of the declaration.\<close>

abbreviation SurfacePotential_default :: "aos_model \<Rightarrow> real \<Rightarrow> real \<Rightarrow> real res" where
  "SurfacePotential_default m vgs vch \<equiv> SurfacePotential m vgs vch 40 (1 / 10 ^ 8)"

section \<open>Currents\<close>

definition drain_voltage_ok :: "real \<Rightarrow> unit res" where
  "drain_voltage_ok vds =
     throw_unless (isfinite vds \<and> \<not> vds < 0) ''drain voltage must be finite and nonnegative''"

definition CalculateDriftCurrent :: "aos_model \<Rightarrow> real \<Rightarrow> real \<Rightarrow> real res" where
  "CalculateDriftCurrent m vgs vds =
     (let p = parameters m in
      bindR (drain_voltage_ok vds) (\<lambda>_.
      bindR (SurfacePotential_default m vgs 0) (\<lambda>sourceSurfacePotential.
      bindR (SurfacePotential_default m vgs vds) (\<lambda>drainSurfacePotential.
      let sourceChargeTerm = vgs - p_flatBandVoltage p - sourceSurfacePotential;
          drainChargeTerm = vgs - p_flatBandVoltage p - drainSurfacePotential;
          diffusionTerm = 2 * thermalVoltage m * (drainSurfacePotential - sourceSurfacePotential);
          driftTerm = 1 / 2 * (drainChargeTerm * drainChargeTerm - sourceChargeTerm * sourceChargeTerm)
      in
      bindR (Mobility m vgs) (\<lambda>mobility.
      let current = mobility * (p_width p / p_length p) * p_oxideCapacitance p
            * (diffusionTerm - driftTerm) in
      bindR (RequireFiniteResult current ''drift current'') (\<lambda>_. Inr (max current 0)))))))"

definition CalculateLeakageCurrent :: "aos_model \<Rightarrow> real \<Rightarrow> real \<Rightarrow> real res" where
  "CalculateLeakageCurrent m vgs vds =
     (let p = parameters m in
      bindR (RequireFinite vgs ''Vgs'') (\<lambda>_.
      bindR (drain_voltage_ok vds) (\<lambda>_.
      bindR (LimExp (- vds / thermalVoltage m)) (\<lambda>expDrain.
      bindR (LimExp (vgs / (p_leakageSwingFactor p * thermalVoltage m))) (\<lambda>expGate.
      let current = p_leakageScale p * leakagePrefactor m * expGate * (1 - expDrain)
            + p_currentFloor p in
      bindR (RequireFiniteResult current ''leakage current'') (\<lambda>_.
      bindR (throw_unless (\<not> current < 0) ''negative leakage current'') (\<lambda>_. Inr current)))))))"

definition CalculateDrainCurrent :: "aos_model \<Rightarrow> real \<Rightarrow> real \<Rightarrow> real res" where
  "CalculateDrainCurrent m vgs vds =
     (if vgs < p_flatBandVoltage (parameters m) then CalculateLeakageCurrent m vgs vds
      else CalculateDriftCurrent m vgs vds)"

definition TotalContactResistanceOhm :: "aos_model \<Rightarrow> real res" where
  "TotalContactResistanceOhm m =
     (let p = parameters m in
      if p_totalContactResistanceKohmUm p = 0 then Inr 0
      else
        let resistance = p_totalContactResistanceKohmUm p * 10 ^ 3 / (p_width p * 10 ^ 6) in
        bindR (RequireFiniteResult resistance ''contact resistance'') (\<lambda>_. Inr resistance))"

text \<open>The two loops of \<^verbatim>\<open>CalculateDrainCurrentExternal\<close> over the residual: the expansion of the
  upper bound and the bisection, each with its bound of 80 passes.\<close>

definition contact_residual :: "aos_model \<Rightarrow> real \<Rightarrow> real \<Rightarrow> real \<Rightarrow> real \<Rightarrow> real res" where
  "contact_residual m vgs vds rsd current =
     bindR (CalculateDrainCurrent m (vgs - current * (rsd / 2)) (max (vds - current * rsd) 0))
       (\<lambda>i. Inr (i - current))"

fun expand_high :: "(real \<Rightarrow> real res) \<Rightarrow> real \<Rightarrow> nat \<Rightarrow> real \<Rightarrow> real \<Rightarrow> (real \<times> real) res" where
  "expand_high residual currentLimit 0 high residualHigh = Inr (high, residualHigh)"
| "expand_high residual currentLimit (Suc n) high residualHigh =
     (if 0 < residualHigh \<and> high < currentLimit then
        let high' = min (high * 2) currentLimit in
        bindR (residual high') (\<lambda>r. expand_high residual currentLimit n high' r)
      else Inr (high, residualHigh))"

fun bisect :: "(real \<Rightarrow> real res) \<Rightarrow> nat \<Rightarrow> real \<Rightarrow> real \<Rightarrow> (real \<times> real) res" where
  "bisect residual 0 low high = Inl (Thrown ''contact-resistance solver did not converge'')"
| "bisect residual (Suc n) low high =
     (let mid = 1 / 2 * (low + high) in
      bindR (residual mid) (\<lambda>residualMid.
      bindR (throw_unless (isfinite residualMid) ''non-finite residual'') (\<lambda>_.
      let (low', high') = (if 0 < residualMid then (mid, high) else (low, mid)) in
      if high' - low' \<le> max (1 / 10 ^ 30) (1 / 10 ^ 12 * high') then Inr (low', high')
      else bisect residual n low' high')))"

definition CalculateDrainCurrentExternal :: "aos_model \<Rightarrow> real \<Rightarrow> real \<Rightarrow> real res" where
  "CalculateDrainCurrentExternal m vgs vds =
     bindR (RequireFinite vgs ''Vgs'') (\<lambda>_.
     bindR (throw_unless (isfinite vds \<and> \<not> vds \<le> 0)
              ''external-current drain voltage must be finite and positive'') (\<lambda>_.
     bindR (TotalContactResistanceOhm m) (\<lambda>rsd.
     if rsd = 0 then CalculateDrainCurrent m vgs vds
     else
       let currentLimit = vds / rsd;
           residual = contact_residual m vgs vds rsd in
       bindR (CalculateDrainCurrent m vgs vds) (\<lambda>i0.
       let high0 = min (max i0 (1 / 10 ^ 30)) currentLimit in
       bindR (residual high0) (\<lambda>r0.
       bindR (expand_high residual currentLimit 80 high0 r0) (\<lambda>(high, residualHigh).
       bindR (throw_unless (isfinite residualHigh \<and> \<not> 0 < residualHigh)
                ''contact-resistance solver failed to bracket a solution'') (\<lambda>_.
       bindR (bisect residual 80 0 high) (\<lambda>(low, high').
       let current = 1 / 2 * (low + high') in
       bindR (RequireFiniteResult current ''external drain current'') (\<lambda>_.
       bindR (throw_unless (\<not> current \<le> 0) ''nonpositive external drain current'') (\<lambda>_.
         Inr current))))))))))"

section \<open>Charges, capacitances and the operating point\<close>

record aos_charges =
  gateCharge :: real
  drainCharge :: real

definition CalculateCharges :: "aos_model \<Rightarrow> real \<Rightarrow> real \<Rightarrow> aos_charges res" where
  "CalculateCharges m vgs vds =
     (let p = parameters m; none = \<lparr>gateCharge = 0, drainCharge = 0\<rparr> in
      bindR (RequireFinite vgs ''Vgs'') (\<lambda>_.
      bindR (drain_voltage_ok vds) (\<lambda>_.
      if vgs < p_flatBandVoltage p then Inr none
      else
        bindR (SurfacePotential_default m vgs 0) (\<lambda>sourceSurfacePotential.
        bindR (SurfacePotential_default m vgs vds) (\<lambda>drainSurfacePotential.
        let s = vgs - p_flatBandVoltage p - sourceSurfacePotential;
            d = vgs - p_flatBandVoltage p - drainSurfacePotential;
            chargeSum = s + d
        in if chargeSum < 1 / 10 ^ 12 then Inr none
           else
             let gateNumerator = 2 * (s * s + d * d + s * d);
                 gate = p_width p * p_length p * p_oxideCapacitance p * gateNumerator / (3 * chargeSum);
                 drainNumerator = 2 * (2 * s ^ 3 + 4 * s * s * d + 6 * s * d * d + 3 * d ^ 3);
                 drain = p_width p * p_length p * p_oxideCapacitance p * drainNumerator
                   / (15 * chargeSum * chargeSum)
             in bindR (RequireFiniteResult gate ''gate charge'') (\<lambda>_.
                bindR (RequireFiniteResult drain ''drain charge'') (\<lambda>_.
                  Inr \<lparr>gateCharge = gate, drainCharge = drain\<rparr>)))))))"

record aos_capacitances =
  gateSource :: real
  gateDrain :: real

definition CalculateCapacitances :: "aos_model \<Rightarrow> real \<Rightarrow> real \<Rightarrow> real \<Rightarrow> aos_capacitances res" where
  "CalculateCapacitances m vgs vds delta =
     (let p = parameters m in
      bindR (RequirePositive delta ''finite-difference voltage step'') (\<lambda>_.
      bindR (CalculateCharges m vgs vds) (\<lambda>base.
      bindR (CalculateCharges m vgs (vds + delta)) (\<lambda>drainStep.
      let intrinsicGateDrain = - (gateCharge drainStep - gateCharge base) / delta in
      bindR (CalculateCharges m (vgs + delta) vds) (\<lambda>gateStep.
      let gateGate = (gateCharge gateStep - gateCharge base) / delta;
          cap = (if vgs < p_flatBandVoltage p
                 then \<lparr>gateSource = p_overlapCapacitance p, gateDrain = p_overlapCapacitance p\<rparr>
                 else \<lparr>gateSource = gateGate - intrinsicGateDrain + p_overlapCapacitance p,
                       gateDrain = intrinsicGateDrain + p_overlapCapacitance p\<rparr>)
      in bindR (all_of [
           RequireFiniteResult (gateSource cap) ''gate-source capacitance'',
           RequireFiniteResult (gateDrain cap) ''gate-drain capacitance'',
           throw_unless (\<not> (gateSource cap < 0 \<or> gateDrain cap < 0)) ''negative capacitance''])
         (\<lambda>_. Inr cap))))))"

record operating_point =
  Ion :: real
  Ioff :: real
  Ron :: real
  Roff :: real
  Cgate :: real
  Cdrain :: real

definition no_point :: operating_point where
  "no_point = \<lparr>Ion = 0, Ioff = 0, Ron = 0, Roff = 0, Cgate = 0, Cdrain = 0\<rparr>"

text \<open>A division by a current of zero gives an infinite or undefined resistance, which the checks
  that follow reject.\<close>

definition EvaluateOperatingPoint :: "aos_model \<Rightarrow> real \<Rightarrow> real \<Rightarrow> real \<Rightarrow> operating_point res" where
  "EvaluateOperatingPoint m vgsOn vgsOff vds =
     bindR (all_of [
       RequireFinite vgsOn ''on-gate voltage'',
       RequireFinite vgsOff ''off-gate voltage'',
       throw_unless (\<not> vgsOn \<le> vgsOff) ''on-gate voltage must exceed off-gate voltage'',
       throw_unless (isfinite vds \<and> \<not> vds \<le> 0) ''operating-point Vds must be finite and positive''])
     (\<lambda>_.
     bindR (CalculateDrainCurrentExternal m vgsOn vds) (\<lambda>on.
     bindR (CalculateDrainCurrentExternal m vgsOff vds) (\<lambda>off.
     bindR (CalculateCapacitances m vgsOn vds (1 / 10 ^ 3)) (\<lambda>cap.
     let point = \<lparr>Ion = on, Ioff = off, Ron = vds / on, Roff = vds / off,
                   Cgate = gateSource cap + gateDrain cap, Cdrain = gateDrain cap\<rparr>
     in bindR (all_of [
          RequireFiniteResult (Ion point) ''Ion'',
          RequireFiniteResult (Ioff point) ''Ioff'',
          throw_unless (on \<noteq> 0 \<and> isfinite (Ron point)) ''produced non-finite Ron'',
          throw_unless (off \<noteq> 0 \<and> isfinite (Roff point)) ''produced non-finite Roff'',
          RequireFiniteResult (Cgate point) ''gate capacitance'',
          RequireFiniteResult (Cdrain point) ''drain capacitance'',
          throw_unless (\<not> (Ion point \<le> Ioff point \<or> Ioff point \<le> 0 \<or> Ron point \<le> 0
              \<or> Roff point \<le> 0 \<or> Cgate point < 0 \<or> Cdrain point < 0))
            ''operating point is physically invalid'']) (\<lambda>_. Inr point)))))"

end
