(* ===== verification/Mem_Cell.thy ===== *)
theory Mem_Cell
  imports Option_File Aos_Model Result_Update
begin

text \<open>
  \<^verbatim>\<open>src/src/MemCell.h\<close> and \<^verbatim>\<open>MemCell.cpp\<close>: the memory cell, its constructor, the strict parsers
  of the oxide-transistor settings, the handlers of the options of the cell file in the order of the
  \<^verbatim>\<open>if\<close> statements, the reading of the file with its final checks, and the operations on a
  cell.  The record extends \<open>mem_cell\<close>, the part of a cell that the exploration looks at.
  \<open>cell_env\<close> holds what the class reads through global pointers, \<open>None\<close> for a null pointer.
  A value that the code would compute as infinite or undefined is the fault \<open>NonFinite\<close>.
\<close>

section \<open>The cell record\<close>

datatype CellAccessType = CMOS_access | BJT_access | diode_access | none_access

record oxide_set =
  ox_initialized :: bool
  temperatureSpecified :: bool
  widthSpecified :: bool
  lengthSpecified :: bool
  overlapCapacitanceSpecified :: bool
  mobilitySpecified :: bool
  mobilityScaleSpecified :: bool
  leakageScaleSpecified :: bool
  flatBandVoltageSpecified :: bool
  contactResistanceSpecified :: bool
  wordlineBoostVoltageSpecified :: bool
  wordlineHoldVoltageSpecified :: bool
  wordlineBoostVoltage :: real
  wordlineHoldVoltage :: real
  ox_parameters :: aos_parameters
  operatingPoint :: operating_point

record MemCell = mem_cell +
  cellProcessNode :: int
  cellArea :: real
  cellAspectRatio :: real
  widthInFeatureSize :: real
  heightInFeatureSize :: real
  resistanceOn :: real
  resistanceOff :: real
  capacitanceOn :: real
  capacitanceOff :: real
  readMode :: bool
  readVoltage :: real
  readCurrent :: real
  minSenseVoltage :: real
  wordlineBoostRatio :: real
  readPower :: real
  resetMode :: bool
  resetVoltage :: real
  resetCurrent :: real
  resetPulse :: real
  resetEnergy :: real
  setMode :: bool
  setVoltage :: real
  setCurrent :: real
  setPulse :: real
  setEnergy :: real
  accessType :: CellAccessType
  stitching :: int
  gateOxThicknessFactor :: real
  widthSOIDevice :: real
  widthAccessCMOS :: real
  voltageDropAccessDevice :: real
  leakageCurrentAccessDevice :: real
  capDRAMCell :: real
  widthSRAMCellNMOS :: real
  widthSRAMCellPMOS :: real
  oxideTransistor :: bool
  oxideAccessTransistor :: oxide_set
  oxideReadTransistor :: oxide_set
  oxideWriteTransistor :: oxide_set
  readFloating :: bool
  resistanceOnAtSetVoltage :: real
  resistanceOffAtSetVoltage :: real
  resistanceOnAtResetVoltage :: real
  resistanceOffAtResetVoltage :: real
  resistanceOnAtReadVoltage :: real
  resistanceOffAtReadVoltage :: real
  resistanceOnAtHalfReadVoltage :: real
  resistanceOffAtHalfReadVoltage :: real
  resistanceOnAtHalfResetVoltage :: real
  flashEraseVoltage :: real
  flashPassVoltage :: real
  flashProgramVoltage :: real
  flashEraseTime :: real
  flashProgramTime :: real
  gateCouplingRatio :: real
  retentionTime :: real
  cellTemperature :: real
  retentionAOSOffCurrentRatio :: bool
  retentionReferenceHoldVoltageSpecified :: bool
  retentionReferenceHoldVoltage :: real

definition InitializeAOSParameterSet :: oxide_set where
  "InitializeAOSParameterSet =
     \<lparr>ox_initialized = False, temperatureSpecified = False, widthSpecified = False,
      lengthSpecified = False, overlapCapacitanceSpecified = False, mobilitySpecified = False,
      mobilityScaleSpecified = False, leakageScaleSpecified = False,
      flatBandVoltageSpecified = False, contactResistanceSpecified = False,
      wordlineBoostVoltageSpecified = False, wordlineHoldVoltageSpecified = False,
      wordlineBoostVoltage = 0, wordlineHoldVoltage = 0,
      ox_parameters = DefaultParameters, operatingPoint = no_point\<rparr>"

text \<open>The constructor; \<open>m\<close> is the memory of the object, which the members that are not assigned
  keep.\<close>

definition MemCell_new :: "MemCell \<Rightarrow> MemCell" where
  "MemCell_new m = m\<lparr>
     memCellType := PCRAM, cellArea := 0, cellAspectRatio := 0,
     resistanceOn := 0, resistanceOff := 0, readMode := True, readVoltage := 0,
     readCurrent := 0, readPower := 0, wordlineBoostRatio := 1,
     resetMode := True, resetVoltage := 0, resetCurrent := 0, minSenseVoltage := 8 / 100,
     resetPulse := 0, resetEnergy := 0, setMode := True, setVoltage := 0, setCurrent := 0,
     setPulse := 0, accessType := CMOS_access, cellProcessNode := 0, setEnergy := 0,
     stitching := 0, gateOxThicknessFactor := 2, widthSOIDevice := 0, widthAccessCMOS := 0,
     voltageDropAccessDevice := 0, leakageCurrentAccessDevice := 0, capDRAMCell := 0,
     widthSRAMCellNMOS := 208 / 100, widthSRAMCellPMOS := 123 / 100,
     oxideTransistor := False,
     oxideAccessTransistor := InitializeAOSParameterSet,
     oxideReadTransistor := InitializeAOSParameterSet,
     oxideWriteTransistor := InitializeAOSParameterSet,
     readFloating := False,
     resistanceOnAtSetVoltage := 0, resistanceOffAtSetVoltage := 0,
     resistanceOnAtResetVoltage := 0, resistanceOffAtResetVoltage := 0,
     resistanceOnAtReadVoltage := 0, resistanceOffAtReadVoltage := 0,
     resistanceOnAtHalfReadVoltage := 0, resistanceOffAtHalfReadVoltage := 0,
     retentionTime := invalid_value, cellTemperature := 300,
     retentionAOSOffCurrentRatio := False, retentionReferenceHoldVoltageSpecified := False,
     retentionReferenceHoldVoltage := 0\<rparr>"

record cell_env =
  tech_vdd :: "real option"
  env_temperature :: "int option"

section \<open>Strict settings\<close>

definition IsAOSCell :: "MemCellType \<Rightarrow> bool" where
  "IsAOSCell t \<longleftrightarrow> t = eDRAM \<or> t = gcDRAM"

definition Trim :: "string \<Rightarrow> string" where
  "Trim v = rev (dropWhile isspace (rev (dropWhile isspace v)))"

definition Lower :: "string \<Rightarrow> string" where
  "Lower v = map tolower v"

definition FailCellFile :: "string \<Rightarrow> 'a res" where
  "FailCellFile msg = Inl (ConfigExit msg)"

definition SplitSetting :: "string \<Rightarrow> (string \<times> string) option" where
  "SplitSetting line =
     (let key = takeWhile (\<lambda>c. c \<noteq> CHR '':'') line in
      if key = line then None
      else Some (Trim key, Trim (drop (Suc (length key)) line)))"

definition ParseFiniteCellDouble :: "string \<Rightarrow> string \<Rightarrow> real res" where
  "ParseFiniteCellDouble key value =
     (if value = [] then FailCellFile (key @ '' requires a value'')
      else case strtod value of
          Some (Fin x, erange, rest) \<Rightarrow>
            if skip_ws rest \<noteq> [] \<or> erange
            then FailCellFile (key @ '' requires one finite numeric value with no trailing text'')
            else Inr x
        | _ \<Rightarrow> FailCellFile (key @ '' requires one finite numeric value with no trailing text''))"

definition ParseFiniteCellVoltage :: "cell_env \<Rightarrow> string \<Rightarrow> string \<Rightarrow> real res" where
  "ParseFiniteCellVoltage env key value =
     (if Lower value = ''vdd'' then
        (case tech_vdd env of
           None \<Rightarrow> FailCellFile (key @ '' cannot resolve vdd before technology initialization'')
         | Some vdd \<Rightarrow>
             if isfinite vdd then Inr vdd
             else FailCellFile (key @ '' cannot resolve vdd before technology initialization''))
      else ParseFiniteCellDouble key value)"

definition ParseStrictCellBool :: "string \<Rightarrow> string \<Rightarrow> bool res" where
  "ParseStrictCellBool key value =
     (let normalized = Lower value in
      if normalized = ''true'' \<or> normalized = ''yes'' \<or> normalized = ''1'' then Inr True
      else if normalized = ''false'' \<or> normalized = ''no'' \<or> normalized = ''0'' then Inr False
      else FailCellFile (key @ '' expects yes/no, true/false, or 1/0''))"

text \<open>The assignment of one field: \<open>par\<close> parses a number into a compact-model parameter.\<close>

definition set_aos_field :: "cell_env \<Rightarrow> string \<Rightarrow> string \<Rightarrow> string \<Rightarrow> oxide_set \<Rightarrow> oxide_set res" where
  "set_aos_field env rawKey value field t =
     (let par = (\<lambda>f. bindR (ParseFiniteCellDouble rawKey value)
                   (\<lambda>x. Inr (t\<lparr>ox_parameters := f x (ox_parameters t)\<rparr>)));
          volt = ParseFiniteCellVoltage env rawKey value
      in
      if field = ''Temperature (K)'' then
        bindR (par (\<lambda>x p. p\<lparr>p_temperature := x\<rparr>)) (\<lambda>t. Inr (t\<lparr>temperatureSpecified := True\<rparr>))
      else if field = ''TailTemperature (K)'' then par (\<lambda>x p. p\<lparr>p_tailTemperature := x\<rparr>)
      else if field = ''Width (m)'' then
        bindR (par (\<lambda>x p. p\<lparr>p_width := x\<rparr>)) (\<lambda>t. Inr (t\<lparr>widthSpecified := True\<rparr>))
      else if field = ''Length (m)'' then
        bindR (par (\<lambda>x p. p\<lparr>p_length := x\<rparr>)) (\<lambda>t. Inr (t\<lparr>lengthSpecified := True\<rparr>))
      else if field = ''OverlapCapacitance (F)'' then
        bindR (par (\<lambda>x p. p\<lparr>p_overlapCapacitance := x\<rparr>)) (\<lambda>t. Inr (t\<lparr>overlapCapacitanceSpecified := True\<rparr>))
      else if field = ''FlatBandVoltage (V)'' then
        bindR (par (\<lambda>x p. p\<lparr>p_flatBandVoltage := x\<rparr>)) (\<lambda>t. Inr (t\<lparr>flatBandVoltageSpecified := True\<rparr>))
      else if field = ''Mobility (cm^2/Vs)'' \<or> field = ''Mu (cm^2/Vs)'' then
        bindR (par (\<lambda>x p. p\<lparr>p_mobility := x * (1 / 10 ^ 4), p_useConstantMobility := True\<rparr>))
          (\<lambda>t. Inr (t\<lparr>mobilitySpecified := True\<rparr>))
      else if field = ''MobilityScale'' then
        bindR (par (\<lambda>x p. p\<lparr>p_mobilityScale := x\<rparr>)) (\<lambda>t. Inr (t\<lparr>mobilityScaleSpecified := True\<rparr>))
      else if field = ''LeakageScale'' then
        bindR (par (\<lambda>x p. p\<lparr>p_leakageScale := x\<rparr>)) (\<lambda>t. Inr (t\<lparr>leakageScaleSpecified := True\<rparr>))
      else if field = ''TotalContactResistance (kOhm-um)'' \<or> field = ''TotalContactResistanceKohmUm'' then
        bindR (par (\<lambda>x p. p\<lparr>p_totalContactResistanceKohmUm := x\<rparr>))
          (\<lambda>t. Inr (t\<lparr>contactResistanceSpecified := True\<rparr>))
      else if field = ''BoostVoltage (V)'' \<or> field = ''OnGateVoltage (V)'' then
        bindR volt (\<lambda>x. Inr (t\<lparr>wordlineBoostVoltage := x, wordlineBoostVoltageSpecified := True\<rparr>))
      else if field = ''HoldVoltage (V)'' \<or> field = ''OffGateVoltage (V)'' then
        bindR volt (\<lambda>x. Inr (t\<lparr>wordlineHoldVoltage := x, wordlineHoldVoltageSpecified := True\<rparr>))
      else if field = ''ElementaryCharge (C)'' then par (\<lambda>x p. p\<lparr>p_q := x\<rparr>)
      else if field = ''BoltzmannConstant (J/K)'' then par (\<lambda>x p. p\<lparr>p_k := x\<rparr>)
      else if field = ''VacuumPermittivity (F/m)'' then par (\<lambda>x p. p\<lparr>p_eps0 := x\<rparr>)
      else if field = ''SemiconductorPermittivity (F/m)'' then
        par (\<lambda>x p. p\<lparr>p_semiconductorPermittivity := x\<rparr>)
      else if field = ''Nu0T0'' then par (\<lambda>x p. p\<lparr>p_nu0T0 := x\<rparr>)
      else if field = ''TrapDensity'' then par (\<lambda>x p. p\<lparr>p_trapDensity := x\<rparr>)
      else if field = ''FermiReference'' then par (\<lambda>x p. p\<lparr>p_fermiReference := x\<rparr>)
      else if field = ''OxideCapacitance (F/m^2)'' then par (\<lambda>x p. p\<lparr>p_oxideCapacitance := x\<rparr>)
      else if field = ''VRHThreshold (V)'' then par (\<lambda>x p. p\<lparr>p_vrhThreshold := x\<rparr>)
      else if field = ''PercolationThreshold (V)'' then par (\<lambda>x p. p\<lparr>p_percolationThreshold := x\<rparr>)
      else if field = ''VRHPrefactor (cm^2/Vs)'' then par (\<lambda>x p. p\<lparr>p_vrhPrefactor := x\<rparr>)
      else if field = ''PercolationPrefactor (cm^2/Vs)'' then par (\<lambda>x p. p\<lparr>p_percolationPrefactor := x\<rparr>)
      else if field = ''PercolationExponent'' then par (\<lambda>x p. p\<lparr>p_percolationExponent := x\<rparr>)
      else if field = ''LeakageSwingFactor'' then par (\<lambda>x p. p\<lparr>p_leakageSwingFactor := x\<rparr>)
      else if field = ''LeakageSurfacePotentialReference (V)'' then
        par (\<lambda>x p. p\<lparr>p_leakageSurfacePotentialReference := x\<rparr>)
      else if field = ''CurrentFloor (A)'' then par (\<lambda>x p. p\<lparr>p_currentFloor := x\<rparr>)
      else FailCellFile (''unknown or unused AOS field '' @ rawKey))"

definition ParseAOSParameter :: "cell_env \<Rightarrow> string \<Rightarrow> string \<Rightarrow> string \<Rightarrow> oxide_set \<Rightarrow> oxide_set res" where
  "ParseAOSParameter env rawKey value pre t =
     (if \<not> prefix pre rawKey then Inr t
      else
        let field = drop (length pre) rawKey in
        if field = [] then FailCellFile (''missing AOS field name after '' @ pre)
        else bindR (set_aos_field env rawKey value field t) (\<lambda>t'. Inr (t'\<lparr>ox_initialized := True\<rparr>)))"

definition aos_missing :: "oxide_set \<Rightarrow> bool" where
  "aos_missing t \<longleftrightarrow> \<not> temperatureSpecified t \<or> \<not> widthSpecified t \<or> \<not> lengthSpecified t
     \<or> \<not> overlapCapacitanceSpecified t \<or> \<not> flatBandVoltageSpecified t \<or> \<not> leakageScaleSpecified t
     \<or> \<not> contactResistanceSpecified t \<or> \<not> wordlineBoostVoltageSpecified t
     \<or> \<not> wordlineHoldVoltageSpecified t
     \<or> (\<not> mobilitySpecified t \<and> \<not> mobilityScaleSpecified t)"

text \<open>The compact model of the parameters; every member is assigned before it is used.\<close>

definition AOSFETCompactModel :: "aos_parameters \<Rightarrow> aos_model res" where
  "AOSFETCompactModel p =
     Initialize \<lparr>parameters = p, mobilityVrhExponent = 0, voltageNormalization = 0, thermalVoltage = 0,
       trapCoefficient = 0, deepStateCoefficient = 0, leakagePrefactor = 0\<rparr> p"

definition catch_exception :: "string \<Rightarrow> 'a res \<Rightarrow> 'a res" where
  "catch_exception msg r = (case r of Inl (Thrown e) \<Rightarrow> Inl (ConfigExit msg) | _ \<Rightarrow> r)"

definition ValidateAOSParameterSet :: "cell_env \<Rightarrow> string \<Rightarrow> oxide_set \<Rightarrow> oxide_set res" where
  "ValidateAOSParameterSet env name t =
     (if aos_missing t then FailCellFile (name @ '' AOS transistor is incomplete'')
      else if wordlineBoostVoltage t \<le> wordlineHoldVoltage t
      then FailCellFile (name @ '' AOS on/boost voltage must exceed off/hold voltage'')
      else case (env_temperature env, tech_vdd env) of
          (Some temp, Some vdd) \<Rightarrow>
            if \<not> isfinite vdd \<or> vdd \<le> 0
            then FailCellFile (name @ '' AOS validation requires top-level configuration'')
            else if \<bar>p_temperature (ox_parameters t) - of_int temp\<bar> > 1 / 10 ^ 9
            then FailCellFile (name @ '' AOS temperature must match the top-level operating temperature'')
            else bindR
              (catch_exception (name @ '' AOS transistor is invalid'')
                (bindR (AOSFETCompactModel (ox_parameters t)) (\<lambda>m.
                   EvaluateOperatingPoint m (wordlineBoostVoltage t) (wordlineHoldVoltage t) vdd)))
              (\<lambda>point. Inr (t\<lparr>operatingPoint := point\<rparr>))
        | _ \<Rightarrow> FailCellFile (name @ '' AOS validation requires top-level configuration''))"

section \<open>Option handlers\<close>

text \<open>The state of the reading loop: the cell and the three local flags.\<close>

record reading = MemCell +
  oxideControlSpecified :: bool
  oxideFieldSpecified :: bool
  retentionModelSpecified :: bool

type_synonym cell_handler = "reading option_handler"

definition when_handler :: "(reading \<Rightarrow> bool) \<Rightarrow> cell_handler \<Rightarrow> cell_handler" where
  "when_handler c h line st = (if c (fst st) then h line st else Inr st)"

text \<open>A voltage that may be the word \<^verbatim>\<open>vdd\<close>: the word is scanned into \<^verbatim>\<open>tmp\<close> first.\<close>

definition voltage_handler :: "cell_env \<Rightarrow> string \<Rightarrow> string \<Rightarrow> (real \<Rightarrow> reading \<Rightarrow> reading) \<Rightarrow> cell_handler" where
  "voltage_handler env wfmt dfmt upd line st =
     (let tmp = scan_tmp wfmt line (snd st) in
      if tmp = ''vdd'' then bindR (derefR (tech_vdd env)) (\<lambda>vdd. Inr (upd vdd (fst st), tmp))
      else double_handler dfmt upd id line (fst st, tmp))"

definition cell_MemCellType :: cell_handler where
  "cell_MemCellType = word_handler ''-MemCellType: %s'' (\<lambda>tmp c.
     if tmp = ''SRAM'' then c\<lparr>memCellType := SRAM\<rparr>
     else if tmp = ''DRAM'' then c\<lparr>memCellType := DRAM\<rparr>
     else if tmp = ''eDRAM'' then c\<lparr>memCellType := eDRAM\<rparr>
     else if tmp = ''gcDRAM'' then c\<lparr>memCellType := gcDRAM\<rparr>
     else if tmp = ''MRAM'' then c\<lparr>memCellType := MRAM\<rparr>
     else if tmp = ''PCRAM'' then c\<lparr>memCellType := PCRAM\<rparr>
     else if tmp = ''FBRAM'' then c\<lparr>memCellType := FBRAM\<rparr>
     else if tmp = ''memristor'' then c\<lparr>memCellType := memristor\<rparr>
     else if tmp = ''SLCNAND'' then c\<lparr>memCellType := SLCNAND\<rparr>
     else if tmp = ''FeRAM'' then c\<lparr>memCellType := FeRAM\<rparr>
     else c\<lparr>memCellType := MLCNAND\<rparr>)"

definition cell_CellAspectRatio :: cell_handler where
  "cell_CellAspectRatio line st =
     bindR (double_handler ''-CellAspectRatio: %lf'' (\<lambda>v c. c\<lparr>cellAspectRatio := v\<rparr>) id line st) (\<lambda>st'.
       let c = fst st' in
       if cellAspectRatio c = 0 \<or> cellArea c * cellAspectRatio c < 0 then Inl NonFinite
       else Inr (c\<lparr>heightInFeatureSize := sqrt (cellArea c * cellAspectRatio c),
                   widthInFeatureSize := sqrt (cellArea c / cellAspectRatio c)\<rparr>, snd st'))"

definition cell_ReadMode :: cell_handler where
  "cell_ReadMode = word_handler ''-ReadMode: %s'' (\<lambda>tmp c.
     if tmp = ''voltage'' then c\<lparr>readMode := True\<rparr>
     else c\<lparr>readMode := False\<rparr>)"

definition cell_ResetMode :: cell_handler where
  "cell_ResetMode = word_handler ''-ResetMode: %s'' (\<lambda>tmp c.
     if tmp = ''voltage'' then c\<lparr>resetMode := True\<rparr>
     else c\<lparr>resetMode := False\<rparr>)"

definition cell_ResetVoltage :: "cell_env \<Rightarrow> cell_handler" where
  "cell_ResetVoltage env = voltage_handler env ''-ResetVoltage (V): %s'' ''-ResetVoltage (V): %lf''
       (\<lambda>v c. c\<lparr>resetVoltage := v\<rparr>)"

definition cell_SetMode :: cell_handler where
  "cell_SetMode = word_handler ''-SetMode: %s'' (\<lambda>tmp c.
     if tmp = ''voltage'' then c\<lparr>setMode := True\<rparr>
     else c\<lparr>setMode := False\<rparr>)"

definition cell_SetVoltage :: "cell_env \<Rightarrow> cell_handler" where
  "cell_SetVoltage env = voltage_handler env ''-SetVoltage (V): %s'' ''-SetVoltage (V): %lf''
       (\<lambda>v c. c\<lparr>setVoltage := v\<rparr>)"

definition cell_AccessType :: cell_handler where
  "cell_AccessType = word_handler ''-AccessType: %s'' (\<lambda>tmp c.
     if tmp = ''CMOS'' then c\<lparr>accessType := CMOS_access\<rparr>
     else if tmp = ''BJT'' then c\<lparr>accessType := BJT_access\<rparr>
     else if tmp = ''diode'' then c\<lparr>accessType := diode_access\<rparr>
     else c\<lparr>accessType := none_access\<rparr>)"

definition cell_ReadFloating :: cell_handler where
  "cell_ReadFloating = word_handler ''-ReadFloating: %s'' (\<lambda>tmp c.
     if tmp = ''true'' then c\<lparr>readFloating := True\<rparr>
     else c\<lparr>readFloating := False\<rparr>)"

definition cell_geometry_options :: "reading option_chain" where
  "cell_geometry_options = [
     (''-MemCellType'', True, cell_MemCellType),
     (''-ProcessNode'', True,
       int_handler ''-ProcessNode: %d'' [\<lambda>v c. c\<lparr>cellProcessNode := v\<rparr>] id),
     (''-CellArea'', True,
       double_handler ''-CellArea (F^2): %lf'' (\<lambda>v c. c\<lparr>cellArea := v\<rparr>) id),
     (''-CellAspectRatio'', True, cell_CellAspectRatio)]"

definition cell_resistance_options :: "reading option_chain" where
  "cell_resistance_options = [
     (''-ResistanceOnAtSetVoltage'', True,
       double_handler ''-ResistanceOnAtSetVoltage (ohm): %lf''
         (\<lambda>v c. c\<lparr>resistanceOnAtSetVoltage := v\<rparr>) id),
     (''-ResistanceOffAtSetVoltage'', True,
       double_handler ''-ResistanceOffAtSetVoltage (ohm): %lf''
         (\<lambda>v c. c\<lparr>resistanceOffAtSetVoltage := v\<rparr>) id),
     (''-ResistanceOnAtResetVoltage'', True,
       double_handler ''-ResistanceOnAtResetVoltage (ohm): %lf''
         (\<lambda>v c. c\<lparr>resistanceOnAtResetVoltage := v\<rparr>) id),
     (''-ResistanceOffAtResetVoltage'', True,
       double_handler ''-ResistanceOffAtResetVoltage (ohm): %lf''
         (\<lambda>v c. c\<lparr>resistanceOffAtResetVoltage := v\<rparr>) id),
     (''-ResistanceOnAtReadVoltage'', True,
       double_handler ''-ResistanceOnAtReadVoltage (ohm): %lf''
         (\<lambda>v c. c\<lparr>resistanceOnAtReadVoltage := v\<rparr>)
         (\<lambda>c. c\<lparr>resistanceOn := resistanceOnAtReadVoltage c\<rparr>)),
     (''-ResistanceOffAtReadVoltage'', True,
       double_handler ''-ResistanceOffAtReadVoltage (ohm): %lf''
         (\<lambda>v c. c\<lparr>resistanceOffAtReadVoltage := v\<rparr>)
         (\<lambda>c. c\<lparr>resistanceOff := resistanceOffAtReadVoltage c\<rparr>)),
     (''-ResistanceOnAtHalfReadVoltage'', True,
       double_handler ''-ResistanceOnAtHalfReadVoltage (ohm): %lf''
         (\<lambda>v c. c\<lparr>resistanceOnAtHalfReadVoltage := v\<rparr>) id),
     (''-ResistanceOffAtHalfReadVoltage'', True,
       double_handler ''-ResistanceOffAtHalfReadVoltage (ohm): %lf''
         (\<lambda>v c. c\<lparr>resistanceOffAtHalfReadVoltage := v\<rparr>) id),
     (''-ResistanceOnAtHalfResetVoltage'', True,
       double_handler ''-ResistanceOnAtHalfResetVoltage (ohm): %lf''
         (\<lambda>v c. c\<lparr>resistanceOnAtHalfResetVoltage := v\<rparr>) id),
     (''-ResistanceOn'', True,
       double_handler ''-ResistanceOn (ohm): %lf''
         (\<lambda>v c. c\<lparr>resistanceOn := v\<rparr>) id),
     (''-ResistanceOff'', True,
       double_handler ''-ResistanceOff (ohm): %lf''
         (\<lambda>v c. c\<lparr>resistanceOff := v\<rparr>) id),
     (''-CapacitanceOn'', True,
       double_handler ''-CapacitanceOn (F): %lf''
         (\<lambda>v c. c\<lparr>capacitanceOn := v\<rparr>) id),
     (''-CapacitanceOff'', True,
       double_handler ''-CapacitanceOff (F): %lf''
         (\<lambda>v c. c\<lparr>capacitanceOff := v\<rparr>) id),
     (''-GateOxThicknessFactor'', True,
       double_handler ''-GateOxThicknessFactor: %lf''
         (\<lambda>v c. c\<lparr>gateOxThicknessFactor := v\<rparr>) id),
     (''-SOIDeviceWidth (F)'', True,
       double_handler ''-SOIDeviceWidth (F): %lf''
         (\<lambda>v c. c\<lparr>widthSOIDevice := v\<rparr>) id)]"

definition cell_read_options :: "reading option_chain" where
  "cell_read_options = [
     (''-ReadMode'', True, cell_ReadMode),
     (''-ReadVoltage'', True,
       double_handler ''-ReadVoltage (V): %lf'' (\<lambda>v c. c\<lparr>readVoltage := v\<rparr>)
         id),
     (''-ReadCurrent'', True,
       double_handler ''-ReadCurrent (uA): %lf''
         (\<lambda>v c. c\<lparr>readCurrent := v\<rparr>)
         (\<lambda>c. c\<lparr>readCurrent := readCurrent c / 10 ^ 6\<rparr>)),
     (''-ReadPower'', True,
       double_handler ''-ReadPower (uW): %lf'' (\<lambda>v c. c\<lparr>readPower := v\<rparr>)
         (\<lambda>c. c\<lparr>readPower := readPower c / 10 ^ 6\<rparr>)),
     (''-WordlineBoostRatio'', True,
       double_handler ''-WordlineBoostRatio: %lf''
         (\<lambda>v c. c\<lparr>wordlineBoostRatio := v\<rparr>) id),
     (''-MinSenseVoltage'', True,
       double_handler ''-MinSenseVoltage (mV): %lf''
         (\<lambda>v c. c\<lparr>minSenseVoltage := v\<rparr>)
         (\<lambda>c. c\<lparr>minSenseVoltage := minSenseVoltage c / 10 ^ 3\<rparr>))]"

definition cell_reset_options :: "cell_env \<Rightarrow> reading option_chain" where
  "cell_reset_options env = [
     (''-ResetMode'', True, cell_ResetMode),
     (''-ResetVoltage'', True, cell_ResetVoltage env),
     (''-ResetCurrent'', True,
       double_handler ''-ResetCurrent (uA): %lf''
         (\<lambda>v c. c\<lparr>resetCurrent := v\<rparr>)
         (\<lambda>c. c\<lparr>resetCurrent := resetCurrent c / 10 ^ 6\<rparr>)),
     (''-ResetPulse'', True,
       double_handler ''-ResetPulse (ns): %lf'' (\<lambda>v c. c\<lparr>resetPulse := v\<rparr>)
         (\<lambda>c. c\<lparr>resetPulse := resetPulse c / 10 ^ 9\<rparr>)),
     (''-ResetEnergy'', True,
       double_handler ''-ResetEnergy (pJ): %lf''
         (\<lambda>v c. c\<lparr>resetEnergy := v\<rparr>)
         (\<lambda>c. c\<lparr>resetEnergy := resetEnergy c / 10 ^ 12\<rparr>))]"

definition cell_set_options :: "cell_env \<Rightarrow> reading option_chain" where
  "cell_set_options env = [
     (''-SetMode'', True, cell_SetMode),
     (''-SetVoltage'', True, cell_SetVoltage env),
     (''-SetCurrent'', True,
       double_handler ''-SetCurrent (uA): %lf'' (\<lambda>v c. c\<lparr>setCurrent := v\<rparr>)
         (\<lambda>c. c\<lparr>setCurrent := setCurrent c / 10 ^ 6\<rparr>)),
     (''-SetPulse'', True,
       double_handler ''-SetPulse (ns): %lf'' (\<lambda>v c. c\<lparr>setPulse := v\<rparr>)
         (\<lambda>c. c\<lparr>setPulse := setPulse c / 10 ^ 9\<rparr>)),
     (''-SetEnergy'', True,
       double_handler ''-SetEnergy (pJ): %lf'' (\<lambda>v c. c\<lparr>setEnergy := v\<rparr>)
         (\<lambda>c. c\<lparr>setEnergy := setEnergy c / 10 ^ 12\<rparr>)),
     (''-Stitching'', True,
       int_handler ''-Stitching: %d'' [\<lambda>v c. c\<lparr>stitching := v\<rparr>] id)]"

definition cell_access_options :: "reading option_chain" where
  "cell_access_options = [
     (''-AccessType'', True, cell_AccessType),
     (''-AccessCMOSWidth'', True,
       when_handler (\<lambda>c. accessType c \<in> {CMOS_access})
         (double_handler ''-AccessCMOSWidth (F): %lf''
         (\<lambda>v c. c\<lparr>widthAccessCMOS := v\<rparr>) id)),
     (''-VoltageDropAccessDevice'', True,
       double_handler ''-VoltageDropAccessDevice (V): %lf''
         (\<lambda>v c. c\<lparr>voltageDropAccessDevice := v\<rparr>) id),
     (''-LeakageCurrentAccessDevice'', True,
       double_handler ''-LeakageCurrentAccessDevice (uA): %lf''
         (\<lambda>v c. c\<lparr>leakageCurrentAccessDevice := v\<rparr>)
         (\<lambda>c. c\<lparr>leakageCurrentAccessDevice := leakageCurrentAccessDevice c / 10 ^ 6\<rparr>)),
     (''-DRAMCellCapacitance'', True,
       when_handler (\<lambda>c. memCellType c \<in> {DRAM, eDRAM, gcDRAM, FeRAM})
         (double_handler ''-DRAMCellCapacitance (F): %lf''
         (\<lambda>v c. c\<lparr>capDRAMCell := v\<rparr>) id)),
     (''-SRAMCellNMOSWidth'', True,
       when_handler (\<lambda>c. memCellType c \<in> {SRAM})
         (double_handler ''-SRAMCellNMOSWidth (F): %lf''
         (\<lambda>v c. c\<lparr>widthSRAMCellNMOS := v\<rparr>) id)),
     (''-SRAMCellPMOSWidth'', True,
       when_handler (\<lambda>c. memCellType c \<in> {SRAM})
         (double_handler ''-SRAMCellPMOSWidth (F): %lf''
         (\<lambda>v c. c\<lparr>widthSRAMCellPMOS := v\<rparr>) id)),
     (''-ReadFloating'', True, cell_ReadFloating)]"

definition cell_flash_options :: "reading option_chain" where
  "cell_flash_options = [
     (''-FlashEraseVoltage (V)'', True,
       when_handler (\<lambda>c. memCellType c \<in> {SLCNAND, MLCNAND})
         (double_handler ''-FlashEraseVoltage (V): %lf''
         (\<lambda>v c. c\<lparr>flashEraseVoltage := v\<rparr>) id)),
     (''-FlashProgramVoltage (V)'', True,
       when_handler (\<lambda>c. memCellType c \<in> {SLCNAND, MLCNAND})
         (double_handler ''-FlashProgramVoltage (V): %lf''
         (\<lambda>v c. c\<lparr>flashProgramVoltage := v\<rparr>) id)),
     (''-FlashPassVoltage (V)'', True,
       when_handler (\<lambda>c. memCellType c \<in> {SLCNAND, MLCNAND})
         (double_handler ''-FlashPassVoltage (V): %lf''
         (\<lambda>v c. c\<lparr>flashPassVoltage := v\<rparr>) id)),
     (''-FlashEraseTime'', True,
       when_handler (\<lambda>c. memCellType c \<in> {SLCNAND, MLCNAND})
         (double_handler ''-FlashEraseTime (ms): %lf''
         (\<lambda>v c. c\<lparr>flashEraseTime := v\<rparr>)
         (\<lambda>c. c\<lparr>flashEraseTime := flashEraseTime c / 10 ^ 3\<rparr>))),
     (''-FlashProgramTime'', True,
       when_handler (\<lambda>c. memCellType c \<in> {SLCNAND, MLCNAND})
         (double_handler ''-FlashProgramTime (us): %lf''
         (\<lambda>v c. c\<lparr>flashProgramTime := v\<rparr>)
         (\<lambda>c. c\<lparr>flashProgramTime := flashProgramTime c / 10 ^ 6\<rparr>))),
     (''-GateCouplingRatio'', True,
       when_handler (\<lambda>c. memCellType c \<in> {SLCNAND, MLCNAND})
         (double_handler ''-GateCouplingRatio: %lf''
         (\<lambda>v c. c\<lparr>gateCouplingRatio := v\<rparr>) id)),
     (''-RetentionTime'', True,
       double_handler ''-RetentionTime (us): %lf''
         (\<lambda>v c. c\<lparr>retentionTime := v\<rparr>)
         (\<lambda>c. c\<lparr>retentionTime := retentionTime c / 10 ^ 6\<rparr>)),
     (''-Temperature'', True,
       when_handler (\<lambda>c. memCellType c \<in> {eDRAM, gcDRAM})
         (double_handler ''-Temperature (K): %lf''
         (\<lambda>v c. c\<lparr>cellTemperature := v\<rparr>) id))]"

definition cell_handlers :: "cell_env \<Rightarrow> reading option_chain" where
  "cell_handlers env = cell_geometry_options @
     cell_resistance_options @
     cell_read_options @
     cell_reset_options env @
     cell_set_options env @
     cell_access_options @
     cell_flash_options"

lemmas cell_table_defs = cell_handlers_def cell_geometry_options_def cell_resistance_options_def cell_read_options_def
  cell_reset_options_def cell_set_options_def cell_access_options_def cell_flash_options_def
  append_Cons append_Nil

section \<open>Reading the file\<close>

text \<open>The settings with a colon that are handled before the chain; \<open>None\<close> when the line goes on to
  the chain.\<close>

definition process_setting :: "cell_env \<Rightarrow> string \<Rightarrow> string \<Rightarrow> reading \<Rightarrow> reading option res" where
  "process_setting env key value c =
     (if key = ''-OxideTransistor'' then
        (if oxideControlSpecified c then FailCellFile ''-OxideTransistor may be specified only once''
         else bindR (ParseStrictCellBool key value) (\<lambda>b.
           Inr (Some (c\<lparr>oxideTransistor := b, oxideControlSpecified := True\<rparr>))))
      else if prefix ''-OxideAccessTransistor'' key then
        bindR (ParseAOSParameter env key value ''-OxideAccessTransistor'' (oxideAccessTransistor c)) (\<lambda>t.
          Inr (Some (c\<lparr>oxideAccessTransistor := t, oxideFieldSpecified := True\<rparr>)))
      else if prefix ''-OxideReadTransistor'' key then
        bindR (ParseAOSParameter env key value ''-OxideReadTransistor'' (oxideReadTransistor c)) (\<lambda>t.
          Inr (Some (c\<lparr>oxideReadTransistor := t, oxideFieldSpecified := True\<rparr>)))
      else if prefix ''-OxideWriteTransistor'' key then
        bindR (ParseAOSParameter env key value ''-OxideWriteTransistor'' (oxideWriteTransistor c)) (\<lambda>t.
          Inr (Some (c\<lparr>oxideWriteTransistor := t, oxideFieldSpecified := True\<rparr>)))
      else if prefix ''-Oxide'' key then FailCellFile (''unknown AOS setting '' @ key)
      else if key = ''-RetentionModel'' then
        (if retentionModelSpecified c then FailCellFile ''-RetentionModel may be specified only once''
         else if value \<noteq> ''AOSOffCurrentRatio'' then FailCellFile (''unsupported -RetentionModel '' @ value)
         else Inr (Some (c\<lparr>retentionAOSOffCurrentRatio := True, retentionModelSpecified := True\<rparr>)))
      else if key = ''-RetentionReferenceHoldVoltage (V)'' then
        (if retentionReferenceHoldVoltageSpecified c
         then FailCellFile ''-RetentionReferenceHoldVoltage may be specified only once''
         else bindR (ParseFiniteCellVoltage env key value) (\<lambda>v.
           Inr (Some (c\<lparr>retentionReferenceHoldVoltage := v, retentionReferenceHoldVoltageSpecified := True\<rparr>))))
      else if prefix ''-RetentionModel'' key \<or> prefix ''-RetentionReferenceHoldVoltage'' key
      then FailCellFile (''unknown retention setting '' @ key)
      else Inr None)"

definition malformed_setting :: "string \<Rightarrow> bool" where
  "malformed_setting trimmed \<longleftrightarrow> prefix ''-Oxide'' trimmed \<or> prefix ''-RetentionModel'' trimmed
     \<or> prefix ''-RetentionReferenceHoldVoltage'' trimmed"

definition process_cell_line :: "cell_env \<Rightarrow> string \<Rightarrow> reading option_reader \<Rightarrow> reading option_reader res" where
  "process_cell_line env line st =
     (case SplitSetting line of
        None \<Rightarrow>
          if malformed_setting (Trim line) then FailCellFile (''malformed AOS/retention setting '' @ Trim line)
          else dispatch line (cell_handlers env) st
      | Some (key, value) \<Rightarrow>
          bindR (process_setting env key value (fst st)) (\<lambda>r.
            case r of
              Some c \<Rightarrow> Inr (c, snd st)
            | None \<Rightarrow> dispatch line (cell_handlers env) st))"

definition check_oxide :: "cell_env \<Rightarrow> reading \<Rightarrow> reading res" where
  "check_oxide env c =
     (if oxideFieldSpecified c \<and> (\<not> oxideControlSpecified c \<or> \<not> oxideTransistor c)
      then FailCellFile ''AOS transistor fields require -OxideTransistor: true''
      else if oxideTransistor c \<and> \<not> IsAOSCell (memCellType c)
      then FailCellFile ''-OxideTransistor is supported only for eDRAM and gcDRAM''
      else
        bindR
          (if oxideTransistor c \<and> memCellType c = eDRAM then
             (if ox_initialized (oxideReadTransistor c) \<or> ox_initialized (oxideWriteTransistor c)
              then FailCellFile ''eDRAM accepts only -OxideAccessTransistor fields''
              else bindR (ValidateAOSParameterSet env ''eDRAM access'' (oxideAccessTransistor c)) (\<lambda>t.
                Inr (c\<lparr>oxideAccessTransistor := t\<rparr>)))
           else Inr c)
          (\<lambda>c.
             if oxideTransistor c \<and> memCellType c = gcDRAM then
               (if ox_initialized (oxideAccessTransistor c)
                then FailCellFile ''gcDRAM accepts only read/write AOS transistor fields''
                else bindR (ValidateAOSParameterSet env ''gcDRAM read'' (oxideReadTransistor c)) (\<lambda>t.
                     let c = c\<lparr>oxideReadTransistor := t\<rparr> in
                     bindR (ValidateAOSParameterSet env ''gcDRAM write'' (oxideWriteTransistor c)) (\<lambda>t.
                       Inr (c\<lparr>oxideWriteTransistor := t\<rparr>))))
             else Inr c))"

definition check_retention :: "reading \<Rightarrow> reading res" where
  "check_retention c =
     (if retentionAOSOffCurrentRatio c \<and> (memCellType c \<noteq> eDRAM \<or> \<not> oxideTransistor c)
      then FailCellFile ''AOSOffCurrentRatio retention is supported only for AOS eDRAM''
      else if retentionAOSOffCurrentRatio c \<and> retentionTime c = invalid_value
      then FailCellFile ''AOSOffCurrentRatio requires a supplied -RetentionTime''
      else if retentionAOSOffCurrentRatio c \<and> \<not> retentionReferenceHoldVoltageSpecified c
      then FailCellFile ''AOSOffCurrentRatio requires -RetentionReferenceHoldVoltage''
      else if retentionReferenceHoldVoltageSpecified c \<and> \<not> retentionAOSOffCurrentRatio c
      then FailCellFile ''-RetentionReferenceHoldVoltage is unused without -RetentionModel''
      else Inr c)"

definition start_reading :: "MemCell \<Rightarrow> reading" where
  "start_reading c = MemCell.extend c
     \<lparr>oxideControlSpecified = False, oxideFieldSpecified = False, retentionModelSpecified = False\<rparr>"

text \<open>The file is \<open>None\<close> when it cannot be opened; \<open>line0\<close> and \<open>tmp0\<close> are the initial contents of the
  two stack buffers.\<close>

definition ReadCellFromFile ::
    "cell_env \<Rightarrow> string option \<Rightarrow> string \<Rightarrow> string \<Rightarrow> MemCell \<Rightarrow> MemCell res option" where
  "ReadCellFromFile env file line0 tmp0 c =
     (case file of
        None \<Rightarrow> Some (Inl (ConfigExit ''cannot be found''))
      | Some content \<Rightarrow>
          Option.bind (read_lines (process_cell_line env) content line0 (start_reading c, tmp0)) (\<lambda>r.
            Some (bindR r (\<lambda>st.
              bindR (check_oxide env (fst st)) (\<lambda>c.
              bindR (check_retention c) (\<lambda>c. Inr (MemCell.truncate c)))))))"

section \<open>Operations\<close>

definition retention_current_ratio :: "cell_env \<Rightarrow> MemCell \<Rightarrow> real res" where
  "retention_current_ratio env c =
     bindR (AOSFETCompactModel (ox_parameters (oxideAccessTransistor c))) (\<lambda>m.
     bindR (derefR (tech_vdd env)) (\<lambda>vdd.
     bindR (CalculateDrainCurrentExternal m (retentionReferenceHoldVoltage c) vdd) (\<lambda>referenceCurrent.
     let appliedCurrent = Ioff (operatingPoint (oxideAccessTransistor c)) in
     if \<not> isfinite referenceCurrent \<or> \<not> isfinite appliedCurrent \<or> referenceCurrent \<le> 0 \<or> appliedCurrent \<le> 0
     then Inl (Thrown ''invalid off current'')
     else Inr (referenceCurrent / appliedCurrent))))"

definition ApplyPVT :: "cell_env \<Rightarrow> MemCell \<Rightarrow> MemCell res" where
  "ApplyPVT env c =
     (if retentionTime c = invalid_value then Inr c
      else if memCellType c = eDRAM \<or> memCellType c = gcDRAM then
        bindR
          (if retentionAOSOffCurrentRatio c
           then bindR (catch_exception ''AOS retention evaluation failed'' (retention_current_ratio env c)) (\<lambda>ratio.
                  Inr (c\<lparr>retentionTime := retentionTime c * ratio\<rparr>))
           else Inr c)
          (\<lambda>c. bindR (derefR (env_temperature env)) (\<lambda>temp.
             let expo = - (268 / 10 ^ 4) * (of_int temp - cellTemperature c);
                 c = c\<lparr>retentionTime := retentionTime c * exp expo\<rparr>
             in if \<not> isfinite (retentionTime c) \<or> retentionTime c \<le> 0
                then Inl (ConfigExit ''Retention calculation produced an invalid value'')
                else Inr c))
      else Inr c)"

text \<open>The loop of \<^verbatim>\<open>main\<close> that reads the cells: \<open>files\<close> maps a file name to its contents.\<close>

definition load_cell :: "cell_env \<Rightarrow> (string \<Rightarrow> string option) \<Rightarrow> string \<Rightarrow> string \<Rightarrow> MemCell \<Rightarrow> string
    \<Rightarrow> MemCell res option" where
  "load_cell env files line0 tmp0 m name =
     Option.bind (ReadCellFromFile env (files name) line0 tmp0 (MemCell_new m)) (\<lambda>r.
       Some (bindR r (ApplyPVT env)))"

definition CellScaling :: "int \<Rightarrow> MemCell \<Rightarrow> MemCell res" where
  "CellScaling targetProcessNode c =
     (if cellProcessNode c > 0 \<and> cellProcessNode c \<noteq> targetProcessNode then
        if targetProcessNode = 0 then Inl NonFinite
        else
          let scalingFactor = of_int (cellProcessNode c) / of_int targetProcessNode;
              diode = (\<lambda>c. if accessType c = diode_access
                 then c\<lparr>capacitanceOn := capacitanceOn c / scalingFactor,
                       capacitanceOff := capacitanceOff c / scalingFactor\<rparr> else c);
              c' = (if memCellType c = PCRAM then
                      let c = c\<lparr>resistanceOn := resistanceOn c * scalingFactor,
                                resistanceOff := resistanceOff c * scalingFactor\<rparr>;
                          c = (if \<not> setMode c then c\<lparr>setCurrent := setCurrent c / scalingFactor\<rparr> else c);
                          c = (if \<not> resetMode c then c\<lparr>resetCurrent := resetCurrent c / scalingFactor\<rparr> else c)
                      in diode c
                    else if memCellType c = MRAM then
                      let c = c\<lparr>resistanceOn := resistanceOn c * (scalingFactor * scalingFactor),
                                resistanceOff := resistanceOff c * (scalingFactor * scalingFactor)\<rparr>;
                          c = (if \<not> setMode c then c\<lparr>setCurrent := setCurrent c / scalingFactor\<rparr>
                               else c\<lparr>setVoltage := setVoltage c * scalingFactor\<rparr>);
                          c = (if \<not> resetMode c then c\<lparr>resetCurrent := resetCurrent c / scalingFactor\<rparr>
                               else c\<lparr>resetVoltage := resetVoltage c * scalingFactor\<rparr>)
                      in diode c
                    else c)
          in Inr (c'\<lparr>cellProcessNode := targetProcessNode\<rparr>)
      else Inr c)"

definition fdiv :: "real \<Rightarrow> real \<Rightarrow> real res" where
  "fdiv a b = (if b = 0 then Inl NonFinite else Inr (a / b))"

definition flog2 :: "real \<Rightarrow> real res" where
  "flog2 x = (if x \<le> 0 then Inl NonFinite else Inr (log 2 x))"

definition GetMemristance :: "real \<Rightarrow> MemCell \<Rightarrow> real res" where
  "GetMemristance relativeReadVoltage c =
     (if memCellType c = memristor then
        let x1 = (if readVoltage c = 0 then readCurrent c * resistanceOnAtReadVoltage c else readVoltage c);
            x2 = readVoltage c / 2;
            x3 = relativeReadVoltage * readVoltage c
        in bindR (bindR (fdiv x1 (resistanceOnAtReadVoltage c)) flog2) (\<lambda>y1.
           bindR (bindR (fdiv x2 (resistanceOnAtHalfReadVoltage c)) flog2) (\<lambda>y2.
           bindR (fdiv (y2 - y1) (x2 - x1)) (\<lambda>slope.
           bindR (fdiv (x2 * y1 - x1 * y2) (x2 - x1)) (\<lambda>offset.
             Inr (x3 / 2 powr (slope * x3 + offset))))))
      else Inr (- 1))"

text \<open>The write energy of one polarity: voltage, current, pulse and the resistance that a memristor
  without access device has at that voltage.  In current mode the supply voltage replaces
  the voltage when \<open>voltage0\<close> is zero.\<close>

definition write_energy :: "cell_env \<Rightarrow> MemCell \<Rightarrow> bool \<Rightarrow> real \<Rightarrow> real \<Rightarrow> real \<Rightarrow> real \<Rightarrow> real \<Rightarrow> real res" where
  "write_energy env c mode voltage current pulse resistanceAtVoltage voltage0 =
     (let joule = (\<lambda>r. bindR (fdiv (\<bar>voltage\<bar> * (\<bar>voltage\<bar> - voltageDropAccessDevice c)) r) (\<lambda>p. Inr (p * pulse)))
      in
      if mode then
        (if memCellType c = memristor then
           if accessType c = none_access then joule resistanceAtVoltage else joule (resistanceOn c)
         else if memCellType c = PCRAM then joule (resistanceOn c)
         else if memCellType c = FBRAM then Inr (\<bar>voltage\<bar> * \<bar>current\<bar> * pulse)
         else joule (resistanceOn c))
      else if voltage0 = 0 then bindR (derefR (tech_vdd env)) (\<lambda>vdd. Inr (vdd * \<bar>current\<bar> * pulse))
      else Inr (\<bar>voltage\<bar> * \<bar>current\<bar> * pulse))"

definition CalculateWriteEnergy :: "cell_env \<Rightarrow> MemCell \<Rightarrow> MemCell res" where
  "CalculateWriteEnergy env c =
     bindR
       (if resetEnergy c = 0
        then bindR (write_energy env c (resetMode c) (resetVoltage c) (resetCurrent c) (resetPulse c)
                      (resistanceOnAtResetVoltage c) (resetVoltage c)) (\<lambda>e. Inr (c\<lparr>resetEnergy := e\<rparr>))
        else Inr c)
       (\<lambda>c.
          if setEnergy c = 0
          then bindR (write_energy env c (setMode c) (setVoltage c) (setCurrent c) (setPulse c)
                        (resistanceOnAtSetVoltage c) (resetVoltage c)) (\<lambda>e. Inr (c\<lparr>setEnergy := e\<rparr>))
          else Inr c)"

text \<open>\<open>g\<close> is the global \<^verbatim>\<open>cell\<close>, whose read mode the method consults.\<close>

definition CalculateReadPower :: "cell_env \<Rightarrow> MemCell \<Rightarrow> MemCell \<Rightarrow> real res" where
  "CalculateReadPower env g c =
     (if readPower c = 0 then
        if readMode g then
          if readVoltage c = 0 then bindR (derefR (tech_vdd env)) (\<lambda>vdd. Inr (vdd * readCurrent c))
          else if readCurrent c = 0 then
            if resistanceOn c * resistanceOff c < 0 then Inl NonFinite
            else
              let resInSerialForSenseAmp = sqrt (resistanceOn c * resistanceOff c) in
              bindR (fdiv (readVoltage c - voltageDropAccessDevice c) (resistanceOn c + resInSerialForSenseAmp)) (\<lambda>i.
              bindR (derefR (tech_vdd env)) (\<lambda>vdd. Inr (vdd * i)))
          else Inr (- 1)
        else
          bindR (fdiv (readVoltage c - voltageDropAccessDevice c) (resistanceOn c)) (\<lambda>i.
          bindR (derefR (tech_vdd env)) (\<lambda>vdd. Inr (vdd * i)))
      else Inr (- 1))"

end
