(* ===== verification/Aos_Props.thy ===== *)
theory Aos_Props
  imports Aos_Model
begin

text \<open>
  What the compact model promises.  A validated parameter set gives positive derived
  coefficients; below the flat-band voltage the drain current is the explicit, strictly
  increasing \<open>leak\<close>; the contact-resistance solver returns a bracketed sign change of its
  residual, and in the leakage region it always converges; an operating point that is
  returned is physically valid.
\<close>

section \<open>Limited exponential\<close>

definition lexp :: "real \<Rightarrow> real" where
  "lexp v = exp (min (max v (- 50)) 50)"

lemma LimExp_iff [fault_simps]: "LimExp v = Inr e \<longleftrightarrow> isfinite v \<and> e = lexp v"
  by (auto simp: LimExp_def lexp_def fault_simps)

lemma lexp_pos [simp]: "0 < lexp v"
  by (simp add: lexp_def)

lemma lexp_mono: "u \<le> v \<Longrightarrow> lexp u \<le> lexp v"
  by (simp add: lexp_def min_def max_def)

lemma lexp_le_1: "v \<le> 0 \<Longrightarrow> lexp v \<le> 1"
  by (simp add: lexp_def min_def max_def)

lemma lexp_less_1: "v < 0 \<Longrightarrow> lexp v < 1"
  by (simp add: lexp_def min_def max_def)

lemma lexp_0 [simp]: "lexp 0 = 1"
  by (simp add: lexp_def)

lemma isfinite_mono: "isfinite y \<Longrightarrow> \<bar>x\<bar> \<le> \<bar>y\<bar> \<Longrightarrow> isfinite x"
  by (simp add: isfinite_def)

lemma isfinite_divide: "isfinite (y / d) \<Longrightarrow> \<bar>x\<bar> \<le> \<bar>y\<bar> \<Longrightarrow> 0 < d \<Longrightarrow> isfinite (x / d)"
  by (erule isfinite_mono) (simp add: divide_right_mono)

lemma isfinite_small: "\<bar>x\<bar> \<le> 10 ^ 100 \<Longrightarrow> isfinite x"
  by (simp add: isfinite_def dbl_max_bound_def)

section \<open>Validated models\<close>

definition params_ok :: "aos_parameters \<Rightarrow> bool" where
  "params_ok p \<longleftrightarrow> 0 < p_q p \<and> 0 < p_k p \<and> 0 < p_temperature p \<and> p_temperature p < p_tailTemperature p
     \<and> 0 < p_semiconductorPermittivity p \<and> 0 < p_nu0T0 p \<and> 0 < p_width p \<and> 0 < p_length p
     \<and> 0 < p_trapDensity p \<and> 0 < p_oxideCapacitance p \<and> 0 \<le> p_overlapCapacitance p
     \<and> 0 < p_mobilityScale p \<and> 0 < p_leakageSwingFactor p
     \<and> 0 < p_leakageSurfacePotentialReference p \<and> 0 < p_leakageScale p
     \<and> 0 \<le> p_currentFloor p \<and> 0 \<le> p_totalContactResistanceKohmUm p"

lemma ValidateParameters_ok: "ValidateParameters p = Inr u \<Longrightarrow> params_ok p"
  unfolding ValidateParameters_def all_of_iff list.set
  by (simp add: fault_simps params_ok_def)

definition model_ok :: "aos_model \<Rightarrow> bool" where
  "model_ok m \<longleftrightarrow> params_ok (parameters m) \<and> 0 < mobilityVrhExponent m \<and> 0 < voltageNormalization m
     \<and> 0 < thermalVoltage m \<and> 0 < trapCoefficient m \<and> 0 < deepStateCoefficient m
     \<and> 0 < leakagePrefactor m"

lemma UpdateDerivedParameters_shape:
  assumes "UpdateDerivedParameters m = Inr m'"
  shows "\<exists>tT dT lp. 0 < tT \<and> 0 < dT \<and> 0 < leakagePrefactor m' \<and>
    m' = m\<lparr>mobilityVrhExponent := 2 * (p_tailTemperature (parameters m) / p_temperature (parameters m) - 1),
           voltageNormalization := 2 * p_k (parameters m) * p_tailTemperature (parameters m) / p_q (parameters m),
           thermalVoltage := p_k (parameters m) * p_temperature (parameters m) / p_q (parameters m),
           trapCoefficient := sqrt tT / p_oxideCapacitance (parameters m),
           deepStateCoefficient := sqrt dT / p_oxideCapacitance (parameters m),
           leakagePrefactor := lp\<rparr>"
  using assms
  unfolding UpdateDerivedParameters_def Let_def bindR_Inr_iff throw_unless_iff all_of.simps
    sum.inject de_Morgan_disj not_le aos_model.simps
  apply (elim exE conjE)
  apply hypsubst
  apply (intro exI conjI)
     prefer 4
     apply (rule refl)
    apply assumption+
  done

lemma UpdateDerivedParameters_ok:
  assumes "UpdateDerivedParameters m = Inr m'" "params_ok (parameters m)"
  shows "model_ok m' \<and> parameters m' = parameters m"
proof -
  obtain tT dT lp where "0 < tT" "0 < dT" and lp': "0 < leakagePrefactor m'" and m':
    "m' = m\<lparr>mobilityVrhExponent := 2 * (p_tailTemperature (parameters m) / p_temperature (parameters m) - 1),
           voltageNormalization := 2 * p_k (parameters m) * p_tailTemperature (parameters m) / p_q (parameters m),
           thermalVoltage := p_k (parameters m) * p_temperature (parameters m) / p_q (parameters m),
           trapCoefficient := sqrt tT / p_oxideCapacitance (parameters m),
           deepStateCoefficient := sqrt dT / p_oxideCapacitance (parameters m),
           leakagePrefactor := lp\<rparr>"
    using UpdateDerivedParameters_shape[OF assms(1)] by blast
  have "2 < 2 * p_tailTemperature (parameters m) / p_temperature (parameters m)"
    using assms(2) by (simp add: params_ok_def less_divide_eq)
  thus ?thesis using assms(2) \<open>0 < tT\<close> \<open>0 < dT\<close> lp'
    unfolding m' by (auto simp: model_ok_def params_ok_def)
qed

lemma Initialize_ok: "Initialize m p = Inr m' \<Longrightarrow> model_ok m' \<and> parameters m' = p"
  using UpdateDerivedParameters_ok[of "m\<lparr>parameters := p\<rparr>" m'] ValidateParameters_ok
  by (auto simp: Initialize_def fault_simps)

section \<open>Leakage current\<close>

definition leak :: "aos_model \<Rightarrow> real \<Rightarrow> real \<Rightarrow> real" where
  "leak m vgs vds =
     p_leakageScale (parameters m) * leakagePrefactor m
       * lexp (vgs / (p_leakageSwingFactor (parameters m) * thermalVoltage m))
       * (1 - lexp (- vds / thermalVoltage m)) + p_currentFloor (parameters m)"

definition args_finite :: "aos_model \<Rightarrow> real \<Rightarrow> real \<Rightarrow> bool" where
  "args_finite m vgs vds \<longleftrightarrow> isfinite vgs \<and> isfinite vds \<and> isfinite (vds / thermalVoltage m)
     \<and> isfinite (vgs / (p_leakageSwingFactor (parameters m) * thermalVoltage m))"

lemma leak_ge_floor: "model_ok m \<Longrightarrow> 0 \<le> vds \<Longrightarrow> p_currentFloor (parameters m) \<le> leak m vgs vds"
  by (simp add: leak_def model_ok_def params_ok_def lexp_le_1 less_imp_le)

lemma leak_nonneg: "model_ok m \<Longrightarrow> 0 \<le> vds \<Longrightarrow> 0 \<le> leak m vgs vds"
  using leak_ge_floor[of m vds vgs] by (simp add: model_ok_def params_ok_def)

lemma leak_pos: "model_ok m \<Longrightarrow> 0 < vds \<Longrightarrow> 0 < leak m vgs vds"
  by (simp add: leak_def model_ok_def params_ok_def lexp_less_1 add_pos_nonneg)

lemma leak_no_drain [simp]: "leak m vgs 0 = p_currentFloor (parameters m)"
  by (simp add: leak_def)

lemma leak_mono:
  assumes "model_ok m" "vgs \<le> vgs'" "0 \<le> vds" "vds \<le> vds'"
  shows "leak m vgs vds \<le> leak m vgs' vds'"
proof -
  have p: "0 < thermalVoltage m" "0 < p_leakageSwingFactor (parameters m)"
    "0 < p_leakageScale (parameters m)" "0 < leakagePrefactor m"
    using assms(1) by (simp_all add: model_ok_def params_ok_def)
  have "lexp (vgs / (p_leakageSwingFactor (parameters m) * thermalVoltage m))
      \<le> lexp (vgs' / (p_leakageSwingFactor (parameters m) * thermalVoltage m))"
    using assms(2) p by (intro lexp_mono divide_right_mono) auto
  moreover have "1 - lexp (- vds / thermalVoltage m) \<le> 1 - lexp (- vds' / thermalVoltage m)"
    using lexp_mono[of "- vds' / thermalVoltage m" "- vds / thermalVoltage m"] assms(4) p(1)
    by (simp add: divide_right_mono)
  moreover have "0 \<le> 1 - lexp (- vds / thermalVoltage m)"
    using lexp_le_1[of "- vds / thermalVoltage m"] assms(3) p(1) by simp
  ultimately show ?thesis unfolding leak_def using p(3,4)
    by (intro add_right_mono mult_mono) (auto simp: less_imp_le)
qed

lemma CalculateLeakageCurrent_iff:
  assumes "model_ok m"
  shows "CalculateLeakageCurrent m vgs vds = Inr i \<longleftrightarrow>
    args_finite m vgs vds \<and> 0 \<le> vds \<and> isfinite (leak m vgs vds) \<and> i = leak m vgs vds"
proof -
  have "isfinite (- vds / thermalVoltage m) \<longleftrightarrow> isfinite (vds / thermalVoltage m)"
    by (simp add: isfinite_def)
  moreover have "0 \<le> vds \<Longrightarrow> \<not> leak m vgs vds < 0" using leak_nonneg[OF assms] by (simp add: not_less)
  ultimately show ?thesis
    unfolding CalculateLeakageCurrent_def Let_def bindR_Inr_iff Require_iff drain_voltage_ok_def
      throw_unless_iff LimExp_iff args_finite_def
    by (auto simp: leak_def)
qed

section \<open>The contact-resistance solver\<close>

text \<open>\<open>bracket residual lo hi\<close>: the residual changes its sign between \<open>lo\<close> and \<open>hi\<close>; at the
  left end the start of the search counts as positive.\<close>

definition bracket :: "(real \<Rightarrow> real res) \<Rightarrow> real \<Rightarrow> real \<Rightarrow> bool" where
  "bracket residual lo hi \<longleftrightarrow> 0 \<le> lo \<and> lo < hi \<and> (lo = 0 \<or> (\<exists>r. residual lo = Inr r \<and> 0 < r))
     \<and> (\<exists>r. residual hi = Inr r \<and> r \<le> 0)"

definition tight :: "real \<Rightarrow> real \<Rightarrow> bool" where
  "tight lo hi \<longleftrightarrow> hi - lo \<le> max (1 / 10 ^ 30) (1 / 10 ^ 12 * hi)"

lemma bisect_step:
  assumes "residual (1 / 2 * (low + high)) = Inr r"
    and "l = (if 0 < r then 1 / 2 * (low + high) else low)" "h = (if 0 < r then high else 1 / 2 * (low + high))"
  shows "bisect residual (Suc n) low high = (if isfinite r then
      if tight l h then Inr (l, h) else bisect residual n l h else Inl (Thrown ''non-finite residual''))"
  using assms by (simp add: Let_def throw_unless_def tight_def)

lemma bisect_sound:
  "bisect residual n low high = Inr (lo, hi) \<Longrightarrow> bracket residual low high \<Longrightarrow>
   bracket residual lo hi \<and> tight lo hi \<and> hi \<le> high"
proof (induction n arbitrary: low high)
  case (Suc n)
  let ?mid = "1 / 2 * (low + high)"
  obtain r where r: "residual ?mid = Inr r"
    using Suc.prems(1) by (auto simp: Let_def fault_simps)
  define l h where "l = (if 0 < r then ?mid else low)" and "h = (if 0 < r then high else ?mid)"
  note step = bisect_step[of residual low high r l h n, OF r l_def h_def]
  have b: "bracket residual l h" "h \<le> high"
    using Suc.prems(2) r by (auto simp: bracket_def l_def h_def)
  show ?case
  proof (cases "tight l h")
    case True
    thus ?thesis using Suc.prems(1) b unfolding step by (simp split: if_splits)
  next
    case False
    hence "bisect residual n l h = Inr (lo, hi)" using Suc.prems(1) unfolding step by (simp split: if_splits)
    from Suc.IH[OF this b(1)] show ?thesis using b(2) by simp
  qed
qed simp

text \<open>When the residual is positive below \<open>L\<close>, the interval never shrinks below \<open>L\<close>, so that halving
  reaches the relative tolerance.\<close>

lemma bisect_converges:
  assumes "\<And>x. 0 \<le> x \<Longrightarrow> x \<le> upper \<Longrightarrow> \<exists>r. residual x = Inr r \<and> isfinite r \<and> (x < L \<longrightarrow> 0 < r)"
  shows "0 \<le> low \<Longrightarrow> low \<le> high \<Longrightarrow> high \<le> upper \<Longrightarrow> L \<le> high \<Longrightarrow>
    high - low \<le> 2 ^ Suc n * max (1 / 10 ^ 30) (1 / 10 ^ 12 * L) \<Longrightarrow>
    \<exists>lo hi. bisect residual (Suc n) low high = Inr (lo, hi)"
proof (induction n arbitrary: low high)
  case (0 low high)
  let ?mid = "1 / 2 * (low + high)"
  obtain r where r: "residual ?mid = Inr r" "isfinite r" "?mid < L \<longrightarrow> 0 < r"
    using assms[of ?mid] 0 by auto
  define l h where "l = (if 0 < r then ?mid else low)" and "h = (if 0 < r then high else ?mid)"
  have "L \<le> h" "2 * (h - l) = high - low" using r(3) 0(4) by (auto simp: l_def h_def field_simps)
  hence "max (1 / 10 ^ 30) (1 / 10 ^ 12 * L) \<le> max (1 / 10 ^ 30) (1 / 10 ^ 12 * h)"
    "h - l \<le> max (1 / 10 ^ 30) (1 / 10 ^ 12 * L)"
    using 0(5) by (auto intro!: max.mono)
  hence "tight l h" unfolding tight_def by (rule order_trans[rotated])
  thus ?case unfolding bisect_step[of residual low high r l h 0, OF r(1) l_def h_def] using r(2) by simp
next
  case (Suc n low high)
  let ?mid = "1 / 2 * (low + high)"
  obtain r where r: "residual ?mid = Inr r" "isfinite r" "?mid < L \<longrightarrow> 0 < r"
    using assms[of ?mid] Suc.prems by auto
  define l h where "l = (if 0 < r then ?mid else low)" and "h = (if 0 < r then high else ?mid)"
  have "\<exists>lo hi. bisect residual (Suc n) l h = Inr (lo, hi)"
    using Suc.prems r(3) by (intro Suc.IH) (auto simp: l_def h_def field_simps)
  thus ?case unfolding bisect_step[of residual low high r l h "Suc n", OF r(1) l_def h_def] using r(2) by auto
qed

lemma expand_high_sound:
  "expand_high residual ulim n high r = Inr (high', r') \<Longrightarrow> residual high = Inr r \<Longrightarrow> 0 < high \<Longrightarrow>
   high \<le> ulim \<Longrightarrow> 0 < high' \<and> high' \<le> ulim \<and> residual high' = Inr r'"
  by (induction n arbitrary: high r) (auto simp: fault_simps Let_def split: if_splits)

lemma contact_resistance_pos:
  assumes "model_ok m" "TotalContactResistanceOhm m = Inr rsd"
  shows "0 \<le> rsd"
  using assms by (auto simp: TotalContactResistanceOhm_def Let_def fault_simps model_ok_def params_ok_def
      split: if_splits)

lemma solver_start:
  assumes "0 < ulim"
  shows "0 < min (max i0 (1 / 10 ^ 30)) ulim" "min (max i0 (1 / 10 ^ 30)) ulim \<le> (ulim :: real)"
  using assms by (simp_all add: less_max_iff_disj)

section \<open>Leakage region\<close>

text \<open>What is asked of the operating voltages: the arguments of the exponentials and the
  leakage current stay below the overflow threshold.\<close>

definition leak_range :: "aos_model \<Rightarrow> real \<Rightarrow> real \<Rightarrow> bool" where
  "leak_range m vgs vds \<longleftrightarrow> vgs < p_flatBandVoltage (parameters m) \<and> 0 < vds
     \<and> args_finite m (\<bar>vgs\<bar> + vds) vds \<and> isfinite (leak m vgs vds)"

lemma args_finite_reduced:
  assumes "model_ok m" "args_finite m (\<bar>vgs\<bar> + vds) vds" "0 \<le> x" "x \<le> vds" "0 \<le> y" "y \<le> vds"
  shows "args_finite m (vgs - x) y"
proof -
  have p: "0 < thermalVoltage m" "0 < p_leakageSwingFactor (parameters m) * thermalVoltage m"
    using assms(1) by (simp_all add: model_ok_def params_ok_def)
  have "\<bar>vgs - x\<bar> \<le> \<bar>\<bar>vgs\<bar> + vds\<bar>" "\<bar>y\<bar> \<le> \<bar>vds\<bar>" using assms(3-6) by auto
  thus ?thesis using assms(2) p unfolding args_finite_def
    by (blast intro: isfinite_mono isfinite_divide)
qed

lemma drain_current_leak:
  assumes "model_ok m" "leak_range m vgs vds" "0 \<le> x" "x \<le> vds" "0 \<le> y" "y \<le> vds"
  shows "CalculateDrainCurrent m (vgs - x) y = Inr (leak m (vgs - x) y)"
proof -
  have "leak m (vgs - x) y \<le> leak m vgs vds" "0 \<le> leak m (vgs - x) y"
    using leak_mono[OF assms(1), of "vgs - x" vgs y vds] leak_nonneg[OF assms(1)] assms(3-6) by auto
  hence "isfinite (leak m (vgs - x) y)"
    using assms(2) unfolding leak_range_def by (auto elim!: isfinite_mono)
  thus ?thesis
    using args_finite_reduced[OF assms(1) _ assms(3-6)] assms(2,3,5)
    by (auto simp: CalculateDrainCurrent_def CalculateLeakageCurrent_iff[OF assms(1)] leak_range_def)
qed

lemma contact_residual_leak:
  assumes "model_ok m" "leak_range m vgs vds" "0 < rsd" "0 \<le> x" "x \<le> vds / rsd"
  shows "contact_residual m vgs vds rsd x = Inr (leak m (vgs - x * (rsd / 2)) (vds - x * rsd) - x)"
proof -
  have "x * rsd \<le> vds" "0 \<le> x * rsd" using assms(3-5) by (simp_all add: le_divide_eq)
  moreover from this have "x * (rsd / 2) \<le> vds" "0 \<le> x * (rsd / 2)" by (auto simp: field_simps)
  ultimately show ?thesis
    using drain_current_leak[OF assms(1,2), of "x * (rsd / 2)" "vds - x * rsd"]
    by (simp add: contact_residual_def)
qed

lemma contact_residual_total:
  assumes "model_ok m" "leak_range m vgs vds" "0 < rsd" "x \<le> max (leak m vgs vds) (1 / 10 ^ 30)"
    and "0 \<le> x" "x \<le> vds / rsd"
  shows "\<exists>r. contact_residual m vgs vds rsd x = Inr r \<and> isfinite r
    \<and> (x < p_currentFloor (parameters m) \<longrightarrow> 0 < r)"
proof -
  let ?i = "leak m (vgs - x * (rsd / 2)) (vds - x * rsd)"
  have xr: "0 \<le> x * rsd" "x * rsd \<le> vds" using assms(3,5,6) by (simp_all add: le_divide_eq)
  hence i: "0 \<le> ?i" "?i \<le> leak m vgs vds" "p_currentFloor (parameters m) \<le> ?i"
    using leak_nonneg[OF assms(1)] leak_mono[OF assms(1), of _ vgs "vds - x * rsd" vds] leak_ge_floor[OF assms(1)]
      assms(3,5) by auto
  have "isfinite (max (leak m vgs vds) (1 / 10 ^ 30))"
    using assms(2) isfinite_small[of "1 / 10 ^ 30"] by (simp add: leak_range_def max_def)
  moreover have "\<bar>?i - x\<bar> \<le> \<bar>max (leak m vgs vds) (1 / 10 ^ 30)\<bar>" using i assms(4,5) by auto
  ultimately have "isfinite (?i - x)" by (rule isfinite_mono)
  thus ?thesis using contact_residual_leak[OF assms(1-3,5,6)] i(3) by auto
qed

lemma expand_high_done: "r \<le> 0 \<Longrightarrow> expand_high residual ulim n high r = Inr (high, r)"
  by (cases n) auto

lemma leak_range_finite: "leak_range m vgs vds \<Longrightarrow> isfinite vgs \<and> isfinite vds \<and> 0 < vds"
  by (auto simp: leak_range_def args_finite_def elim!: isfinite_mono)

lemma start_bracket:
  fixes h :: real
  assumes "model_ok m" "leak_range m vgs vds" "0 < rsd" "p_currentFloor (parameters m) \<le> vds / rsd"
    and h: "h = min (max (leak m vgs vds) (1 / 10 ^ 30)) (vds / rsd)"
  obtains r where "contact_residual m vgs vds rsd h = Inr r" "r \<le> 0" "isfinite r"
    "0 < h" "h \<le> vds / rsd" "p_currentFloor (parameters m) \<le> h"
proof -
  have v: "0 < vds" using leak_range_finite[OF assms(2)] by simp
  have hp: "0 < h" "h \<le> vds / rsd" using v assms(3) by (simp_all add: h less_max_iff_disj)
  hence hr: "0 \<le> h * rsd" "h * rsd \<le> vds" using assms(3) by (simp_all add: le_divide_eq)
  have fl: "p_currentFloor (parameters m) \<le> h"
    using leak_ge_floor[OF assms(1), of vds vgs] v assms(4) by (auto simp: h)
  let ?i = "leak m (vgs - h * (rsd / 2)) (vds - h * rsd)"
  have i: "0 \<le> ?i" "?i \<le> leak m vgs vds"
    using leak_nonneg[OF assms(1)] leak_mono[OF assms(1), of _ vgs "vds - h * rsd" vds] hr hp(1) assms(3) by auto
  have "?i \<le> h"
  proof (cases "h = vds / rsd")
    case True
    thus ?thesis using assms(3) fl by simp
  next
    case False
    hence "max (leak m vgs vds) (1 / 10 ^ 30) \<le> h" by (auto simp: h min_def split: if_splits)
    thus ?thesis using i(2) by simp
  qed
  moreover have "isfinite (?i - h)"
  proof -
    have "h \<le> max (leak m vgs vds) (1 / 10 ^ 30)" by (simp add: h)
    hence "\<bar>?i - h\<bar> \<le> max (leak m vgs vds) (1 / 10 ^ 30)" using i hp(1) by auto
    moreover have "isfinite (max (leak m vgs vds) (1 / 10 ^ 30))"
      using assms(2) isfinite_small[of "1 / 10 ^ 30"] by (simp add: leak_range_def max_def)
    ultimately show ?thesis by (auto elim!: isfinite_mono)
  qed
  ultimately show thesis
    using contact_residual_leak[OF assms(1-3) less_imp_le[OF hp(1)] hp(2)] hp fl that[of "?i - h"] by auto
qed

lemma external_current_leak:
  assumes "model_ok m" "leak_range m vgs vds" "TotalContactResistanceOhm m = Inr rsd"
    and "p_currentFloor (parameters m) * rsd \<le> vds"
    and "leak m vgs vds \<le> max (1 / 10 ^ 6) (10 ^ 12 * p_currentFloor (parameters m))"
  shows "\<exists>c. CalculateDrainCurrentExternal m vgs vds = Inr c \<and> 0 < c
    \<and> c \<le> max (leak m vgs vds) (1 / 10 ^ 30)"
proof -
  let ?fl = "p_currentFloor (parameters m)" and ?res = "contact_residual m vgs vds rsd"
  have fin: "isfinite vgs" "isfinite vds" "0 < vds" using leak_range_finite[OF assms(2)] by auto
  have i0: "CalculateDrainCurrent m vgs vds = Inr (leak m vgs vds)"
    using drain_current_leak[OF assms(1,2), of 0 vds] fin(3) by simp
  show ?thesis
  proof (cases "rsd = 0")
    case True
    thus ?thesis using fin i0 assms(3) leak_pos[OF assms(1) fin(3)]
      by (simp add: CalculateDrainCurrentExternal_def RequireFinite_def)
  next
    case False
    hence rsd: "0 < rsd" using contact_resistance_pos[OF assms(1,3)] by simp
    have fl: "?fl \<le> vds / rsd" using assms(4) rsd by (simp add: le_divide_eq)
    define h where "h = min (max (leak m vgs vds) (1 / 10 ^ 30)) (vds / rsd)"
    obtain r where r: "?res h = Inr r" "r \<le> 0" "isfinite r" and h: "0 < h" "h \<le> vds / rsd" "?fl \<le> h"
      by (rule start_bracket[OF assms(1,2) rsd fl h_def])
    have hm: "h \<le> max (leak m vgs vds) (1 / 10 ^ 30)" by (simp add: h_def)
    have tot: "\<exists>r. ?res x = Inr r \<and> isfinite r \<and> (x < ?fl \<longrightarrow> 0 < r)" if x: "0 \<le> x" "x \<le> h" for x
      using x h(2) by (intro contact_residual_total[OF assms(1,2) rsd] order_trans[OF x(2) hm]) auto
    have w: "h - 0 \<le> 2 ^ Suc 79 * max (1 / 10 ^ 30) (1 / 10 ^ 12 * ?fl)"
      using hm assms(5) by (auto simp: max_def split: if_splits)
    obtain lo hi where b: "bisect ?res (Suc 79) 0 h = Inr (lo, hi)"
      using bisect_converges[of h ?res ?fl 0 h 79, OF tot order_refl _ _ h(3) w] h(1) by auto
    have "bracket ?res 0 h" using h(1) r by (auto simp: bracket_def)
    from bisect_sound[OF b this] have c: "0 \<le> lo" "lo < hi" "hi \<le> h" by (auto simp: bracket_def)
    have m: "isfinite (max (leak m vgs vds) (1 / 10 ^ 30))"
      using assms(2) isfinite_small[of "1 / 10 ^ 30"] by (simp add: leak_range_def max_def)
    have cp: "0 < 1 / 2 * (lo + hi)" using c by simp
    have cm: "1 / 2 * (lo + hi) \<le> max (leak m vgs vds) (1 / 10 ^ 30)"
      using c by (intro order_trans[OF _ order_trans[OF c(3) hm]]) simp
    have cf: "isfinite (1 / 2 * (lo + hi))" 
      using cp order_trans[OF cm abs_ge_self] by (intro isfinite_mono[OF m]) (simp only: abs_of_pos)
    have b80: "bisect ?res 80 0 h = Inr (lo, hi)" using b by (simp del: bisect.simps)
    have ok: "throw_unless (isfinite vds \<and> \<not> vds \<le> 0) s = Inr ()" "RequireFinite vgs n = Inr ()"
      "throw_unless (isfinite r \<and> \<not> 0 < r) s = Inr ()" "RequireFiniteResult (1 / 2 * (lo + hi)) n = Inr ()"
      "throw_unless (\<not> 1 / 2 * (lo + hi) \<le> 0) s = Inr ()" for s n
      using fin r cp cf by (simp_all add: fault_simps)
    have "CalculateDrainCurrentExternal m vgs vds = Inr (1 / 2 * (lo + hi))"
      unfolding CalculateDrainCurrentExternal_def Let_def assms(3) i0 h_def[symmetric] ok bindR.simps
        if_not_P[OF False] r(1) expand_high_done[OF r(2)] prod.case b80 by (rule refl)
    thus ?thesis using cp cm by blast
  qed
qed

section \<open>The solver\<close>

text \<open>A small instance for the witnesses: the default parameters with a contact resistance of
  1 kOhm, and coefficients set by hand to round values of the signs that a validated model has.\<close>

definition sample_model :: aos_model where
  "sample_model = \<lparr>parameters = DefaultParameters\<lparr>p_totalContactResistanceKohmUm := 1\<rparr>,
     mobilityVrhExponent = 1, voltageNormalization = 1, thermalVoltage = 1, trapCoefficient = 1,
     deepStateCoefficient = 1, leakagePrefactor = 1 / 10 ^ 12\<rparr>"

lemma sample_model_ok: "model_ok sample_model"
  by (simp add: sample_model_def model_ok_def params_ok_def DefaultParameters_def)

lemma sample_leak: "leak sample_model (- 1) 1 \<le> max (1 / 10 ^ 6) (10 ^ 12 * p_currentFloor (parameters sample_model))"
proof -
  have "lexp (- 1 / 2) * (1 - lexp (- 1)) \<le> 1 * 1"
    using lexp_le_1[of "- 1 / 2"] lexp_le_1[of "- 1"] lexp_pos[of "- 1"]
    by (intro mult_mono) (simp_all add: less_imp_le)
  hence "1 / 10 ^ 12 * (lexp (- 1 / 2) * (1 - lexp (- 1))) \<le> 1 / 10 ^ 12" by simp
  thus ?thesis by (simp add: leak_def sample_model_def DefaultParameters_def mult.commute)
qed

lemma sample_range: "leak_range sample_model (- 1) 1"
proof -
  have "isfinite (leak sample_model (- 1) 1)"
    using sample_leak leak_nonneg[OF sample_model_ok, of 1 "- 1"] 
    by (intro isfinite_small) (simp add: sample_model_def DefaultParameters_def)
  thus ?thesis
    by (simp add: leak_range_def args_finite_def isfinite_small) (simp add: sample_model_def DefaultParameters_def isfinite_small)
qed

lemma sample_contact: "TotalContactResistanceOhm sample_model = Inr 1000"
  by (simp add: TotalContactResistanceOhm_def sample_model_def DefaultParameters_def
      RequireFiniteResult_def isfinite_small)

lemma sample_floor: "p_currentFloor (parameters sample_model) * 1000 \<le> 1"
  by (simp add: sample_model_def DefaultParameters_def)

text \<open>
  C13. Below the flat-band voltage the contact-resistance solver always converges: for a
  validated model whose current floor can flow through the contacts, and a leakage current
  that is at most 1 uA or 10^12 times the floor, neither the bracketing loop nor the 80
  bisection passes fail, and the current that is returned is positive and at most the
  leakage current without contacts (or the solver's lower limit 1e-30).
\<close>
theorem leakage_solver_converges:
  assumes "model_ok m" "leak_range m vgs vds" "TotalContactResistanceOhm m = Inr rsd"
    and "p_currentFloor (parameters m) * rsd \<le> vds"
    and "leak m vgs vds \<le> max (1 / 10 ^ 6) (10 ^ 12 * p_currentFloor (parameters m))"
  shows "\<exists>c. CalculateDrainCurrentExternal m vgs vds = Inr c \<and> 0 < c
    \<and> c \<le> max (leak m vgs vds) (1 / 10 ^ 30)"
  using assms by (rule external_current_leak)

theorem leakage_solver_converges_witness:
  "\<exists>c. CalculateDrainCurrentExternal sample_model (- 1) 1 = Inr c \<and> 0 < c
    \<and> c \<le> max (leak sample_model (- 1) 1) (1 / 10 ^ 30)"
  using leakage_solver_converges[OF sample_model_ok sample_range sample_contact sample_floor sample_leak] .

text \<open>
  C36. The external drain current is a solution of the contact-resistance equation up to the
  tolerance of the solver: without contact resistance it is the intrinsic current; with one,
  it is the midpoint of an interval below \<^verbatim>\<open>vds / rsd\<close> at whose ends the residual
  (intrinsic current at the reduced voltages minus the current) has opposite signs, and the
  interval is no wider than the larger of 1e-30 and a relative 1e-12. The left end 0, where the
  search starts, counts as the positive end without an evaluation; the result is then at most
  half of 1e-30.
\<close>
theorem external_current_bracketed:
  assumes "model_ok m" "TotalContactResistanceOhm m = Inr rsd"
    and "CalculateDrainCurrentExternal m vgs vds = Inr c"
  shows "if rsd = 0 then CalculateDrainCurrent m vgs vds = Inr c
    else \<exists>lo hi. bracket (contact_residual m vgs vds rsd) lo hi \<and> tight lo hi \<and> hi \<le> vds / rsd
      \<and> c = 1 / 2 * (lo + hi) \<and> 0 < c"
proof (cases "rsd = 0")
  case True
  thus ?thesis using assms(2,3) by (simp add: CalculateDrainCurrentExternal_def fault_simps)
next
  case False
  let ?res = "contact_residual m vgs vds rsd" and ?ulim = "vds / rsd"
  obtain i0 r0 high r lo hi where vds: "0 < vds" and
    i0: "CalculateDrainCurrent m vgs vds = Inr i0" and
    r0: "?res (min (max i0 (1 / 10 ^ 30)) ?ulim) = Inr r0" and
    ex: "expand_high ?res ?ulim 80 (min (max i0 (1 / 10 ^ 30)) ?ulim) r0 = Inr (high, r)" and
    neg: "r \<le> 0" and bi: "bisect ?res 80 0 high = Inr (lo, hi)" and
    c: "c = 1 / 2 * (lo + hi)" "0 < c"
    using assms(2,3) False
    unfolding CalculateDrainCurrentExternal_def bindR_Inr_iff throw_unless_iff Let_def
    by (auto split: prod.splits simp: not_le not_less fault_simps)
  have ulim: "0 < ?ulim" using vds contact_resistance_pos[OF assms(1,2)] False by simp
  have "0 < high \<and> high \<le> ?ulim \<and> ?res high = Inr r"
    by (rule expand_high_sound[OF ex r0 solver_start[OF ulim]])
  hence "bracket ?res 0 high" "high \<le> ?ulim" using neg by (auto simp: bracket_def)
  with bisect_sound[OF bi] show ?thesis using False c by fastforce
qed

theorem external_current_bracketed_witness:
  "\<exists>c. CalculateDrainCurrentExternal sample_model (- 1) 1 = Inr c \<and>
    (\<exists>lo hi. bracket (contact_residual sample_model (- 1) 1 1000) lo hi \<and> tight lo hi
      \<and> hi \<le> 1 / 1000 \<and> c = 1 / 2 * (lo + hi) \<and> 0 < c)"
proof -
  obtain c where c: "CalculateDrainCurrentExternal sample_model (- 1) 1 = Inr c"
    using external_current_leak[OF sample_model_ok sample_range sample_contact sample_floor sample_leak] by blast
  show ?thesis using external_current_bracketed[OF sample_model_ok sample_contact c] c by simp
qed

section \<open>The surface-potential solver\<close>

text \<open>The equation that the loop solves, in the normalised potential \<open>x\<close>, and its derivative on
  the unclamped range.\<close>

definition sp_f :: "aos_model \<Rightarrow> real \<Rightarrow> real \<Rightarrow> real \<Rightarrow> real" where
  "sp_f m g d x = g - x - trapCoefficient m / voltageNormalization m * lexp (x - d)
     - deepStateCoefficient m / voltageNormalization m
       * lexp ((x - d) * (p_tailTemperature (parameters m) / p_temperature (parameters m)))"

definition sp_df :: "aos_model \<Rightarrow> real \<Rightarrow> real \<Rightarrow> real" where
  "sp_df m d x = - 1 - trapCoefficient m / voltageNormalization m * lexp (x - d)
     - deepStateCoefficient m / voltageNormalization m
       * (p_tailTemperature (parameters m) / p_temperature (parameters m))
       * lexp ((x - d) * (p_tailTemperature (parameters m) / p_temperature (parameters m)))"

definition sp_d2f :: "aos_model \<Rightarrow> real \<Rightarrow> real \<Rightarrow> real" where
  "sp_d2f m d x = - (trapCoefficient m / voltageNormalization m * lexp (x - d))
     - deepStateCoefficient m / voltageNormalization m
       * (p_tailTemperature (parameters m) / p_temperature (parameters m))\<^sup>2
       * lexp ((x - d) * (p_tailTemperature (parameters m) / p_temperature (parameters m)))"

lemma isCont_lexp: "isCont lexp v"
proof -
  have "continuous_on UNIV lexp" unfolding lexp_def by (intro continuous_intros)
  thus ?thesis by (simp add: continuous_on_eq_continuous_at)
qed

lemma sp_f_isCont: "isCont (sp_f m g d) x"
  unfolding sp_f_def[abs_def] by (intro continuous_intros isCont_o2[OF _ isCont_lexp])

text \<open>The residual falls at least as fast as the potential rises.\<close>

lemma sp_f_falls:
  assumes "model_ok m" "x \<le> y"
  shows "y - x \<le> sp_f m g d x - sp_f m g d y"
proof -
  define \<rho> where "\<rho> = p_tailTemperature (parameters m) / p_temperature (parameters m)"
  define A where "A = trapCoefficient m / voltageNormalization m"
  define B where "B = deepStateCoefficient m / voltageNormalization m"
  have p: "0 \<le> \<rho>" "0 \<le> A" "0 \<le> B"
    using assms(1) by (simp_all add: \<rho>_def A_def B_def model_ok_def params_ok_def less_imp_le)
  have "A * lexp (x - d) \<le> A * lexp (y - d)"
    using p assms(2) by (intro mult_left_mono lexp_mono) auto
  moreover have "B * lexp ((x - d) * \<rho>) \<le> B * lexp ((y - d) * \<rho>)"
    using p assms(2) by (intro mult_left_mono lexp_mono mult_right_mono) auto
  ultimately show ?thesis by (simp add: sp_f_def A_def[symmetric] B_def[symmetric] \<rho>_def[symmetric])
qed

lemma sp_root_exists:
  assumes "model_ok m"
  shows "\<exists>X. sp_f m g d X = 0"
proof -
  define \<rho> where "\<rho> = p_tailTemperature (parameters m) / p_temperature (parameters m)"
  define A where "A = trapCoefficient m / voltageNormalization m"
  define B where "B = deepStateCoefficient m / voltageNormalization m"
  have p: "0 \<le> \<rho>" "0 \<le> A" "0 \<le> B"
    using assms by (simp_all add: \<rho>_def A_def B_def model_ok_def params_ok_def less_imp_le)
  have f: "sp_f m g d x = g - x - A * lexp (x - d) - B * lexp ((x - d) * \<rho>)" for x
    by (simp add: sp_f_def A_def B_def \<rho>_def)
  define l where "l = min d (g - A - B)"
  have l: "l \<le> d" "l \<le> g - A - B" "l \<le> g" using p by (auto simp: l_def min_def)
  have "A * lexp (l - d) \<le> A * 1" "B * lexp ((l - d) * \<rho>) \<le> B * 1"
    using l(1) p by (intro mult_left_mono lexp_le_1 mult_nonpos_nonneg; simp)+
  hence "0 \<le> sp_f m g d l" using l(2) unfolding f by linarith
  moreover have "sp_f m g d g \<le> 0"
    using mult_nonneg_nonneg[OF p(2) less_imp_le[OF lexp_pos], of "g - d"]
      mult_nonneg_nonneg[OF p(3) less_imp_le[OF lexp_pos], of "(g - d) * \<rho>"]
    unfolding f by linarith
  ultimately show ?thesis using IVT2[of "sp_f m g d" g 0 l] l(3) sp_f_isCont by blast
qed

lemma sp_root_distance:
  assumes "model_ok m" "sp_f m g d X = 0"
  shows "\<bar>x - X\<bar> \<le> \<bar>sp_f m g d x\<bar>" "0 < sp_f m g d x \<Longrightarrow> x < X"
proof -
  have "x \<le> X \<Longrightarrow> X - x \<le> sp_f m g d x" "X \<le> x \<Longrightarrow> x - X \<le> - sp_f m g d x"
    using sp_f_falls[OF assms(1), of x X g d] sp_f_falls[OF assms(1), of X x g d] assms(2) by auto
  thus "\<bar>x - X\<bar> \<le> \<bar>sp_f m g d x\<bar>" "0 < sp_f m g d x \<Longrightarrow> x < X" by linarith+
qed

text \<open>A small correction is a small Newton step, or the second-order factor cancels it.\<close>

lemma small_correction:
  fixes f df d2f \<rho> tol :: real
  assumes "df \<le> - 1" "d2f \<le> 0" "- d2f \<le> \<rho> * - df" "0 < \<rho>" and c: "\<bar>f / df * (1 + d2f * f / (2 * df * df))\<bar> < tol"
  shows "\<bar>f\<bar> < 2 * tol * \<bar>df\<bar> \<or> 0 < f \<and> \<bar>df\<bar> < \<rho> * f \<and> \<bar>1 + d2f * f / (2 * df * df)\<bar> < \<rho> * tol"
proof -
  define u k where "u = f / df" and "k = d2f / (2 * df)"
  have f: "f = u * df" using assms(1) by (simp add: u_def)
  have k: "0 \<le> k" "2 * k \<le> \<rho>"
    using assms(1-3) by (simp_all add: k_def divide_nonpos_nonpos field_simps)
  have w: "d2f * f / (2 * df * df) = u * k" by (simp add: u_def k_def mult_ac)
  hence uk: "\<bar>u\<bar> * \<bar>1 + u * k\<bar> < tol" using c by (simp add: u_def[symmetric] abs_mult)
  have df: "0 < \<bar>df\<bar>" using assms(1) by simp
  show ?thesis
  proof (cases "1 / 2 \<le> 1 + u * k")
    case True
    hence "\<bar>u\<bar> * (1 / 2) \<le> \<bar>u\<bar> * \<bar>1 + u * k\<bar>" by (intro mult_left_mono) auto
    hence "\<bar>u\<bar> < 2 * tol" using uk by simp
    hence "\<bar>u\<bar> * \<bar>df\<bar> < 2 * tol * \<bar>df\<bar>" using df by (rule mult_strict_right_mono)
    thus ?thesis by (simp add: f abs_mult)
  next
    case False
    hence g: "1 < - u * (2 * k)" by simp
    have u: "u < 0"
    proof (rule ccontr)
      assume "\<not> u < 0"
      hence "0 \<le> u * (2 * k)" using k(1) by simp
      thus False using g by linarith
    qed
    have "- u * (2 * k) \<le> - u * \<rho>" using k(2) u by (intro mult_left_mono) auto
    hence r: "1 < - u * \<rho>" using g by linarith
    hence "1 * \<bar>df\<bar> < - u * \<rho> * \<bar>df\<bar>" using df by (rule mult_strict_right_mono)
    moreover have "0 < f" using u assms(1) unfolding f by (simp add: mult_neg_neg)
    moreover have "\<bar>1 + u * k\<bar> < \<rho> * tol"
    proof -
      have "1 * \<bar>1 + u * k\<bar> \<le> (\<bar>u\<bar> * \<rho>) * \<bar>1 + u * k\<bar>" using r u by (intro mult_right_mono) auto
      also have "\<dots> = \<rho> * (\<bar>u\<bar> * \<bar>1 + u * k\<bar>)" by simp
      also have "\<dots> < \<rho> * tol" using uk assms(4) by (rule mult_strict_left_mono)
      finally show ?thesis by simp
    qed
    ultimately show ?thesis using assms(1) unfolding w by (simp add: f mult_ac)
  qed
qed

definition sp_ratio :: "aos_model \<Rightarrow> real" where
  "sp_ratio m = p_tailTemperature (parameters m) / p_temperature (parameters m)"

text \<open>The factor by which the correction differs from the Newton step.\<close>

definition sp_factor :: "aos_model \<Rightarrow> real \<Rightarrow> real \<Rightarrow> real \<Rightarrow> real" where
  "sp_factor m g d x = 1 + sp_d2f m d x * sp_f m g d x / (2 * sp_df m d x * sp_df m d x)"

lemma sp_terms:
  "sp_f m g d x = g - x - trapCoefficient m / voltageNormalization m * lexp (x - d)
      - deepStateCoefficient m / voltageNormalization m * lexp ((x - d) * sp_ratio m)"
  "sp_df m d x = - 1 - trapCoefficient m / voltageNormalization m * lexp (x - d)
      - deepStateCoefficient m / voltageNormalization m * sp_ratio m * lexp ((x - d) * sp_ratio m)"
  "sp_d2f m d x = - (trapCoefficient m / voltageNormalization m) * lexp (x - d)
      - deepStateCoefficient m / voltageNormalization m * sp_ratio m * sp_ratio m * lexp ((x - d) * sp_ratio m)"
  by (simp_all add: sp_f_def sp_df_def sp_d2f_def sp_ratio_def power2_eq_square mult.assoc)

lemma sp_correction_value:
  "sp_correction m g d x = Inr c \<Longrightarrow> c = sp_f m g d x / sp_df m d x * sp_factor m g d x"
  unfolding sp_correction_def Let_def bindR_Inr_iff LimExp_iff throw_unless_iff sum.inject sp_ratio_def[symmetric]
    sp_factor_def
  by (elim exE conjE) (simp only: sp_terms)

lemma sp_slopes:
  assumes "model_ok m"
  shows "sp_df m d x \<le> - 1" "sp_d2f m d x \<le> 0" "- sp_d2f m d x \<le> sp_ratio m * - sp_df m d x" "1 < sp_ratio m"
proof -
  define a where "a = trapCoefficient m / voltageNormalization m * lexp (x - d)"
  define b where "b = deepStateCoefficient m / voltageNormalization m * lexp ((x - d) * sp_ratio m)"
  show r: "1 < sp_ratio m" using assms by (simp add: sp_ratio_def model_ok_def params_ok_def)
  have p: "0 \<le> a" "0 \<le> b"
    using assms by (simp_all add: a_def b_def model_ok_def params_ok_def less_imp_le)
  have pb: "0 \<le> sp_ratio m * b" "0 \<le> (sp_ratio m)\<^sup>2 * b" "a \<le> sp_ratio m * a"
    using p r by (simp_all add: mult_le_cancel_right1)
  have f: "sp_df m d x = - 1 - a - sp_ratio m * b" "sp_d2f m d x = - a - (sp_ratio m)\<^sup>2 * b"
    by (simp_all add: sp_df_def sp_d2f_def a_def b_def sp_ratio_def mult_ac)
  show "sp_df m d x \<le> - 1" "sp_d2f m d x \<le> 0" using p pb unfolding f by linarith+
  show "- sp_d2f m d x \<le> sp_ratio m * - sp_df m d x"
    using pb(3) r by (simp add: f algebra_simps power2_eq_square)
qed

lemma sp_correction_sound:
  assumes "model_ok m" "sp_correction m g d x = Inr c" "\<bar>c\<bar> < tol"
  shows "\<bar>sp_f m g d x\<bar> < 2 * tol * \<bar>sp_df m d x\<bar> \<or>
    0 < sp_f m g d x \<and> \<bar>sp_df m d x\<bar> < sp_ratio m * sp_f m g d x \<and> \<bar>sp_factor m g d x\<bar> < sp_ratio m * tol"
  using small_correction[of "sp_df m d x" "sp_d2f m d x" "sp_ratio m" "sp_f m g d x" tol]
    sp_slopes(1-3)[OF assms(1), of d x] sp_slopes(4)[OF assms(1)] assms(3) sp_correction_value[OF assms(2)]
  by (simp add: sp_factor_def)

lemma sp_loop_last:
  "sp_loop m g d tol n x = Inr r \<Longrightarrow>
   \<exists>x' c. r = (x' - c) * voltageNormalization m \<and> sp_correction m g d x' = Inr c \<and> \<bar>c\<bar> < tol"
  by (induction n arbitrary: x) (auto simp: fault_simps Let_def split: if_splits)

text \<open>
  C37. The surface-potential equation of a validated model has exactly one root \<open>X\<close>. What the
  solver returns at or above the flat band is the last iterate \<open>x\<close> less a correction below the
  tolerance, and \<open>x\<close> is of one of two kinds. Normally its residual, and hence its distance
  from \<open>X\<close>, is less than twice the tolerance times the slope there. The stopping
  test looks only at the size of the correction, so the other kind is an iterate below \<open>X\<close>
  whose second-order factor cancels the Newton step, to within the tolerance times the ratio
  of the two temperatures.
\<close>
theorem surface_potential_converged:
  assumes "model_ok m" "p_flatBandVoltage (parameters m) \<le> vgs"
    and "g = GateNormalized m vgs" "d = DrainNormalized m vch"
    and "SurfacePotential m vgs vch maxIteration tol = Inr r"
  shows "\<exists>X x c. sp_f m g d X = 0 \<and> (\<forall>y. sp_f m g d y = 0 \<longrightarrow> y = X) \<and>
    r = (x - c) * voltageNormalization m \<and> \<bar>c\<bar> < tol \<and>
    (\<bar>sp_f m g d x\<bar> < 2 * tol * \<bar>sp_df m d x\<bar> \<and> \<bar>x - X\<bar> < 2 * tol * \<bar>sp_df m d x\<bar> \<or>
     x < X \<and> \<bar>sp_df m d x\<bar> < sp_ratio m * sp_f m g d x \<and> \<bar>sp_factor m g d x\<bar> < sp_ratio m * tol)"
proof -
  obtain X where X: "sp_f m g d X = 0" using sp_root_exists[OF assms(1)] by blast
  note D = sp_root_distance[OF assms(1) X]
  obtain x where "sp_loop m g d tol (nat maxIteration) x = Inr r"
    using assms(2,5) unfolding assms(3,4) by (auto simp: SurfacePotential_def bindR_Inr_iff)
  from sp_loop_last[OF this] obtain x c where x: "r = (x - c) * voltageNormalization m" "\<bar>c\<bar> < tol"
    "sp_correction m g d x = Inr c" by blast
  have "\<forall>y. sp_f m g d y = 0 \<longrightarrow> y = X"
  proof (intro allI impI)
    fix y assume "sp_f m g d y = 0"
    thus "y = X" using D(1)[of y] by simp
  qed
  moreover have "\<bar>sp_f m g d x\<bar> < 2 * tol * \<bar>sp_df m d x\<bar> \<and> \<bar>x - X\<bar> < 2 * tol * \<bar>sp_df m d x\<bar> \<or>
     x < X \<and> \<bar>sp_df m d x\<bar> < sp_ratio m * sp_f m g d x \<and> \<bar>sp_factor m g d x\<bar> < sp_ratio m * tol"
    using sp_correction_sound[OF assms(1) x(3,2)] D[of x] by (auto intro: le_less_trans)
  ultimately show ?thesis using X x(1,2) by blast
qed

lemma exp_50_small: "exp (- 50) \<le> (1 / 10 ^ 10 :: real)"
proof -
  have "(2 :: real) ^ 50 \<le> exp 1 ^ 50" using exp_ge_add_one_self[of 1] by (intro power_mono) auto
  also have "\<dots> = exp 50" by (simp add: exp_of_nat_mult[symmetric])
  finally show ?thesis by (simp add: exp_minus field_simps)
qed

lemma sp_correction_returns:
  assumes "isfinite (x - d)" "isfinite ((x - d) * sp_ratio m)" "isfinite (sp_f m g d x)"
    and "isfinite (sp_df m d x)" "isfinite (sp_d2f m d x)" "sp_df m d x \<le> - 1"
    and "isfinite (sp_f m g d x / sp_df m d x * sp_factor m g d x)"
  shows "sp_correction m g d x = Inr (sp_f m g d x / sp_df m d x * sp_factor m g d x)"
proof -
  have l: "LimExp (x - d) = Inr (lexp (x - d))"
    "LimExp ((x - d) * sp_ratio m) = Inr (lexp ((x - d) * sp_ratio m))"
    using assms(1,2) by (simp_all add: LimExp_iff)
  have t: "\<not> \<bar>sp_df m d x\<bar> < 1 / 10 ^ 14"
  proof -
    have "(1 :: real) / 10 ^ 14 \<le> 1" by simp
    thus ?thesis using assms(6) by linarith
  qed
  show ?thesis
    unfolding sp_correction_def Let_def sp_ratio_def[symmetric] l bindR.simps sp_terms[symmetric]
    using assms(3-5,7) t by (simp add: throw_unless_def sp_factor_def mult.assoc)
qed

text \<open>At the flat band and a high channel voltage the first pass of the default call stops.\<close>

lemma sample_terms:
  defines "e \<equiv> exp (- 50)"
  shows "sp_f sample_model 0 100 0 = - 2 * e" "sp_df sample_model 100 0 = - 1 - 7 / 3 * e"
    "sp_d2f sample_model 100 0 = - 25 / 9 * e" "sp_ratio sample_model = 4 / 3"
  by (simp_all add: sp_f_def sp_df_def sp_d2f_def sp_ratio_def sample_model_def DefaultParameters_def lexp_def
      e_def power2_eq_square)

lemma sample_correction: "\<exists>c. sp_correction sample_model 0 100 0 = Inr c \<and> \<bar>c\<bar> < 1 / 10 ^ 8"
proof -
  define e :: real where "e = exp (- 50)"
  have e: "0 < e" "e \<le> 1 / 10 ^ 10" using exp_50_small by (simp_all add: e_def)
  note t = sample_terms[folded e_def]
  define df where "df = sp_df sample_model 100 0"
  have df: "df \<le> - 1" using e by (simp add: df_def t)
  have q: "1 \<le> df * df" using mult_mono[of 1 "- df" 1 "- df"] df by simp
  have "sp_factor sample_model 0 100 0 = 1 + 25 / 9 * e * e / (df * df)"
    unfolding sp_factor_def t(1,3) df_def[symmetric] by (simp add: mult.assoc)
  moreover have "0 \<le> 25 / 9 * e * e / (df * df)" using e q by simp
  ultimately have "\<bar>sp_factor sample_model 0 100 0\<bar> = 1 + 25 / 9 * e * e / (df * df)" by linarith
  also have "\<dots> \<le> 1 + 25 / 9 * e * e / 1" using e q by (intro add_left_mono divide_left_mono) auto
  also have "\<dots> \<le> 2" using e mult_mono[of "25 / 9 * e" 1 e 1] by simp
  finally have fa: "\<bar>sp_factor sample_model 0 100 0\<bar> \<le> 2" .
  have "\<bar>- 2 * e / df\<bar> = 2 * e / - df" using e df by (simp add: abs_mult abs_of_neg)
  also have "\<dots> \<le> 2 * e / 1" using e df by (intro divide_left_mono) auto
  finally have "\<bar>- 2 * e / df\<bar> \<le> 2 * e" by simp
  hence "\<bar>- 2 * e / df\<bar> * \<bar>sp_factor sample_model 0 100 0\<bar> \<le> 2 * e * 2"
    using fa e(1) by (intro mult_mono) auto
  also have "\<dots> < 1 / 10 ^ 8" using e(2) by simp
  finally have c: "\<bar>- 2 * e / df * sp_factor sample_model 0 100 0\<bar> < 1 / 10 ^ 8" by (simp only: abs_mult)
  have "sp_correction sample_model 0 100 0 = Inr (- 2 * e / df * sp_factor sample_model 0 100 0)"
    unfolding df_def t(1)[symmetric]
  proof (rule sp_correction_returns)
    show "isfinite (sp_f sample_model 0 100 0 / sp_df sample_model 100 0 * sp_factor sample_model 0 100 0)"
      unfolding t(1) df_def[symmetric] by (rule isfinite_small) (use c in simp)
    show "isfinite (0 - 100)" "isfinite ((0 - 100) * sp_ratio sample_model)"
      by (simp_all add: t(4) isfinite_small)
    show "isfinite (sp_f sample_model 0 100 0)" "isfinite (sp_df sample_model 100 0)"
      "isfinite (sp_d2f sample_model 100 0)"
      unfolding t(1-3) using e by (intro isfinite_small; simp)+
    show "sp_df sample_model 100 0 \<le> - 1" using df by (simp only: df_def)
  qed
  thus ?thesis using c by blast
qed

lemma sample_surface: "\<exists>r. SurfacePotential_default sample_model (15 / 100) 100 = Inr r"
proof -
  obtain c where c: "sp_correction sample_model 0 100 0 = Inr c" "\<bar>c\<bar> < 1 / 10 ^ 8"
    using sample_correction by blast
  have fin: "isfinite (- c)" by (rule isfinite_small) (use c(2) in simp)
  have fb: "p_flatBandVoltage (parameters sample_model) = 3 / 20" "voltageNormalization sample_model = 1"
    by (simp_all add: sample_model_def DefaultParameters_def)
  have loop: "sp_loop sample_model 0 100 (1 / 10 ^ 8) (Suc n) 0 = Inr (- c)" for n
    using c fin by (simp add: fb RequireFiniteResult_def)
  have "nat 40 = Suc 39" by simp
  hence "sp_loop sample_model 0 100 (1 / 10 ^ 8) (nat 40) 0 = Inr (- c)" using loop[of 39] by (simp only:)
  moreover have "GateNormalized sample_model (15 / 100) = 0" "DrainNormalized sample_model 100 = 100"
    "InitialSurfacePotentialGuess sample_model (15 / 100) 100 = 0"
    by (simp_all add: fb GateNormalized_def DrainNormalized_def InitialSurfacePotentialGuess_def)
  moreover have "\<not> 15 / 100 < p_flatBandVoltage (parameters sample_model)" by (simp add: fb)
  moreover have "all_of [RequireFinite (15 / 100) ''Vgs'', RequireFinite 100 ''channel voltage'',
      RequirePositive (1 / 10 ^ 8) ''surface-potential tolerance'',
      throw_unless (\<not> (40 :: int) \<le> 0) ''iteration limit must be positive''] = Inr ()"
    by (simp add: RequireFinite_def RequirePositive_def isfinite_small)
  ultimately show ?thesis by (simp only: SurfacePotential_def bindR.simps if_False) blast
qed

theorem surface_potential_converged_witness:
  "\<exists>r X x c. SurfacePotential_default sample_model (15 / 100) 100 = Inr r \<and>
    sp_f sample_model 0 100 X = 0 \<and> r = (x - c) * voltageNormalization sample_model \<and> \<bar>c\<bar> < 1 / 10 ^ 8 \<and>
    (\<bar>sp_f sample_model 0 100 x\<bar> < 2 * (1 / 10 ^ 8) * \<bar>sp_df sample_model 100 x\<bar> \<and>
       \<bar>x - X\<bar> < 2 * (1 / 10 ^ 8) * \<bar>sp_df sample_model 100 x\<bar> \<or>
     x < X \<and> \<bar>sp_df sample_model 100 x\<bar> < sp_ratio sample_model * sp_f sample_model 0 100 x \<and>
       \<bar>sp_factor sample_model 0 100 x\<bar> < sp_ratio sample_model * (1 / 10 ^ 8))"
proof -
  obtain r where r: "SurfacePotential_default sample_model (15 / 100) 100 = Inr r"
    using sample_surface by blast
  have "p_flatBandVoltage (parameters sample_model) \<le> 15 / 100"
    "0 = GateNormalized sample_model (15 / 100)" "100 = DrainNormalized sample_model 100"
    by (simp_all add: sample_model_def DefaultParameters_def GateNormalized_def DrainNormalized_def)
  from surface_potential_converged[OF sample_model_ok this r] r show ?thesis by blast
qed

section \<open>Operating points\<close>

lemma EvaluateOperatingPoint_sound:
  assumes "EvaluateOperatingPoint m vgsOn vgsOff vds = Inr pt"
  shows "0 < vds" "vgsOff < vgsOn" "0 < Ioff pt" "Ioff pt < Ion pt" "Ron pt < Roff pt"
    "Ron pt * Ion pt = vds" "Roff pt * Ioff pt = vds" "0 \<le> Cdrain pt" "0 \<le> Cgate pt"
    "CalculateDrainCurrentExternal m vgsOn vds = Inr (Ion pt)"
    "CalculateDrainCurrentExternal m vgsOff vds = Inr (Ioff pt)"
proof -
  have all: "0 < vds \<and> vgsOff < vgsOn \<and> 0 < Ioff pt \<and> Ioff pt < Ion pt \<and> 0 \<le> Cdrain pt \<and> 0 \<le> Cgate pt
    \<and> CalculateDrainCurrentExternal m vgsOn vds = Inr (Ion pt) \<and> Ron pt = vds / Ion pt
    \<and> CalculateDrainCurrentExternal m vgsOff vds = Inr (Ioff pt) \<and> Roff pt = vds / Ioff pt"
    using assms
    unfolding EvaluateOperatingPoint_def Let_def bindR_Inr_iff all_of.simps throw_unless_iff sum.inject
    by (auto simp: fault_simps not_le not_less)
  thus "0 < vds" "vgsOff < vgsOn" "0 < Ioff pt" "Ioff pt < Ion pt" "0 \<le> Cdrain pt" "0 \<le> Cgate pt"
    "CalculateDrainCurrentExternal m vgsOn vds = Inr (Ion pt)"
    "CalculateDrainCurrentExternal m vgsOff vds = Inr (Ioff pt)"
    by auto
  have i: "0 < Ioff pt" "Ioff pt < Ion pt" using all by auto
  show "Ron pt < Roff pt" "Ron pt * Ion pt = vds" "Roff pt * Ioff pt = vds"
    using all i by (auto simp: divide_strict_left_mono)
qed

section \<open>Construction\<close>

text \<open>
  C38. Constructing a compact model either rejects the parameters or yields a well-formed model
  of exactly these parameters: validated parameters, and strictly positive mobility exponent,
  voltage normalisation, thermal voltage, trap, deep-state and leakage coefficients, whatever
  the memory of the object held before.  The formulas of the class divide by these values.
\<close>
theorem constructed_model_well_formed:
  assumes "Initialize m p = Inr m'"
  shows "parameters m' = p \<and> params_ok p \<and> model_ok m'"
  using Initialize_ok[OF assms] by (auto simp: model_ok_def)

definition unit_parameters :: aos_parameters where
  "unit_parameters = \<lparr>p_q = 1, p_k = 1, p_temperature = 1, p_tailTemperature = 2, p_eps0 = 1,
     p_semiconductorPermittivity = 1, p_nu0T0 = 1, p_flatBandVoltage = 0, p_width = 1, p_length = 1,
     p_trapDensity = 1, p_fermiReference = 0, p_oxideCapacitance = 1, p_overlapCapacitance = 0,
     p_vrhThreshold = 0, p_percolationThreshold = 0, p_vrhPrefactor = 1, p_percolationPrefactor = 1,
     p_percolationExponent = 1, p_useConstantMobility = True, p_mobility = 1, p_mobilityScale = 1,
     p_leakageSwingFactor = 1, p_leakageSurfacePotentialReference = 1, p_leakageScale = 1,
     p_currentFloor = 0, p_totalContactResistanceKohmUm = 0\<rparr>"

lemma unit_selectors:
  "p_q unit_parameters = 1" "p_k unit_parameters = 1" "p_temperature unit_parameters = 1"
  "p_tailTemperature unit_parameters = 2" "p_semiconductorPermittivity unit_parameters = 1"
  "p_nu0T0 unit_parameters = 1" "p_flatBandVoltage unit_parameters = 0" "p_width unit_parameters = 1"
  "p_length unit_parameters = 1" "p_trapDensity unit_parameters = 1" "p_fermiReference unit_parameters = 0"
  "p_oxideCapacitance unit_parameters = 1" "p_useConstantMobility unit_parameters"
  "p_mobility unit_parameters = 1" "p_mobilityScale unit_parameters = 1"
  "p_leakageSurfacePotentialReference unit_parameters = 1"
  by (simp_all add: unit_parameters_def)

lemma sin_half:
  assumes "pi / 6 \<le> x" "x \<le> 5 * pi / 6"
  shows "1 / 2 \<le> sin x"
proof (cases "x \<le> pi / 2")
  case True
  thus ?thesis using assms sin_monotone_2pi_le[of "pi / 6" x] pi_gt_zero by (simp add: sin_30)
next
  case False
  hence "sin (pi / 6) \<le> sin (pi - x)" using assms pi_gt_zero by (intro sin_monotone_2pi_le) auto
  thus ?thesis by (simp add: sin_30)
qed

lemma sin_kPi: "1 / 2 \<le> sin (kPi / 2)"
proof (rule sin_half)
  show "pi / 6 \<le> kPi / 2" using pi_less_4 by (simp add: kPi_def)
  show "kPi / 2 \<le> 5 * pi / 6" using pi_ge_two by (simp add: kPi_def)
qed

lemma unit_constructs: "\<exists>m'. Initialize m unit_parameters = Inr m'"
proof -
  define s where "s = sin (kPi / 2)"
  have s: "1 / 2 \<le> s" "s \<le> 1" using sin_kPi by (simp_all add: s_def)
  have k: "0 < kPi" "kPi \<le> 4" by (simp_all add: kPi_def)
  have t: "0 < kPi / s" "kPi / s \<le> 8"
    using s k by (simp_all add: field_simps)
  have r: "0 \<le> sqrt (kPi / s)" "sqrt (kPi / s) \<le> 3"
    using t real_sqrt_le_mono[of "kPi / s" "3\<^sup>2"] by simp_all
  have q: "0 < sqrt (1 / 2)" "sqrt (1 / 2) \<le> 1" by simp_all
  have v: "ValidateParameters unit_parameters = Inr ()"
    by (simp add: ValidateParameters_def unit_parameters_def RequirePositive_def RequireFinite_def
        RequireNonnegative_def isfinite_small)
  have f: "isfinite s" "isfinite (kPi / s)" "isfinite (sqrt (kPi / s))"
    using s t r by (auto intro!: isfinite_small simp del: real_sqrt_divide)
  have g: "isfinite (sqrt (1 / 2))"
    by (rule isfinite_mono[of 1]) (simp_all add: isfinite_small)
  note u = unit_selectors
  have mob: "Mobility m' 0 = Inr 1" if "parameters m' = unit_parameters" for m'
    using that by (simp add: Mobility_def u RequireFinite_def RequireFiniteResult_def isfinite_small)
  have e: "LimExp 0 = Inr 1" by (simp add: LimExp_def RequireFinite_def isfinite_small)
  define m0 where "m0 = m\<lparr>parameters := unit_parameters\<rparr>"
  have p0: "parameters m0 = unit_parameters" by (simp add: m0_def)
  have small: "isfinite 1" "isfinite 2" "isfinite 4" by (simp_all add: isfinite_small)
  have z: "kPi * (1 / 2) = kPi / 2" "1 * 1 * 1 * (1 * 2 / 1) * (kPi / 2 / s) * 1 = kPi / s" by simp_all
  have "\<exists>m'. UpdateDerivedParameters m0 = Inr m'"
    unfolding UpdateDerivedParameters_def Let_def p0 u z(1) s_def[symmetric] div_0 mult_1_right e bindR.simps
    using s t f g q
    by (simp add: mob p0 RequireFiniteResult_def small del: real_sqrt_divide)
  thus ?thesis by (simp add: Initialize_def v m0_def)
qed

theorem constructed_model_well_formed_witness:
  "\<forall>m. \<exists>m'. Initialize m unit_parameters = Inr m' \<and> parameters m' = unit_parameters \<and> model_ok m'"
  using unit_constructs constructed_model_well_formed by blast

end
