(* ===== verification/Cell_Props.thy ===== *)
theory Cell_Props
  imports Mem_Cell Aos_Props
begin

text \<open>
  The reading of a cell file: every option reaches its own handler, and what every line keeps
  of the cell, the reading loop keeps.
\<close>

section \<open>The chain of options\<close>

definition cell_table :: "(string \<times> bool) list" where
  "cell_table = [
     (''-MemCellType'', True), (''-ProcessNode'', True),
     (''-CellArea'', True), (''-CellAspectRatio'', True),
     (''-ResistanceOnAtSetVoltage'', True), (''-ResistanceOffAtSetVoltage'', True),
     (''-ResistanceOnAtResetVoltage'', True), (''-ResistanceOffAtResetVoltage'', True),
     (''-ResistanceOnAtReadVoltage'', True), (''-ResistanceOffAtReadVoltage'', True),
     (''-ResistanceOnAtHalfReadVoltage'', True), (''-ResistanceOffAtHalfReadVoltage'', True),
     (''-ResistanceOnAtHalfResetVoltage'', True), (''-ResistanceOn'', True),
     (''-ResistanceOff'', True), (''-CapacitanceOn'', True),
     (''-CapacitanceOff'', True), (''-GateOxThicknessFactor'', True),
     (''-SOIDeviceWidth (F)'', True), (''-ReadMode'', True),
     (''-ReadVoltage'', True), (''-ReadCurrent'', True),
     (''-ReadPower'', True), (''-WordlineBoostRatio'', True),
     (''-MinSenseVoltage'', True), (''-ResetMode'', True),
     (''-ResetVoltage'', True), (''-ResetCurrent'', True),
     (''-ResetPulse'', True), (''-ResetEnergy'', True),
     (''-SetMode'', True), (''-SetVoltage'', True),
     (''-SetCurrent'', True), (''-SetPulse'', True),
     (''-SetEnergy'', True), (''-Stitching'', True),
     (''-AccessType'', True), (''-AccessCMOSWidth'', True),
     (''-VoltageDropAccessDevice'', True), (''-LeakageCurrentAccessDevice'', True),
     (''-DRAMCellCapacitance'', True), (''-SRAMCellNMOSWidth'', True),
     (''-SRAMCellPMOSWidth'', True), (''-ReadFloating'', True),
     (''-FlashEraseVoltage (V)'', True), (''-FlashProgramVoltage (V)'', True),
     (''-FlashPassVoltage (V)'', True), (''-FlashEraseTime'', True),
     (''-FlashProgramTime'', True), (''-GateCouplingRatio'', True),
     (''-RetentionTime'', True), (''-Temperature'', True)]"

lemma cell_handlers_table: "names (cell_handlers env) = cell_table"
  by (simp only: names_def cell_table_defs cell_table_def list.map fst_conv snd_conv)

lemma cell_table_ok: "reach_ok cell_table"
  by code_simp

lemma SplitSetting_colon:
  assumes "CHR '':'' \<notin> set key"
  shows "SplitSetting (key @ CHR '':'' # rest) = Some (Trim key, Trim rest)"
proof -
  have "takeWhile (\<lambda>c. c \<noteq> CHR '':'') (key @ CHR '':'' # rest) = key"
    using assms by (induction key) auto
  thus ?thesis by (simp add: SplitSetting_def Let_def)
qed

text \<open>The names of the chain start with none of the prefixes that the strict settings use.\<close>

definition plain_key :: "string \<Rightarrow> bool" where
  "plain_key k \<longleftrightarrow> CHR '':'' \<notin> set k \<and> Trim k = k \<and> \<not> malformed_setting k"

lemma cell_table_plain: "list_all (\<lambda>e. plain_key (fst e)) cell_table"
  by code_simp

lemma not_prefix_longer: "\<not> prefix p k \<Longrightarrow> \<not> prefix (p @ q) k"
  by (meson append_prefixD)

lemma process_setting_plain:
  assumes "\<not> malformed_setting key"
  shows "process_setting env key value c = Inr None"
proof -
  have no: "\<not> prefix (''-Oxide'' @ q) key" "\<not> prefix (''-RetentionModel'' @ q) key"
    "\<not> prefix (''-RetentionReferenceHoldVoltage'' @ q) key" for q
    using assms not_prefix_longer by (auto simp only: malformed_setting_def)
  have "key \<noteq> ''-OxideTransistor''" "key \<noteq> ''-RetentionModel''" "key \<noteq> ''-RetentionReferenceHoldVoltage (V)''"
    using no(1)[of "''Transistor''"] no(2)[of "[]"] no(3)[of "'' (V)''"] by auto
  with no(1)[of "''AccessTransistor''"] no(1)[of "''ReadTransistor''"] no(1)[of "''WriteTransistor''"]
    no(1)[of "[]"] no(2)[of "[]"] no(3)[of "[]"]
  show ?thesis unfolding process_setting_def append.simps append_Nil2 by (simp only: if_False simp_thms)
qed

text \<open>
  Every option of a cell file reaches its own handler: a line that consists of an option
  name, a colon and a value is neither taken for a strict oxide or retention setting nor
  captured by the handler of a shorter name.
\<close>
theorem cell_line_own_handler:
  assumes "(key, cont, h) \<in> set (cell_handlers env)"
  shows "process_cell_line env (key @ CHR '':'' # rest) st = h (key @ CHR '':'' # rest) st"
proof -
  have "(key, cont) \<in> set (names (cell_handlers env))" using assms by (force simp: names_def)
  hence "plain_key key" using cell_table_plain unfolding cell_handlers_table list_all_iff by force
  hence "process_cell_line env (key @ CHR '':'' # rest) st
      = dispatch (key @ CHR '':'' # rest) (cell_handlers env) st"
    by (simp add: process_cell_line_def plain_key_def SplitSetting_colon process_setting_plain)
  also have "\<dots> = h (key @ CHR '':'' # rest) st"
    using assms by (intro dispatch_own) (simp_all add: cell_handlers_table cell_table_ok)
  finally show ?thesis .
qed

theorem cell_line_own_handler_witness:
  "\<forall>env c t. process_cell_line env ''-MemCellType: gcDRAM'' (c, t) = Inr (c\<lparr>memCellType := gcDRAM\<rparr>, ''gcDRAM'')"
proof (intro allI)
  fix env c t
  have "(''-MemCellType'', True, cell_MemCellType) \<in> set (cell_handlers env)" by (simp add: cell_table_defs)
  from cell_line_own_handler[OF this, of "'' gcDRAM''" "(c, t)"]
  show "process_cell_line env ''-MemCellType: gcDRAM'' (c, t) = Inr (c\<lparr>memCellType := gcDRAM\<rparr>, ''gcDRAM'')"
    by (simp add: cell_MemCellType_def word_handler_def scan_tmp_def isspace_def code_def skip_ws_def
        apply_conv_def scan_word_def)
qed

section \<open>The reading loop\<close>

text \<open>What every line keeps: without an oxide field the three transistors are as constructed, and
  the flags of the reader agree with the cell.\<close>

definition reading_ok :: "reading \<Rightarrow> bool" where
  "reading_ok c \<longleftrightarrow>
     (\<not> oxideFieldSpecified c \<longrightarrow> oxideAccessTransistor c = InitializeAOSParameterSet
        \<and> oxideReadTransistor c = InitializeAOSParameterSet
        \<and> oxideWriteTransistor c = InitializeAOSParameterSet)
     \<and> (oxideTransistor c \<longrightarrow> oxideControlSpecified c)
     \<and> (retentionAOSOffCurrentRatio c \<longleftrightarrow> retentionModelSpecified c)"

lemma keeps_when: "keeps ok h \<Longrightarrow> keeps ok (when_handler b h)"
  by (auto simp: keeps_def when_handler_def)

lemma keeps_voltage:
  assumes "\<And>v c. ok c \<Longrightarrow> ok (upd v c)"
  shows "keeps ok (voltage_handler env wfmt dfmt upd)"
proof -
  have "keeps ok (double_handler dfmt upd id)" by (intro keeps_double) (auto simp: assms)
  thus ?thesis using assms by (auto simp: keeps_def voltage_handler_def Let_def fault_simps split: if_splits)
qed

lemma keeps_aspect: "keeps reading_ok cell_CellAspectRatio"
  unfolding keeps_def cell_CellAspectRatio_def Let_def bindR_Inr_iff
proof (intro allI impI, elim exE conjE)
  fix line and st st' st1 :: "reading option_reader"
  assume "reading_ok (fst st)"
    and "double_handler ''-CellAspectRatio: %lf'' (\<lambda>v c. c\<lparr>cellAspectRatio := v\<rparr>) id line st = Inr st1"
  moreover have "keeps reading_ok (double_handler ''-CellAspectRatio: %lf'' (\<lambda>v c. c\<lparr>cellAspectRatio := v\<rparr>) id)"
    by (rule keeps_double) (simp_all add: reading_ok_def)
  ultimately have "reading_ok (fst st1)" unfolding keeps_def by blast
  moreover assume "(if cellAspectRatio (fst st1) = 0 \<or> cellArea (fst st1) * cellAspectRatio (fst st1) < 0
      then Inl NonFinite
      else Inr ((fst st1)\<lparr>heightInFeatureSize := sqrt (cellArea (fst st1) * cellAspectRatio (fst st1)),
                          widthInFeatureSize := sqrt (cellArea (fst st1) / cellAspectRatio (fst st1))\<rparr>, snd st1))
      = Inr st'"
  ultimately show "reading_ok (fst st')" by (auto simp: reading_ok_def split: if_splits)
qed

lemmas cell_opt_defs =
  cell_MemCellType_def cell_ReadMode_def cell_ResetMode_def cell_ResetVoltage_def cell_SetMode_def
  cell_SetVoltage_def cell_AccessType_def cell_ReadFloating_def

lemma cell_handlers_keep: "list_all (\<lambda>e. keeps reading_ok (snd (snd e))) (cell_handlers env)"
  unfolding cell_table_defs cell_opt_defs list.pred_inject snd_conv
  by (intro conjI TrueI keeps_when keeps_word keeps_int keeps_double keeps_voltage keeps_aspect)
     (simp_all add: reading_ok_def)

lemma process_setting_keeps:
  "process_setting env key value c = Inr (Some c') \<Longrightarrow> reading_ok c \<Longrightarrow> reading_ok c'"
  unfolding process_setting_def
  by (simp only: FailCellFile_def bindR_Inr_iff sum.inject sum.simps option.simps simp_thms split: if_splits)
     (auto simp: reading_ok_def)

interpretation cell_file: line_reader "process_cell_line env" for env
  by unfold_locales
     (simp add: process_cell_line_def SplitSetting_def Trim_def malformed_setting_def cell_table_defs)

interpretation cell_file: line_reader_inv "process_cell_line env" "\<lambda>st. reading_ok (fst st)" for env
proof unfold_locales
  fix st st' :: "reading option_reader" and line
  assume ok: "reading_ok (fst st)" and p: "process_cell_line env line st = Inr st'"
  show "reading_ok (fst st')"
  proof (cases "SplitSetting line")
    case None
    thus ?thesis using p ok dispatch_keeps[OF cell_handlers_keep, of st line env st']
      by (auto simp: process_cell_line_def FailCellFile_def split: if_splits)
  next
    case (Some kv)
    then obtain key val r where r: "process_setting env key val (fst st) = Inr r"
      and r': "(case r of Some c \<Rightarrow> Inr (c, snd st) | None \<Rightarrow> dispatch line (cell_handlers env) st) = Inr st'"
      using p by (cases kv) (auto simp: process_cell_line_def bindR_Inr_iff)
    show ?thesis
    proof (cases r)
      case (Some c)
      thus ?thesis using r r' process_setting_keeps ok by auto
    qed (use r' ok dispatch_keeps[OF cell_handlers_keep, of st line env st'] in simp)
  qed
qed

end
