(* ===== verification/Cell_Accept.thy ===== *)
theory Cell_Accept
  imports Cell_Props
begin

text \<open>
  What a cell that was read promises.  A cell that is accepted with oxide transistors has
  operating points that the compact model has validated; the retention time scales as the
  temperature model says; and the interpolation of the memristance reproduces its two
  calibration points.
\<close>

section \<open>Accepted cells\<close>

definition aos_valid :: "cell_env \<Rightarrow> oxide_set \<Rightarrow> bool" where
  "aos_valid env t \<longleftrightarrow> (\<exists>m vdd temp. tech_vdd env = Some vdd \<and> env_temperature env = Some temp
     \<and> AOSFETCompactModel (ox_parameters t) = Inr m \<and> model_ok m
     \<and> EvaluateOperatingPoint m (wordlineBoostVoltage t) (wordlineHoldVoltage t) vdd = Inr (operatingPoint t)
     \<and> \<bar>p_temperature (ox_parameters t) - of_int temp\<bar> \<le> 1 / 10 ^ 9
     \<and> 0 < Ioff (operatingPoint t) \<and> Ioff (operatingPoint t) < Ion (operatingPoint t))"

lemma catch_Inr [fault_simps]: "catch_exception msg r = Inr x \<longleftrightarrow> r = Inr x"
  by (auto simp: catch_exception_def split: sum.split fault.split)

lemma Validate_valid:
  assumes "ValidateAOSParameterSet env name t = Inr t'"
  shows "aos_valid env t'"
proof -
  obtain temp vdd m pt where e: "env_temperature env = Some temp" "tech_vdd env = Some vdd"
    and T: "\<not> \<bar>p_temperature (ox_parameters t) - of_int temp\<bar> > 1 / 10 ^ 9"
    and m: "AOSFETCompactModel (ox_parameters t) = Inr m"
    and pt: "EvaluateOperatingPoint m (wordlineBoostVoltage t) (wordlineHoldVoltage t) vdd = Inr pt"
    and t': "t' = t\<lparr>operatingPoint := pt\<rparr>"
    using assms unfolding ValidateAOSParameterSet_def FailCellFile_def
    by (auto simp: fault_simps split: if_splits option.splits)
  show ?thesis unfolding aos_valid_def t'
    using e T m pt EvaluateOperatingPoint_sound(3,4)[OF pt] Initialize_ok[OF m[unfolded AOSFETCompactModel_def]]
    by auto
qed

definition oxide_ok :: "cell_env \<Rightarrow> 'x MemCell_scheme \<Rightarrow> bool" where
  "oxide_ok env c \<longleftrightarrow>
     (if oxideTransistor c then
        (memCellType c = eDRAM \<and> aos_valid env (oxideAccessTransistor c)
           \<and> \<not> ox_initialized (oxideReadTransistor c) \<and> \<not> ox_initialized (oxideWriteTransistor c)) \<or>
        (memCellType c = gcDRAM \<and> aos_valid env (oxideReadTransistor c) \<and> aos_valid env (oxideWriteTransistor c)
           \<and> \<not> ox_initialized (oxideAccessTransistor c))
      else oxideAccessTransistor c = InitializeAOSParameterSet \<and> oxideReadTransistor c = InitializeAOSParameterSet
        \<and> oxideWriteTransistor c = InitializeAOSParameterSet)"

lemma check_oxide_eDRAM:
  assumes "check_oxide env c = Inr c'" "oxideTransistor c" "memCellType c = eDRAM"
  obtains t where "ValidateAOSParameterSet env ''eDRAM access'' (oxideAccessTransistor c) = Inr t"
    "c' = c\<lparr>oxideAccessTransistor := t\<rparr>"
    "\<not> ox_initialized (oxideReadTransistor c)" "\<not> ox_initialized (oxideWriteTransistor c)"
proof -
  have "oxideControlSpecified c \<or> \<not> oxideFieldSpecified c"
    using assms(1,2) by (auto simp: check_oxide_def FailCellFile_def split: if_splits)
  hence e: "check_oxide env c =
      (if ox_initialized (oxideReadTransistor c) \<or> ox_initialized (oxideWriteTransistor c)
       then FailCellFile ''eDRAM accepts only -OxideAccessTransistor fields''
       else bindR (ValidateAOSParameterSet env ''eDRAM access'' (oxideAccessTransistor c)) (\<lambda>t.
              Inr (c\<lparr>oxideAccessTransistor := t\<rparr>)))"
    using assms(2,3) by (auto simp: check_oxide_def IsAOSCell_def FailCellFile_def bindR_assoc)
  show thesis using assms(1)[unfolded e] that by (auto simp: FailCellFile_def bindR_Inr_iff split: if_splits)
qed

lemma check_oxide_gcDRAM:
  assumes "check_oxide env c = Inr c'" "oxideTransistor c" "memCellType c = gcDRAM"
  obtains r w where "ValidateAOSParameterSet env ''gcDRAM read'' (oxideReadTransistor c) = Inr r"
    "ValidateAOSParameterSet env ''gcDRAM write'' (oxideWriteTransistor c) = Inr w"
    "c' = c\<lparr>oxideReadTransistor := r, oxideWriteTransistor := w\<rparr>"
    "\<not> ox_initialized (oxideAccessTransistor c)"
proof -
  have "oxideControlSpecified c \<or> \<not> oxideFieldSpecified c"
    using assms(1,2) by (auto simp: check_oxide_def FailCellFile_def split: if_splits)
  hence e: "check_oxide env c =
      (if ox_initialized (oxideAccessTransistor c)
       then FailCellFile ''gcDRAM accepts only read/write AOS transistor fields''
       else bindR (ValidateAOSParameterSet env ''gcDRAM read'' (oxideReadTransistor c)) (\<lambda>r.
            bindR (ValidateAOSParameterSet env ''gcDRAM write'' (oxideWriteTransistor c)) (\<lambda>w.
              Inr (c\<lparr>oxideReadTransistor := r, oxideWriteTransistor := w\<rparr>))))"
    using assms(2,3) by (auto simp: check_oxide_def IsAOSCell_def Let_def)
  show thesis using assms(1)[unfolded e] that by (auto simp: FailCellFile_def bindR_Inr_iff split: if_splits)
qed

lemma check_oxide_ok:
  assumes "check_oxide env c = Inr c'" "reading_ok c"
  shows "oxide_ok env c'"
proof (cases "oxideTransistor c")
  case False
  hence "c' = c" "\<not> oxideFieldSpecified c"
    using assms(1) by (auto simp: check_oxide_def FailCellFile_def split: if_splits)
  thus ?thesis using False assms(2) by (simp add: oxide_ok_def reading_ok_def)
next
  case True
  hence "IsAOSCell (memCellType c)"
    using assms(1) by (simp add: check_oxide_def FailCellFile_def split: if_splits)
  then consider "memCellType c = eDRAM" | "memCellType c = gcDRAM" unfolding IsAOSCell_def by blast
  thus ?thesis
  proof cases
    case 1
    obtain t where t: "aos_valid env t" "c' = c\<lparr>oxideAccessTransistor := t\<rparr>"
      "\<not> ox_initialized (oxideReadTransistor c)" "\<not> ox_initialized (oxideWriteTransistor c)"
      using check_oxide_eDRAM[OF assms(1) True 1] Validate_valid by metis
    show ?thesis unfolding oxide_ok_def t(2) using t True 1 by simp
  next
    case 2
    obtain r w where t: "aos_valid env r" "aos_valid env w"
      "c' = c\<lparr>oxideReadTransistor := r, oxideWriteTransistor := w\<rparr>"
      "\<not> ox_initialized (oxideAccessTransistor c)"
      using check_oxide_gcDRAM[OF assms(1) True 2] Validate_valid by metis
    show ?thesis unfolding oxide_ok_def t(3) using t True 2 by simp
  qed
qed

definition retention_ok :: "'x MemCell_scheme \<Rightarrow> bool" where
  "retention_ok c \<longleftrightarrow> (retentionReferenceHoldVoltageSpecified c = retentionAOSOffCurrentRatio c)
     \<and> (retentionAOSOffCurrentRatio c \<longrightarrow> memCellType c = eDRAM \<and> oxideTransistor c
          \<and> retentionTime c \<noteq> invalid_value)"

lemma check_retention_ok: "check_retention c = Inr c' \<Longrightarrow> c' = c \<and> retention_ok c"
  by (auto simp: check_retention_def FailCellFile_def retention_ok_def split: if_splits)

lemma start_reading_ok: "reading_ok (start_reading (MemCell_new m))"
  by (simp add: reading_ok_def start_reading_def MemCell.extend_def MemCell_new_def)

lemma truncate_ok:
  "oxide_ok env (MemCell.truncate c) = oxide_ok env c" "retention_ok (MemCell.truncate c) = retention_ok c"
  by (simp_all add: oxide_ok_def retention_ok_def MemCell.truncate_def)

text \<open>
  C14. A cell file that is accepted gives a cell whose oxide transistors have been validated: a
  cell with oxide transistors is an eDRAM cell with an access transistor or a gain cell with a
  read and a write transistor, each with the operating point that its compact model computes
  at the supply voltage and the temperature of the configuration, and with an on current above
  a positive off current; the transistors of every other cell are as constructed.  A reference
  hold voltage is given exactly when the retention model uses it.
\<close>
theorem accepted_cell_validated:
  assumes "ReadCellFromFile env (Some content) line0 tmp0 (MemCell_new m) = Some (Inr c)"
  shows "oxide_ok env c \<and> retention_ok c"
proof -
  obtain st c1 where st: "read_lines (process_cell_line env) content line0 (start_reading (MemCell_new m), tmp0) = Some (Inr st)"
    and c1: "check_oxide env (fst st) = Inr c1" and c: "check_retention c1 = Inr c1" "c = MemCell.truncate c1"
    using assms check_retention_ok by (fastforce simp: ReadCellFromFile_def bindR_Inr_iff split: bind_splits)
  have "reading_ok (fst st)" using cell_file.file_keeps[OF st] start_reading_ok by simp
  from check_oxide_ok[OF c1 this] check_retention_ok[OF c(1)] show ?thesis by (simp add: c(2) truncate_ok)
qed

lemma read_memcell_type:
  "read_lines (process_cell_line env) ''-MemCellType: SRAM'' [] (c, t) = Some (Inr (c\<lparr>memCellType := SRAM\<rparr>, ''SRAM''))"
proof -
  have "process_cell_line env ''-MemCellType: SRAM'' (c, t) = Inr (c\<lparr>memCellType := SRAM\<rparr>, ''SRAM'')"
    by (simp add: process_cell_line_def SplitSetting_def Trim_def process_setting_def cell_table_defs
        cell_MemCellType_def word_handler_def scan_tmp_def isspace_def code_def skip_ws_def
        apply_conv_def scan_word_def)
  thus ?thesis by (simp add: read_lines_step newline_def skip_ws_def)
qed

theorem accepted_cell_validated_witness:
  "\<forall>env m. \<exists>c. ReadCellFromFile env (Some ''-MemCellType: SRAM'') [] [] (MemCell_new m) = Some (Inr c)
     \<and> memCellType c = SRAM \<and> oxide_ok env c \<and> retention_ok c"
proof (intro allI)
  fix env m
  let ?c = "(start_reading (MemCell_new m))\<lparr>memCellType := SRAM\<rparr>"
  have "check_oxide env ?c = Inr ?c" "check_retention ?c = Inr ?c"
    by (simp_all add: check_oxide_def check_retention_def start_reading_def MemCell.extend_def MemCell_new_def)
  hence r: "ReadCellFromFile env (Some ''-MemCellType: SRAM'') [] [] (MemCell_new m) = Some (Inr (MemCell.truncate ?c))"
    by (simp add: ReadCellFromFile_def read_memcell_type)
  moreover have "memCellType (MemCell.truncate ?c) = SRAM" by (simp add: MemCell.truncate_def)
  ultimately show "\<exists>c. ReadCellFromFile env (Some ''-MemCellType: SRAM'') [] [] (MemCell_new m) = Some (Inr c)
     \<and> memCellType c = SRAM \<and> oxide_ok env c \<and> retention_ok c"
    using accepted_cell_validated[OF r] by blast
qed

section \<open>Retention\<close>

lemma ApplyPVT_retention:
  assumes "ApplyPVT env c = Inr c'" "retentionTime c \<noteq> invalid_value" "IsAOSCell (memCellType c)"
    and "env_temperature env = Some temp"
  shows "\<exists>ratio. (if retentionAOSOffCurrentRatio c then retention_current_ratio env c = Inr ratio else ratio = 1) \<and>
    retentionTime c' = retentionTime c * ratio * exp (- (268 / 10 ^ 4) * (of_int temp - cellTemperature c)) \<and>
    0 < retentionTime c'"
proof (cases "retentionAOSOffCurrentRatio c")
  case True
  thus ?thesis
    using assms by (auto simp: ApplyPVT_def IsAOSCell_def fault_simps Let_def split: if_splits)
next
  case False
  thus ?thesis
    using assms by (auto simp: ApplyPVT_def IsAOSCell_def fault_simps Let_def split: if_splits)
qed

lemma current_ratio_env:
  "tech_vdd env = tech_vdd env' \<Longrightarrow> retention_current_ratio env c = retention_current_ratio env' c"
  by (simp add: retention_current_ratio_def)

lemma exponent_split:
  fixes k T :: real
  shows "exp (k * (of_int t2 - T)) = exp (k * (of_int t1 - T)) * exp (k * of_int (t2 - t1))"
proof -
  have "k * (of_int t2 - T) = k * (of_int t1 - T) + k * of_int (t2 - t1)" by (simp add: algebra_simps)
  thus ?thesis by (simp only: exp_add)
qed

text \<open>
  C39. The retention time of an eDRAM or gain cell falls with the operating temperature: if the
  same cell is adjusted at two temperatures and both adjustments succeed, the retention times
  are positive, and the one at the higher temperature is shorter by exactly the factor
  \<^verbatim>\<open>exp(-0.0268 dT)\<close>, whether or not the off-current model is used.
\<close>
theorem retention_falls_with_temperature:
  assumes "ApplyPVT env1 c = Inr c1" "ApplyPVT env2 c = Inr c2"
    and "retentionTime c \<noteq> invalid_value" "IsAOSCell (memCellType c)" "tech_vdd env1 = tech_vdd env2"
    and "env_temperature env1 = Some t1" "env_temperature env2 = Some t2" "t1 < t2"
  shows "0 < retentionTime c2 \<and> retentionTime c2 < retentionTime c1
    \<and> retentionTime c2 = retentionTime c1 * exp (- (268 / 10 ^ 4) * of_int (t2 - t1))"
proof -
  obtain r1 where 1: "if retentionAOSOffCurrentRatio c then retention_current_ratio env1 c = Inr r1 else r1 = 1"
    "retentionTime c1 = retentionTime c * r1 * exp (- (268 / 10 ^ 4) * (of_int t1 - cellTemperature c))"
    "0 < retentionTime c1"
    using ApplyPVT_retention[OF assms(1,3,4,6)] by blast
  obtain r2 where 2: "if retentionAOSOffCurrentRatio c then retention_current_ratio env2 c = Inr r2 else r2 = 1"
    "retentionTime c2 = retentionTime c * r2 * exp (- (268 / 10 ^ 4) * (of_int t2 - cellTemperature c))"
    "0 < retentionTime c2"
    using ApplyPVT_retention[OF assms(2-4,7)] by blast
  have "r1 = r2" using 1(1) 2(1) current_ratio_env[OF assms(5), of c] by (auto split: if_splits)
  hence e: "retentionTime c2 = retentionTime c1 * exp (- (268 / 10 ^ 4) * of_int (t2 - t1))"
    unfolding 1(2) 2(2) using exponent_split[of "- (268 / 10 ^ 4)" t2 "cellTemperature c" t1] by simp
  moreover have "exp (- (268 / 10 ^ 4) * of_int (t2 - t1)) < (1 :: real)" using assms(8) by simp
  hence "retentionTime c1 * exp (- (268 / 10 ^ 4) * of_int (t2 - t1)) < retentionTime c1 * 1"
    using 1(3) by (rule mult_strict_left_mono)
  ultimately show ?thesis using 2(3) by simp
qed

definition sample_eDRAM :: "MemCell \<Rightarrow> MemCell" where
  "sample_eDRAM m = (MemCell_new m)\<lparr>memCellType := eDRAM, retentionTime := 1\<rparr>"

lemma sample_eDRAM_pvt:
  assumes "0 \<le> t" "t \<le> 300"
  shows "\<exists>c. ApplyPVT \<lparr>tech_vdd = Some 1, env_temperature = Some t\<rparr> (sample_eDRAM m) = Inr c"
proof -
  let ?e = "- (268 / 10 ^ 4) * (of_int t - 300 :: real)"
  have "0 \<le> (of_int t :: real)" using assms by simp
  hence "?e \<le> 9" by (simp add: field_simps)
  hence "exp ?e \<le> exp 1 ^ 9" by (simp add: exp_of_nat_mult[symmetric])
  also have "\<dots> \<le> 3 ^ 9" using exp_le by (intro power_mono) auto
  finally have "isfinite (exp ?e)" by (intro isfinite_small) simp
  thus ?thesis by (simp add: ApplyPVT_def sample_eDRAM_def MemCell_new_def invalid_value_def Let_def not_le)
qed

theorem retention_falls_with_temperature_witness:
  "\<forall>m. \<exists>c1 c2. ApplyPVT \<lparr>tech_vdd = Some 1, env_temperature = Some 250\<rparr> (sample_eDRAM m) = Inr c1
     \<and> ApplyPVT \<lparr>tech_vdd = Some 1, env_temperature = Some 300\<rparr> (sample_eDRAM m) = Inr c2
     \<and> retentionTime c2 < retentionTime c1"
proof
  fix m
  obtain c1 c2 where c: "ApplyPVT \<lparr>tech_vdd = Some 1, env_temperature = Some 250\<rparr> (sample_eDRAM m) = Inr c1"
    "ApplyPVT \<lparr>tech_vdd = Some 1, env_temperature = Some 300\<rparr> (sample_eDRAM m) = Inr c2"
    using sample_eDRAM_pvt[of 250 m] sample_eDRAM_pvt[of 300 m] by auto
  have "retentionTime (sample_eDRAM m) \<noteq> invalid_value" "IsAOSCell (memCellType (sample_eDRAM m))"
    by (simp_all add: sample_eDRAM_def invalid_value_def IsAOSCell_def)
  from retention_falls_with_temperature[OF c this, of 250 300] c
  show "\<exists>c1 c2. ApplyPVT \<lparr>tech_vdd = Some 1, env_temperature = Some 250\<rparr> (sample_eDRAM m) = Inr c1
     \<and> ApplyPVT \<lparr>tech_vdd = Some 1, env_temperature = Some 300\<rparr> (sample_eDRAM m) = Inr c2
     \<and> retentionTime c2 < retentionTime c1" by simp
qed

section \<open>Memristance and write energy\<close>

lemma line_through:
  fixes x1 x2 y1 y2 :: real
  assumes "x1 \<noteq> x2"
  shows "(y2 - y1) / (x2 - x1) * x1 + (x2 * y1 - x1 * y2) / (x2 - x1) = y1"
    "(y2 - y1) / (x2 - x1) * x2 + (x2 * y1 - x1 * y2) / (x2 - x1) = y2"
  using assms by (simp_all add: add_divide_distrib[symmetric], simp_all add: field_simps)

text \<open>
  The memristance of a memristor is the log-linear interpolation through its two
  calibration points: at the read voltage it is the low resistance given for the read voltage,
  at half the read voltage the one given for half the read voltage.  For a cell that is read
  by current (read voltage zero) there is no result at any voltage: the second calibration
  point and the applied voltage are computed from the read voltage, so that the
  logarithm of zero enters.
\<close>
theorem memristance_interpolates:
  assumes "memCellType c = memristor"
  shows "(0 < readVoltage c \<and> 0 < resistanceOnAtReadVoltage c \<and> 0 < resistanceOnAtHalfReadVoltage c \<longrightarrow>
      GetMemristance 1 c = Inr (resistanceOnAtReadVoltage c) \<and>
      GetMemristance (1 / 2) c = Inr (resistanceOnAtHalfReadVoltage c)) \<and>
    (readVoltage c = 0 \<longrightarrow> (\<forall>v. GetMemristance v c = Inl NonFinite))"
proof (intro conjI impI allI)
  assume "0 < readVoltage c \<and> 0 < resistanceOnAtReadVoltage c \<and> 0 < resistanceOnAtHalfReadVoltage c"
  moreover define v r h where "v = readVoltage c" and "r = resistanceOnAtReadVoltage c"
    and "h = resistanceOnAtHalfReadVoltage c"
  ultimately have p: "0 < v" "0 < r" "0 < h" by auto
  have g: "GetMemristance k c = Inr (k * v / 2 powr ((log 2 (v / 2 / h) - log 2 (v / r)) / (v / 2 - v) * (k * v)
      + (v / 2 * log 2 (v / r) - v * log 2 (v / 2 / h)) / (v / 2 - v)))" for k
    using p assms by (simp add: GetMemristance_def v_def[symmetric] r_def[symmetric] h_def[symmetric]
        fdiv_def flog2_def Let_def not_le)
  have ne: "v \<noteq> v / 2" using p by simp
  show "GetMemristance 1 c = Inr (resistanceOnAtReadVoltage c)"
    unfolding g mult_1 line_through(1)[OF ne] r_def[symmetric] using p by simp
  have half: "1 / 2 * v = v / 2" by simp
  show "GetMemristance (1 / 2) c = Inr (resistanceOnAtHalfReadVoltage c)"
    unfolding g half line_through(2)[OF ne] h_def[symmetric] using p by simp
next
  fix v
  assume "readVoltage c = 0"
  thus "GetMemristance v c = Inl NonFinite"
    using assms by (auto simp: GetMemristance_def fdiv_def flog2_def Let_def)
qed

theorem memristance_interpolates_witness:
  "\<forall>m. GetMemristance (1 / 2) ((MemCell_new m)\<lparr>memCellType := memristor, readVoltage := 2,
      resistanceOnAtReadVoltage := 1000, resistanceOnAtHalfReadVoltage := 9000\<rparr>) = Inr 9000"
proof
  fix m
  show "GetMemristance (1 / 2) ((MemCell_new m)\<lparr>memCellType := memristor, readVoltage := 2,
      resistanceOnAtReadVoltage := 1000, resistanceOnAtHalfReadVoltage := 9000\<rparr>) = Inr 9000"
    using memristance_interpolates[of "(MemCell_new m)\<lparr>memCellType := memristor, readVoltage := 2,
      resistanceOnAtReadVoltage := 1000, resistanceOnAtHalfReadVoltage := 9000\<rparr>"] by simp
qed

text \<open>
  The set energy of a cell that is written by current depends on the wrong voltage: the
  supply voltage replaces the set voltage when the reset voltage is zero.  A cell with
  a set voltage but no reset voltage is charged at the supply voltage, and a cell with a
  reset voltage but no set voltage has a set energy of zero, whatever its set current is.
\<close>
theorem set_energy_tests_reset_voltage:
  assumes "setEnergy c = 0" "\<not> setMode c" "resetEnergy c \<noteq> 0" "tech_vdd env = Some vdd"
  shows "CalculateWriteEnergy env c = Inr (c\<lparr>setEnergy :=
      (if resetVoltage c = 0 then vdd * \<bar>setCurrent c\<bar> * setPulse c
       else \<bar>setVoltage c\<bar> * \<bar>setCurrent c\<bar> * setPulse c)\<rparr>) \<and>
    (resetVoltage c \<noteq> 0 \<longrightarrow> setVoltage c = 0 \<longrightarrow> CalculateWriteEnergy env c = Inr c)"
  using assms by (simp add: CalculateWriteEnergy_def write_energy_def)

theorem set_energy_tests_reset_voltage_witness:
  "\<forall>m. let c = (MemCell_new m)\<lparr>setMode := False, resetEnergy := 1, setCurrent := 3, setPulse := 1, resetVoltage := 2\<rparr>
       in CalculateWriteEnergy \<lparr>tech_vdd = Some 1, env_temperature = Some 300\<rparr> c = Inr c"
proof
  fix m
  show "let c = (MemCell_new m)\<lparr>setMode := False, resetEnergy := 1, setCurrent := 3, setPulse := 1, resetVoltage := 2\<rparr>
       in CalculateWriteEnergy \<lparr>tech_vdd = Some 1, env_temperature = Some 300\<rparr> c = Inr c"
    using set_energy_tests_reset_voltage[of "(MemCell_new m)\<lparr>setMode := False, resetEnergy := 1,
        setCurrent := 3, setPulse := 1, resetVoltage := 2\<rparr>" "\<lparr>tech_vdd = Some 1, env_temperature = Some 300\<rparr>" 1]
    by (simp add: Let_def MemCell_new_def)
qed

end
