(* ===== verification/Ruby_Consumer.thy ===== *)
theory Ruby_Consumer
  imports Prelude
begin

text \<open>
  Clocks and consumers of gem5 (\<^verbatim>\<open>sim/clocked_object.hh\<close>, \<^verbatim>\<open>mem/ruby/common/Consumer.hh\<close> and
  \<^verbatim>\<open>Consumer.cc\<close>).  A clocked object caches the next edge of its clock and the number of that
  edge; a consumer keeps the ordered set of ticks at which it must wake up and one event in the
  event queue.  The current tick and the period of the clock domain, which the code reads from
  the event queue and from the clock domain, form the record \<open>sim_env\<close>; a \<^verbatim>\<open>std::set\<close> of ticks
  is the sorted list of its elements.  Of the event queue (\<^verbatim>\<open>sim/eventq.hh\<close>, \<^verbatim>\<open>eventq.cc\<close>) the
  theory has what it does to the event of one consumer: \<open>schedule\<close>, \<open>reschedule\<close> and the
  execution of the event by \<open>serviceOne\<close>.
\<close>

section \<open>Clocked objects\<close>

record sim_env =
  curTick :: tick
  clockPeriod :: tick

definition divCeil :: "64 word \<Rightarrow> 64 word \<Rightarrow> 64 word res" where
  "divCeil a b = (if b = 0 then Inl DivByZero else Inr ((a + b - 1) div b))"

record clocked =
  clk_tick :: tick
  clk_cycle :: cycles

definition Clocked_new :: clocked where
  "Clocked_new = \<lparr>clk_tick = 0, clk_cycle = 0\<rparr>"

definition clk_update :: "sim_env \<Rightarrow> clocked \<Rightarrow> clocked res" where
  "clk_update env k =
     (if curTick env \<le> clk_tick k then Inr k
      else let k = k\<lparr>clk_tick := clk_tick k + clockPeriod env, clk_cycle := clk_cycle k + 1\<rparr>
           in if curTick env \<le> clk_tick k then Inr k
              else bindR (divCeil (curTick env - clk_tick k) (clockPeriod env)) (\<lambda>elapsedCycles.
                Inr (k\<lparr>clk_tick := clk_tick k + elapsedCycles * clockPeriod env,
                       clk_cycle := clk_cycle k + elapsedCycles\<rparr>)))"

definition clockEdge :: "sim_env \<Rightarrow> cycles \<Rightarrow> clocked \<Rightarrow> (tick \<times> clocked) res" where
  "clockEdge env cyc k = bindR (clk_update env k) (\<lambda>k.
     Inr (clk_tick k + clockPeriod env * cyc, k))"

definition curCycle :: "sim_env \<Rightarrow> clocked \<Rightarrow> (cycles \<times> clocked) res" where
  "curCycle env k = bindR (clk_update env k) (\<lambda>k. Inr (clk_cycle k, k))"

definition nextCycle :: "sim_env \<Rightarrow> clocked \<Rightarrow> (tick \<times> clocked) res" where
  "nextCycle env = clockEdge env 1"

definition ticksToCycles :: "sim_env \<Rightarrow> tick \<Rightarrow> cycles res" where
  "ticksToCycles env t = divCeil t (clockPeriod env)"

definition cyclesToTicks :: "sim_env \<Rightarrow> cycles \<Rightarrow> tick" where
  "cyclesToTicks env c = clockPeriod env * c"

definition resetClock :: "sim_env \<Rightarrow> clocked \<Rightarrow> clocked res" where
  "resetClock env k = bindR (divCeil (curTick env) (clockPeriod env)) (\<lambda>elapsedCycles.
     Inr (k\<lparr>clk_tick := elapsedCycles * clockPeriod env, clk_cycle := elapsedCycles\<rparr>))"

section \<open>Consumers\<close>

record consumer =
  m_wakeup_ticks :: "tick list"
  m_wakeup_event :: "tick option"
  em :: clocked

definition Consumer_new :: "clocked \<Rightarrow> consumer" where
  "Consumer_new k = \<lparr>m_wakeup_ticks = [], m_wakeup_event = None, em = k\<rparr>"

definition schedule :: "sim_env \<Rightarrow> tick \<Rightarrow> consumer \<Rightarrow> consumer res" where
  "schedule env when c = assertR (curTick env \<le> when)
     (assertR (m_wakeup_event c = None) (Inr (c\<lparr>m_wakeup_event := Some when\<rparr>)))"

definition reschedule :: "sim_env \<Rightarrow> tick \<Rightarrow> bool \<Rightarrow> consumer \<Rightarrow> consumer res" where
  "reschedule env when always c = assertR (curTick env \<le> when)
     (assertR (always \<or> m_wakeup_event c \<noteq> None) (Inr (c\<lparr>m_wakeup_event := Some when\<rparr>)))"

definition alreadyScheduled :: "tick \<Rightarrow> consumer \<Rightarrow> bool" where
  "alreadyScheduled t c \<longleftrightarrow> t \<in> set (m_wakeup_ticks c)"

definition scheduleNextWakeup :: "sim_env \<Rightarrow> consumer \<Rightarrow> consumer res" where
  "scheduleNextWakeup env c = bindR (clockEdge env 0 (em c)) (\<lambda>(edge, k).
     let c = c\<lparr>em := k\<rparr> in
     case dropWhile (\<lambda>t. t < edge) (m_wakeup_ticks c) of
       [] \<Rightarrow> Inr c
     | when # _ \<Rightarrow> assertR (edge \<le> when)
         (case m_wakeup_event c of
            Some w \<Rightarrow> if when < w then reschedule env when True c else Inr c
          | None \<Rightarrow> schedule env when c))"

definition scheduleEvent :: "sim_env \<Rightarrow> cycles \<Rightarrow> consumer \<Rightarrow> consumer res" where
  "scheduleEvent env timeDelta c = bindR (clockEdge env timeDelta (em c)) (\<lambda>(t, k).
     scheduleNextWakeup env
       (c\<lparr>em := k, m_wakeup_ticks := insort_insert t (m_wakeup_ticks c)\<rparr>))"

definition scheduleEventAbsolute :: "sim_env \<Rightarrow> tick \<Rightarrow> consumer \<Rightarrow> consumer res" where
  "scheduleEventAbsolute env evt_time c = bindR (divCeil evt_time (clockPeriod env)) (\<lambda>q.
     scheduleNextWakeup env
       (c\<lparr>m_wakeup_ticks := insort_insert (q * clockPeriod env) (m_wakeup_ticks c)\<rparr>))"

definition processCurrentEvent ::
    "(sim_env \<Rightarrow> consumer \<Rightarrow> consumer res) \<Rightarrow> sim_env \<Rightarrow> consumer \<Rightarrow> consumer res" where
  "processCurrentEvent wakeup env c =
     (case m_wakeup_ticks c of
        [] \<Rightarrow> Inl Undefined
      | first # rest \<Rightarrow> bindR (clockEdge env 0 (em c)) (\<lambda>(edge, k).
          assertR (edge = first)
            (bindR (wakeup env (c\<lparr>em := k, m_wakeup_ticks := rest\<rparr>)) (scheduleNextWakeup env))))"

definition serviceOne ::
    "(sim_env \<Rightarrow> consumer \<Rightarrow> consumer res) \<Rightarrow> sim_env \<Rightarrow> consumer \<Rightarrow> (sim_env \<times> consumer) res" where
  "serviceOne wakeup env c =
     bindR (derefR (m_wakeup_event c)) (\<lambda>when.
       let env = env\<lparr>curTick := when\<rparr>
       in bindR (processCurrentEvent wakeup env (c\<lparr>m_wakeup_event := None\<rparr>)) (\<lambda>c. Inr (env, c)))"

section \<open>Clock edges\<close>

text \<open>The first clock edge at or after a tick, over the natural numbers.\<close>

definition next_edge :: "nat \<Rightarrow> nat \<Rightarrow> nat" where
  "next_edge p t = (t + p - 1) div p * p"

lemma next_edge_dvd [simp]: "p dvd next_edge p t"
  by (simp add: next_edge_def)

lemma next_edge_ge: "0 < p \<Longrightarrow> t \<le> next_edge p t"
proof -
  assume p: "0 < p"
  have "t + p - 1 = (t + p - 1) div p * p + (t + p - 1) mod p" by simp
  moreover have "(t + p - 1) mod p < p" using p by simp
  ultimately show ?thesis unfolding next_edge_def by linarith
qed

lemma next_edge_less: "0 < p \<Longrightarrow> next_edge p t < t + p"
proof -
  assume "0 < p"
  moreover have "next_edge p t \<le> t + p - 1" by (simp add: next_edge_def)
  ultimately show ?thesis by linarith
qed

lemma next_edge_unique:
  assumes "p dvd e" "t \<le> e" "e < t + p"
  shows "e = next_edge p t"
proof -
  obtain q where q: "e = p * q" using assms(1) ..
  have p: "0 < p" using assms(2,3) by linarith
  obtain r where r: "next_edge p t = p * r" using next_edge_dvd[of p t] ..
  note b = next_edge_ge[OF p, of t] next_edge_less[OF p, of t]
  have "p * q < p * (r + 1)" using b assms(2,3) q r by (simp add: algebra_simps)
  hence "q < r + 1" by (simp only: nat_mult_less_cancel1[OF p])
  moreover have "p * r < p * (q + 1)" using b assms(2,3) q r by (simp add: algebra_simps)
  hence "r < q + 1" by (simp only: nat_mult_less_cancel1[OF p])
  ultimately have "q = r" by linarith
  thus ?thesis using q r by simp
qed

lemma next_edge_least:
  assumes "p dvd e" "t \<le> e" "0 < p"
  shows "next_edge p t \<le> e"
proof (rule ccontr)
  assume n: "\<not> next_edge p t \<le> e"
  hence "e < t + p" using next_edge_less[OF assms(3), of t] by linarith
  hence "e = next_edge p t" using assms(1,2) by (intro next_edge_unique)
  thus False using n by simp
qed

lemma next_edge_aligned [simp]: "0 < p \<Longrightarrow> p dvd t \<Longrightarrow> next_edge p t = t"
  by (rule next_edge_unique[symmetric]) auto

section \<open>The cached edge is the next edge\<close>

definition time_ok :: "sim_env \<Rightarrow> bool" where
  "time_ok env \<longleftrightarrow> 0 < clockPeriod env \<and> unat (curTick env) + unat (clockPeriod env) \<le> 2 ^ 64"

definition clock_ok :: "sim_env \<Rightarrow> clocked \<Rightarrow> bool" where
  "clock_ok env k \<longleftrightarrow>
     unat (clk_cycle k) * unat (clockPeriod env) = unat (clk_tick k) \<and>
     unat (clk_tick k) < unat (curTick env) + unat (clockPeriod env)"

lemma unat_period: "time_ok env \<Longrightarrow> 0 < unat (clockPeriod env)"
  by (simp add: time_ok_def word_less_nat_alt)

lemma divCeil_ok:
  assumes "0 < b" "unat a + unat b \<le> 2 ^ 64"
  shows "\<exists>q. divCeil a b = Inr q \<and> unat (q * b) = next_edge (unat b) (unat a) \<and>
             unat q * unat b = next_edge (unat b) (unat a)"
proof -
  have b0: "0 < unat b" using assms(1) by (simp add: word_less_nat_alt)
  have "unat (a + (b - 1)) = unat a + unat (b - 1)"
    using assms b0 by (intro unat_add_lem[THEN iffD1]) (simp add: unat_minus_one)
  hence s: "unat (a + b - 1) = unat a + unat b - 1"
    using assms(1) b0 by (simp add: unat_minus_one add_diff_eq)
  have q: "unat ((a + b - 1) div b) * unat b = next_edge (unat b) (unat a)"
    by (simp add: unat_div s next_edge_def)
  moreover have "next_edge (unat b) (unat a) < 2 ^ 64"
    using next_edge_less[OF b0, of "unat a"] assms(2) by linarith
  ultimately have "unat ((a + b - 1) div b * b) = next_edge (unat b) (unat a)"
    by (simp add: unat_word_ariths(2))
  thus ?thesis using q assms(1) by (simp add: divCeil_def)
qed

definition at_edge :: "sim_env \<Rightarrow> clocked \<Rightarrow> bool" where
  "at_edge env k \<longleftrightarrow>
     unat (clk_tick k) = next_edge (unat (clockPeriod env)) (unat (curTick env)) \<and>
     unat (clk_cycle k) * unat (clockPeriod env) = unat (clk_tick k)"

lemma at_edge_ok: "time_ok env \<Longrightarrow> at_edge env k \<Longrightarrow> clock_ok env k"
  using next_edge_less[OF unat_period, of env] by (simp add: at_edge_def clock_ok_def)

lemma at_edge_ge: "time_ok env \<Longrightarrow> at_edge env k \<Longrightarrow> curTick env \<le> clk_tick k"
  using next_edge_ge[OF unat_period, of env] by (simp add: at_edge_def word_le_nat_alt)

lemma at_edgeI:
  assumes "unat c * unat (clockPeriod env) = unat t"
    "unat (curTick env) \<le> unat t" "unat t < unat (curTick env) + unat (clockPeriod env)"
  shows "at_edge env \<lparr>clk_tick = t, clk_cycle = c\<rparr>"
proof -
  have "unat (clockPeriod env) dvd unat t" using assms(1) by (metis dvd_triv_right)
  thus ?thesis using assms next_edge_unique by (simp add: at_edge_def)
qed

lemma unat_advance:
  fixes t q p c :: "64 word"
  assumes "unat t + unat q * unat p < 2 ^ 64" "unat c * unat p = unat t" "0 < unat p"
  shows "unat (t + q * p) = unat t + unat q * unat p"
    "unat (c + q) * unat p = unat t + unat q * unat p"
proof -
  have qp: "unat (q * p) = unat q * unat p"
    using assms(1) by (simp add: unat_word_ariths(2))
  thus "unat (t + q * p) = unat t + unat q * unat p"
    using assms(1) by (simp add: unat_word_ariths(1))
  have e: "(unat c + unat q) * unat p = unat t + unat q * unat p"
    using assms(2) by (simp add: distrib_right)
  have "(unat c + unat q) * 1 \<le> (unat c + unat q) * unat p"
    using assms(3) by (intro mult_le_mono2) simp
  hence "unat c + unat q \<le> unat t + unat q * unat p" by (simp only: e mult_1_right)
  hence "unat c + unat q < 2 ^ 64" by (rule le_less_trans) (rule assms(1))
  thus "unat (c + q) * unat p = unat t + unat q * unat p"
    using e by (simp add: unat_word_ariths(1))
qed

lemma clk_update_ok:
  assumes T: "time_ok env" and K: "clock_ok env k"
  shows "\<exists>k'. clk_update env k = Inr k' \<and> at_edge env k'"
proof (cases "curTick env \<le> clk_tick k")
  case True
  hence "at_edge env \<lparr>clk_tick = clk_tick k, clk_cycle = clk_cycle k\<rparr>"
    using K by (intro at_edgeI) (auto simp: clock_ok_def word_le_nat_alt)
  thus ?thesis using True by (cases k) (simp add: clk_update_def)
next
  case False
  let ?p = "clockPeriod env" and ?c = "curTick env"
  have p: "0 < unat ?p" "unat ?c + unat ?p \<le> 2 ^ 64"
    using T unat_period by (auto simp: time_ok_def)
  have lt: "unat (clk_tick k) < unat ?c" using False by (simp add: word_le_nat_alt)
  have cyc: "unat (clk_cycle k) * unat ?p = unat (clk_tick k)" using K by (simp add: clock_ok_def)
  define t where "t = clk_tick k + ?p"
  define y where "y = clk_cycle k + 1"
  have "unat (clk_tick k) + unat (1 :: 64 word) * unat ?p < 2 ^ 64" using lt p(2) by simp
  from unat_advance[OF this cyc p(1)]
  have t: "unat t = unat (clk_tick k) + unat ?p" "unat y * unat ?p = unat t"
    unfolding t_def y_def by simp_all
  show ?thesis
  proof (cases "?c \<le> t")
    case True
    hence "at_edge env \<lparr>clk_tick = t, clk_cycle = y\<rparr>"
      using t lt by (intro at_edgeI) (auto simp: word_le_nat_alt)
    thus ?thesis using False True by (cases k) (simp add: clk_update_def t_def y_def)
  next
    case F2: False
    hence lt2: "unat t < unat ?c" by (simp add: word_le_nat_alt)
    hence d: "unat (?c - t) = unat ?c - unat t" using F2 by (simp add: unat_sub_if')
    have "0 < ?p" using p(1) by (simp add: word_less_nat_alt)
    moreover have "unat (?c - t) + unat ?p \<le> 2 ^ 64" using d p(2) by linarith
    ultimately obtain q where q: "divCeil (?c - t) ?p = Inr q"
      "unat q * unat ?p = next_edge (unat ?p) (unat (?c - t))"
      using divCeil_ok by blast
    note b = next_edge_ge[OF p(1), of "unat (?c - t)"] next_edge_less[OF p(1), of "unat (?c - t)"]
    have "unat t + unat q * unat ?p < 2 ^ 64" using q(2) b d lt2 p(2) by linarith
    from unat_advance[OF this t(2) p(1)] q(2) b d lt2
    have "at_edge env \<lparr>clk_tick = t + q * ?p, clk_cycle = y + q\<rparr>"
      by (intro at_edgeI) linarith+
    thus ?thesis using False F2 q(1) by (cases k) (simp add: clk_update_def t_def y_def)
  qed
qed

lemma clockEdge_ok:
  assumes "time_ok env" "clock_ok env k"
  shows "\<exists>k'. clockEdge env cyc k = Inr (clk_tick k' + clockPeriod env * cyc, k') \<and> at_edge env k'"
  using clk_update_ok[OF assms] by (auto simp: clockEdge_def)

section \<open>No wakeup is lost\<close>

text \<open>
  \<open>waking_ok\<close> is what holds while \<^verbatim>\<open>wakeup()\<close> runs (the event may have to be scheduled again),
  \<open>consumer_ok\<close> what holds between two events: the event stands in the queue for the first tick
  of the set.
\<close>

definition waking_ok :: "sim_env \<Rightarrow> consumer \<Rightarrow> bool" where
  "waking_ok env c \<longleftrightarrow> clock_ok env (em c) \<and>
     sorted (m_wakeup_ticks c) \<and> distinct (m_wakeup_ticks c) \<and>
     (\<forall>t \<in> set (m_wakeup_ticks c). curTick env \<le> t \<and> unat (clockPeriod env) dvd unat t) \<and>
     (\<forall>w. m_wakeup_event c = Some w \<longrightarrow> w \<in> set (m_wakeup_ticks c))"

definition consumer_ok :: "sim_env \<Rightarrow> consumer \<Rightarrow> bool" where
  "consumer_ok env c \<longleftrightarrow> waking_ok env c \<and>
     m_wakeup_event c = (case m_wakeup_ticks c of [] \<Rightarrow> None | t # _ \<Rightarrow> Some t)"

lemma consumer_ok_new [invar_intros]: "clock_ok env k \<Longrightarrow> consumer_ok env (Consumer_new k)"
  by (simp add: consumer_ok_def waking_ok_def Consumer_new_def)

lemma consumer_ok_waking: "consumer_ok env c \<Longrightarrow> waking_ok env c"
  by (simp add: consumer_ok_def)

lemma tick_after_edge:
  assumes "time_ok env" "at_edge env k" "curTick env \<le> t" "unat (clockPeriod env) dvd unat t"
  shows "clk_tick k \<le> t"
  using assms next_edge_least[OF assms(4) _ unat_period[OF assms(1)], of "unat (curTick env)"]
  by (simp add: at_edge_def word_le_nat_alt)

lemma dropWhile_none: "\<forall>x \<in> set xs. \<not> P x \<Longrightarrow> dropWhile P xs = xs"
  by (cases xs) auto

lemma scheduleNextWakeup_ok:
  assumes T: "time_ok env" and W: "waking_ok env c"
  shows "\<exists>c'. scheduleNextWakeup env c = Inr c' \<and> consumer_ok env c' \<and>
              m_wakeup_ticks c' = m_wakeup_ticks c"
proof -
  have "clock_ok env (em c)" using W by (simp add: waking_ok_def)
  from clockEdge_ok[OF T this, of 0]
  obtain k where k: "clockEdge env 0 (em c) = Inr (clk_tick k, k)" "at_edge env k" by auto
  let ?ts = "m_wakeup_ticks c"
  have ge: "clk_tick k \<le> t" "curTick env \<le> t" if "t \<in> set ?ts" for t
    using W that tick_after_edge[OF T k(2), of t] by (auto simp: waking_ok_def)
  hence dw: "dropWhile (\<lambda>t. t < clk_tick k) ?ts = ?ts" by (intro dropWhile_none) (auto simp: not_less)
  have K: "clock_ok env k" by (rule at_edge_ok[OF T k(2)])
  have W': "waking_ok env (c\<lparr>em := k\<rparr>)" using W K by (simp add: waking_ok_def)
  show ?thesis
  proof (cases ?ts)
    case Nil
    hence "m_wakeup_event c = None" using W by (cases "m_wakeup_event c") (auto simp: waking_ok_def)
    thus ?thesis using k(1) Nil W' by (simp add: scheduleNextWakeup_def consumer_ok_def)
  next
    case (Cons w ws)
    have w: "clk_tick k \<le> w" "curTick env \<le> w" using ge[of w] Cons by simp_all
    have dw': "dropWhile (\<lambda>t. t < clk_tick k) (w # ws) = w # ws" using dw Cons by simp
    let ?c = "c\<lparr>em := k, m_wakeup_event := Some w\<rparr>"
    have ok: "consumer_ok env ?c"
      using W' Cons by (simp add: consumer_ok_def waking_ok_def)
    have "scheduleNextWakeup env c = Inr ?c"
    proof (cases "m_wakeup_event c")
      case None
      thus ?thesis using k(1) dw' Cons w by (simp add: scheduleNextWakeup_def schedule_def)
    next
      case (Some e)
      hence "w \<le> e" using W Cons by (auto simp: waking_ok_def)
      hence "w < e \<or> e = w" by auto
      thus ?thesis
        using k(1) dw' Cons w Some by (auto simp: scheduleNextWakeup_def reschedule_def)
    qed
    thus ?thesis using ok by auto
  qed
qed

lemma waking_ok_insert:
  assumes "waking_ok env c" "curTick env \<le> t" "unat (clockPeriod env) dvd unat t" "clock_ok env k"
  shows "waking_ok env (c\<lparr>em := k, m_wakeup_ticks := insort_insert t (m_wakeup_ticks c)\<rparr>)"
  using assms by (auto simp: waking_ok_def sorted_insort_insert distinct_insort_insert
      set_insort_insert)

text \<open>The two ways to ask for a wakeup, and the tick each asks for.\<close>

datatype request = After cycles | At tick

fun make_request :: "sim_env \<Rightarrow> request \<Rightarrow> consumer \<Rightarrow> consumer res" where
  "make_request env (After d) c = scheduleEvent env d c"
| "make_request env (At t) c = scheduleEventAbsolute env t c"

fun request_tick :: "sim_env \<Rightarrow> request \<Rightarrow> nat" where
  "request_tick env (After d) =
     next_edge (unat (clockPeriod env)) (unat (curTick env)) + unat (clockPeriod env) * unat d"
| "request_tick env (At t) = next_edge (unat (clockPeriod env)) (unat t)"

fun request_ok :: "sim_env \<Rightarrow> request \<Rightarrow> bool" where
  "request_ok env (After d) \<longleftrightarrow> request_tick env (After d) < 2 ^ 64"
| "request_ok env (At t) \<longleftrightarrow> curTick env \<le> t \<and> unat t + unat (clockPeriod env) \<le> 2 ^ 64"

definition requested :: "sim_env \<Rightarrow> request \<Rightarrow> tick" where
  "requested env r = of_nat (request_tick env r)"

lemma scheduleEvent_ok:
  assumes T: "time_ok env" and W: "waking_ok env c" and R: "request_ok env (After d)"
  shows "\<exists>c'. scheduleEvent env d c = Inr c' \<and> consumer_ok env c' \<and>
           set (m_wakeup_ticks c') = insert (requested env (After d)) (set (m_wakeup_ticks c))"
proof -
  have "clock_ok env (em c)" using W by (simp add: waking_ok_def)
  from clockEdge_ok[OF T this, of d] obtain k where
    k: "clockEdge env d (em c) = Inr (clk_tick k + clockPeriod env * d, k)" "at_edge env k" by blast
  let ?t = "clk_tick k + clockPeriod env * d"
  have "unat (clk_tick k) + unat (clockPeriod env) * unat d < 2 ^ 64"
    using R k(2) by (simp add: at_edge_def)
  hence t: "unat ?t = request_tick env (After d)"
    using k(2) by (simp add: at_edge_def unat_word_ariths)
  have dv: "unat (clockPeriod env) dvd unat ?t" unfolding t by (simp add: dvd_add)
  have "unat (clk_tick k) \<le> unat ?t" using t k(2) by (simp add: at_edge_def)
  hence "curTick env \<le> ?t" using at_edge_ge[OF T k(2)] by (simp add: word_le_nat_alt)
  from waking_ok_insert[OF W this dv at_edge_ok[OF T k(2)]]
  have "waking_ok env (c\<lparr>em := k, m_wakeup_ticks := insort_insert ?t (m_wakeup_ticks c)\<rparr>)" .
  moreover have "?t = requested env (After d)"
    unfolding requested_def t[symmetric] by simp
  ultimately show ?thesis
    using scheduleNextWakeup_ok[OF T] k(1) by (fastforce simp: scheduleEvent_def set_insort_insert)
qed

lemma scheduleEventAbsolute_ok:
  assumes T: "time_ok env" and W: "waking_ok env c" and R: "request_ok env (At t)"
  shows "\<exists>c'. scheduleEventAbsolute env t c = Inr c' \<and> consumer_ok env c' \<and>
           set (m_wakeup_ticks c') = insert (requested env (At t)) (set (m_wakeup_ticks c))"
proof -
  let ?p = "clockPeriod env"
  have p: "0 < ?p" "0 < unat ?p" using T unat_period by (auto simp: time_ok_def)
  have R': "curTick env \<le> t" "unat t + unat ?p \<le> 2 ^ 64" using R by simp_all
  from divCeil_ok[OF p(1) R'(2)] obtain q where
    q: "divCeil t ?p = Inr q" "unat (q * ?p) = next_edge (unat ?p) (unat t)" by blast
  have "curTick env \<le> q * ?p"
    using R'(1) next_edge_ge[OF p(2), of "unat t"] q(2) by (simp add: word_le_nat_alt)
  moreover have "unat ?p dvd unat (q * ?p)" by (simp add: q(2))
  moreover have "clock_ok env (em c)" using W by (simp add: waking_ok_def)
  ultimately have
    "waking_ok env (c\<lparr>em := em c, m_wakeup_ticks := insort_insert (q * ?p) (m_wakeup_ticks c)\<rparr>)"
    by (rule waking_ok_insert[OF W])
  moreover have "q * ?p = requested env (At t)"
    by (simp add: requested_def q(2)[symmetric])
  ultimately show ?thesis
    using scheduleNextWakeup_ok[OF T] q(1)
    by (fastforce simp: scheduleEventAbsolute_def set_insort_insert)
qed

lemma request_ok_run:
  assumes "time_ok env" "waking_ok env c" "request_ok env r"
  shows "\<exists>c'. make_request env r c = Inr c' \<and> consumer_ok env c' \<and>
           set (m_wakeup_ticks c') = insert (requested env r) (set (m_wakeup_ticks c))"
  using assms scheduleEvent_ok scheduleEventAbsolute_ok by (cases r) simp_all

lemma requests_ok_run:
  assumes "time_ok env" "waking_ok env c" "\<forall>r \<in> set rs. request_ok env r"
  shows "\<exists>c'. foldR (make_request env) rs c = Inr c' \<and> waking_ok env c' \<and>
           set (m_wakeup_ticks c') = requested env ` set rs \<union> set (m_wakeup_ticks c)"
  using assms
proof (induction rs arbitrary: c)
  case (Cons r rs)
  then obtain c1 where c1: "make_request env r c = Inr c1" "waking_ok env c1"
    "set (m_wakeup_ticks c1) = insert (requested env r) (set (m_wakeup_ticks c))"
    using request_ok_run[of env c r] consumer_ok_waking by auto
  from Cons.IH[OF Cons.prems(1) c1(2)] Cons.prems(3) obtain c2 where
    "foldR (make_request env) rs c1 = Inr c2" "waking_ok env c2"
    "set (m_wakeup_ticks c2) = requested env ` set rs \<union> set (m_wakeup_ticks c1)" by auto
  thus ?case using c1 by auto
qed simp

lemma clock_ok_later:
  "clock_ok env k \<Longrightarrow> curTick env \<le> t \<Longrightarrow> clock_ok (env\<lparr>curTick := t\<rparr>) k"
  by (simp add: clock_ok_def word_le_nat_alt)

lemma waking_ok_later:
  assumes "waking_ok env c" "curTick env \<le> t" "\<forall>x \<in> set (m_wakeup_ticks c). t \<le> x"
  shows "waking_ok (env\<lparr>curTick := t\<rparr>) c"
  using assms clock_ok_later[of env "em c" t] by (simp add: waking_ok_def)

lemma consumer_ok_later:
  assumes "consumer_ok env c" "curTick env \<le> t" "\<And>w. m_wakeup_event c = Some w \<Longrightarrow> t \<le> w"
  shows "consumer_ok (env\<lparr>curTick := t\<rparr>) c"
proof -
  have "t \<le> x" if "x \<in> set (m_wakeup_ticks c)" for x
    using assms(1,3) that by (cases "m_wakeup_ticks c") (fastforce simp: consumer_ok_def waking_ok_def)+
  thus ?thesis using assms(1,2) waking_ok_later[of env c t] by (simp add: consumer_ok_def)
qed

definition waker :: "request list \<Rightarrow> sim_env \<Rightarrow> consumer \<Rightarrow> consumer res" where
  "waker rs env = foldR (make_request env) rs"

lemma serviceOne_ok:
  assumes C: "consumer_ok env c" and E: "m_wakeup_event c = Some w"
    and T: "time_ok (env\<lparr>curTick := w\<rparr>)"
    and R: "\<forall>r \<in> set rs. request_ok (env\<lparr>curTick := w\<rparr>) r"
  shows "\<exists>c'. serviceOne (waker rs) env c = Inr (env\<lparr>curTick := w\<rparr>, c') \<and>
           consumer_ok (env\<lparr>curTick := w\<rparr>) c' \<and>
           set (m_wakeup_ticks c') =
             requested (env\<lparr>curTick := w\<rparr>) ` set rs \<union> (set (m_wakeup_ticks c) - {w})"
proof -
  let ?e = "env\<lparr>curTick := w\<rparr>"
  obtain ws where ws: "m_wakeup_ticks c = w # ws"
    using C E by (cases "m_wakeup_ticks c") (auto simp: consumer_ok_def)
  have W: "waking_ok env c" and w: "curTick env \<le> w" "unat (clockPeriod env) dvd unat w"
    using C ws by (auto simp: consumer_ok_def waking_ok_def)
  have "clock_ok ?e (em c)" using W w(1) clock_ok_later by (simp add: waking_ok_def)
  from clockEdge_ok[OF T this, of 0] obtain k where
    k: "clockEdge ?e 0 (em c) = Inr (clk_tick k, k)" "at_edge ?e k" by auto
  have "clk_tick k = w" using k(2) w(2) unat_period[OF T]
    by (simp add: at_edge_def word_unat_eq_iff)
  define c1 where "c1 = c\<lparr>m_wakeup_event := None, em := k, m_wakeup_ticks := ws\<rparr>"
  have "waking_ok ?e c1"
    using W ws at_edge_ok[OF T k(2)] by (simp add: waking_ok_def c1_def)
  from requests_ok_run[OF T this R] obtain c2 where
    c2: "waker rs ?e c1 = Inr c2" "waking_ok ?e c2"
    "set (m_wakeup_ticks c2) = requested ?e ` set rs \<union> set ws" by (auto simp: c1_def waker_def)
  from scheduleNextWakeup_ok[OF T c2(2)] obtain c3 where
    c3: "scheduleNextWakeup ?e c2 = Inr c3" "consumer_ok ?e c3"
      "m_wakeup_ticks c3 = m_wakeup_ticks c2" by blast
  have "serviceOne (waker rs) env c = Inr (?e, c3)"
    using E ws k(1) \<open>clk_tick k = w\<close> c2(1) c3(1)
    by (simp add: serviceOne_def processCurrentEvent_def c1_def)
  moreover have "set ws = set (m_wakeup_ticks c) - {w}" using W ws by (auto simp: waking_ok_def)
  ultimately show ?thesis using c2(3) c3(2,3) by simp
qed

text \<open>
  The histories of a consumer.  \<open>A\<close> collects the ticks asked for and \<open>D\<close> the ticks at which
  \<^verbatim>\<open>wakeup()\<close> ran.  Other objects ask at any time; \<^verbatim>\<open>wakeup()\<close> may ask for more; time moves on, but
  the event queue executes events in order, so never past the event of the consumer.
\<close>

inductive consumer_run :: "sim_env \<Rightarrow> consumer \<Rightarrow> tick set \<Rightarrow> tick set \<Rightarrow> bool" where
  start: "time_ok env \<Longrightarrow> consumer_run env (Consumer_new Clocked_new) {} {}"
| ask: "consumer_run env c A D \<Longrightarrow> request_ok env r \<Longrightarrow> make_request env r c = Inr c' \<Longrightarrow>
    consumer_run env c' (insert (requested env r) A) D"
| advance: "consumer_run env c A D \<Longrightarrow> curTick env \<le> t \<Longrightarrow> time_ok (env\<lparr>curTick := t\<rparr>) \<Longrightarrow>
    (\<And>w. m_wakeup_event c = Some w \<Longrightarrow> t \<le> w) \<Longrightarrow> consumer_run (env\<lparr>curTick := t\<rparr>) c A D"
| service: "consumer_run env c A D \<Longrightarrow> m_wakeup_event c = Some w \<Longrightarrow>
    time_ok (env\<lparr>curTick := w\<rparr>) \<Longrightarrow> \<forall>r \<in> set rs. request_ok (env\<lparr>curTick := w\<rparr>) r \<Longrightarrow>
    serviceOne (waker rs) env c = Inr (env', c') \<Longrightarrow>
    consumer_run env' c' (requested env' ` set rs \<union> A) (insert w D)"

lemma consumer_run_inv:
  "consumer_run env c A D \<Longrightarrow>
   time_ok env \<and> consumer_ok env c \<and> A = D \<union> set (m_wakeup_ticks c)"
proof (induction rule: consumer_run.induct)
  case (start env)
  hence "clock_ok env Clocked_new"
    using unat_period by (simp add: clock_ok_def Clocked_new_def)
  from consumer_ok_new[OF this] start show ?case by (simp add: Consumer_new_def)
next
  case (ask env c A D r c')
  hence "waking_ok env c" by (simp add: consumer_ok_waking)
  with ask request_ok_run[of env c r] show ?case by auto
next
  case (advance env c A D t)
  thus ?case using consumer_ok_later[of env c t] by simp
next
  case (service env c A D w rs env' c')
  hence C: "consumer_ok env c" by simp
  from serviceOne_ok[OF C service.hyps(2-4)] service.hyps(5)
  have e: "env' = env\<lparr>curTick := w\<rparr>" and "consumer_ok env' c'"
    and ts: "set (m_wakeup_ticks c') = requested env' ` set rs \<union> (set (m_wakeup_ticks c) - {w})"
    by auto
  moreover have "w \<in> set (m_wakeup_ticks c)"
    using C service.hyps(2) by (auto simp: consumer_ok_def waking_ok_def)
  ultimately show ?case using service.IH service.hyps(3) by auto
qed

lemma consumer_event_first:
  assumes "consumer_ok env c" "t \<in> set (m_wakeup_ticks c)"
  shows "\<exists>w. m_wakeup_event c = Some w \<and> curTick env \<le> w \<and> w \<le> t"
  using assms by (cases "m_wakeup_ticks c") (auto simp: consumer_ok_def waking_ok_def)

text \<open>
  C8. No wakeup of a consumer is lost, whatever its clients ask for and whatever \<^verbatim>\<open>wakeup()\<close> asks
  for itself: after any history, \<^verbatim>\<open>wakeup()\<close> ran only at ticks that were asked for; every tick asked
  for that lies in the past has had its wakeup; for every other one that has not, the event is in the
  queue, at that tick or before; and executing the event succeeds (the assertion on the clock edge
  in \<^verbatim>\<open>processCurrentEvent\<close> holds, as do those of the event queue).
\<close>
theorem no_wakeup_lost:
  assumes "consumer_run env c A D"
  shows "D \<subseteq> A \<and> (\<forall>t \<in> A. t < curTick env \<longrightarrow> t \<in> D) \<and>
    (\<forall>t \<in> A - D. \<exists>w \<le> t. curTick env \<le> w \<and> m_wakeup_event c = Some w) \<and>
    (\<forall>w rs. m_wakeup_event c = Some w \<longrightarrow> time_ok (env\<lparr>curTick := w\<rparr>) \<longrightarrow>
       (\<forall>r \<in> set rs. request_ok (env\<lparr>curTick := w\<rparr>) r) \<longrightarrow>
       (\<exists>c'. serviceOne (waker rs) env c = Inr (env\<lparr>curTick := w\<rparr>, c')))"
proof (intro conjI)
  have inv: "consumer_ok env c" "A = D \<union> set (m_wakeup_ticks c)"
    using consumer_run_inv[OF assms] by simp_all
  show "D \<subseteq> A" using inv(2) by simp
  show later: "\<forall>t \<in> A - D. \<exists>w \<le> t. curTick env \<le> w \<and> m_wakeup_event c = Some w"
    using inv consumer_event_first by fastforce
  show "\<forall>t \<in> A. t < curTick env \<longrightarrow> t \<in> D"
  proof (intro ballI impI)
    fix t assume "t \<in> A" "t < curTick env"
    thus "t \<in> D" using inv consumer_event_first[OF inv(1), of t] by (meson UnE leD order_trans)
  qed
  show "\<forall>w rs. m_wakeup_event c = Some w \<longrightarrow> time_ok (env\<lparr>curTick := w\<rparr>) \<longrightarrow>
       (\<forall>r \<in> set rs. request_ok (env\<lparr>curTick := w\<rparr>) r) \<longrightarrow>
       (\<exists>c'. serviceOne (waker rs) env c = Inr (env\<lparr>curTick := w\<rparr>, c'))"
    using serviceOne_ok[OF inv(1)] by blast
qed

definition demo_env :: "tick \<Rightarrow> sim_env" where
  "demo_env t = \<lparr>curTick = t, clockPeriod = 500\<rparr>"

definition demo_consumer :: consumer where
  "demo_consumer = \<lparr>m_wakeup_ticks = [1500], m_wakeup_event = Some 1500,
     em = \<lparr>clk_tick = 1000, clk_cycle = 2\<rparr>\<rparr>"

lemmas demo_simps = demo_env_def Consumer_new_def Clocked_new_def waker_def scheduleEvent_def
  scheduleEventAbsolute_def scheduleNextWakeup_def schedule_def reschedule_def serviceOne_def
  processCurrentEvent_def clockEdge_def clk_update_def divCeil_def insort_insert_insort

lemma demo_run: "consumer_run (demo_env 1000) demo_consumer {1000, 1500} {1000}"
proof -
  have t: "time_ok (demo_env 0)" "time_ok (demo_env 1000)"
    by (simp_all add: time_ok_def demo_env_def)
  have u: "(demo_env 0)\<lparr>curTick := 1000\<rparr> = demo_env 1000" by (simp add: demo_env_def)
  let ?c = "\<lparr>m_wakeup_ticks = [1000], m_wakeup_event = Some 1000, em = Clocked_new\<rparr>"
  have "make_request (demo_env 0) (At 700) (Consumer_new Clocked_new) = Inr ?c"
    by (simp add: demo_simps)
  moreover have "request_ok (demo_env 0) (At 700)" by (simp add: demo_env_def)
  ultimately have
    "consumer_run (demo_env 0) ?c (insert (requested (demo_env 0) (At 700)) {}) {}"
    by (intro consumer_run.ask[OF consumer_run.start[OF t(1)]])
  moreover have "requested (demo_env 0) (At 700) = 1000"
    by (simp add: requested_def next_edge_def demo_env_def)
  ultimately have r: "consumer_run (demo_env 0) ?c {1000} {}" by simp
  have s: "serviceOne (waker [After 1]) (demo_env 0) ?c = Inr (demo_env 1000, demo_consumer)"
    by (simp add: demo_simps demo_consumer_def)
  have ok: "\<forall>r \<in> set [After 1]. request_ok (demo_env 1000) r"
    by (simp add: demo_env_def next_edge_def)
  have "requested (demo_env 1000) (After 1) = 1500"
    by (simp add: requested_def next_edge_def demo_env_def)
  thus ?thesis
    using consumer_run.service[OF r _ _ _ s, of 1000] t(2) ok by (simp add: u)
qed

theorem no_wakeup_lost_witness:
  "consumer_run (demo_env 1000) demo_consumer {1000, 1500} {1000} \<and>
   (\<exists>w \<le> 1500. curTick (demo_env 1000) \<le> w \<and> m_wakeup_event demo_consumer = Some w)"
  using no_wakeup_lost[OF demo_run] demo_run by auto

end
