(* ===== verification/Msg_Heap.thy ===== *)
theory Msg_Heap
  imports Prelude "HOL-Library.Multiset"
begin

text \<open>
  The binary heap of the C++ standard library, \<^verbatim>\<open>std::push_heap\<close> and \<^verbatim>\<open>std::pop_heap\<close>, as the
  message buffers use it: a vector in which the element at index \<open>i\<close> is at least its parent
  at \<open>(i - 1) / 2\<close> in the order of \<open>key\<close> (the comparison object is \<^verbatim>\<open>std::greater\<close>, so the smallest
  element is in front).  \<open>push_heap\<close> moves the last element up; \<open>pop_heap\<close> moves the front element
  to the end, the hole down to a leaf along the smaller children, and the former last element
  up from there.  The contract \<open>prio_queue\<close> is what the buffers rely on.
\<close>

section \<open>The two algorithms\<close>

function sift_up :: "('a \<Rightarrow> 'k::linorder) \<Rightarrow> 'a list \<Rightarrow> nat \<Rightarrow> 'a \<Rightarrow> 'a list" where
  "sift_up key xs hole v =
     (if 0 < hole \<and> key v < key (xs ! ((hole - 1) div 2))
      then sift_up key (xs[hole := xs ! ((hole - 1) div 2)]) ((hole - 1) div 2) v
      else xs[hole := v])"
  by pat_completeness auto
termination
  by (relation "measure (\<lambda>(_, _, hole, _). hole)") auto

declare sift_up.simps [simp del]

function sift_down :: "('a \<Rightarrow> 'k::linorder) \<Rightarrow> 'a list \<Rightarrow> nat \<Rightarrow> nat \<Rightarrow> 'a list \<times> nat" where
  "sift_down key xs len hole =
     (if hole < (len - 1) div 2 then
        let child = 2 * (hole + 1);
            child = (if key (xs ! (child - 1)) < key (xs ! child) then child - 1 else child)
        in sift_down key (xs[hole := xs ! child]) len child
      else if even len \<and> 2 \<le> len \<and> hole = (len - 2) div 2 then
        (xs[hole := xs ! (2 * hole + 1)], 2 * hole + 1)
      else (xs, hole))"
  by pat_completeness auto
termination
  by (relation "measure (\<lambda>(_, _, len, hole). len - hole)") auto

declare sift_down.simps [simp del]

definition push_heap :: "('a \<Rightarrow> 'k::linorder) \<Rightarrow> 'a list \<Rightarrow> 'a list" where
  "push_heap key xs = (if xs = [] then [] else sift_up key xs (length xs - 1) (last xs))"

definition pop_heap :: "('a \<Rightarrow> 'k::linorder) \<Rightarrow> 'a list \<Rightarrow> 'a list" where
  "pop_heap key xs =
     (if length xs \<le> 1 then xs
      else
        let n = length xs - 1;
            (ys, hole) = sift_down key (xs[n := xs ! 0]) n 0
        in sift_up key ys hole (xs ! n))"

section \<open>Heap order\<close>

definition parent :: "nat \<Rightarrow> nat" where
  "parent i = (i - 1) div 2"

definition heap :: "('a \<Rightarrow> 'k::linorder) \<Rightarrow> nat \<Rightarrow> 'a list \<Rightarrow> bool" where
  "heap key n xs \<longleftrightarrow> (\<forall>i. 0 < i \<and> i < n \<longrightarrow> key (xs ! parent i) \<le> key (xs ! i))"

text \<open>A heap with a hole: the order holds for all edges away from the hole, and the grandchildren
  across the hole are in order.\<close>

definition holed :: "('a \<Rightarrow> 'k::linorder) \<Rightarrow> nat \<Rightarrow> 'a list \<Rightarrow> nat \<Rightarrow> bool" where
  "holed key n xs hole \<longleftrightarrow> hole < n \<and>
     (\<forall>i. 0 < i \<and> i < n \<and> i \<noteq> hole \<and> parent i \<noteq> hole \<longrightarrow> key (xs ! parent i) \<le> key (xs ! i)) \<and>
     (\<forall>i. 0 < i \<and> i < n \<and> parent i = hole \<and> 0 < hole \<longrightarrow> key (xs ! parent hole) \<le> key (xs ! i))"

lemma parent_less: "0 < i \<Longrightarrow> parent i < i"
  by (simp add: parent_def less_mult_imp_div_less)

lemma parent_child: "0 < i \<Longrightarrow> parent i = h \<longleftrightarrow> i = 2 * h + 1 \<or> i = 2 * h + 2"
  unfolding parent_def by presburger

lemma heapD: "heap key n xs \<Longrightarrow> 0 < i \<Longrightarrow> i < n \<Longrightarrow> key (xs ! parent i) \<le> key (xs ! i)"
  by (simp add: heap_def)

lemma heap_front: "heap key n xs \<Longrightarrow> i < n \<Longrightarrow> key (xs ! 0) \<le> key (xs ! i)"
proof (induction i rule: less_induct)
  case (less i)
  show ?case
  proof (cases "i = 0")
    case False
    hence "key (xs ! 0) \<le> key (xs ! parent i)" using less parent_less[of i] by auto
    also have "\<dots> \<le> key (xs ! i)" using less.prems False by (simp add: heapD)
    finally show ?thesis .
  qed simp
qed

lemma mset_move:
  assumes "i < length xs" "j < length xs" "i \<noteq> j"
  shows "mset (xs[i := xs ! j, j := v]) = mset (xs[i := v])"
  using mset_swap[of i "xs[i := v]" j] assms by (simp add: list_update_swap[of j i])

section \<open>Moving up\<close>

lemma sift_up_length [simp]: "length (sift_up key xs hole v) = length xs"
  by (induction key xs hole v rule: sift_up.induct) (subst sift_up.simps, simp)

lemma sift_up_mset:
  "hole < length xs \<Longrightarrow> mset (sift_up key xs hole v) = mset (xs[hole := v])"
proof (induction key xs hole v rule: sift_up.induct)
  case (1 key xs hole v)
  show ?case
  proof (cases "0 < hole \<and> key v < key (xs ! ((hole - 1) div 2))")
    case True
    hence "(hole - 1) div 2 < hole" using parent_less[of hole] by (simp add: parent_def)
    thus ?thesis using 1 True by (subst sift_up.simps) (simp add: mset_move)
  qed (subst sift_up.simps, auto)
qed

lemma sift_up_beyond:
  "hole < n \<Longrightarrow> n \<le> i \<Longrightarrow> sift_up key xs hole v ! i = xs ! i"
proof (induction key xs hole v rule: sift_up.induct)
  case (1 key xs hole v)
  have "(hole - 1) div 2 < n" using 1 by simp
  thus ?case using 1 by (subst sift_up.simps) simp
qed

lemma sift_up_heap:
  "holed key n xs hole \<Longrightarrow> n \<le> length xs \<Longrightarrow>
   (\<forall>i. 0 < i \<and> i < n \<and> parent i = hole \<longrightarrow> key v \<le> key (xs ! i)) \<Longrightarrow> heap key n (sift_up key xs hole v)"
proof (induction key xs hole v rule: sift_up.induct)
  case (1 key xs hole v)
  let ?p = "parent hole"
  have len: "hole < n" "n \<le> length xs" using "1.prems"(1,2) by (simp_all add: holed_def)
  have ord: "key (xs ! parent i) \<le> key (xs ! i)"
    if "0 < i" "i < n" "i \<noteq> hole" "parent i \<noteq> hole" for i
    using "1.prems"(1) that unfolding holed_def by blast
  have across: "key (xs ! ?p) \<le> key (xs ! i)" if "0 < i" "i < n" "parent i = hole" "0 < hole" for i
    using "1.prems"(1) that unfolding holed_def by blast
  have below: "key v \<le> key (xs ! i)" if "0 < i" "i < n" "parent i = hole" for i
    using "1.prems"(3) that by blast
  show ?case
  proof (cases "0 < hole \<and> key v < key (xs ! ?p)")
    case True
    hence pl: "?p < hole" by (simp add: parent_less)
    let ?ys = "xs[hole := xs ! ?p]"
    have at: "?ys ! i = (if i = hole then xs ! ?p else xs ! i)" for i using len by simp
    have up: "key (xs ! parent ?p) \<le> key (xs ! ?p)" if "0 < ?p"
      using ord[OF that] pl parent_less[OF that] len by simp
    have sib: "key (xs ! ?p) \<le> key (xs ! i)" if "0 < i" "i < n" "parent i = ?p" "i \<noteq> hole" for i
      using ord[OF that(1,2,4)] that(3) pl by simp
    have h: "holed key n ?ys ?p" unfolding holed_def
    proof (intro conjI allI impI; (elim conjE)?)
      show "?p < n" using pl len by simp
    next
      fix i assume i: "0 < i" "i < n" "i \<noteq> ?p" "parent i \<noteq> ?p"
      hence "i \<noteq> hole" by auto
      thus "key (?ys ! parent i) \<le> key (?ys ! i)"
        using ord[OF i(1,2)] across[OF i(1,2)] True by (cases "parent i = hole") (simp_all add: at)
    next
      fix i assume i: "0 < i" "i < n" "parent i = ?p" "0 < ?p"
      have "parent ?p \<noteq> hole" using parent_less[OF i(4)] pl by simp
      thus "key (?ys ! parent ?p) \<le> key (?ys ! i)"
        using up[OF i(4)] order_trans[OF up[OF i(4)] sib[OF i(1-3)]] by (cases "i = hole") (simp_all add: at)
    qed
    have "\<forall>i. 0 < i \<and> i < n \<and> parent i = ?p \<longrightarrow> key v \<le> key (?ys ! i)"
    proof (intro allI impI, elim conjE)
      fix i assume i: "0 < i" "i < n" "parent i = ?p"
      show "key v \<le> key (?ys ! i)"
        using True less_le_trans[of "key v" "key (xs ! ?p)" "key (xs ! i)"] sib[OF i]
        by (cases "i = hole") (simp_all add: at less_imp_le)
    qed
    with h have "heap key n (sift_up key ?ys ?p v)"
      using "1.IH"[folded parent_def, OF True] len by simp
    thus ?thesis using True by (subst sift_up.simps) (simp add: parent_def)
  next
    case False
    have "heap key n (xs[hole := v])" unfolding heap_def
    proof (intro allI impI, elim conjE)
      fix i assume i: "0 < i" "i < n"
      have l: "hole < length xs" using len by simp
      consider "i = hole" | "parent i = hole" "i \<noteq> hole" | "i \<noteq> hole" "parent i \<noteq> hole" by blast
      thus "key (xs[hole := v] ! parent i) \<le> key (xs[hole := v] ! i)"
      proof cases
        case 1
        thus ?thesis using False i parent_less[OF i(1)] l by (simp add: not_less)
      next
        case 2
        thus ?thesis using below[OF i] l by simp
      next
        case 3
        thus ?thesis using ord[OF i] l by simp
      qed
    qed
    thus ?thesis using False by (subst sift_up.simps) (auto simp: parent_def)
  qed
qed

section \<open>Moving down\<close>

lemma holed_down:
  assumes "holed key n xs hole" "n \<le> length xs" "0 < c" "c < n" "parent c = hole"
    and min: "\<And>i. 0 < i \<Longrightarrow> i < n \<Longrightarrow> parent i = hole \<Longrightarrow> key (xs ! c) \<le> key (xs ! i)"
  shows "holed key n (xs[hole := xs ! c]) c"
  unfolding holed_def
proof (intro conjI allI impI; (elim conjE)?)
  have lc: "hole < c" using parent_less[OF assms(3)] assms(5) by simp
  have len: "hole < length xs" using assms(1,2) by (simp add: holed_def)
  have at: "xs[hole := xs ! c] ! i = (if i = hole then xs ! c else xs ! i)" for i using len by simp
  have ord: "key (xs ! parent i) \<le> key (xs ! i)"
    if "0 < i" "i < n" "i \<noteq> hole" "parent i \<noteq> hole" for i
    using assms(1) that unfolding holed_def by blast
  show "c < n" by (rule assms(4))
  {
    fix i assume i: "0 < i" "i < n" "i \<noteq> c" "parent i \<noteq> c"
    consider "i = hole" | "i \<noteq> hole" "parent i = hole" | "i \<noteq> hole" "parent i \<noteq> hole" by blast
    thus "key (xs[hole := xs ! c] ! parent i) \<le> key (xs[hole := xs ! c] ! i)"
    proof cases
      case 1
      hence "key (xs ! parent hole) \<le> key (xs ! c)"
        using assms(1,3-5) i(1) unfolding holed_def by blast
      thus ?thesis using 1 parent_less[OF i(1)] by (simp add: at)
    next
      case 2
      thus ?thesis using min[OF i(1,2)] by (simp add: at)
    next
      case 3
      thus ?thesis using ord[OF i(1,2)] by (simp add: at)
    qed
  }
  fix i assume i: "0 < i" "i < n" "parent i = c"
  have "i \<noteq> hole" using parent_less[OF i(1)] i(3) lc by simp
  thus "key (xs[hole := xs ! c] ! parent c) \<le> key (xs[hole := xs ! c] ! i)"
    using ord[OF i(1,2)] i(3) lc assms(5) by (simp add: at)
qed

definition down_ok :: "('a \<Rightarrow> 'k::linorder) \<Rightarrow> nat \<Rightarrow> 'a list \<Rightarrow> nat \<Rightarrow> 'a list \<Rightarrow> nat \<Rightarrow> bool" where
  "down_ok key n xs hole ys h \<longleftrightarrow> holed key n ys h \<and> length ys = length xs
     \<and> (\<forall>i. 0 < i \<and> i < n \<longrightarrow> parent i \<noteq> h) \<and> (\<forall>i \<ge> n. ys ! i = xs ! i)
     \<and> (\<forall>v. mset (ys[h := v]) = mset (xs[hole := v]))"

lemma down_ok_step:
  assumes "down_ok key n (xs[hole := xs ! c]) c ys h" "hole < n" "c < n" "n \<le> length xs" "hole \<noteq> c"
  shows "down_ok key n xs hole ys h"
  using assms mset_move[of hole xs c] by (simp add: down_ok_def)

lemma sift_down_ok:
  "sift_down key xs n hole = (ys, h) \<Longrightarrow> holed key n xs hole \<Longrightarrow> n \<le> length xs \<Longrightarrow>
   down_ok key n xs hole ys h"
proof (induction key xs n hole rule: sift_down.induct)
  case (1 key xs n hole)
  have hn: "hole < n" using "1.prems"(2) by (simp add: holed_def)
  show ?case
  proof (cases "hole < (n - 1) div 2")
    case True
    define c where "c = (if key (xs ! (2 * (hole + 1) - 1)) < key (xs ! (2 * (hole + 1))) then 2 * (hole + 1) - 1
        else 2 * (hole + 1))"
    have c: "c = 2 * hole + 1 \<or> c = 2 * hole + 2" "key (xs ! c) \<le> key (xs ! (2 * hole + 1))"
      "key (xs ! c) \<le> key (xs ! (2 * hole + 2))"
      by (auto simp: c_def not_less)
    have cn: "0 < c" "c < n" "parent c = hole" "hole \<noteq> c" using c(1) True by (auto simp: parent_def)
    have "key (xs ! c) \<le> key (xs ! i)" if "0 < i" "parent i = hole" for i
      using c(2,3) that by (auto simp: parent_child)
    hence "holed key n (xs[hole := xs ! c]) c"
      using holed_down[OF "1.prems"(2,3) cn(1-3)] by blast
    moreover have "sift_down key (xs[hole := xs ! c]) n c = (ys, h)"
      using "1.prems"(1) True unfolding sift_down.simps[of key xs n hole] Let_def c_def[symmetric] by simp
    ultimately have "down_ok key n (xs[hole := xs ! c]) c ys h"
      using "1.IH"(1)[OF True refl, folded c_def, OF refl] "1.prems"(3) by (simp add: c_def)
    thus ?thesis using down_ok_step cn hn "1.prems"(3) by blast
  next
    case False
    show ?thesis
    proof (cases "even n \<and> 2 \<le> n \<and> hole = (n - 2) div 2")
      case True
      let ?c = "2 * hole + 1"
      have cn: "0 < ?c" "?c < n" "parent ?c = hole" "hole \<noteq> ?c" and n: "n = 2 * hole + 2"
        using True by (auto simp: parent_def elim!: evenE)
      have only: "i = ?c" if "0 < i" "i < n" "parent i = hole" for i
        using that n by (auto simp: parent_child)
      have hd: "holed key n (xs[hole := xs ! ?c]) ?c"
        by (rule holed_down[OF "1.prems"(2,3) cn(1-3)]) (use only in auto)
      have e: "ys = xs[hole := xs ! ?c]" "h = ?c"
        using "1.prems"(1) False True by (subst (asm) sift_down.simps, simp)+
      have "\<forall>i. 0 < i \<and> i < n \<longrightarrow> parent i \<noteq> ?c" using n by (auto simp: parent_child)
      hence "down_ok key n (xs[hole := xs ! ?c]) ?c ys h" using hd by (simp add: down_ok_def e)
      thus ?thesis using down_ok_step cn hn "1.prems"(3) by blast
    next
      case no: False
      have e: "ys = xs" "h = hole"
        using "1.prems"(1) False no by (subst (asm) sift_down.simps, auto)+
      have "n \<le> 2 * hole + 1" using False no hn by (cases "even n") (auto elim!: evenE oddE)
      hence "\<forall>i. 0 < i \<and> i < n \<longrightarrow> parent i \<noteq> hole" by (auto simp: parent_child)
      thus ?thesis using "1.prems"(2) by (simp add: down_ok_def e)
    qed
  qed
qed

section \<open>The contract of the standard library\<close>

lemma push_heap_ok:
  assumes "heap key (length xs) xs"
  shows "heap key (length xs + 1) (push_heap key (xs @ [x]))" "mset (push_heap key (xs @ [x])) = mset xs + {#x#}"
    "length (push_heap key (xs @ [x])) = length xs + 1"
proof -
  let ?n = "length xs"
  have leaf: False if "0 < i" "i < ?n + 1" "parent i = ?n" for i using parent_less[OF that(1)] that by simp
  have "holed key (?n + 1) (xs @ [x]) ?n" unfolding holed_def
  proof (intro conjI allI impI; (elim conjE)?)
    fix i assume i: "0 < i" "i < ?n + 1" "i \<noteq> ?n" "parent i \<noteq> ?n"
    thus "key ((xs @ [x]) ! parent i) \<le> key ((xs @ [x]) ! i)"
      using heapD[OF assms i(1)] parent_less[OF i(1)] by (simp add: nth_append)
  next
    fix i assume "0 < i" "i < ?n + 1" "parent i = ?n"
    hence False by (rule leaf)
    thus "key ((xs @ [x]) ! parent ?n) \<le> key ((xs @ [x]) ! i)" ..
  qed simp
  moreover have "\<forall>i. 0 < i \<and> i < ?n + 1 \<and> parent i = ?n \<longrightarrow> key x \<le> key ((xs @ [x]) ! i)"
    using leaf by blast
  ultimately show "heap key (?n + 1) (push_heap key (xs @ [x]))"
    using sift_up_heap[of key "?n + 1" "xs @ [x]" ?n x] by (simp add: push_heap_def)
  show "mset (push_heap key (xs @ [x])) = mset xs + {#x#}"
    by (simp add: push_heap_def sift_up_mset)
  show "length (push_heap key (xs @ [x])) = ?n + 1" by (simp add: push_heap_def)
qed

lemma heap_butlast:
  assumes "heap key n xs" "length xs = n + 1"
  shows "heap key n (butlast xs)"
  unfolding heap_def
proof (intro allI impI, elim conjE)
  fix i assume i: "0 < i" "i < n"
  hence "parent i < n" using parent_less[OF i(1)] by simp
  thus "key (butlast xs ! parent i) \<le> key (butlast xs ! i)"
    using heapD[OF assms(1) i] i assms(2) by (simp add: nth_butlast)
qed

lemma pop_heap_ok:
  assumes "heap key (length xs) xs" "xs \<noteq> []"
  shows "heap key (length xs - 1) (butlast (pop_heap key xs))"
    "mset (butlast (pop_heap key xs)) = mset xs - {#xs ! 0#}" "length (pop_heap key xs) = length xs"
    "last (pop_heap key xs) = xs ! 0"
proof -
  have all: "heap key (length xs - 1) (butlast (pop_heap key xs)) \<and> length (pop_heap key xs) = length xs
    \<and> mset (pop_heap key xs) = mset xs \<and> last (pop_heap key xs) = xs ! 0"
  proof (cases "length xs \<le> 1")
    case True
    then obtain x where "xs = [x]" using assms(2) by (cases xs) auto
    thus ?thesis by (simp add: pop_heap_def heap_def)
  next
    case False
    define n where "n = length xs - 1"
    have n: "length xs = n + 1" "0 < n" using False by (auto simp: n_def)
    define zs where "zs = xs[n := xs ! 0]"
    obtain ys h where d: "sift_down key zs n 0 = (ys, h)" by (cases "sift_down key zs n 0")
    have "holed key n zs 0" unfolding holed_def
    proof (intro conjI allI impI; (elim conjE)?)
      fix i assume i: "0 < i" "i < n"
      hence "parent i \<noteq> n" "i \<noteq> n" using parent_less[OF i(1)] by simp_all
      thus "key (zs ! parent i) \<le> key (zs ! i)" using heapD[OF assms(1) i(1)] i(2) n by (simp add: zs_def)
    qed (use n in auto)
    from sift_down_ok[OF d this] have ok: "down_ok key n zs 0 ys h" by (simp add: zs_def n)
    have hn: "h < n" using ok by (simp add: down_ok_def holed_def)
    have p: "pop_heap key xs = sift_up key ys h (xs ! n)"
      using d n unfolding pop_heap_def Let_def n_def[symmetric] zs_def[symmetric] by simp
    have len: "length (pop_heap key xs) = n + 1" using ok by (simp add: p down_ok_def zs_def n)
    have "mset (pop_heap key xs) = mset (zs[0 := xs ! n])"
      using ok hn by (simp add: p sift_up_mset down_ok_def zs_def n)
    also have "\<dots> = mset xs"
      using mset_swap[of 0 xs n] n assms(2) by (simp add: zs_def)
    finally have ms: "mset (pop_heap key xs) = mset xs" .
    have "heap key n (pop_heap key xs)" unfolding p
      using ok by (intro sift_up_heap) (auto simp: down_ok_def zs_def n)
    hence h: "heap key n (butlast (pop_heap key xs))" using len by (rule heap_butlast)
    have "pop_heap key xs \<noteq> []" using len by auto
    hence "last (pop_heap key xs) = pop_heap key xs ! n" using len by (simp add: last_conv_nth)
    also have "\<dots> = ys ! n" unfolding p by (rule sift_up_beyond[OF hn order_refl])
    also have "\<dots> = xs ! 0" using ok n by (simp add: down_ok_def zs_def)
    finally have l: "last (pop_heap key xs) = xs ! 0" .
    have "length xs - 1 = n" using n by simp
    with h len ms l n(1) show ?thesis by (simp only: simp_thms)
  qed
  thus "heap key (length xs - 1) (butlast (pop_heap key xs))" "length (pop_heap key xs) = length xs"
    "last (pop_heap key xs) = xs ! 0" by auto
  have "pop_heap key xs \<noteq> []" using all assms(2) by auto
  from append_butlast_last_id[OF this]
  have "mset (pop_heap key xs) = mset (butlast (pop_heap key xs)) + {#last (pop_heap key xs)#}"
    using mset_append[of "butlast (pop_heap key xs)" "[last (pop_heap key xs)]"] by simp
  thus "mset (butlast (pop_heap key xs)) = mset xs - {#xs ! 0#}" using all by simp
qed

text \<open>\<open>in_order key M l\<close>: \<open>l\<close> lists the elements of \<open>M\<close> by increasing, pairwise different keys.\<close>

definition in_order :: "('a \<Rightarrow> 'k::linorder) \<Rightarrow> 'a multiset \<Rightarrow> 'a list \<Rightarrow> bool" where
  "in_order key M l \<longleftrightarrow> mset l = M \<and> sorted_wrt (<) (map key l)"

locale prio_queue =
  fixes push :: "'a \<Rightarrow> 'q \<Rightarrow> 'q" and pop :: "'q \<Rightarrow> 'q" and front :: "'q \<Rightarrow> 'a"
    and items :: "'q \<Rightarrow> 'a multiset" and ok :: "'q \<Rightarrow> bool" and key :: "'a \<Rightarrow> 'k::linorder"
  assumes push_ok: "ok q \<Longrightarrow> ok (push x q)"
    and items_push: "ok q \<Longrightarrow> items (push x q) = items q + {#x#}"
    and pop_ok: "ok q \<Longrightarrow> items q \<noteq> {#} \<Longrightarrow> ok (pop q)"
    and items_pop: "ok q \<Longrightarrow> items q \<noteq> {#} \<Longrightarrow> items (pop q) = items q - {#front q#}"
    and front_in: "ok q \<Longrightarrow> items q \<noteq> {#} \<Longrightarrow> front q \<in># items q"
    and front_least: "ok q \<Longrightarrow> x \<in># items q \<Longrightarrow> key (front q) \<le> key x"
begin

lemma size_push: "ok q \<Longrightarrow> size (items (push x q)) = size (items q) + 1"
  by (simp add: items_push)

lemma size_pop: "ok q \<Longrightarrow> items q \<noteq> {#} \<Longrightarrow> size (items (pop q)) + 1 = size (items q)"
  using front_in[of q] by (simp add: items_pop size_Diff_singleton nonempty_has_size)

lemma front_order:
  assumes "ok q" "in_order key (items q) (m # l)"
  shows "front q = m \<and> in_order key (items (pop q)) l"
proof -
  have q: "items q = add_mset m (mset l)" and lt: "\<And>y. y \<in> set l \<Longrightarrow> key m < key y"
    using assms(2) by (auto simp: in_order_def)
  have "front q \<in># items q" by (rule front_in[OF assms(1)]) (simp add: q)
  hence f: "front q = m \<or> front q \<in> set l" by (simp add: q)
  have "key (front q) \<le> key m" by (rule front_least[OF assms(1)]) (simp add: q)
  hence "front q = m" using f lt[of "front q"] by auto
  thus ?thesis using assms(2) items_pop[OF assms(1)] q by (simp add: in_order_def)
qed

lemma push_order:
  assumes "ok q" "in_order key (items q) l" "\<And>y. y \<in># items q \<Longrightarrow> key y < key x"
  shows "in_order key (items (push x q)) (l @ [x])"
proof -
  have "\<forall>y \<in> set l. key y < key x" using assms(2,3) unfolding in_order_def by (metis set_mset_mset)
  thus ?thesis using assms(2) items_push[OF assms(1), of x] by (simp add: in_order_def sorted_wrt_append)
qed

end

text \<open>The operations as the buffers use them.\<close>

definition heap_push :: "('a \<Rightarrow> 'k::linorder) \<Rightarrow> 'a \<Rightarrow> 'a list \<Rightarrow> 'a list" where
  "heap_push key x xs = push_heap key (xs @ [x])"

definition heap_pop :: "('a \<Rightarrow> 'k::linorder) \<Rightarrow> 'a list \<Rightarrow> 'a list" where
  "heap_pop key xs = butlast (pop_heap key xs)"

interpretation std_heap: prio_queue "heap_push key" "heap_pop key" "\<lambda>xs. xs ! 0" mset
    "\<lambda>xs. heap key (length xs) xs" key for key :: "'a \<Rightarrow> 'k::linorder"
proof unfold_locales
  fix xs :: "'a list" and x
  assume h: "heap key (length xs) xs"
  note p = push_heap_ok[OF h, of x]
  show "heap key (length (heap_push key x xs)) (heap_push key x xs)"
    "mset (heap_push key x xs) = mset xs + {#x#}" using p by (simp_all add: heap_push_def)
  show "key (xs ! 0) \<le> key x" if "x \<in># mset xs"
    using that heap_front[OF h] by (auto simp: in_set_conv_nth)
  assume "mset xs \<noteq> {#}"
  hence ne: "xs \<noteq> []" by simp
  show "heap key (length (heap_pop key xs)) (heap_pop key xs)"
    "mset (heap_pop key xs) = mset xs - {#xs ! 0#}"
    using pop_heap_ok[OF h ne] by (simp_all add: heap_pop_def)
  show "xs ! 0 \<in># mset xs" using ne by simp
qed

end
