(* ===== verification/Message_Buffer.thy ===== *)
theory Message_Buffer
  imports Ruby_Consumer Msg_Heap Gem5_Base "HOL-Library.Product_Lexorder"
begin

text \<open>
  Ruby message buffers (\<^verbatim>\<open>mem/ruby/network/MessageBuffer.hh\<close>, \<^verbatim>\<open>MessageBuffer.cc\<close>) and messages
  (\<^verbatim>\<open>mem/ruby/slicc_interface/Message.hh\<close>).

  \<^item> A message has the members of class \<^verbatim>\<open>Message\<close> and a payload, the members that the generated
    subclasses add.  A buffer holds its messages by value: the shared pointers of the code are
    never null and a message is in one buffer at a time.
  \<^item> The vector \<^verbatim>\<open>m_prio_heap\<close> is a list under the heap operations of theory \<open>Msg_Heap\<close>; the
    stall map, a \<^verbatim>\<open>std::map\<close> that is iterated in the order of its addresses, is the list of its
    entries in that order; the unordered map of deferred messages is a partial map.
  \<^item> Several buffers share a consumer, so its state is passed beside the buffer; \<open>m_consumer\<close>
    says whether the pointer is set.  \<open>m_dequeue_callback\<close> says whether a callback is registered and
    \<open>dequeue\<close> returns whether it is called; the callback acts on other objects.  So does
    \<^verbatim>\<open>storeEventInfo\<close>, which the base class leaves empty.
  \<^item> \<^verbatim>\<open>unsigned int\<close> values are natural numbers with the wrap-around written out where they are added;
    the draws of the random number generator are arguments.
\<close>

section \<open>Messages\<close>

record 'p message =
  m_time :: tick
  m_LastEnqueueTime :: tick
  m_DelayedTicks :: tick
  msg_counter :: "64 word"
  incoming_link :: int
  vnet :: int
  payload :: 'p

text \<open>The constructor leaves the link and the network uninitialised (arguments \<open>lnk\<close>, \<open>net\<close>).\<close>

definition Message_new :: "int \<Rightarrow> int \<Rightarrow> 'p \<Rightarrow> tick \<Rightarrow> 'p message" where
  "Message_new lnk net p curTime =
     \<lparr>m_time = curTime, m_LastEnqueueTime = curTime, m_DelayedTicks = 0, msg_counter = 0,
      incoming_link = lnk, vnet = net, payload = p\<rparr>"

definition updateDelayedTicks :: "tick \<Rightarrow> 'p message \<Rightarrow> 'p message res" where
  "updateDelayedTicks curTime m = assertR (m_LastEnqueueTime m \<le> curTime)
     (Inr (m\<lparr>m_DelayedTicks := m_DelayedTicks m + (curTime - m_LastEnqueueTime m)\<rparr>))"

definition msg_greater :: "'p message \<Rightarrow> 'p message \<Rightarrow> bool" where
  "msg_greater l r \<longleftrightarrow>
     (if m_LastEnqueueTime l = m_LastEnqueueTime r then msg_counter l > msg_counter r
      else m_LastEnqueueTime l > m_LastEnqueueTime r)"

definition msg_key :: "'p message \<Rightarrow> tick \<times> 64 word" where
  "msg_key m = (m_LastEnqueueTime m, msg_counter m)"

lemma msg_greater_key: "msg_greater l r \<longleftrightarrow> msg_key r < msg_key l"
  by (auto simp: msg_greater_def msg_key_def less_prod_def)

section \<open>The buffer\<close>

datatype MessageRandomization = rnd_disabled | rnd_enabled | rnd_ruby_system

record ruby_env =
  rs_sim :: sim_env
  rs_randomization :: bool
  rs_warmup_enabled :: bool

record 'p MessageBuffer =
  m_consumer :: bool
  m_prio_heap :: "'p message list"
  m_dequeue_callback :: bool
  m_stall_msg_map :: "(addr \<times> 'p message list) list"
  m_deferred_msg_map :: "addr \<rightharpoonup> 'p message list"
  m_stall_map_size :: int
  m_max_size :: nat
  m_max_dequeue_rate :: nat
  m_dequeues_this_cy :: nat
  m_time_last_time_size_checked :: tick
  m_size_last_time_size_checked :: nat
  m_time_last_time_enqueue :: tick
  m_time_last_time_pop :: tick
  m_last_arrival_time :: tick
  m_size_at_cycle_start :: nat
  m_stalled_at_cycle_start :: nat
  m_msgs_this_cycle :: nat
  m_msg_counter :: "64 word"
  m_priority_rank :: int
  m_last_message_strict_fifo_bypassed :: bool
  m_strict_fifo :: bool
  m_randomization :: MessageRandomization
  m_allow_zero_latency :: bool
  m_routing_priority :: int
  m_input_link_id :: int
  m_vnet_id :: int
  m_not_avail_count :: nat
  m_msg_count :: nat
  m_buf_msgs :: int
  m_stall_time :: nat
  m_stall_count :: nat

type_synonym 'p buf_state = "'p MessageBuffer \<times> consumer"

definition MessageBuffer_new ::
    "bool \<Rightarrow> nat \<Rightarrow> MessageRandomization \<Rightarrow> bool \<Rightarrow> nat \<Rightarrow> int \<Rightarrow> 'p MessageBuffer" where
  "MessageBuffer_new ordered buffer_size randomization allow_zero_latency max_dequeue_rate
       routing_priority =
     \<lparr>m_consumer = False, m_prio_heap = [], m_dequeue_callback = False, m_stall_msg_map = [],
      m_deferred_msg_map = Map.empty, m_stall_map_size = 0, m_max_size = buffer_size,
      m_max_dequeue_rate = max_dequeue_rate, m_dequeues_this_cy = 0,
      m_time_last_time_size_checked = 0, m_size_last_time_size_checked = 0,
      m_time_last_time_enqueue = 0, m_time_last_time_pop = 0, m_last_arrival_time = 0,
      m_size_at_cycle_start = 0, m_stalled_at_cycle_start = 0, m_msgs_this_cycle = 0,
      m_msg_counter = 0, m_priority_rank = 0, m_last_message_strict_fifo_bypassed = False,
      m_strict_fifo = ordered, m_randomization = randomization,
      m_allow_zero_latency = allow_zero_latency, m_routing_priority = routing_priority,
      m_input_link_id = 0, m_vnet_id = 0, m_not_avail_count = 0, m_msg_count = 0,
      m_buf_msgs = 0, m_stall_time = 0, m_stall_count = 0\<rparr>"

definition uint32 :: "nat \<Rightarrow> nat" where
  "uint32 n = n mod 2 ^ 32"

definition getSize :: "tick \<Rightarrow> 'p MessageBuffer \<Rightarrow> nat \<times> 'p MessageBuffer" where
  "getSize curTime b =
     (let b = (if m_time_last_time_size_checked b \<noteq> curTime
               then b\<lparr>m_time_last_time_size_checked := curTime,
                      m_size_last_time_size_checked := uint32 (length (m_prio_heap b))\<rparr>
               else b)
      in (m_size_last_time_size_checked b, b))"

definition visible_size :: "tick \<Rightarrow> 'p MessageBuffer \<Rightarrow> nat \<times> nat" where
  "visible_size current_time b =
     (if m_time_last_time_pop b < current_time
      then (uint32 (length (m_prio_heap b)), nat (m_stall_map_size b mod 2 ^ 32))
      else (if m_time_last_time_enqueue b < current_time then m_size_at_cycle_start b
            else uint32 (m_size_at_cycle_start b + m_msgs_this_cycle b),
            m_stalled_at_cycle_start b))"

definition areNSlotsAvailable :: "nat \<Rightarrow> tick \<Rightarrow> 'p MessageBuffer \<Rightarrow> bool \<times> 'p MessageBuffer" where
  "areNSlotsAvailable n current_time b =
     (if m_max_size b = 0 then (True, b)
      else case visible_size current_time b of (current_size, current_stall_size) \<Rightarrow>
        if uint32 (current_size + current_stall_size + n) \<le> m_max_size b then (True, b)
        else (False, b\<lparr>m_not_avail_count := m_not_avail_count b + 1\<rparr>))"

definition peek :: "'p MessageBuffer \<Rightarrow> 'p message res" where
  "peek b = (case m_prio_heap b of [] \<Rightarrow> Inl Undefined | m # _ \<Rightarrow> Inr m)"

text \<open>The draws are those of \<^verbatim>\<open>random(0, 3)\<close>, \<^verbatim>\<open>random(0, 7)\<close> and \<^verbatim>\<open>random(1, 15)\<close>.\<close>

type_synonym draws = "tick \<times> tick \<times> tick"

definition random_time :: "draws \<Rightarrow> tick" where
  "random_time r = (case r of (r1, r2, r3) \<Rightarrow> 1 + r1 + (if r2 = 0 then 100 + r3 else 0))"

section \<open>Enqueue\<close>

definition notify :: "ruby_env \<Rightarrow> tick \<Rightarrow> 'p buf_state \<Rightarrow> 'p buf_state res" where
  "notify env t s = (case s of (b, c) \<Rightarrow>
     if m_consumer b
     then bindR (scheduleEventAbsolute (rs_sim env) t c) (\<lambda>c. Inr (b, c))
     else Inl NullPtr)"

definition randomized :: "ruby_env \<Rightarrow> 'p MessageBuffer \<Rightarrow> bool" where
  "randomized env b \<longleftrightarrow> \<not> (m_randomization b = rnd_disabled \<or>
     (m_randomization b = rnd_ruby_system \<and> \<not> rs_randomization env))"

text \<open>The arrival time of a message, and the new value of \<^verbatim>\<open>m_last_arrival_time\<close>.\<close>

definition arrival :: "ruby_env \<Rightarrow> draws \<Rightarrow> tick \<Rightarrow> tick \<Rightarrow> 'p MessageBuffer \<Rightarrow> tick \<times> tick" where
  "arrival env rnd current_time delta b =
     (if \<not> randomized env b then (current_time + delta, m_last_arrival_time b)
      else if m_strict_fifo b then
        let last_arrival = (if m_last_arrival_time b < current_time then current_time
                            else m_last_arrival_time b)
        in (last_arrival + random_time rnd, last_arrival)
      else (current_time + random_time rnd, m_last_arrival_time b))"

definition heap_insert :: "'p message \<Rightarrow> 'p MessageBuffer \<Rightarrow> 'p MessageBuffer" where
  "heap_insert m b = b\<lparr>m_prio_heap := heap_push msg_key m (m_prio_heap b)\<rparr>"

definition within_size :: "'p MessageBuffer \<Rightarrow> bool" where
  "within_size b \<longleftrightarrow> m_max_size b = 0 \<or>
     (int (length (m_prio_heap b)) + m_stall_map_size b) mod 2 ^ 64 \<le> int (m_max_size b)"

definition count_enqueue :: "tick \<Rightarrow> 'p MessageBuffer \<Rightarrow> 'p MessageBuffer" where
  "count_enqueue current_time b =
     (let b = (if m_time_last_time_enqueue b < current_time
               then b\<lparr>m_msgs_this_cycle := 0, m_time_last_time_enqueue := current_time\<rparr> else b)
      in b\<lparr>m_msg_counter := m_msg_counter b + 1,
           m_msgs_this_cycle := uint32 (m_msgs_this_cycle b + 1)\<rparr>)"

definition fifo_violated :: "bool \<Rightarrow> tick \<Rightarrow> 'p MessageBuffer \<Rightarrow> bool" where
  "fifo_violated bypassStrictFIFO arrival_time b \<longleftrightarrow>
     m_strict_fifo b \<and> \<not> (bypassStrictFIFO \<or> m_last_message_strict_fifo_bypassed b) \<and>
     arrival_time < m_last_arrival_time b"

definition note_arrival :: "ruby_env \<Rightarrow> bool \<Rightarrow> tick \<Rightarrow> 'p MessageBuffer \<Rightarrow> 'p MessageBuffer" where
  "note_arrival env bypassStrictFIFO arrival_time b =
     (let b = (if rs_warmup_enabled env then b else b\<lparr>m_last_arrival_time := arrival_time\<rparr>)
      in b\<lparr>m_last_message_strict_fifo_bypassed := bypassStrictFIFO\<rparr>)"

definition enqueue ::
    "ruby_env \<Rightarrow> draws \<Rightarrow> 'p message \<Rightarrow> tick \<Rightarrow> tick \<Rightarrow> bool \<Rightarrow> 'p buf_state \<Rightarrow> 'p buf_state res" where
  "enqueue env rnd message current_time delta bypassStrictFIFO s = (case s of (b, c) \<Rightarrow>
     let b = count_enqueue current_time b
     in if delta = 0 \<and> \<not> m_allow_zero_latency b then Inl (Panic ''zero latency'')
     else case arrival env rnd current_time delta b of (arrival_time, last_arrival) \<Rightarrow>
     let b = b\<lparr>m_last_arrival_time := last_arrival\<rparr>
     in assertR (current_time \<le> arrival_time)
     (if fifo_violated bypassStrictFIFO arrival_time b
      then Inl (Panic ''FIFO ordering violated'')
      else let b = note_arrival env bypassStrictFIFO arrival_time b
      in assertR (m_LastEnqueueTime message \<le> current_time)
      (bindR (updateDelayedTicks current_time message) (\<lambda>m.
       let m = m\<lparr>m_LastEnqueueTime := arrival_time, msg_counter := m_msg_counter b\<rparr>;
           b = (heap_insert m b)\<lparr>m_buf_msgs := m_buf_msgs b + 1\<rparr>
       in assertR (within_size b)
            (assertR (m_consumer b) (notify env arrival_time (b, c)))))))"

section \<open>Dequeue\<close>

definition isReady :: "ruby_env \<Rightarrow> tick \<Rightarrow> 'p buf_state \<Rightarrow> (bool \<times> 'p buf_state) res" where
  "isReady env current_time s = (case s of (b, c) \<Rightarrow>
     assertR (m_time_last_time_pop b \<le> current_time)
     (let can_dequeue = (m_max_dequeue_rate b = 0 \<or> m_time_last_time_pop b < current_time \<or>
                         m_dequeues_this_cy b < m_max_dequeue_rate b);
          is_ready = (m_prio_heap b \<noteq> [] \<and>
                      m_LastEnqueueTime (m_prio_heap b ! 0) \<le> current_time)
      in if \<not> can_dequeue \<and> is_ready then
           if m_consumer b
           then bindR (scheduleEvent (rs_sim env) 1 c) (\<lambda>c. Inr (False, (b, c)))
           else Inl NullPtr
         else Inr (can_dequeue \<and> is_ready, (b, c))))"

definition record_pop :: "tick \<Rightarrow> 'p MessageBuffer \<Rightarrow> 'p MessageBuffer" where
  "record_pop current_time b =
     (let b = (if m_time_last_time_pop b < current_time
               then b\<lparr>m_size_at_cycle_start := uint32 (length (m_prio_heap b)),
                      m_stalled_at_cycle_start := nat (m_stall_map_size b mod 2 ^ 32),
                      m_time_last_time_pop := current_time, m_dequeues_this_cy := 0\<rparr>
               else b)
      in b\<lparr>m_dequeues_this_cy := uint32 (m_dequeues_this_cy b + 1)\<rparr>)"

definition heap_remove :: "'p MessageBuffer \<Rightarrow> 'p MessageBuffer" where
  "heap_remove b = b\<lparr>m_prio_heap := heap_pop msg_key (m_prio_heap b)\<rparr>"

definition count_dequeue :: "ruby_env \<Rightarrow> 'p message \<Rightarrow> 'p MessageBuffer \<Rightarrow> 'p MessageBuffer" where
  "count_dequeue env m b =
     b\<lparr>m_stall_time := m_stall_time b + unat (curTick (rs_sim env) - m_LastEnqueueTime m),
       m_msg_count := m_msg_count b + 1, m_buf_msgs := m_buf_msgs b - 1\<rparr>"

text \<open>
  \<open>dequeue\<close> returns the delay, the message, which the caller holds a pointer to, and whether the
  callback is called.
\<close>

definition dequeue ::
    "ruby_env \<Rightarrow> tick \<Rightarrow> bool \<Rightarrow> 'p buf_state \<Rightarrow> ((tick \<times> 'p message \<times> bool) \<times> 'p buf_state) res" where
  "dequeue env current_time decrement_messages s =
     bindR (isReady env current_time s) (\<lambda>(ready, (b, c)). assertR ready
     (bindR (peek b) (\<lambda>message.
      bindR (updateDelayedTicks current_time message) (\<lambda>message.
      let b = b\<lparr>m_prio_heap := (m_prio_heap b)[0 := message]\<rparr>;
          b = heap_remove (record_pop current_time b);
          b = (if decrement_messages then count_dequeue env message b else b)
      in Inr ((m_DelayedTicks message, message, m_dequeue_callback b), (b, c))))))"

definition registerDequeueCallback :: "'p MessageBuffer \<Rightarrow> 'p MessageBuffer" where
  "registerDequeueCallback b = b\<lparr>m_dequeue_callback := True\<rparr>"

definition unregisterDequeueCallback :: "'p MessageBuffer \<Rightarrow> 'p MessageBuffer" where
  "unregisterDequeueCallback b = b\<lparr>m_dequeue_callback := False\<rparr>"

definition buf_clear :: "'p MessageBuffer \<Rightarrow> 'p MessageBuffer" where
  "buf_clear b = b\<lparr>m_prio_heap := [], m_msg_counter := 0, m_time_last_time_enqueue := 0,
     m_time_last_time_pop := 0, m_size_at_cycle_start := 0, m_stalled_at_cycle_start := 0,
     m_msgs_this_cycle := 0\<rparr>"

definition recycle :: "ruby_env \<Rightarrow> tick \<Rightarrow> tick \<Rightarrow> 'p buf_state \<Rightarrow> 'p buf_state res" where
  "recycle env current_time recycle_latency s =
     bindR (isReady env current_time s) (\<lambda>(ready, (b, c)). assertR ready
     (bindR (peek b) (\<lambda>node.
      let future_time = current_time + recycle_latency;
          node = node\<lparr>m_LastEnqueueTime := future_time\<rparr>
      in notify env future_time (heap_insert node (heap_remove b), c))))"

definition delayHead ::
    "ruby_env \<Rightarrow> draws \<Rightarrow> tick \<Rightarrow> tick \<Rightarrow> 'p buf_state \<Rightarrow> 'p buf_state res" where
  "delayHead env rnd current_time delta s = (case s of (b, c) \<Rightarrow>
     bindR (peek b) (\<lambda>m. enqueue env rnd m current_time delta False (heap_remove b, c)))"

section \<open>Stalled messages\<close>

definition reanalyze_one :: "ruby_env \<Rightarrow> tick \<Rightarrow> 'p message \<Rightarrow> 'p buf_state \<Rightarrow> 'p buf_state res" where
  "reanalyze_one env schdTick m s = (case s of (b, c) \<Rightarrow>
     assertR (m_LastEnqueueTime m \<le> schdTick) (notify env schdTick (heap_insert m b, c)))"

definition reanalyzeList ::
    "ruby_env \<Rightarrow> 'p message list \<Rightarrow> tick \<Rightarrow> 'p buf_state \<Rightarrow> 'p buf_state res" where
  "reanalyzeList env lt schdTick = foldR (reanalyze_one env schdTick) lt"

fun stall_append :: "addr \<Rightarrow> 'm \<Rightarrow> (addr \<times> 'm list) list \<Rightarrow> (addr \<times> 'm list) list" where
  "stall_append a m [] = [(a, [m])]"
| "stall_append a m ((x, ms) # r) =
     (if a < x then (a, [m]) # (x, ms) # r
      else if a = x then (x, ms @ [m]) # r
      else (x, ms) # stall_append a m r)"

definition hasStalledMsg :: "addr \<Rightarrow> 'p MessageBuffer \<Rightarrow> bool" where
  "hasStalledMsg a b \<longleftrightarrow> map_of (m_stall_msg_map b) a \<noteq> None"

definition unstall :: "ruby_env \<Rightarrow> tick \<Rightarrow> 'p message list \<Rightarrow> 'p buf_state \<Rightarrow> 'p buf_state res" where
  "unstall env current_time lt s = (case s of (b, c) \<Rightarrow>
     let b = b\<lparr>m_stall_map_size := m_stall_map_size b - int (length lt)\<rparr>
     in assertR (0 \<le> m_stall_map_size b) (reanalyzeList env lt current_time (b, c)))"

definition reanalyzeMessages :: "ruby_env \<Rightarrow> addr \<Rightarrow> tick \<Rightarrow> 'p buf_state \<Rightarrow> 'p buf_state res" where
  "reanalyzeMessages env a current_time s = (case map_of (m_stall_msg_map (fst s)) a of
     None \<Rightarrow> Inl AssertFail
   | Some lt \<Rightarrow> bindR (unstall env current_time lt s) (\<lambda>(b, c).
       Inr (b\<lparr>m_stall_msg_map := filter (\<lambda>e. fst e \<noteq> a) (m_stall_msg_map b)\<rparr>, c)))"

definition reanalyzeAllMessages :: "ruby_env \<Rightarrow> tick \<Rightarrow> 'p buf_state \<Rightarrow> 'p buf_state res" where
  "reanalyzeAllMessages env current_time s =
     bindR (foldR (\<lambda>e. unstall env current_time (snd e)) (m_stall_msg_map (fst s)) s) (\<lambda>(b, c).
       Inr (b\<lparr>m_stall_msg_map := []\<rparr>, c))"

text \<open>The block offset of an address, with \<open>bsb\<close> the number of offset bits of the system.\<close>

definition getOffset :: "nat \<Rightarrow> addr \<Rightarrow> addr res" where
  "getOffset bsb a = bitSelect a 0 (bsb - 1)"

definition stallMessage :: "ruby_env \<Rightarrow> nat \<Rightarrow> addr \<Rightarrow> tick \<Rightarrow> 'p buf_state \<Rightarrow> 'p buf_state res" where
  "stallMessage env bsb a current_time s =
     bindR (isReady env current_time s) (\<lambda>(ready, s). assertR ready
     (bindR (getOffset bsb a) (\<lambda>off. assertR (off = 0)
     (bindR (dequeue env current_time False s) (\<lambda>((_, message, _), (b, c)).
       Inr (b\<lparr>m_stall_msg_map := stall_append a message (m_stall_msg_map b),
              m_stall_map_size := m_stall_map_size b + 1,
              m_stall_count := m_stall_count b + 1\<rparr>, c))))))"

section \<open>Deferred messages\<close>

definition deferEnqueueingMessage :: "addr \<Rightarrow> 'p message \<Rightarrow> 'p MessageBuffer \<Rightarrow> 'p MessageBuffer" where
  "deferEnqueueingMessage a m b = b\<lparr>m_deferred_msg_map := (m_deferred_msg_map b)
     (a \<mapsto> (case m_deferred_msg_map b a of None \<Rightarrow> [] | Some ms \<Rightarrow> ms) @ [m])\<rparr>"

definition isDeferredMsgMapEmpty :: "addr \<Rightarrow> 'p MessageBuffer \<Rightarrow> bool" where
  "isDeferredMsgMapEmpty a b \<longleftrightarrow> m_deferred_msg_map b a = None"

text \<open>The \<open>i\<close>-th of the messages is enqueued with the draws \<open>rnd i\<close>.\<close>

definition enqueueDeferredMessages ::
    "ruby_env \<Rightarrow> (nat \<Rightarrow> draws) \<Rightarrow> addr \<Rightarrow> tick \<Rightarrow> tick \<Rightarrow> 'p buf_state \<Rightarrow> 'p buf_state res" where
  "enqueueDeferredMessages env rnd a curTime delay s =
     (case m_deferred_msg_map (fst s) a of
        None \<Rightarrow> Inl AssertFail
      | Some ms \<Rightarrow> assertR (0 < length ms)
          (bindR (foldR (\<lambda>(i, m). enqueue env (rnd i) m curTime delay False)
                   (zip [0..<length ms] ms) s) (\<lambda>(b, c).
            Inr (b\<lparr>m_deferred_msg_map := (m_deferred_msg_map b)(a := None)\<rparr>, c))))"

section \<open>The remaining members\<close>

definition readyTime :: "'p MessageBuffer \<Rightarrow> tick" where
  "readyTime b = (case m_prio_heap b of [] \<Rightarrow> MaxTick | m # _ \<Rightarrow> m_LastEnqueueTime m)"

definition setConsumer :: "'p MessageBuffer \<Rightarrow> 'p MessageBuffer res" where
  "setConsumer b = (if m_consumer b then Inl (ConfigExit ''already connected'')
     else Inr (b\<lparr>m_consumer := True\<rparr>))"

definition clearStats :: "'p MessageBuffer \<Rightarrow> 'p MessageBuffer" where
  "clearStats b = b\<lparr>m_not_avail_count := 0, m_msg_counter := 0\<rparr>"

definition isEmpty :: "'p MessageBuffer \<Rightarrow> bool" where
  "isEmpty b \<longleftrightarrow> length (m_prio_heap b) = 0"

definition isStallMapEmpty :: "'p MessageBuffer \<Rightarrow> bool" where
  "isStallMapEmpty b \<longleftrightarrow> length (m_stall_msg_map b) = 0"

definition getStallMapSize :: "'p MessageBuffer \<Rightarrow> nat" where
  "getStallMapSize b = uint32 (length (m_stall_msg_map b))"

definition setIncomingLink :: "int \<Rightarrow> 'p MessageBuffer \<Rightarrow> 'p MessageBuffer" where
  "setIncomingLink link_id b = b\<lparr>m_input_link_id := link_id\<rparr>"

definition setVnet :: "int \<Rightarrow> 'p MessageBuffer \<Rightarrow> 'p MessageBuffer" where
  "setVnet net b = b\<lparr>m_vnet_id := net\<rparr>"

definition setPriority :: "int \<Rightarrow> 'p MessageBuffer \<Rightarrow> 'p MessageBuffer" where
  "setPriority rank b = b\<lparr>m_priority_rank := rank\<rparr>"

section \<open>Functional accesses\<close>

text \<open>
  The functional accessors of a message are generated from the protocol; they are the argument
  \<open>one\<close>, which returns whether the message was hit, the message (a write changes it) and the new
  state of the packet and of the mask.  \<open>stop\<close> is set for a read without a mask, which returns at
  the first hit.
\<close>

fun access_list ::
    "('m \<Rightarrow> 's \<Rightarrow> (bool \<times> 'm \<times> 's) res) \<Rightarrow> bool \<Rightarrow> 'm list \<Rightarrow> 's \<Rightarrow> (nat \<times> bool \<times> 'm list \<times> 's) res" where
  "access_list one stop [] s = Inr (0, False, [], s)"
| "access_list one stop (m # ms) s = bindR (one m s) (\<lambda>(hit, m, s).
     if stop \<and> hit then Inr (1, True, m # ms, s)
     else bindR (access_list one stop ms s) (\<lambda>(n, stopped, ms, s).
       Inr ((if hit then 1 else 0) + n, stopped, m # ms, s)))"

fun access_map ::
    "('m \<Rightarrow> 's \<Rightarrow> (bool \<times> 'm \<times> 's) res) \<Rightarrow> bool \<Rightarrow> ('a \<times> 'm list) list \<Rightarrow> 's \<Rightarrow>
       (nat \<times> ('a \<times> 'm list) list \<times> 's) res" where
  "access_map one stop [] s = Inr (0, [], s)"
| "access_map one stop ((a, ms) # r) s = bindR (access_list one stop ms s) (\<lambda>(n, stopped, ms, s).
     if stopped then Inr (1, (a, ms) # r, s)
     else bindR (access_map one stop r s) (\<lambda>(k, r, s). Inr (n + k, (a, ms) # r, s)))"

definition functionalAccess ::
    "('p message \<Rightarrow> 's \<Rightarrow> (bool \<times> 'p message \<times> 's) res) \<Rightarrow> bool \<Rightarrow> 'p MessageBuffer \<Rightarrow> 's \<Rightarrow>
       (nat \<times> 'p MessageBuffer \<times> 's) res" where
  "functionalAccess one stop b s =
     bindR (access_list one stop (m_prio_heap b) s) (\<lambda>(n, stopped, ms, s).
       let b = b\<lparr>m_prio_heap := ms\<rparr>
       in if stopped then Inr (1, b, s)
          else bindR (access_map one stop (m_stall_msg_map b) s) (\<lambda>(k, mp, s).
            Inr (n + k, b\<lparr>m_stall_msg_map := mp\<rparr>, s)))"

definition functionalWrite ::
    "('p message \<Rightarrow> 's \<Rightarrow> (bool \<times> 'p message) res) \<Rightarrow> 's \<Rightarrow> 'p MessageBuffer \<Rightarrow>
       (nat \<times> 'p MessageBuffer) res" where
  "functionalWrite write pkt b =
     bindR (functionalAccess (\<lambda>m s. bindR (write m s) (\<lambda>(hit, m). Inr (hit, m, s))) False b pkt)
       (\<lambda>(n, b, _). Inr (n, b))"

definition functionalRead ::
    "('p message \<Rightarrow> 's \<Rightarrow> (bool \<times> 's) res) \<Rightarrow> 's \<Rightarrow> 'p MessageBuffer \<Rightarrow> (bool \<times> 's) res" where
  "functionalRead read pkt b =
     bindR (functionalAccess (\<lambda>m s. bindR (read m s) (\<lambda>(hit, s). Inr (hit, m, s))) True b pkt)
       (\<lambda>(n, _, s). Inr (n = 1, s))"

definition functionalRead_mask ::
    "('p message \<Rightarrow> 's \<Rightarrow> (bool \<times> 's) res) \<Rightarrow> 's \<Rightarrow> 'p MessageBuffer \<Rightarrow> (bool \<times> 's) res" where
  "functionalRead_mask read pkt b =
     bindR (functionalAccess (\<lambda>m s. bindR (read m s) (\<lambda>(hit, s). Inr (hit, m, s))) False b pkt)
       (\<lambda>(n, _, s). Inr (n = 1, s))"

end
