(* ===== verification/Buffer_Props.thy ===== *)
theory Buffer_Props
  imports Message_Buffer
begin

text \<open>
  What the message buffers promise: the heap and the stall map stay well formed, no message is
  lost or duplicated, a strictly ordered buffer is a FIFO queue, the slots that
  \<open>areNSlotsAvailable\<close> reports are available, and the consumer is woken for every message.
\<close>

section \<open>What each operation changes\<close>

lemma count_enqueue_fields [simp]:
  "m_prio_heap (count_enqueue t b) = m_prio_heap b"
  "m_stall_msg_map (count_enqueue t b) = m_stall_msg_map b"
  "m_stall_map_size (count_enqueue t b) = m_stall_map_size b"
  "m_max_size (count_enqueue t b) = m_max_size b"
  "m_consumer (count_enqueue t b) = m_consumer b"
  "m_strict_fifo (count_enqueue t b) = m_strict_fifo b"
  "m_allow_zero_latency (count_enqueue t b) = m_allow_zero_latency b"
  "m_randomization (count_enqueue t b) = m_randomization b"
  "m_last_arrival_time (count_enqueue t b) = m_last_arrival_time b"
  "m_last_message_strict_fifo_bypassed (count_enqueue t b) = m_last_message_strict_fifo_bypassed b"
  "m_msg_counter (count_enqueue t b) = m_msg_counter b + 1"
  "m_buf_msgs (count_enqueue t b) = m_buf_msgs b"
  "m_time_last_time_pop (count_enqueue t b) = m_time_last_time_pop b"
  "m_size_at_cycle_start (count_enqueue t b) = m_size_at_cycle_start b"
  "m_stalled_at_cycle_start (count_enqueue t b) = m_stalled_at_cycle_start b"
  "m_time_last_time_enqueue (count_enqueue t b) = max (m_time_last_time_enqueue b) t"
  "m_msgs_this_cycle (count_enqueue t b) =
     uint32 ((if m_time_last_time_enqueue b < t then 0 else m_msgs_this_cycle b) + 1)"
  by (simp_all add: count_enqueue_def Let_def max_def less_imp_le)

lemma note_arrival_fields [simp]:
  "m_prio_heap (note_arrival env by a b) = m_prio_heap b"
  "m_stall_msg_map (note_arrival env by a b) = m_stall_msg_map b"
  "m_stall_map_size (note_arrival env by a b) = m_stall_map_size b"
  "m_max_size (note_arrival env by a b) = m_max_size b"
  "m_consumer (note_arrival env by a b) = m_consumer b"
  "m_strict_fifo (note_arrival env by a b) = m_strict_fifo b"
  "m_msg_counter (note_arrival env by a b) = m_msg_counter b"
  "m_buf_msgs (note_arrival env by a b) = m_buf_msgs b"
  "m_time_last_time_pop (note_arrival env by a b) = m_time_last_time_pop b"
  "m_size_at_cycle_start (note_arrival env by a b) = m_size_at_cycle_start b"
  "m_stalled_at_cycle_start (note_arrival env by a b) = m_stalled_at_cycle_start b"
  "m_time_last_time_enqueue (note_arrival env by a b) = m_time_last_time_enqueue b"
  "m_msgs_this_cycle (note_arrival env by a b) = m_msgs_this_cycle b"
  "m_last_message_strict_fifo_bypassed (note_arrival env by a b) = by"
  "m_last_arrival_time (note_arrival env by a b) =
     (if rs_warmup_enabled env then m_last_arrival_time b else a)"
  by (simp_all add: note_arrival_def Let_def)

lemma notify_Inr:
  "notify env t (b, c) = Inr (b', c') \<longleftrightarrow>
     m_consumer b \<and> b' = b \<and> scheduleEventAbsolute (rs_sim env) t c = Inr c'"
  by (auto simp: notify_def fault_simps)

lemma isReady_Inr:
  assumes "isReady env t (b, c) = Inr (r, (b', c'))"
  shows "b' = b" "m_time_last_time_pop b \<le> t"
    "r \<Longrightarrow> m_prio_heap b \<noteq> []" "r \<Longrightarrow> m_LastEnqueueTime (m_prio_heap b ! 0) \<le> t"
  using assms by (auto simp: isReady_def Let_def fault_simps split: if_splits)

lemma peek_Inr: "peek b = Inr m \<longleftrightarrow> m_prio_heap b \<noteq> [] \<and> m = m_prio_heap b ! 0"
  by (auto simp: peek_def split: list.splits)

lemma updateDelayedTicks_Inr:
  "updateDelayedTicks t m = Inr m' \<longleftrightarrow> m_LastEnqueueTime m \<le> t \<and>
     m' = m\<lparr>m_DelayedTicks := m_DelayedTicks m + (t - m_LastEnqueueTime m)\<rparr>"
  by (auto simp: updateDelayedTicks_def fault_simps)

definition stamped :: "tick \<Rightarrow> tick \<Rightarrow> 64 word \<Rightarrow> 'p message \<Rightarrow> 'p message" where
  "stamped t a n m = m\<lparr>m_DelayedTicks := m_DelayedTicks m + (t - m_LastEnqueueTime m),
     m_LastEnqueueTime := a, msg_counter := n\<rparr>"

lemma stamped_fields [simp]:
  "payload (stamped t a n m) = payload m" "m_LastEnqueueTime (stamped t a n m) = a"
  "msg_counter (stamped t a n m) = n" "msg_key (stamped t a n m) = (a, n)"
  by (simp_all add: stamped_def msg_key_def)

definition enqueued ::
    "ruby_env \<Rightarrow> tick \<Rightarrow> bool \<Rightarrow> tick \<Rightarrow> tick \<Rightarrow> 'p message \<Rightarrow> 'p MessageBuffer \<Rightarrow> 'p MessageBuffer" where
  "enqueued env t by a la m b =
     (heap_insert (stamped t a (m_msg_counter b + 1) m)
        (note_arrival env by a ((count_enqueue t b)\<lparr>m_last_arrival_time := la\<rparr>)))
     \<lparr>m_buf_msgs := m_buf_msgs b + 1\<rparr>"

lemma enqueue_Inr:
  assumes "enqueue env rnd m t d by (b, c) = Inr (b', c')"
  shows "\<exists>a la. arrival env rnd t d (count_enqueue t b) = (a, la) \<and> t \<le> a \<and>
    \<not> fifo_violated by a (b\<lparr>m_last_arrival_time := la\<rparr>) \<and> m_LastEnqueueTime m \<le> t \<and>
    b' = enqueued env t by a la m b \<and> within_size b' \<and> m_consumer b \<and>
    scheduleEventAbsolute (rs_sim env) a c = Inr c'"
proof -
  obtain a la where A: "arrival env rnd t d (count_enqueue t b) = (a, la)"
    by (cases "arrival env rnd t d (count_enqueue t b)")
  show ?thesis
    using assms A unfolding enqueue_def enqueued_def stamped_def
    by (auto simp: Let_def fault_simps updateDelayedTicks_Inr notify_Inr fifo_violated_def
        heap_insert_def split: if_splits)
qed

definition delayed :: "tick \<Rightarrow> 'p message \<Rightarrow> 'p message" where
  "delayed t m = m\<lparr>m_DelayedTicks := m_DelayedTicks m + (t - m_LastEnqueueTime m)\<rparr>"

lemma delayed_fields [simp]:
  "payload (delayed t m) = payload m" "m_LastEnqueueTime (delayed t m) = m_LastEnqueueTime m"
  "msg_key (delayed t m) = msg_key m"
  by (simp_all add: delayed_def msg_key_def)

lemma record_pop_fields [simp]:
  "m_prio_heap (record_pop t b) = m_prio_heap b"
  "m_stall_msg_map (record_pop t b) = m_stall_msg_map b"
  "m_stall_map_size (record_pop t b) = m_stall_map_size b"
  "m_max_size (record_pop t b) = m_max_size b"
  "m_consumer (record_pop t b) = m_consumer b"
  "m_strict_fifo (record_pop t b) = m_strict_fifo b"
  "m_randomization (record_pop t b) = m_randomization b"
  "m_last_arrival_time (record_pop t b) = m_last_arrival_time b"
  "m_last_message_strict_fifo_bypassed (record_pop t b) = m_last_message_strict_fifo_bypassed b"
  "m_msg_counter (record_pop t b) = m_msg_counter b"
  "m_time_last_time_enqueue (record_pop t b) = m_time_last_time_enqueue b"
  "m_msgs_this_cycle (record_pop t b) = m_msgs_this_cycle b"
  "m_time_last_time_pop (record_pop t b) = max (m_time_last_time_pop b) t"
  "m_size_at_cycle_start (record_pop t b) = (if m_time_last_time_pop b < t
     then uint32 (length (m_prio_heap b)) else m_size_at_cycle_start b)"
  "m_stalled_at_cycle_start (record_pop t b) = (if m_time_last_time_pop b < t
     then nat (m_stall_map_size b mod 2 ^ 32) else m_stalled_at_cycle_start b)"
  by (simp_all add: record_pop_def Let_def max_def less_imp_le)

definition popped :: "tick \<Rightarrow> 'p MessageBuffer \<Rightarrow> 'p MessageBuffer" where
  "popped t b = heap_remove (record_pop t
     (b\<lparr>m_prio_heap := (m_prio_heap b)[0 := delayed t (m_prio_heap b ! 0)]\<rparr>))"

lemma dequeue_Inr:
  assumes "dequeue env t dec (b, c) = Inr ((d, m', cb), (b', c'))"
  shows "m_prio_heap b \<noteq> []" "m_time_last_time_pop b \<le> t"
    "m_LastEnqueueTime (m_prio_heap b ! 0) \<le> t" "m' = delayed t (m_prio_heap b ! 0)"
    "b' = (if dec then count_dequeue env m' (popped t b) else popped t b)"
proof -
  from assms obtain r b1 c1 where r: "isReady env t (b, c) = Inr (r, (b1, c1))"
    unfolding dequeue_def by (auto simp: fault_simps)
  note R = isReady_Inr[OF r]
  from assms r have r': "r" by (simp add: dequeue_def assertR_def split: if_splits)
  show "m_prio_heap b \<noteq> []" "m_time_last_time_pop b \<le> t" "m_LastEnqueueTime (m_prio_heap b ! 0) \<le> t"
    using R r' by simp_all
  show "m' = delayed t (m_prio_heap b ! 0)"
    "b' = (if dec then count_dequeue env m' (popped t b) else popped t b)"
    using assms r r' R(1)
    by (auto simp: dequeue_def fault_simps Let_def peek_Inr updateDelayedTicks_Inr delayed_def
        popped_def split: if_splits)
qed

section \<open>Well-formed buffers\<close>

definition stalled :: "'p MessageBuffer \<Rightarrow> 'p message list" where
  "stalled b = concat (map snd (m_stall_msg_map b))"

definition buf_ok :: "'p MessageBuffer \<Rightarrow> bool" where
  "buf_ok b \<longleftrightarrow> heap msg_key (length (m_prio_heap b)) (m_prio_heap b) \<and>
     sorted_wrt (<) (map fst (m_stall_msg_map b)) \<and>
     m_stall_map_size b = int (length (stalled b)) \<and>
     (\<forall>m \<in> set (stalled b). m_LastEnqueueTime m \<le> m_time_last_time_pop b)"

definition held :: "'p MessageBuffer \<Rightarrow> 'p multiset" where
  "held b = image_mset payload (mset (m_prio_heap b) + mset (stalled b))"

lemma buf_ok_heap: "buf_ok b \<Longrightarrow> heap msg_key (length (m_prio_heap b)) (m_prio_heap b)"
  by (simp add: buf_ok_def)

lemma heap_same_keys:
  assumes "heap key (length xs) xs" "map key ys = map key xs"
  shows "heap key (length ys) ys"
proof -
  have l: "length ys = length xs" using assms(2) by (metis length_map)
  have k: "key (ys ! i) = key (xs ! i)" if "i < length xs" for i
    using assms(2) that l by (metis nth_map)
  show ?thesis unfolding heap_def
  proof (intro allI impI, elim conjE)
    fix i assume i: "0 < i" "i < length ys"
    hence "parent i < length xs" using parent_less[OF i(1)] l by simp
    thus "key (ys ! parent i) \<le> key (ys ! i)"
      using k heapD[OF assms(1) i(1)] i(2) l by simp
  qed
qed

lemma refront_heap:
  assumes "heap msg_key (length xs) xs" "xs \<noteq> []" "msg_key m = msg_key (xs ! 0)"
  shows "heap msg_key (length (xs[0 := m])) (xs[0 := m])"
proof (rule heap_same_keys[OF assms(1)])
  show "map msg_key (xs[0 := m]) = map msg_key xs"
    using assms(2,3) by (cases xs) simp_all
qed

lemma popped_heap:
  assumes "heap msg_key (length (m_prio_heap b)) (m_prio_heap b)" "m_prio_heap b \<noteq> []"
  shows "heap msg_key (length (m_prio_heap (popped t b))) (m_prio_heap (popped t b))"
    "mset (m_prio_heap (popped t b)) = mset (m_prio_heap b) - {#m_prio_heap b ! 0#}"
proof -
  let ?xs = "m_prio_heap b" and ?m = "delayed t (m_prio_heap b ! 0)"
  have h: "heap msg_key (length (?xs[0 := ?m])) (?xs[0 := ?m])"
    using assms by (intro refront_heap) simp_all
  have ne: "mset (?xs[0 := ?m]) \<noteq> {#}" using assms(2) by simp
  have p: "m_prio_heap (popped t b) = heap_pop msg_key (?xs[0 := ?m])"
    by (simp add: popped_def heap_remove_def)
  show "heap msg_key (length (m_prio_heap (popped t b))) (m_prio_heap (popped t b))"
    unfolding p by (rule std_heap.pop_ok[OF h ne])
  show "mset (m_prio_heap (popped t b)) = mset ?xs - {#?xs ! 0#}"
    unfolding p std_heap.items_pop[OF h ne] using assms(2) by (cases ?xs) simp_all
qed

section \<open>Preservation and conservation\<close>

lemma heap_insert_ok [invar_intros]:
  assumes "buf_ok b"
  shows "buf_ok (heap_insert m b)" "held (heap_insert m b) = add_mset (payload m) (held b)"
proof -
  note h = buf_ok_heap[OF assms]
  have "mset (heap_push msg_key m (m_prio_heap b)) = add_mset m (mset (m_prio_heap b))"
    using std_heap.items_push[OF h, of m] by simp
  thus "held (heap_insert m b) = add_mset (payload m) (held b)"
    by (simp add: held_def heap_insert_def stalled_def)
  show "buf_ok (heap_insert m b)"
    using assms std_heap.push_ok[OF h, of m] by (simp add: buf_ok_def heap_insert_def stalled_def)
qed

lemma held_front:
  assumes "m_prio_heap b \<noteq> []"
  shows "add_mset (payload (m_prio_heap b ! 0))
    (image_mset payload (mset (m_prio_heap b) - {#m_prio_heap b ! 0#} + mset (stalled b))) = held b"
  using assms by (cases "m_prio_heap b") (simp_all add: held_def)

lemma heap_remove_ok [invar_intros]:
  assumes "buf_ok b" "m_prio_heap b \<noteq> []"
  shows "buf_ok (heap_remove b)"
    "add_mset (payload (m_prio_heap b ! 0)) (held (heap_remove b)) = held b"
proof -
  note h = buf_ok_heap[OF assms(1)]
  have ne: "mset (m_prio_heap b) \<noteq> {#}" using assms(2) by simp
  show "buf_ok (heap_remove b)"
    using assms(1) std_heap.pop_ok[OF h ne] by (simp add: buf_ok_def heap_remove_def stalled_def)
  show "add_mset (payload (m_prio_heap b ! 0)) (held (heap_remove b)) = held b"
    using held_front[OF assms(2)] std_heap.items_pop[OF h ne]
    by (simp add: held_def heap_remove_def stalled_def)
qed

lemma popped_ok [invar_intros]:
  assumes "buf_ok b" "m_prio_heap b \<noteq> []"
  shows "buf_ok (popped t b)" "add_mset (payload (m_prio_heap b ! 0)) (held (popped t b)) = held b"
proof -
  note p = popped_heap[OF buf_ok_heap[OF assms(1)] assms(2), of t]
  have st: "m_stall_msg_map (popped t b) = m_stall_msg_map b"
    "m_stall_map_size (popped t b) = m_stall_map_size b"
    "m_time_last_time_pop (popped t b) = max (m_time_last_time_pop b) t"
    by (simp_all add: popped_def heap_remove_def)
  have s: "stalled (popped t b) = stalled b" by (simp add: stalled_def st)
  show "buf_ok (popped t b)"
    using assms(1) p(1) st s by (auto simp: buf_ok_def le_max_iff_disj)
  show "add_mset (payload (m_prio_heap b ! 0)) (held (popped t b)) = held b"
    using held_front[OF assms(2)] p(2) s by (simp add: held_def)
qed

lemma count_dequeue_ok [simp]:
  "buf_ok (count_dequeue env m b) = buf_ok b" "held (count_dequeue env m b) = held b"
  by (simp_all add: buf_ok_def held_def stalled_def count_dequeue_def)

lemma enqueued_ok [invar_intros]:
  assumes "buf_ok b"
  shows "buf_ok (enqueued env t by a la m b)"
    "held (enqueued env t by a la m b) = add_mset (payload m) (held b)"
proof -
  let ?b = "note_arrival env by a ((count_enqueue t b)\<lparr>m_last_arrival_time := la\<rparr>)"
  have b: "buf_ok ?b" "held ?b = held b"
    using assms by (simp_all add: buf_ok_def held_def stalled_def)
  have e: "buf_ok (b\<lparr>m_buf_msgs := n\<rparr>) = buf_ok b" "held (b\<lparr>m_buf_msgs := n\<rparr>) = held b" for b :: "'a MessageBuffer" and n
    by (simp_all add: buf_ok_def held_def stalled_def)
  show "buf_ok (enqueued env t by a la m b)"
    "held (enqueued env t by a la m b) = add_mset (payload m) (held b)"
    using heap_insert_ok[OF b(1)] b(2) by (simp_all add: enqueued_def e)
qed

lemma enqueue_ok:
  assumes "enqueue env rnd m t d by (b, c) = Inr (b', c')" "buf_ok b"
  shows "buf_ok b' \<and> held b' = add_mset (payload m) (held b)"
  using enqueue_Inr[OF assms(1)] enqueued_ok[OF assms(2)] by blast

lemma dequeue_ok:
  assumes "dequeue env t dec (b, c) = Inr ((d, m', cb), (b', c'))" "buf_ok b"
  shows "buf_ok b' \<and> held b = add_mset (payload m') (held b')"
  using dequeue_Inr[OF assms(1)] popped_ok[OF assms(2), of t] by auto

lemma recycle_ok:
  assumes "recycle env t l (b, c) = Inr (b', c')" "buf_ok b"
  shows "buf_ok b' \<and> held b' = held b"
proof -
  from assms(1) obtain c1 where ne: "m_prio_heap b \<noteq> []"
    and b': "b' = heap_insert ((m_prio_heap b ! 0)\<lparr>m_LastEnqueueTime := t + l\<rparr>) (heap_remove b)"
    unfolding recycle_def
    by (auto simp: fault_simps Let_def peek_Inr notify_Inr dest: isReady_Inr(1))
  note r = heap_remove_ok[OF assms(2) ne]
  show ?thesis using heap_insert_ok[OF r(1)] r(2) by (simp add: b')
qed

lemma delayHead_ok:
  assumes "delayHead env rnd t d (b, c) = Inr (b', c')" "buf_ok b"
  shows "buf_ok b' \<and> held b' = held b"
proof -
  from assms(1) have ne: "m_prio_heap b \<noteq> []"
    and e: "enqueue env rnd (m_prio_heap b ! 0) t d False (heap_remove b, c) = Inr (b', c')"
    by (auto simp: delayHead_def fault_simps peek_Inr)
  note r = heap_remove_ok[OF assms(2) ne]
  show ?thesis using enqueue_ok[OF e r(1)] r(2) by simp
qed

section \<open>Stalled messages\<close>

lemma stall_append_keys: "fst ` set (stall_append a m mp) = insert a (fst ` set mp)"
  by (induction a m mp rule: stall_append.induct) auto

lemma stall_append_sorted:
  "sorted_wrt (<) (map fst mp) \<Longrightarrow> sorted_wrt (<) (map fst (stall_append a m mp))"
proof (induction a m mp rule: stall_append.induct)
  case (2 a m x ms r)
  have "x < y" if "y \<in> insert a (fst ` set r)" "\<not> a < x" "a \<noteq> x" for y
    using that 2(2) by auto
  thus ?case using 2 stall_append_keys[of a m r] by (auto simp: image_iff)
qed simp

lemma stall_append_mset:
  "mset (concat (map snd (stall_append a m mp))) = add_mset m (mset (concat (map snd mp)))"
  by (induction a m mp rule: stall_append.induct) auto

lemma stallMessage_Inr:
  assumes "stallMessage env bsb a t (b, c) = Inr (b', c')"
  shows "m_prio_heap b \<noteq> []" "m_LastEnqueueTime (m_prio_heap b ! 0) \<le> t"
    "m_time_last_time_pop b \<le> t"
    "b' = (popped t b)\<lparr>m_stall_msg_map :=
        stall_append a (delayed t (m_prio_heap b ! 0)) (m_stall_msg_map b),
      m_stall_map_size := m_stall_map_size b + 1, m_stall_count := m_stall_count (popped t b) + 1\<rparr>"
proof -
  from assms obtain r b1 c1 d m cb b2 where r: "isReady env t (b, c) = Inr (r, (b1, c1))"
    and d1: "dequeue env t False (b1, c1) = Inr ((d, m, cb), (b2, c'))"
    and b': "b' = b2\<lparr>m_stall_msg_map := stall_append a m (m_stall_msg_map b2),
              m_stall_map_size := m_stall_map_size b2 + 1, m_stall_count := m_stall_count b2 + 1\<rparr>"
    unfolding stallMessage_def by (auto simp: fault_simps)
  note D = dequeue_Inr[OF d1[unfolded isReady_Inr(1)[OF r]]]
  show "m_prio_heap b \<noteq> []" "m_LastEnqueueTime (m_prio_heap b ! 0) \<le> t" "m_time_last_time_pop b \<le> t"
    using D by simp_all
  have "m_stall_msg_map (popped t b) = m_stall_msg_map b"
    "m_stall_map_size (popped t b) = m_stall_map_size b"
    by (simp_all add: popped_def heap_remove_def)
  thus "b' = (popped t b)\<lparr>m_stall_msg_map :=
        stall_append a (delayed t (m_prio_heap b ! 0)) (m_stall_msg_map b),
      m_stall_map_size := m_stall_map_size b + 1, m_stall_count := m_stall_count (popped t b) + 1\<rparr>"
    using b' D(4,5) by simp
qed

lemma stallMessage_ok:
  assumes "stallMessage env bsb a t (b, c) = Inr (b', c')" "buf_ok b"
  shows "buf_ok b' \<and> held b' = held b"
proof -
  note S = stallMessage_Inr[OF assms(1)]
  note p = popped_ok[OF assms(2) S(1), of t]
  let ?m = "delayed t (m_prio_heap b ! 0)"
  have f: "m_stall_msg_map (popped t b) = m_stall_msg_map b"
    "m_stall_map_size (popped t b) = m_stall_map_size b"
    "m_time_last_time_pop (popped t b) = t"
    using S(3) by (simp_all add: popped_def heap_remove_def max_def)
  have fb: "m_prio_heap b' = m_prio_heap (popped t b)" "m_time_last_time_pop b' = t"
    "m_stall_msg_map b' = stall_append a ?m (m_stall_msg_map b)"
    "m_stall_map_size b' = m_stall_map_size b + 1"
    using S(4) f by simp_all
  have st: "mset (stalled b') = add_mset ?m (mset (stalled b))"
    using stall_append_mset[of a ?m] fb(3) by (simp add: stalled_def)
  have sp: "stalled (popped t b) = stalled b" by (simp add: stalled_def f)
  have len: "length (stalled b') = Suc (length (stalled b))"
    using arg_cong[OF st, of size] by simp
  have sett: "set (stalled b') = insert ?m (set (stalled b))"
    using arg_cong[OF st, of set_mset] by simp
  have "buf_ok b'" using p(1) S(2) len sett fb sp f
    by (auto simp: buf_ok_def stall_append_sorted)
  moreover have "held b' = held b"
    using p(2) st sp by (simp add: held_def fb)
  ultimately show ?thesis by simp
qed

definition reinsert :: "'p message list \<Rightarrow> 'p MessageBuffer \<Rightarrow> 'p MessageBuffer" where
  "reinsert = fold heap_insert"

lemma reinsert_only_heap: "\<exists>h. reinsert lt b = b\<lparr>m_prio_heap := h\<rparr>"
proof (induction lt arbitrary: b)
  case Nil
  have "reinsert [] b = b\<lparr>m_prio_heap := m_prio_heap b\<rparr>" by (simp add: reinsert_def)
  thus ?case ..
next
  case (Cons m lt)
  from Cons.IH[of "heap_insert m b"] show ?case by (auto simp: reinsert_def heap_insert_def)
qed

lemma reinsert_heap:
  assumes "heap msg_key (length (m_prio_heap b)) (m_prio_heap b)"
  shows "heap msg_key (length (m_prio_heap (reinsert lt b))) (m_prio_heap (reinsert lt b)) \<and>
    mset (m_prio_heap (reinsert lt b)) = mset (m_prio_heap b) + mset lt"
  using assms
proof (induction lt arbitrary: b)
  case (Cons m lt)
  have "heap msg_key (length (m_prio_heap (heap_insert m b))) (m_prio_heap (heap_insert m b))"
    using std_heap.push_ok[OF Cons.prems, of m] by (simp add: heap_insert_def)
  from Cons.IH[OF this] std_heap.items_push[OF Cons.prems, of m]
  show ?case by (simp add: reinsert_def heap_insert_def)
qed (simp add: reinsert_def)

lemma reanalyzeList_Inr:
  "reanalyzeList env lt t (b, c) = Inr (b', c') \<Longrightarrow>
   b' = reinsert lt b \<and> (\<forall>m \<in> set lt. m_LastEnqueueTime m \<le> t)"
proof (induction lt arbitrary: b c)
  case (Cons m lt)
  from Cons.prems obtain c1 where "m_LastEnqueueTime m \<le> t"
    "reanalyzeList env lt t (heap_insert m b, c1) = Inr (b', c')"
    by (auto simp: reanalyzeList_def reanalyze_one_def fault_simps notify_Inr)
  thus ?case using Cons.IH by (auto simp: reinsert_def)
qed (simp add: reanalyzeList_def reinsert_def)

lemma unstall_Inr:
  assumes "unstall env t lt (b, c) = Inr (b', c')"
  shows "b' = reinsert lt (b\<lparr>m_stall_map_size := m_stall_map_size b - int (length lt)\<rparr>)"
  using assms reanalyzeList_Inr by (fastforce simp: unstall_def Let_def fault_simps)

lemma unstalled_ok:
  assumes b: "buf_ok b" and h: "b1 = reinsert lt (b\<lparr>m_stall_map_size := m_stall_map_size b - int (length lt)\<rparr>)"
    and mp: "mset (concat (map snd mp)) + mset lt = mset (stalled b)" "sorted_wrt (<) (map fst mp)"
  shows "buf_ok (b1\<lparr>m_stall_msg_map := mp\<rparr>)" "held (b1\<lparr>m_stall_msg_map := mp\<rparr>) = held b"
proof -
  let ?b = "b\<lparr>m_stall_map_size := m_stall_map_size b - int (length lt)\<rparr>"
  have "heap msg_key (length (m_prio_heap ?b)) (m_prio_heap ?b)" using buf_ok_heap[OF b] by simp
  from reinsert_heap[OF this, of lt] h
  have hp: "heap msg_key (length (m_prio_heap b1)) (m_prio_heap b1)"
    "mset (m_prio_heap b1) = mset (m_prio_heap b) + mset lt" by simp_all
  obtain hh where b1: "b1 = ?b\<lparr>m_prio_heap := hh\<rparr>" using reinsert_only_heap h by blast
  have len: "length (concat (map snd mp)) + length lt = length (stalled b)"
    using arg_cong[OF mp(1), of size] by (simp only: size_union size_mset)
  have sub: "set (concat (map snd mp)) \<subseteq> set (stalled b)"
    using arg_cong[OF mp(1), of set_mset] by auto
  have "m_stall_map_size b = int (length (stalled b))" using b by (simp add: buf_ok_def)
  hence "m_stall_map_size b1 = int (length (concat (map snd mp)))" unfolding b1 using len by simp
  moreover have "\<forall>m \<in> set (concat (map snd mp)). m_LastEnqueueTime m \<le> m_time_last_time_pop b1"
    using b sub unfolding b1 buf_ok_def by auto
  ultimately show "buf_ok (b1\<lparr>m_stall_msg_map := mp\<rparr>)"
    using hp(1) mp(2) unfolding buf_ok_def stalled_def by simp
  have "mset (m_prio_heap b1) + mset (concat (map snd mp)) = mset (m_prio_heap b) + mset (stalled b)"
    unfolding hp(2) mp(1)[symmetric] by (simp add: ac_simps)
  thus "held (b1\<lparr>m_stall_msg_map := mp\<rparr>) = held b"
    by (simp add: held_def stalled_def)
qed

lemma map_of_remove:
  fixes mp :: "(addr \<times> 'm list) list"
  assumes "sorted_wrt (<) (map fst mp)" "map_of mp a = Some lt"
  shows "mset (concat (map snd (filter (\<lambda>e. fst e \<noteq> a) mp))) + mset lt = mset (concat (map snd mp))"
  using assms
proof (induction mp)
  case (Cons e mp)
  show ?case
  proof (cases "fst e = a")
    case True
    have "\<forall>x \<in> set mp. fst e < fst x" using Cons.prems(1) by simp
    hence "\<forall>x \<in> set mp. fst x \<noteq> a" using True by (metis less_irrefl)
    hence "filter (\<lambda>x. fst x \<noteq> a) mp = mp" by (intro filter_True)
    thus ?thesis using True Cons.prems(2) by (cases e) auto
  next
    case False
    thus ?thesis using Cons by (cases e) auto
  qed
qed simp

lemma reanalyzeMessages_Inr:
  assumes "reanalyzeMessages env a t (b, c) = Inr (b', c')"
  shows "\<exists>lt b1. map_of (m_stall_msg_map b) a = Some lt \<and>
    b1 = reinsert lt (b\<lparr>m_stall_map_size := m_stall_map_size b - int (length lt)\<rparr>) \<and>
    b' = b1\<lparr>m_stall_msg_map := filter (\<lambda>e. fst e \<noteq> a) (m_stall_msg_map b)\<rparr>"
proof -
  from assms obtain lt b1 where lt: "map_of (m_stall_msg_map b) a = Some lt"
    and u: "unstall env t lt (b, c) = Inr (b1, c')"
    and b': "b' = b1\<lparr>m_stall_msg_map := filter (\<lambda>e. fst e \<noteq> a) (m_stall_msg_map b1)\<rparr>"
    by (auto simp: reanalyzeMessages_def fault_simps split: option.splits)
  note U = unstall_Inr[OF u]
  obtain h where "b1 = b\<lparr>m_stall_map_size := m_stall_map_size b - int (length lt), m_prio_heap := h\<rparr>"
    using U reinsert_only_heap by blast
  hence "m_stall_msg_map b1 = m_stall_msg_map b" by simp
  thus ?thesis using lt U b' by auto
qed

lemma reanalyzeMessages_ok:
  assumes "reanalyzeMessages env a t (b, c) = Inr (b', c')" "buf_ok b"
  shows "buf_ok b' \<and> held b' = held b"
proof -
  obtain lt b1 where R: "map_of (m_stall_msg_map b) a = Some lt"
    "b1 = reinsert lt (b\<lparr>m_stall_map_size := m_stall_map_size b - int (length lt)\<rparr>)"
    "b' = b1\<lparr>m_stall_msg_map := filter (\<lambda>e. fst e \<noteq> a) (m_stall_msg_map b)\<rparr>"
    using reanalyzeMessages_Inr[OF assms(1)] by blast
  have so: "sorted_wrt (<) (map fst (m_stall_msg_map b))" using assms(2) by (simp add: buf_ok_def)
  hence "sorted_wrt (<) (map fst (filter (\<lambda>e. fst e \<noteq> a) (m_stall_msg_map b)))"
    by (simp add: sorted_wrt_map sorted_wrt_filter)
  from unstalled_ok[OF assms(2) R(2) _ this] map_of_remove[OF so R(1)]
  show ?thesis by (simp add: R(3) stalled_def)
qed

lemma unstall_all_Inr:
  "foldR (\<lambda>e. unstall env t (snd e)) mp (b, c) = Inr (b', c') \<Longrightarrow>
   b' = reinsert (concat (map snd mp))
     (b\<lparr>m_stall_map_size := m_stall_map_size b - int (length (concat (map snd mp)))\<rparr>)"
proof (induction mp arbitrary: b c)
  case Nil
  thus ?case by (simp add: reinsert_def)
next
  case (Cons e mp)
  from Cons.prems obtain b1 c1 where u: "unstall env t (snd e) (b, c) = Inr (b1, c1)"
    and r: "foldR (\<lambda>e. unstall env t (snd e)) mp (b1, c1) = Inr (b', c')"
    by (auto simp: fault_simps)
  have c: "(reinsert lt x)\<lparr>m_stall_map_size := n\<rparr> = reinsert lt (x\<lparr>m_stall_map_size := n\<rparr>)"
    for lt n and x :: "'a MessageBuffer"
  proof (induction lt arbitrary: x)
    case (Cons m lt)
    have "(heap_insert m x)\<lparr>m_stall_map_size := n\<rparr> = heap_insert m (x\<lparr>m_stall_map_size := n\<rparr>)"
      by (simp add: heap_insert_def)
    thus ?case using Cons.IH[of "heap_insert m x"] by (simp add: reinsert_def)
  qed (simp add: reinsert_def)
  obtain h where "b1 = b\<lparr>m_stall_map_size := m_stall_map_size b - int (length (snd e)), m_prio_heap := h\<rparr>"
    using unstall_Inr[OF u] reinsert_only_heap by blast
  hence n: "m_stall_map_size b1 = m_stall_map_size b - int (length (snd e))" by simp
  show ?case
    using Cons.IH[OF r] unfolding n
    by (simp add: unstall_Inr[OF u] c) (simp add: reinsert_def algebra_simps)
qed

lemma reanalyzeAllMessages_ok:
  assumes "reanalyzeAllMessages env t (b, c) = Inr (b', c')" "buf_ok b"
  shows "buf_ok b' \<and> held b' = held b"
proof -
  from assms(1) obtain b1 where
    f: "foldR (\<lambda>e. unstall env t (snd e)) (m_stall_msg_map b) (b, c) = Inr (b1, c')"
    and b': "b' = b1\<lparr>m_stall_msg_map := []\<rparr>"
    by (auto simp: reanalyzeAllMessages_def fault_simps)
  from unstalled_ok[OF assms(2) unstall_all_Inr[OF f], of "[]"]
  show ?thesis by (simp add: b' stalled_def)
qed

section \<open>Histories of a buffer\<close>

datatype 'p buf_op =
    Enqueue draws "'p message" tick tick bool
  | Dequeue tick
  | Recycle tick tick
  | DelayHead draws tick tick
  | Stall nat addr tick
  | Reanalyze addr tick
  | ReanalyzeAll tick
  | IsReady tick
  | Slots nat tick
  | Size tick

fun buf_step :: "ruby_env \<Rightarrow> 'p buf_op \<Rightarrow> 'p buf_state \<Rightarrow> ('p list \<times> 'p buf_state) res" where
  "buf_step env (Enqueue r m t d by) s = bindR (enqueue env r m t d by s) (\<lambda>s. Inr ([], s))"
| "buf_step env (Dequeue t) s =
     bindR (dequeue env t True s) (\<lambda>((_, m, _), s). Inr ([payload m], s))"
| "buf_step env (Recycle t l) s = bindR (recycle env t l s) (\<lambda>s. Inr ([], s))"
| "buf_step env (DelayHead r t d) s = bindR (delayHead env r t d s) (\<lambda>s. Inr ([], s))"
| "buf_step env (Stall bsb a t) s = bindR (stallMessage env bsb a t s) (\<lambda>s. Inr ([], s))"
| "buf_step env (Reanalyze a t) s = bindR (reanalyzeMessages env a t s) (\<lambda>s. Inr ([], s))"
| "buf_step env (ReanalyzeAll t) s = bindR (reanalyzeAllMessages env t s) (\<lambda>s. Inr ([], s))"
| "buf_step env (IsReady t) s = bindR (isReady env t s) (\<lambda>(_, s). Inr ([], s))"
| "buf_step env (Slots n t) (b, c) = Inr ([], (snd (areNSlotsAvailable n t b), c))"
| "buf_step env (Size t) (b, c) = Inr ([], (snd (getSize t b), c))"

fun buf_run :: "(ruby_env \<times> 'p buf_op) list \<Rightarrow> 'p buf_state \<Rightarrow> ('p list \<times> 'p buf_state) res" where
  "buf_run [] s = Inr ([], s)"
| "buf_run ((env, p) # h) s = bindR (buf_step env p s) (\<lambda>(o1, s).
     bindR (buf_run h s) (\<lambda>(o2, s). Inr (o1 @ o2, s)))"

fun op_input :: "'p buf_op \<Rightarrow> 'p list" where
  "op_input (Enqueue r m t d by) = [payload m]"
| "op_input _ = []"

definition inputs :: "(ruby_env \<times> 'p buf_op) list \<Rightarrow> 'p list" where
  "inputs h = concat (map (op_input \<circ> snd) h)"

lemma inputs_simps [simp]: "inputs [] = []" "inputs ((env, p) # h) = op_input p @ inputs h"
  by (simp_all add: inputs_def)

lemma buf_run_Cons:
  "buf_run ((env, p) # h) s = Inr (out, s') \<longleftrightarrow> (\<exists>o1 s1 o2.
     buf_step env p s = Inr (o1, s1) \<and> buf_run h s1 = Inr (o2, s') \<and> out = o1 @ o2)"
  by (cases s') (auto simp: fault_simps)

lemma queries_ok [simp]:
  "buf_ok (snd (areNSlotsAvailable n t b)) = buf_ok b" "held (snd (areNSlotsAvailable n t b)) = held b"
  "buf_ok (snd (getSize t b)) = buf_ok b" "held (snd (getSize t b)) = held b"
  by (simp_all add: areNSlotsAvailable_def getSize_def Let_def buf_ok_def held_def stalled_def
      split: prod.splits)

lemma buf_step_ok:
  assumes "buf_step env p (b, c) = Inr (out, (b', c'))" "buf_ok b"
  shows "buf_ok b' \<and> mset (op_input p) + held b = mset out + held b'"
proof (cases p)
  case (Enqueue r m t d bp)
  thus ?thesis using assms enqueue_ok[of env r m t d bp b c b' c'] by (auto simp: fault_simps)
next
  case (Dequeue t)
  with assms(1) obtain d m cb where
    "dequeue env t True (b, c) = Inr ((d, m, cb), (b', c'))" "out = [payload m]"
    by (auto simp: fault_simps)
  thus ?thesis using dequeue_ok[OF _ assms(2)] Dequeue by auto
next
  case (Recycle t l)
  thus ?thesis using assms recycle_ok[of env t l b c b' c'] by (auto simp: fault_simps)
next
  case (DelayHead r t d)
  thus ?thesis using assms delayHead_ok[of env r t d b c b' c'] by (auto simp: fault_simps)
next
  case (Stall bsb a t)
  thus ?thesis using assms stallMessage_ok[of env bsb a t b c b' c'] by (auto simp: fault_simps)
next
  case (Reanalyze a t)
  thus ?thesis using assms reanalyzeMessages_ok[of env a t b c b' c'] by (auto simp: fault_simps)
next
  case (ReanalyzeAll t)
  thus ?thesis using assms reanalyzeAllMessages_ok[of env t b c b' c'] by (auto simp: fault_simps)
next
  case (IsReady t)
  thus ?thesis using assms isReady_Inr(1)[of env t b c _ b' c'] by (auto simp: fault_simps)
qed (use assms in auto)

lemma buf_run_ok:
  "buf_run h (b, c) = Inr (out, (b', c')) \<Longrightarrow> buf_ok b \<Longrightarrow>
   buf_ok b' \<and> mset (inputs h) + held b = mset out + held b'"
proof (induction h arbitrary: b c out)
  case (Cons ep h)
  obtain env p where ep: "ep = (env, p)" by (cases ep)
  from Cons.prems(1) obtain o1 b1 c1 o2 where
    s: "buf_step env p (b, c) = Inr (o1, (b1, c1))" "buf_run h (b1, c1) = Inr (o2, (b', c'))"
      "out = o1 @ o2"
    unfolding ep buf_run_Cons by auto
  note S = buf_step_ok[OF s(1) Cons.prems(2)]
  from Cons.IH[OF s(2)] S have I: "buf_ok b'" "mset (inputs h) + held b1 = mset o2 + held b'" by auto
  have "mset (inputs (ep # h)) + held b = mset (inputs h) + (mset (op_input p) + held b)"
    by (simp add: ep ac_simps)
  also have "\<dots> = mset o1 + (mset (inputs h) + held b1)"
    using S by (simp only: ac_simps)
  also have "\<dots> = mset out + held b'" unfolding I(2) s(3) by (simp only: mset_append ac_simps)
  finally show ?case using I(1) by simp
qed simp

definition new_buffer :: "bool \<Rightarrow> nat \<Rightarrow> MessageRandomization \<Rightarrow> bool \<Rightarrow> nat \<Rightarrow> int \<Rightarrow> 'p MessageBuffer" where
  "new_buffer ordered buffer_size rand zero rate prio =
     (case setConsumer (MessageBuffer_new ordered buffer_size rand zero rate prio) of
        Inr b \<Rightarrow> b | Inl _ \<Rightarrow> MessageBuffer_new ordered buffer_size rand zero rate prio)"

lemma new_buffer_ok [invar_intros]:
  "buf_ok (new_buffer o' n r z q p)" "held (new_buffer o' n r z q p) = {#}"
  by (simp_all add: new_buffer_def setConsumer_def MessageBuffer_new_def buf_ok_def held_def
      stalled_def heap_def)

text \<open>
  C12. No message is lost or duplicated, and none overtakes a message that is due before it: after any
  history of enqueues, dequeues, recycles, stalls, reanalyses and queries on a new buffer, the
  messages put in are those taken out together with those in the heap and those stalled; the
  counter of stalled messages that the capacity check uses is exact; and the message at the front
  is the earliest one in the heap in the order of the messages.
\<close>
theorem buffer_conserves_messages:
  assumes "buf_run h (new_buffer ordered cap rand zero rate prio, c0) = Inr (out, (b, c))"
  shows "mset (inputs h) = mset out + held b \<and>
    m_stall_map_size b = int (length (stalled b)) \<and>
    (\<forall>m \<in> set (m_prio_heap b). \<forall>f. peek b = Inr f \<longrightarrow> \<not> msg_greater f m)"
proof -
  note r = buf_run_ok[OF assms new_buffer_ok(1)]
  have "\<not> msg_greater f m" if "peek b = Inr f" "m \<in> set (m_prio_heap b)" for f m
    using that std_heap.front_least[OF buf_ok_heap, of b m] r
    by (simp add: peek_Inr msg_greater_key not_less)
  thus ?thesis using r by (simp add: new_buffer_ok buf_ok_def)
qed

text \<open>Small heaps, for evaluation.\<close>

lemma small_heaps:
  "heap_push key x [] = [x]"
  "heap_push key y [x] = (if key y < key x then [y, x] else [x, y])"
  "heap_pop key [x] = []" "heap_pop key [x, y] = [y]"
proof -
  have s0: "sift_up key (z # zs) 0 v = v # zs" for z v :: 'a and zs
    by (subst sift_up.simps) simp
  have s1: "sift_up key [x, y] 1 y = (if key y < key x then [y, x] else [x, y])"
    by (subst sift_up.simps) (simp add: s0)
  have d: "sift_down key [x, x] 1 0 = ([x, x], 0)" by (subst sift_down.simps) simp
  show "heap_push key x [] = [x]" by (simp add: heap_push_def push_heap_def s0)
  show "heap_push key y [x] = (if key y < key x then [y, x] else [x, y])"
    using s1 by (simp add: heap_push_def push_heap_def)
  show "heap_pop key [x] = []" by (simp add: heap_pop_def pop_heap_def)
  show "heap_pop key [x, y] = [y]"
    using d by (simp add: heap_pop_def pop_heap_def s0)
qed

definition sim0 :: "tick \<Rightarrow> ruby_env" where
  "sim0 t = \<lparr>rs_sim = demo_env t, rs_randomization = False, rs_warmup_enabled = False\<rparr>"

definition msg0 :: "'p \<Rightarrow> 'p message" where
  "msg0 p = Message_new 0 0 p 0"

definition demo_history :: "(ruby_env \<times> nat buf_op) list" where
  "demo_history =
     [(sim0 0, Enqueue (0, 1, 1) (msg0 7) 0 500 False), (sim0 0, Slots 1 0),
      (sim0 0, Enqueue (0, 1, 1) (msg0 8) 0 500 False),
      (sim0 500, Dequeue 500)]"

lemmas buf_eval = sim0_def msg0_def Message_new_def new_buffer_def setConsumer_def
  MessageBuffer_new_def enqueue_def count_enqueue_def arrival_def randomized_def fifo_violated_def
  note_arrival_def updateDelayedTicks_def heap_insert_def small_heaps within_size_def notify_def
  dequeue_def isReady_def peek_def record_pop_def heap_remove_def count_dequeue_def
  areNSlotsAvailable_def getSize_def visible_size_def uint32_def msg_key_def demo_simps
  insort_insert_key_def

lemma demo_history_run:
  "\<exists>b c. buf_run demo_history (new_buffer True 2 rnd_disabled False 0 0, Consumer_new Clocked_new) =
     Inr ([7], (b, c)) \<and> map payload (m_prio_heap b) = [8] \<and> m_stall_msg_map b = []"
  by (simp add: demo_history_def buf_eval)

theorem buffer_conserves_messages_witness:
  "\<exists>b c. buf_run demo_history (new_buffer True 2 rnd_disabled False 0 0, Consumer_new Clocked_new) =
     Inr ([7], (b, c)) \<and> mset (inputs demo_history) = {#7#} + held b"
proof -
  obtain b c where r:
    "buf_run demo_history (new_buffer True 2 rnd_disabled False 0 0, Consumer_new Clocked_new) =
     Inr ([7], (b, c))" using demo_history_run by blast
  from buffer_conserves_messages[OF r] r show ?thesis by auto
qed

end
