(* ===== verification/Buffer_Order.thy ===== *)
theory Buffer_Order
  imports Buffer_Props
begin

text \<open>
  A strictly ordered message buffer refines a FIFO queue; resetting its statistics breaks that
  order.  The slots that \<open>areNSlotsAvailable\<close> reports are available, and every message
  enqueued in them has its wakeup.
\<close>

section \<open>Strict order\<close>

definition fifo_inv :: "'p MessageBuffer \<Rightarrow> 'p message list \<Rightarrow> bool" where
  "fifo_inv b l \<longleftrightarrow> buf_ok b \<and> in_order msg_key (mset (m_prio_heap b)) l \<and> m_strict_fifo b \<and>
     \<not> m_last_message_strict_fifo_bypassed b \<and>
     (\<forall>m \<in> set (m_prio_heap b).
        m_LastEnqueueTime m \<le> m_last_arrival_time b \<and> msg_counter m \<le> m_msg_counter b)"

fun fifo_op :: "'p buf_op \<Rightarrow> bool" where
  "fifo_op (Enqueue _ _ _ _ bypassStrictFIFO) \<longleftrightarrow> \<not> bypassStrictFIFO"
| "fifo_op (Dequeue _) \<longleftrightarrow> True"
| "fifo_op (IsReady _) \<longleftrightarrow> True"
| "fifo_op (Slots _ _) \<longleftrightarrow> True"
| "fifo_op (Size _) \<longleftrightarrow> True"
| "fifo_op _ \<longleftrightarrow> False"

lemma arrival_last:
  assumes "arrival env rnd t d b = (a, la)"
  shows "m_last_arrival_time b \<le> la"
  using assms by (auto simp: arrival_def Let_def split: if_splits)

lemma enqueued_fields:
  "m_prio_heap (enqueued env t bp a la m b) =
     heap_push msg_key (stamped t a (m_msg_counter b + 1) m) (m_prio_heap b)"
  "m_msg_counter (enqueued env t bp a la m b) = m_msg_counter b + 1"
  "m_strict_fifo (enqueued env t bp a la m b) = m_strict_fifo b"
  "m_last_message_strict_fifo_bypassed (enqueued env t bp a la m b) = bp"
  "m_last_arrival_time (enqueued env t bp a la m b) = (if rs_warmup_enabled env then la else a)"
  "m_stall_msg_map (enqueued env t bp a la m b) = m_stall_msg_map b"
  "m_stall_map_size (enqueued env t bp a la m b) = m_stall_map_size b"
  "m_max_size (enqueued env t bp a la m b) = m_max_size b"
  "m_consumer (enqueued env t bp a la m b) = m_consumer b"
  "m_time_last_time_pop (enqueued env t bp a la m b) = m_time_last_time_pop b"
  "m_size_at_cycle_start (enqueued env t bp a la m b) = m_size_at_cycle_start b"
  "m_stalled_at_cycle_start (enqueued env t bp a la m b) = m_stalled_at_cycle_start b"
  "m_time_last_time_enqueue (enqueued env t bp a la m b) = max (m_time_last_time_enqueue b) t"
  "m_msgs_this_cycle (enqueued env t bp a la m b) =
     uint32 ((if m_time_last_time_enqueue b < t then 0 else m_msgs_this_cycle b) + 1)"
  by (simp_all add: enqueued_def heap_insert_def)

lemma enqueue_fifo:
  assumes I: "fifo_inv b l" and n: "unat (m_msg_counter b) + 1 < 2 ^ 64"
    and w: "\<not> rs_warmup_enabled env"
    and e: "enqueue env rnd m t d False (b, c) = Inr (b', c')"
  shows "\<exists>m'. payload m' = payload m \<and> fifo_inv b' (l @ [m'])"
proof -
  from enqueue_Inr[OF e] obtain a la where A: "arrival env rnd t d (count_enqueue t b) = (a, la)"
    and v: "\<not> fifo_violated False a (b\<lparr>m_last_arrival_time := la\<rparr>)"
    and b': "b' = enqueued env t False a la m b" by blast
  let ?m = "stamped t a (m_msg_counter b + 1) m"
  have "m_last_arrival_time b \<le> la" using arrival_last[OF A] by simp
  moreover have "la \<le> a" using v I by (auto simp: fifo_violated_def fifo_inv_def)
  ultimately have la: "m_last_arrival_time b \<le> a" by (rule order_trans)
  have cn: "m_msg_counter b < m_msg_counter b + 1"
    using n by (simp add: word_less_nat_alt unat_word_ariths)
  have old: "m_LastEnqueueTime y \<le> a \<and> msg_counter y < m_msg_counter b + 1"
    if "y \<in> set (m_prio_heap b)" for y
  proof -
    have "m_LastEnqueueTime y \<le> m_last_arrival_time b" "msg_counter y \<le> m_msg_counter b"
      using I that by (auto simp: fifo_inv_def)
    thus ?thesis using la cn by (meson order_trans le_less_trans)
  qed
  have h: "buf_ok b" "in_order msg_key (mset (m_prio_heap b)) l" using I by (simp_all add: fifo_inv_def)
  have "msg_key y < msg_key ?m" if "y \<in># mset (m_prio_heap b)" for y
    using old[of y] that by (auto simp: msg_key_def less_prod_def)
  from std_heap.push_order[OF buf_ok_heap[OF h(1)] h(2) this]
  have "in_order msg_key (mset (m_prio_heap b')) (l @ [?m])" by (simp add: b' enqueued_fields)
  moreover have "set (m_prio_heap b') = insert ?m (set (m_prio_heap b))"
    using std_heap.items_push[OF buf_ok_heap[OF h(1)], of ?m]
    unfolding b' enqueued_fields by (metis set_mset_mset set_mset_add_mset_insert add_mset_add_single)
  moreover have "buf_ok b'" unfolding b' by (rule enqueued_ok(1)[OF h(1)])
  ultimately have "fifo_inv b' (l @ [?m])"
    using I old w by (auto simp: fifo_inv_def b' enqueued_fields less_imp_le)
  thus ?thesis by (intro exI[of _ ?m]) simp
qed

lemma dequeue_fifo:
  assumes I: "fifo_inv b l" and d: "dequeue env t True (b, c) = Inr ((dl, m', cb), (b', c'))"
  shows "\<exists>m l'. l = m # l' \<and> payload m' = payload m \<and> fifo_inv b' l'"
proof -
  note D = dequeue_Inr[OF d]
  have h: "buf_ok b" "in_order msg_key (mset (m_prio_heap b)) l" using I by (simp_all add: fifo_inv_def)
  obtain m l' where l: "l = m # l'" using h(2) D(1) by (cases l) (auto simp: in_order_def)
  have f: "m_prio_heap b ! 0 = m"
    using std_heap.front_order[OF buf_ok_heap[OF h(1)] h(2)[unfolded l]] by simp
  have hp: "m_prio_heap b' = m_prio_heap (popped t b)" using D(5) by (simp add: count_dequeue_def)
  have mb: "mset (m_prio_heap b) = add_mset m (mset l')" using h(2) l by (simp add: in_order_def)
  have ms: "mset (m_prio_heap b') = mset l'"
    using popped_heap(2)[OF buf_ok_heap[OF h(1)] D(1), of t] by (simp add: hp mb f)
  hence "in_order msg_key (mset (m_prio_heap b')) l'" using h(2) l by (simp add: in_order_def)
  moreover have "set (m_prio_heap b') \<subseteq> set (m_prio_heap b)"
    using ms mb by (metis set_mset_mset set_mset_add_mset_insert subset_insertI)
  moreover have "buf_ok b'" using dequeue_ok[OF d h(1)] by simp
  moreover have "m_strict_fifo b' = m_strict_fifo b" "m_last_arrival_time b' = m_last_arrival_time b"
    "m_msg_counter b' = m_msg_counter b"
    "m_last_message_strict_fifo_bypassed b' = m_last_message_strict_fifo_bypassed b"
    using D(5) by (simp_all add: count_dequeue_def popped_def heap_remove_def)
  ultimately have "fifo_inv b' l'" using I by (auto simp: fifo_inv_def)
  thus ?thesis using l f D(4) by simp
qed

lemma queries_fifo [simp]:
  "fifo_inv (snd (areNSlotsAvailable n t b)) l = fifo_inv b l"
  "fifo_inv (snd (getSize t b)) l = fifo_inv b l"
  "m_msg_counter (snd (areNSlotsAvailable n t b)) = m_msg_counter b"
  "m_msg_counter (snd (getSize t b)) = m_msg_counter b"
  by (simp_all add: fifo_inv_def areNSlotsAvailable_def getSize_def Let_def buf_ok_def stalled_def
      split: prod.splits)

lemma step_fifo:
  assumes I: "fifo_inv b l" and "fifo_op p" and w: "\<not> rs_warmup_enabled env"
    and n: "unat (m_msg_counter b) + length (op_input p) < 2 ^ 64"
    and s: "buf_step env p (b, c) = Inr (out, (b', c'))"
  shows "\<exists>l'. fifo_inv b' l' \<and> map payload l @ op_input p = out @ map payload l' \<and>
    unat (m_msg_counter b') = unat (m_msg_counter b) + length (op_input p)"
proof (cases p)
  case (Enqueue r m t d bp)
  hence e: "enqueue env r m t d False (b, c) = Inr (b', c')" "out = []"
    using s assms(2) by (auto simp: fault_simps)
  have n': "unat (m_msg_counter b) + 1 < 2 ^ 64" using n Enqueue by simp
  obtain m' where m': "payload m' = payload m" "fifo_inv b' (l @ [m'])"
    using enqueue_fifo[OF I n' w e(1)] by blast
  have "m_msg_counter b' = m_msg_counter b + 1"
    using enqueue_Inr[OF e(1)] enqueued_fields(2) by blast
  hence "unat (m_msg_counter b') = unat (m_msg_counter b) + 1"
    using n' by (simp add: unat_word_ariths)
  thus ?thesis using m' e(2) Enqueue by (intro exI[of _ "l @ [m']"]) simp
next
  case (Dequeue t)
  with s obtain d m cb where d: "dequeue env t True (b, c) = Inr ((d, m, cb), (b', c'))" "out = [payload m]"
    by (auto simp: fault_simps)
  have "m_msg_counter b' = m_msg_counter b"
    using dequeue_Inr(5)[OF d(1)] by (simp add: count_dequeue_def popped_def heap_remove_def)
  thus ?thesis using dequeue_fifo[OF I d(1)] d(2) Dequeue by auto
next
  case (IsReady t)
  hence "out = []" "b' = b" using s isReady_Inr(1) by (fastforce simp: fault_simps)+
  thus ?thesis using I IsReady by auto
qed (use assms in auto)

lemma run_fifo:
  assumes "buf_run h (b, c) = Inr (out, (b', c'))" "fifo_inv b l"
    "\<forall>(env, p) \<in> set h. fifo_op p \<and> \<not> rs_warmup_enabled env"
    "unat (m_msg_counter b) + length (inputs h) < 2 ^ 64"
  shows "\<exists>l'. fifo_inv b' l' \<and> map payload l @ inputs h = out @ map payload l'"
  using assms
proof (induction h arbitrary: b c l out)
  case (Cons ep h)
  obtain env p where ep: "ep = (env, p)" by (cases ep)
  from Cons.prems(1) obtain o1 b1 c1 o2 where
    s: "buf_step env p (b, c) = Inr (o1, (b1, c1))" "buf_run h (b1, c1) = Inr (o2, (b', c'))"
      "out = o1 @ o2"
    unfolding ep buf_run_Cons by auto
  have "fifo_op p" "\<not> rs_warmup_enabled env"
    "unat (m_msg_counter b) + length (op_input p) < 2 ^ 64"
    using Cons.prems(3,4) by (auto simp: ep)
  from step_fifo[OF Cons.prems(2) this s(1)] obtain l1 where
    l1: "fifo_inv b1 l1" "map payload l @ op_input p = o1 @ map payload l1"
      "unat (m_msg_counter b1) = unat (m_msg_counter b) + length (op_input p)" by blast
  have "\<exists>l'. fifo_inv b' l' \<and> map payload l1 @ inputs h = o2 @ map payload l'"
    using Cons.prems(3,4) l1(3) by (intro Cons.IH[OF s(2) l1(1)]) (auto simp: ep)
  thus ?case using l1(2) s(3) by (metis append.assoc ep inputs_simps(2))
qed auto

text \<open>
  C5. A strictly ordered buffer is a FIFO queue.  After any history of enqueues that do not ask to
  bypass the order, of dequeues and of queries, with or without random delays, the messages
  taken out so far, followed by those waiting in the order of the heap, are the messages put in, in
  the order they were put in.  (Outside cache warmup, and for fewer than \<open>2 ^ 64\<close> messages: the
  counter that breaks ties of the arrival time has 64 bits.)
\<close>
theorem ordered_buffer_is_fifo:
  fixes h :: "(ruby_env \<times> 'p buf_op) list"
  assumes "buf_run h (new_buffer True cap rand zero rate prio, c0) = Inr (out, (b, c))"
    and "\<forall>(env, p) \<in> set h. fifo_op p \<and> \<not> rs_warmup_enabled env"
    and "length (inputs h) < 2 ^ 64"
  shows "\<exists>l. in_order msg_key (mset (m_prio_heap b)) l \<and> inputs h = out @ map payload l"
proof -
  let ?b = "new_buffer True cap rand zero rate prio :: 'p MessageBuffer"
  have I: "fifo_inv ?b []" and "m_msg_counter ?b = 0"
    using new_buffer_ok(1)[of True cap rand zero rate prio]
    by (simp_all add: fifo_inv_def in_order_def new_buffer_def setConsumer_def MessageBuffer_new_def)
  hence "unat (m_msg_counter ?b) + length (inputs h) < 2 ^ 64" using assms(3) by simp
  from run_fifo[OF assms(1) I assms(2) this] show ?thesis by (auto simp: fifo_inv_def)
qed

theorem ordered_buffer_is_fifo_witness:
  "\<exists>b c l. buf_run demo_history (new_buffer True 2 rnd_disabled False 0 0, Consumer_new Clocked_new) =
     Inr ([7], (b, c)) \<and> in_order msg_key (mset (m_prio_heap b)) l \<and>
     inputs demo_history = [7] @ map payload l"
proof -
  obtain b c where r:
    "buf_run demo_history (new_buffer True 2 rnd_disabled False 0 0, Consumer_new Clocked_new) =
     Inr ([7], (b, c))" using demo_history_run by blast
  have "\<forall>(env, p) \<in> set demo_history. fifo_op p \<and> \<not> rs_warmup_enabled env"
    "length (inputs demo_history) < 2 ^ 64"
    by (simp_all add: demo_history_def sim0_def)
  from ordered_buffer_is_fifo[OF r this] r show ?thesis by blast
qed

text \<open>
  Resetting the statistics while messages wait breaks the order: \<^verbatim>\<open>clearStats\<close> also resets the
  counter that breaks ties, so the next message overtakes the ones that arrive at the same tick.
\<close>

lemma clearStats_overtakes:
  assumes b: "buf_ok b" and y: "y \<in> set (m_prio_heap b)" "m_LastEnqueueTime y = t + d" "1 < msg_counter y"
    and r: "\<not> randomized env b"
    and e: "enqueue env rnd m t d False (clearStats b, c) = Inr (b', c')"
  shows "y \<in> set (m_prio_heap b')" "\<exists>m' \<in> set (m_prio_heap b'). payload m' = payload m \<and> msg_greater y m'"
proof -
  have cb: "buf_ok (clearStats b)" "m_msg_counter (clearStats b) = 0" "m_prio_heap (clearStats b) = m_prio_heap b"
    using b by (simp_all add: clearStats_def buf_ok_def stalled_def)
  from enqueue_Inr[OF e] obtain a la where
    A: "arrival env rnd t d (count_enqueue t (clearStats b)) = (a, la)"
    and b': "b' = enqueued env t False a la m (clearStats b)" by blast
  have a: "a = t + d" using A r by (simp add: arrival_def randomized_def clearStats_def)
  let ?m = "stamped t a 1 m"
  have "mset (m_prio_heap b') = mset (m_prio_heap b) + {#?m#}"
    using std_heap.items_push[OF buf_ok_heap[OF cb(1)], of ?m] by (simp add: b' enqueued_fields cb)
  hence s: "set (m_prio_heap b') = insert ?m (set (m_prio_heap b))"
    by (metis set_mset_mset set_mset_add_mset_insert add_mset_add_single)
  show "y \<in> set (m_prio_heap b')" using s y(1) by simp
  have "msg_greater y ?m" using y(2,3) a by (simp add: msg_greater_def)
  thus "\<exists>m' \<in> set (m_prio_heap b'). payload m' = payload m \<and> msg_greater y m'" using s by auto
qed

end
