(* ===== verification/Buffer_Slots.thy ===== *)
theory Buffer_Slots
  imports Buffer_Order
begin

text \<open>
  Flow control of the message buffers.  Within one cycle dequeues do not free slots but enqueues
  take them; \<open>areNSlotsAvailable\<close> reconstructs that view from the sizes recorded at the first
  dequeue of the cycle.  The invariant \<open>slots_inv\<close> relates the recorded numbers to the messages
  held, and shows that a slot that is reported can be filled.
\<close>

section \<open>Bookkeeping of a cycle\<close>

definition total_msgs :: "'p MessageBuffer \<Rightarrow> nat" where
  "total_msgs b = length (m_prio_heap b) + length (stalled b)"

definition static :: "'p MessageBuffer \<Rightarrow> nat \<times> bool \<times> bool \<times> MessageRandomization" where
  "static b = (m_max_size b, m_consumer b, m_strict_fifo b, m_randomization b)"

definition book :: "'p MessageBuffer \<Rightarrow> (nat \<times> bool \<times> bool \<times> MessageRandomization) \<times>
    nat \<times> nat \<times> nat \<times> tick \<times> tick" where
  "book b = (static b, m_size_at_cycle_start b, m_stalled_at_cycle_start b,
     m_msgs_this_cycle b, m_time_last_time_enqueue b, m_time_last_time_pop b)"

definition slots_inv :: "nat \<Rightarrow> 'p MessageBuffer \<Rightarrow> bool" where
  "slots_inv k b \<longleftrightarrow> buf_ok b \<and> 0 < m_max_size b \<and> total_msgs b \<le> m_max_size b \<and>
     m_size_at_cycle_start b + m_stalled_at_cycle_start b \<le> m_max_size b \<and>
     m_msgs_this_cycle b \<le> k \<and>
     (m_time_last_time_pop b = 0 \<or> m_time_last_time_pop b < m_time_last_time_enqueue b \<or>
      total_msgs b \<le> m_size_at_cycle_start b + m_stalled_at_cycle_start b +
        (if m_time_last_time_enqueue b = m_time_last_time_pop b then m_msgs_this_cycle b else 0))"

definition on_time :: "tick \<Rightarrow> 'p MessageBuffer \<Rightarrow> bool" where
  "on_time t b \<longleftrightarrow> m_time_last_time_enqueue b \<le> t \<and> m_time_last_time_pop b \<le> t"

fun op_time :: "'p buf_op \<Rightarrow> tick" where
  "op_time (Enqueue _ _ t _ _) = t"
| "op_time (Dequeue t) = t"
| "op_time (Recycle t _) = t"
| "op_time (DelayHead _ t _) = t"
| "op_time (Stall _ _ t) = t"
| "op_time (Reanalyze _ t) = t"
| "op_time (ReanalyzeAll t) = t"
| "op_time (IsReady t) = t"
| "op_time (Slots _ t) = t"
| "op_time (Size t) = t"

lemma total_held: "total_msgs b = size (held b)"
  by (simp add: total_msgs_def held_def)

lemma slots_inv_cong:
  assumes "slots_inv k b" "book b' = book b" "buf_ok b'" "total_msgs b' \<le> total_msgs b" "k \<le> k'"
  shows "slots_inv k' b'"
  using assms unfolding slots_inv_def book_def static_def prod.inject by (elim conjE) (auto split: if_splits)

lemma on_time_cong: "book b' = book b \<Longrightarrow> on_time t b' = on_time t b"
  by (simp add: book_def on_time_def)

lemma uint32_small [simp]: "n < 2 ^ 32 \<Longrightarrow> uint32 n = n"
  by (simp add: uint32_def)

lemma slots_inv_enqueued:
  assumes I: "slots_inv k b" and o: "on_time t b" and k: "m_max_size b + (k + 1) < 2 ^ 32"
    and w: "within_size (enqueued env t bp a la m b)"
  shows "slots_inv (k + 1) (enqueued env t bp a la m b) \<and> on_time t (enqueued env t bp a la m b)"
proof -
  let ?b = "enqueued env t bp a la m b"
  have b: "buf_ok b" using I by (simp add: slots_inv_def)
  note e = enqueued_ok[OF b, of env t bp a la m]
  have tot: "total_msgs ?b = total_msgs b + 1" unfolding total_held e(2) by simp
  have "m_stall_map_size ?b = int (length (stalled ?b))" using e(1) by (simp add: buf_ok_def)
  hence "int (length (m_prio_heap ?b)) + m_stall_map_size ?b = int (total_msgs ?b)"
    by (simp add: total_msgs_def)
  moreover have "total_msgs ?b < 2 ^ 64" using I k tot by (simp add: slots_inv_def)
  ultimately have cap: "total_msgs ?b \<le> m_max_size ?b"
    using w I by (auto simp: within_size_def slots_inv_def enqueued_fields)
  have m: "m_msgs_this_cycle ?b =
      (if m_time_last_time_enqueue b < t then 0 else m_msgs_this_cycle b) + 1"
    "m_msgs_this_cycle ?b \<le> k + 1"
    using I k by (auto simp: enqueued_fields slots_inv_def)
  have enq: "m_time_last_time_enqueue ?b = t" using o by (simp add: enqueued_fields on_time_def)
  have "m_time_last_time_pop b = 0 \<or> m_time_last_time_pop b < t \<or>
      total_msgs b + 1 \<le> m_size_at_cycle_start b + m_stalled_at_cycle_start b + m_msgs_this_cycle ?b"
  proof (cases "m_time_last_time_pop b = 0 \<or> m_time_last_time_pop b < t")
    case False
    hence p: "m_time_last_time_pop b = t" using o by (auto simp: on_time_def)
    show ?thesis using I o False unfolding m(1) by (auto simp: slots_inv_def on_time_def p split: if_splits)
  qed auto
  thus ?thesis
    using e(1) cap m(2) tot enq I o
    by (auto simp: slots_inv_def on_time_def enqueued_fields(8,10,11,12))
qed

lemma slots_inv_popped:
  assumes I: "slots_inv k b" and o: "on_time t b" and k: "m_max_size b < 2 ^ 32"
    and x: "book x = book (popped t b)" "buf_ok x" "total_msgs x \<le> total_msgs b"
  shows "slots_inv k x \<and> on_time t x \<and> static x = static b"
proof -
  let ?b = "popped t b"
  have sx: "static x = static b" using x(1) by (simp add: book_def static_def popped_def heap_remove_def)
  have bk: "m_max_size ?b = m_max_size b" "m_msgs_this_cycle ?b = m_msgs_this_cycle b"
    "m_time_last_time_enqueue ?b = m_time_last_time_enqueue b" "m_time_last_time_pop ?b = t"
    using o by (simp_all add: popped_def heap_remove_def on_time_def max_def)
  have small: "length (m_prio_heap b) + length (stalled b) < 2 ^ 32"
    "m_stall_map_size b = int (length (stalled b))"
    using I k by (auto simp: slots_inv_def total_msgs_def buf_ok_def)
  have sz: "m_size_at_cycle_start ?b + m_stalled_at_cycle_start ?b =
      (if m_time_last_time_pop b < t then total_msgs b
       else m_size_at_cycle_start b + m_stalled_at_cycle_start b)"
    using small by (simp add: popped_def heap_remove_def total_msgs_def)
  have xf: "m_max_size x = m_max_size b" "m_msgs_this_cycle x = m_msgs_this_cycle b"
    "m_time_last_time_enqueue x = m_time_last_time_enqueue b" "m_time_last_time_pop x = t"
    "m_size_at_cycle_start x + m_stalled_at_cycle_start x =
      (if m_time_last_time_pop b < t then total_msgs b
       else m_size_at_cycle_start b + m_stalled_at_cycle_start b)"
    using x(1) bk sz by (simp_all add: book_def static_def)
  show ?thesis
    using I o x(2,3) xf sx by (auto simp: slots_inv_def on_time_def split: if_splits)
qed

lemma slots_same:
  assumes "slots_inv k b" "on_time t b" "book b' = book b" "buf_ok b' \<and> held b' = held b"
  shows "slots_inv (k + 1) b' \<and> on_time t b'"
  using assms slots_inv_cong[of k b b' "k + 1"] on_time_cong[of b' b t] by (simp add: total_held)

lemma enqueued_static: "static (enqueued env t bp a la m b) = static b"
  by (simp add: static_def enqueued_def heap_insert_def note_arrival_def Let_def)

lemma slots_enqueue:
  assumes "enqueue env r m t d bp (b, c) = Inr (b', c')" "slots_inv k b" "on_time t b"
    "m_max_size b + (k + 1) < 2 ^ 32"
  shows "slots_inv (k + 1) b' \<and> on_time t b' \<and> static b' = static b"
  using enqueue_Inr[OF assms(1)] slots_inv_enqueued[OF assms(2-4)] enqueued_static by blast

lemma heap_remove_book [simp]: "book (heap_remove b) = book b"
  by (simp add: book_def static_def heap_remove_def)

lemma heap_insert_book [simp]: "book (heap_insert m b) = book b"
  by (simp add: book_def static_def heap_insert_def)

lemma reinsert_book: "book (reinsert lt b) = book b"
  by (induction lt arbitrary: b) (simp_all add: reinsert_def)

lemma unstalled_book:
  "book ((reinsert lt (b\<lparr>m_stall_map_size := n\<rparr>))\<lparr>m_stall_msg_map := mp\<rparr>) = book b"
proof -
  have "book (x\<lparr>m_stall_msg_map := mp\<rparr>) = book x" "book (x\<lparr>m_stall_map_size := n\<rparr>) = book x"
    for x :: "'a MessageBuffer" by (simp_all add: book_def static_def)
  thus ?thesis by (simp add: reinsert_book)
qed

lemma queries_book [simp]:
  "book (snd (areNSlotsAvailable n t b)) = book b" "book (snd (getSize t b)) = book b"
  by (simp_all add: areNSlotsAvailable_def getSize_def Let_def book_def static_def split: prod.splits)

lemma slots_step:
  assumes I: "slots_inv k b" and o: "on_time (op_time p) b" and K: "m_max_size b + (k + 1) < 2 ^ 32"
    and s: "buf_step env p (b, c) = Inr (out, (b', c'))"
  shows "slots_inv (k + 1) b' \<and> on_time (op_time p) b' \<and> static b' = static b"
proof -
  have ok: "buf_ok b" using I by (simp add: slots_inv_def)
  have same: "slots_inv (k + 1) b' \<and> on_time (op_time p) b' \<and> static b' = static b"
    if "book b' = book b" "buf_ok b' \<and> held b' = held b"
    using slots_same[OF I o that] that(1) by (simp add: book_def)
  have mono: "slots_inv (k + 1) x" if "slots_inv k x" for x :: "'a MessageBuffer"
    using that by (simp add: slots_inv_def)
  have K': "m_max_size b < 2 ^ 32" using K by simp
  show ?thesis
  proof (cases p)
    case (Enqueue r m t d bp)
    hence e: "enqueue env r m t d bp (b, c) = Inr (b', c')" using s by (auto simp: fault_simps)
    show ?thesis using slots_enqueue[OF e I _ K] o Enqueue by simp
  next
    case (Dequeue t)
    with s obtain dl m cb where d: "dequeue env t True (b, c) = Inr ((dl, m, cb), (b', c'))"
      by (auto simp: fault_simps)
    have "book b' = book (popped t b)" using dequeue_Inr(5)[OF d] by (simp add: count_dequeue_def book_def static_def)
    moreover have "total_msgs b' \<le> total_msgs b" using dequeue_ok[OF d ok] by (simp add: total_held)
    ultimately show ?thesis
      using slots_inv_popped[OF I _ K', of t b'] dequeue_ok[OF d ok] o mono Dequeue by simp
  next
    case (Stall bsb a t)
    hence r: "stallMessage env bsb a t (b, c) = Inr (b', c')" using s by (auto simp: fault_simps)
    have "book b' = book (popped t b)" using stallMessage_Inr(4)[OF r] by (simp add: book_def static_def)
    moreover have "total_msgs b' \<le> total_msgs b" using stallMessage_ok[OF r ok] by (simp add: total_held)
    ultimately show ?thesis
      using slots_inv_popped[OF I _ K', of t b'] stallMessage_ok[OF r ok] o mono Stall by simp
  next
    case (DelayHead r t d)
    hence e: "enqueue env r (m_prio_heap b ! 0) t d False (heap_remove b, c) = Inr (b', c')"
      and ne: "m_prio_heap b \<noteq> []"
      using s by (auto simp: delayHead_def fault_simps peek_Inr)
    note h = heap_remove_ok[OF ok ne]
    have mx: "m_max_size (heap_remove b) = m_max_size b" "static (heap_remove b) = static b"
      by (simp_all add: heap_remove_def static_def)
    have "total_msgs (heap_remove b) \<le> total_msgs b" unfolding total_held h(2)[symmetric] by simp
    hence "slots_inv k (heap_remove b)" using slots_inv_cong[OF I _ h(1)] by simp
    moreover have "on_time t (heap_remove b)" using o DelayHead on_time_cong[of "heap_remove b" b] by simp
    ultimately show ?thesis using slots_enqueue[OF e] K mx DelayHead by simp
  next
    case (ReanalyzeAll t)
    hence r: "reanalyzeAllMessages env t (b, c) = Inr (b', c')" using s by (auto simp: fault_simps)
    then obtain b1 where
      f: "foldR (\<lambda>e. unstall env t (snd e)) (m_stall_msg_map b) (b, c) = Inr (b1, c')"
      and b': "b' = b1\<lparr>m_stall_msg_map := []\<rparr>"
      by (auto simp: reanalyzeAllMessages_def fault_simps)
    have "book b' = book b" unfolding b' unstall_all_Inr[OF f] by (rule unstalled_book)
    thus ?thesis using same reanalyzeAllMessages_ok[OF r ok] by blast
  next
    case (Recycle t l)
    hence r: "recycle env t l (b, c) = Inr (b', c')" using s by (auto simp: fault_simps)
    hence "\<exists>m. b' = heap_insert m (heap_remove b)"
      unfolding recycle_def by (auto simp: fault_simps Let_def peek_Inr notify_Inr dest: isReady_Inr(1))
    thus ?thesis using same recycle_ok[OF r ok] by auto
  next
    case (Reanalyze a t)
    hence r: "reanalyzeMessages env a t (b, c) = Inr (b', c')" using s by (auto simp: fault_simps)
    have "book b' = book b" using reanalyzeMessages_Inr[OF r] unstalled_book by blast
    thus ?thesis using same reanalyzeMessages_ok[OF r ok] by blast
  next
    case (IsReady t)
    thus ?thesis using s isReady_Inr(1)[of env t b c _ b' c'] same ok by (auto simp: fault_simps)
  next
    case (Slots n t)
    hence "b' = snd (areNSlotsAvailable n t b)" using s by simp
    thus ?thesis using same ok by simp
  next
    case (Size t)
    hence "b' = snd (getSize t b)" using s by simp
    thus ?thesis using same ok by simp
  qed
qed

lemma slots_run:
  assumes "buf_run h (b, c) = Inr (out, (b', c'))" "slots_inv k b"
    "sorted (map (op_time \<circ> snd) h @ [t])" "\<forall>x \<in> set (map (op_time \<circ> snd) h @ [t]). on_time x b"
    "m_max_size b + (k + length h) < 2 ^ 32"
  shows "slots_inv (k + length h) b' \<and> on_time t b' \<and> static b' = static b"
  using assms
proof (induction h arbitrary: b c k out)
  case (Cons ep h)
  obtain env p where ep: "ep = (env, p)" by (cases ep)
  from Cons.prems(1) obtain o1 b1 c1 o2 where
    s: "buf_step env p (b, c) = Inr (o1, (b1, c1))" "buf_run h (b1, c1) = Inr (o2, (b', c'))"
    unfolding ep buf_run_Cons by auto
  have "on_time (op_time p) b" "m_max_size b + (k + 1) < 2 ^ 32"
    using Cons.prems(4,5) by (simp_all add: ep)
  from slots_step[OF Cons.prems(2) this s(1)]
  have S: "slots_inv (k + 1) b1" "on_time (op_time p) b1" "static b1 = static b" by simp_all
  have later: "\<forall>x \<in> set (map (op_time \<circ> snd) h @ [t]). op_time p \<le> x"
    using Cons.prems(3) by (simp add: ep)
  have "on_time x b1" if "op_time p \<le> x" for x
    using S(2) that by (auto simp: on_time_def)
  hence o: "\<forall>x \<in> set (map (op_time \<circ> snd) h @ [t]). on_time x b1" using later by blast
  have so: "sorted (map (op_time \<circ> snd) h @ [t])" using Cons.prems(3) by (simp add: comp_def)
  have "m_max_size b1 + (k + 1 + length h) < 2 ^ 32"
    using Cons.prems(5) S(3) by (simp add: static_def)
  from Cons.IH[OF s(2) S(1) so o this] S(3) show ?case by simp
qed simp

section \<open>Reported slots are available\<close>

lemma areNSlots_sound:
  assumes I: "slots_inv k b" and o: "on_time t b" and t: "0 < t"
    and K: "m_max_size b + k + n < 2 ^ 32" and a: "fst (areNSlotsAvailable n t b)"
  shows "total_msgs b + n \<le> m_max_size b"
proof -
  have st: "m_stall_map_size b = int (length (stalled b))" using I by (simp add: slots_inv_def buf_ok_def)
  have u: "uint32 (fst (visible_size t b) + snd (visible_size t b) + n) \<le> m_max_size b"
    using a I by (auto simp: areNSlotsAvailable_def slots_inv_def split: prod.splits if_splits)
  show ?thesis
  proof (cases "m_time_last_time_pop b < t")
    case True
    have "length (m_prio_heap b) + length (stalled b) + n < 2 ^ 32"
      using I K by (simp add: slots_inv_def total_msgs_def)
    hence "fst (visible_size t b) + snd (visible_size t b) + n = total_msgs b + n"
      "total_msgs b + n < 2 ^ 32"
      using True st by (simp_all add: visible_size_def total_msgs_def)
    thus ?thesis using u by simp
  next
    case False
    hence p: "m_time_last_time_pop b = t" using o by (auto simp: on_time_def)
    let ?s = "m_size_at_cycle_start b + m_stalled_at_cycle_start b"
    have s: "?s \<le> m_max_size b" "m_msgs_this_cycle b \<le> k" using I by (simp_all add: slots_inv_def)
    have "total_msgs b \<le> ?s + (if m_time_last_time_enqueue b = t then m_msgs_this_cycle b else 0)"
      using I p t o by (auto simp: slots_inv_def on_time_def)
    moreover have "fst (visible_size t b) + snd (visible_size t b) =
        ?s + (if m_time_last_time_enqueue b = t then m_msgs_this_cycle b else 0)"
      using s K o by (auto simp: visible_size_def p on_time_def)
    moreover have "fst (visible_size t b) + snd (visible_size t b) + n < 2 ^ 32"
      using calculation(2) s K by (auto split: if_splits)
    ultimately show ?thesis using u by (simp split: if_splits)
  qed
qed

text \<open>The draws that \<^verbatim>\<open>random_time\<close> makes, and the delay that they give.\<close>

definition draws_ok :: "draws \<Rightarrow> bool" where
  "draws_ok r \<longleftrightarrow> (case r of (r1, r2, r3) \<Rightarrow> r1 \<le> 3 \<and> r2 \<le> 7 \<and> 1 \<le> r3 \<and> r3 \<le> 15)"

lemma random_time_le: "draws_ok r \<Longrightarrow> unat (random_time r) \<le> 119"
proof -
  assume "draws_ok r"
  then obtain r1 r2 r3 where r: "r = (r1, r2, r3)" "unat r1 \<le> 3" "unat r3 \<le> 15"
    by (cases r) (auto simp: draws_ok_def word_le_nat_alt)
  have "unat (1 + r1) = 1 + unat r1" using r(2) by (subst unat_add_lem[THEN iffD1]) simp_all
  moreover have "unat (100 + r3) = 100 + unat r3" using r(3) by (subst unat_add_lem[THEN iffD1]) simp_all
  moreover have "unat (1 + r1 + (100 + r3)) = unat (1 + r1) + unat (100 + r3)"
    using calculation r(2,3) by (subst unat_add_lem[THEN iffD1]) simp_all
  ultimately show ?thesis using r(2,3) by (simp add: r(1) random_time_def)
qed

lemma unat_plus_small: "unat x + unat y < 2 ^ 64 \<Longrightarrow> unat (x + y :: tick) = unat x + unat y"
  by (simp add: unat_add_lem[THEN iffD1])

lemma arrival_count [simp]: "arrival env r t d (count_enqueue t b) = arrival env r t d b"
  by (simp add: arrival_def randomized_def count_enqueue_def Let_def)

text \<open>The arrival times of messages that are enqueued one after the other at \<open>t\<close>.\<close>

fun arrivals :: "ruby_env \<Rightarrow> tick \<Rightarrow> tick \<Rightarrow> (draws \<times> 'p message) list \<Rightarrow> 'p MessageBuffer \<Rightarrow> tick list" where
  "arrivals env t d [] b = []"
| "arrivals env t d ((r, m) # ms) b = (case arrival env r t d b of (a, la) \<Rightarrow>
     a # arrivals env t d ms (enqueued env t False a la m b))"

lemma length_arrivals: "length (arrivals env t d ms b) = length ms"
  by (induction ms arbitrary: b) (auto split: prod.splits)

text \<open>An ordered buffer without random delays must not have a later arrival already.\<close>

definition in_turn :: "ruby_env \<Rightarrow> tick \<Rightarrow> 'p MessageBuffer \<Rightarrow> bool" where
  "in_turn env a b \<longleftrightarrow> m_strict_fifo b \<and> \<not> randomized env b \<longrightarrow> m_last_arrival_time b \<le> a"

text \<open>\<open>k\<close> more messages at \<open>t\<close> arrive before the tick counter overflows.\<close>

definition fits :: "ruby_env \<Rightarrow> tick \<Rightarrow> tick \<Rightarrow> nat \<Rightarrow> 'p MessageBuffer \<Rightarrow> bool" where
  "fits env t d k b \<longleftrightarrow> unat t + unat d + unat (clockPeriod (rs_sim env)) \<le> 2 ^ 64 \<and>
     (randomized env b \<longrightarrow>
        unat (max t (m_last_arrival_time b)) + 119 * k + unat (clockPeriod (rs_sim env)) \<le> 2 ^ 64)"

lemma arrival_ok:
  assumes "arrival env r t d b = (a, la)" "draws_ok r" "fits env t d (Suc k) b" "in_turn env (t + d) b"
    and "0 < unat (clockPeriod (rs_sim env))"
  shows "t \<le> a" "m_strict_fifo b \<Longrightarrow> la \<le> a" "unat a + unat (clockPeriod (rs_sim env)) \<le> 2 ^ 64"
    "\<not> randomized env b \<Longrightarrow> a = t + d \<and> la = m_last_arrival_time b"
    "randomized env b \<Longrightarrow> unat (max t a) \<le> unat (max t (m_last_arrival_time b)) + 119 \<and>
       unat (max t la) \<le> unat (max t (m_last_arrival_time b))"
proof -
  let ?P = "unat (clockPeriod (rs_sim env))" and ?l = "m_last_arrival_time b"
  note R = random_time_le[OF assms(2)]
  have sum: "unat (x + random_time r) = unat x + unat (random_time r)"
    if "unat x + 119 + ?P \<le> 2 ^ 64" for x
    using that R assms(5) by (intro unat_plus_small) simp
  show "\<not> randomized env b \<Longrightarrow> a = t + d \<and> la = ?l" using assms(1) by (simp add: arrival_def)
  have td: "unat (t + d) = unat t + unat d"
    using assms(3,5) by (intro unat_plus_small) (simp add: fits_def)
  have "t \<le> a \<and> (m_strict_fifo b \<longrightarrow> la \<le> a) \<and> unat a + ?P \<le> 2 ^ 64 \<and>
    (randomized env b \<longrightarrow> unat (max t a) \<le> unat (max t ?l) + 119 \<and> unat (max t la) \<le> unat (max t ?l))"
  proof (cases "randomized env b")
    case False
    thus ?thesis using assms(1,3,4) td by (auto simp: arrival_def fits_def in_turn_def word_le_nat_alt)
  next
    case True
    have m: "unat (max t ?l) + 119 + ?P \<le> 2 ^ 64" using assms(3) True by (simp add: fits_def)
    have ub: "unat t \<le> unat (max t ?l)" "unat ?l \<le> unat (max t ?l)" by (simp_all add: word_le_nat_alt[symmetric])
    define x where "x = (if m_strict_fifo b then max t ?l else t)"
    have x: "a = x + random_time r" "t \<le> x" "unat x \<le> unat (max t ?l)" "la = (if m_strict_fifo b then x else ?l)"
      using assms(1) True ub by (auto simp: x_def arrival_def Let_def max_def split: if_splits)
    have a: "unat a = unat x + unat (random_time r)" using x(1,3) m sum by simp
    have mx: "unat (max t y) = max (unat t) (unat y)" for y by (simp add: max_def word_le_nat_alt)
    have tx: "unat t \<le> unat x" using x(2) by (simp add: word_le_nat_alt)
    show ?thesis using True a tx x(3,4) m R ub by (auto simp: word_le_nat_alt mx)
  qed
  thus "t \<le> a" "m_strict_fifo b \<Longrightarrow> la \<le> a" "unat a + ?P \<le> 2 ^ 64"
    "randomized env b \<Longrightarrow> unat (max t a) \<le> unat (max t ?l) + 119 \<and> unat (max t la) \<le> unat (max t ?l)" by auto
qed

lemma enqueue_succeeds:
  assumes b: "buf_ok b" "m_consumer b" "arrival env r t d b = (a, la)"
    and cap: "total_msgs b + 1 \<le> m_max_size b" "m_max_size b < 2 ^ 64"
    and d: "d \<noteq> 0" "t \<le> a" "m_strict_fifo b \<Longrightarrow> la \<le> a" "m_LastEnqueueTime m \<le> t"
    and c: "scheduleEventAbsolute (rs_sim env) a c = Inr c'"
  shows "enqueue env r m t d False (b, c) = Inr (enqueued env t False a la m b, c')"
proof -
  let ?b = "enqueued env t False a la m b"
  note e = enqueued_ok[OF b(1), of env t False a la m]
  have "total_msgs ?b = total_msgs b + 1" unfolding total_held e(2) by simp
  moreover have "m_stall_map_size ?b = int (length (stalled ?b))" using e(1) by (simp add: buf_ok_def)
  ultimately have "(int (length (m_prio_heap ?b)) + m_stall_map_size ?b) mod 2 ^ 64 \<le> int (m_max_size ?b)"
    using cap by (simp add: total_msgs_def enqueued_fields(8))
  hence w: "within_size ?b" by (simp add: within_size_def)
  show ?thesis
    using d b(2,3) c w[unfolded enqueued_def stamped_def]
    by (auto simp: enqueue_def Let_def updateDelayedTicks_def fifo_violated_def not_less
        notify_def heap_insert_def enqueued_def stamped_def)
qed

lemma enqueued_later:
  assumes "arrival env r t d b = (a, la)" "draws_ok r" "fits env t d (Suc k) b" "in_turn env (t + d) b"
    and "0 < unat (clockPeriod (rs_sim env))"
  shows "fits env t d k (enqueued env t False a la m b)" "in_turn env (t + d) (enqueued env t False a la m b)"
proof -
  let ?b = "enqueued env t False a la m b"
  note A = arrival_ok[OF assms]
  have st: "m_randomization ?b = m_randomization b"
    using enqueued_static[of env t False a la m b] by (simp add: static_def)
  hence r: "randomized env ?b = randomized env b" by (simp add: randomized_def)
  show "in_turn env (t + d) ?b"
    using A(4) assms(4) r by (auto simp: in_turn_def enqueued_fields(3,5))
  show "fits env t d k ?b"
    using A(5) assms(3) r by (auto simp: fits_def enqueued_fields(5))
qed

lemma enqueues_succeed:
  assumes b: "buf_ok b" "m_consumer b" "fits env t d (length ms) b" "in_turn env (t + d) b"
    and cap: "total_msgs b + length ms \<le> m_max_size b" "m_max_size b < 2 ^ 64"
    and m: "\<forall>(r, m) \<in> set ms. draws_ok r \<and> m_LastEnqueueTime m \<le> t"
    and d: "d \<noteq> 0" "curTick (rs_sim env) \<le> t"
    and c: "time_ok (rs_sim env)" "consumer_ok (rs_sim env) c"
  shows "\<exists>b' c'. foldR (\<lambda>(r, m). enqueue env r m t d False) ms (b, c) = Inr (b', c') \<and>
    held b' = held b + mset (map (payload \<circ> snd) ms) \<and> consumer_ok (rs_sim env) c' \<and>
    set (m_wakeup_ticks c) \<subseteq> set (m_wakeup_ticks c') \<and>
    (\<forall>a \<in> set (arrivals env t d ms b). requested (rs_sim env) (At a) \<in> set (m_wakeup_ticks c'))"
  using b cap m c(2)
proof (induction ms arbitrary: b c)
  case (Cons rm ms)
  obtain r m where rm: "rm = (r, m)" by (cases rm)
  obtain a la where a: "arrival env r t d b = (a, la)" by force
  have P: "0 < unat (clockPeriod (rs_sim env))" using c(1) by (simp add: time_ok_def word_neq_0_conv unat_gt_0)
  have dr: "draws_ok r" "m_LastEnqueueTime m \<le> t" and ft: "fits env t d (Suc (length ms)) b"
    using Cons.prems(3,7) by (simp_all add: rm)
  note A = arrival_ok[OF a dr(1) ft Cons.prems(4) P] and L = enqueued_later[OF a dr(1) ft Cons.prems(4) P]
  have rq: "request_ok (rs_sim env) (At a)" using A(1,3) d(2) by (auto intro: order_trans)
  obtain c1 where c1: "scheduleEventAbsolute (rs_sim env) a c = Inr c1" "consumer_ok (rs_sim env) c1"
    "set (m_wakeup_ticks c1) = insert (requested (rs_sim env) (At a)) (set (m_wakeup_ticks c))"
    using scheduleEventAbsolute_ok[OF c(1) consumer_ok_waking[OF Cons.prems(8)] rq] by blast
  let ?b = "enqueued env t False a la m b"
  have e: "enqueue env r m t d False (b, c) = Inr (?b, c1)"
    by (rule enqueue_succeeds[OF Cons.prems(1,2) a _ Cons.prems(6) d(1) A(1,2) dr(2) c1(1)])
      (use Cons.prems(5) in simp)
  note ok = enqueued_ok[OF Cons.prems(1), of env t False a la m]
  have tot: "total_msgs ?b = total_msgs b + 1" unfolding total_held ok(2) by simp
  have "\<exists>b' c'. foldR (\<lambda>(r, m). enqueue env r m t d False) ms (?b, c1) = Inr (b', c') \<and>
    held b' = held ?b + mset (map (payload \<circ> snd) ms) \<and> consumer_ok (rs_sim env) c' \<and>
    set (m_wakeup_ticks c1) \<subseteq> set (m_wakeup_ticks c') \<and>
    (\<forall>a \<in> set (arrivals env t d ms ?b). requested (rs_sim env) (At a) \<in> set (m_wakeup_ticks c'))"
    using Cons.prems tot by (intro Cons.IH ok(1) c1(2) L) (simp_all add: enqueued_fields)
  thus ?case using e c1(3) ok(2) a by (auto simp: rm comp_def)
qed simp

lemma new_buffer_start:
  "0 < n \<Longrightarrow> slots_inv 0 (new_buffer o' n r z q p)" "on_time x (new_buffer o' n r z q p)"
  "static (new_buffer o' n r z q p) = (n, True, o', r)"
  using new_buffer_ok[of o' n r z q p]
  by (simp_all add: slots_inv_def total_held on_time_def static_def)
    (simp_all add: new_buffer_def setConsumer_def MessageBuffer_new_def buf_ok_def held_def stalled_def heap_def)

text \<open>
  C7. Flow control of a finite buffer is sound, and enqueued messages wake the consumer.  Take
  any buffer, ordered or not, with or without random delays, and any history of
  operations at non-decreasing times, including dequeues, stalls and reanalyses in the current
  cycle.  If \<^verbatim>\<open>areNSlotsAvailable(n, t)\<close> then returns true, the next \<open>n\<close> enqueues at that time
  with a delay other than zero all succeed: none violates the capacity assertion, all messages
  are held, and for each of them the event of the consumer is in the queue no later
  than the first clock edge at or after its arrival.  Two things are asked of the caller: that
  the 64-bit tick does not overflow before the arrivals (\<open>fits\<close>), and that on an ordered buffer
  without random delays no earlier message arrives after the new ones (\<open>in_turn\<close>), since the
  code panics on such an order.
\<close>
theorem reported_slots_available:
  fixes h :: "(ruby_env \<times> 'p buf_op) list"
  assumes run: "buf_run h (new_buffer ordered cap rand zero rate prio, c0) = Inr (out, (b, c))"
    and times: "sorted (map (op_time \<circ> snd) h @ [t])" "0 < t" "curTick (rs_sim env) \<le> t"
    and small: "0 < cap" "cap + length h + n < 2 ^ 32"
    and slots: "areNSlotsAvailable n t b = (True, b1)"
    and msgs: "length ms \<le> n" "\<forall>(r, m) \<in> set ms. draws_ok r \<and> m_LastEnqueueTime m \<le> t" "d \<noteq> 0"
    and arr: "fits env t d (length ms) b" "in_turn env (t + d) b"
    and cons: "time_ok (rs_sim env)" "consumer_ok (rs_sim env) c"
  shows "\<exists>b' c'. foldR (\<lambda>(r, m). enqueue env r m t d False) ms (b1, c) = Inr (b', c') \<and>
    held b' = held b + mset (map (payload \<circ> snd) ms) \<and> length (arrivals env t d ms b) = length ms \<and>
    (\<forall>a \<in> set (arrivals env t d ms b). \<exists>w \<le> requested (rs_sim env) (At a). m_wakeup_event c' = Some w)"
proof -
  let ?b = "new_buffer ordered cap rand zero rate prio :: 'p MessageBuffer"
  have n: "slots_inv 0 ?b" "static ?b = (cap, True, ordered, rand)" "on_time x ?b" for x
    using small(1) by (simp_all add: new_buffer_start)
  have "m_max_size ?b + (0 + length h) < 2 ^ 32" using n(2) small(2) by (simp add: static_def)
  from slots_run[OF run n(1) times(1) _ this] n(3)
  have "slots_inv (0 + length h) b \<and> on_time t b \<and> static b = static ?b" by blast
  hence I: "slots_inv (length h) b" "on_time t b" and st: "m_max_size b = cap" "m_consumer b"
    using n(2) by (simp_all add: static_def)
  have tot: "total_msgs b + length ms \<le> m_max_size b"
    using areNSlots_sound[OF I times(2), of n] small(2) slots st msgs(1) by simp
  have b1: "b1 = b" using slots by (auto simp: areNSlotsAvailable_def split: if_splits prod.splits)
  have ok: "buf_ok b" "m_max_size b < 2 ^ 64" using I(1) st small(2) by (simp_all add: slots_inv_def)
  obtain b' c' where e: "foldR (\<lambda>(r, m). enqueue env r m t d False) ms (b, c) = Inr (b', c')"
    "held b' = held b + mset (map (payload \<circ> snd) ms)" "consumer_ok (rs_sim env) c'"
    "\<forall>a \<in> set (arrivals env t d ms b). requested (rs_sim env) (At a) \<in> set (m_wakeup_ticks c')"
    using enqueues_succeed[OF ok(1) st(2) arr tot ok(2) msgs(2,3) times(3) cons] by blast
  thus ?thesis using consumer_event_first[OF e(3)] length_arrivals unfolding b1 by blast
qed

definition demo_slots :: "(ruby_env \<times> nat buf_op) list" where
  "demo_slots = [(sim0 0, Enqueue (0, 1, 1) (msg0 7) 0 500 False), (sim0 500, Dequeue 500)]"

lemma demo_slots_ordered:
  "\<exists>b. buf_run demo_slots (new_buffer True 2 rnd_ruby_system False 0 0, Consumer_new Clocked_new) =
     Inr ([7], (b, \<lparr>m_wakeup_ticks = [500], m_wakeup_event = Some 500, em = Clocked_new\<rparr>)) \<and>
     areNSlotsAvailable 1 500 b = (True, b) \<and> m_last_arrival_time b = 500 \<and> m_strict_fifo b \<and>
     m_randomization b = rnd_ruby_system"
  by (simp add: demo_slots_def buf_eval)

theorem reported_slots_available_witness:
  "\<exists>b' c' w. foldR (\<lambda>(r, m). enqueue (sim0 500) r m 500 500 False) [((0, 1, 1), msg0 9)]
       (snd (projr (buf_run demo_slots
          (new_buffer True 2 rnd_ruby_system False 0 0, Consumer_new Clocked_new)))) = Inr (b', c') \<and>
     m_wakeup_event c' = Some w \<and> w \<le> 1000"
proof -
  let ?c = "\<lparr>m_wakeup_ticks = [500], m_wakeup_event = Some 500, em = Clocked_new\<rparr>"
  obtain b where r:
    "buf_run demo_slots (new_buffer True 2 rnd_ruby_system False 0 0, Consumer_new Clocked_new) =
     Inr ([7], (b, ?c))" and s: "areNSlotsAvailable 1 500 b = (True, b)"
    and b: "m_last_arrival_time b = 500" "m_strict_fifo b" "m_randomization b = rnd_ruby_system"
    using demo_slots_ordered by blast
  have nr: "\<not> randomized (sim0 500) b" using b(3) by (simp add: randomized_def sim0_def demo_env_def)
  have t: "time_ok (rs_sim (sim0 500))" by (simp add: sim0_def demo_env_def time_ok_def)
  have c: "consumer_ok (rs_sim (sim0 500)) ?c"
    by (simp add: sim0_def demo_env_def consumer_ok_def waking_ok_def clock_ok_def Clocked_new_def)
  have arr: "arrivals (sim0 500) 500 500 [((0, 1, 1), msg0 9)] b = [1000]"
    using nr by (simp add: arrival_def)
  have rq: "requested (rs_sim (sim0 500)) (At 1000) = 1000"
    by (simp add: sim0_def demo_env_def requested_def next_edge_def)
  have f: "fits (sim0 500) 500 500 (length [((0 :: tick, 1 :: tick, 1 :: tick), msg0 9)]) b"
    "in_turn (sim0 500) (500 + 500) b"
    using nr b(1) by (simp_all add: fits_def in_turn_def sim0_def demo_env_def)
  have h: "sorted (map (op_time \<circ> snd) demo_slots @ [500])" "curTick (rs_sim (sim0 500)) \<le> 500"
    "\<forall>(r, m) \<in> set [((0, 1, 1), msg0 9)]. draws_ok r \<and> m_LastEnqueueTime m \<le> 500"
    by (simp_all add: demo_slots_def sim0_def demo_env_def draws_ok_def msg0_def Message_new_def)
  have sz: "(0 :: tick) < 500" "(0 :: nat) < 2" "2 + length demo_slots + 1 < 2 ^ 32"
    "length [((0 :: tick, 1 :: tick, 1 :: tick), msg0 9)] \<le> 1" "(500 :: tick) \<noteq> 0"
    by (simp_all add: demo_slots_def)
  have st: "snd (projr (buf_run demo_slots (new_buffer True 2 rnd_ruby_system False 0 0, Consumer_new Clocked_new))) =
    (b, ?c)" by (simp only: r sum.sel prod.sel)
  have "1000 \<in> set (arrivals (sim0 500) 500 500 [((0, 1, 1), msg0 9)] b)" by (simp only: arr list.set insert_iff simp_thms)
  with reported_slots_available[OF r h(1) sz(1) h(2) sz(2,3) s sz(4) h(3) sz(5) f t c]
  show ?thesis unfolding st using rq by metis
qed

end
