(* ===== verification/Buffer_Stall.thy ===== *)
theory Buffer_Stall
  imports Buffer_Slots
begin

text \<open>
  Stalled messages come back.  The receiver sets a message aside with \<open>stallMessage\<close> and no event is
  scheduled for it; \<open>reanalyzeMessages\<close> must return it to the heap and wake the consumer, and
  the assertions on its way must hold.
\<close>

lemma reanalyzeList_succeeds:
  assumes T: "time_ok (rs_sim env)" "request_ok (rs_sim env) (At t)"
    and "m_consumer b" "\<forall>m \<in> set lt. m_LastEnqueueTime m \<le> t" "consumer_ok (rs_sim env) c"
  shows "\<exists>c'. reanalyzeList env lt t (b, c) = Inr (reinsert lt b, c') \<and> consumer_ok (rs_sim env) c' \<and>
    set (m_wakeup_ticks c) \<subseteq> set (m_wakeup_ticks c') \<and>
    (lt \<noteq> [] \<longrightarrow> requested (rs_sim env) (At t) \<in> set (m_wakeup_ticks c'))"
  using assms(3-5)
proof (induction lt arbitrary: b c)
  case Nil
  thus ?case by (simp add: reanalyzeList_def reinsert_def)
next
  case (Cons m lt)
  obtain c1 where c1: "scheduleEventAbsolute (rs_sim env) t c = Inr c1" "consumer_ok (rs_sim env) c1"
    "set (m_wakeup_ticks c1) = insert (requested (rs_sim env) (At t)) (set (m_wakeup_ticks c))"
    using scheduleEventAbsolute_ok[OF T(1) consumer_ok_waking[OF Cons.prems(3)] T(2)] by blast
  have one: "reanalyze_one env t m (b, c) = Inr (heap_insert m b, c1)"
    using Cons.prems c1(1) by (simp add: reanalyze_one_def notify_def heap_insert_def)
  have "m_consumer (heap_insert m b)" "\<forall>m \<in> set lt. m_LastEnqueueTime m \<le> t"
    using Cons.prems by (simp_all add: heap_insert_def)
  from Cons.IH[OF this c1(2)] one c1(3) show ?case
    by (auto simp: reanalyzeList_def reinsert_def)
qed

lemma map_of_stalled:
  "map_of (m_stall_msg_map b) a = Some lt \<Longrightarrow> set lt \<subseteq> set (stalled b) \<and> length lt \<le> length (stalled b)"
proof -
  assume "map_of (m_stall_msg_map b) a = Some lt"
  then obtain xs ys where "m_stall_msg_map b = xs @ (a, lt) # ys"
    by (meson map_of_SomeD split_list)
  thus ?thesis by (auto simp: stalled_def)
qed

lemma map_of_filter_key:
  "map_of (filter (\<lambda>e. fst e \<noteq> a) mp) x = ((map_of mp)(a := None)) x"
  by (induction mp) auto

text \<open>
  C40. A stalled message always comes back.  After any history of a new buffer in which a message for line
  \<open>a\<close> is stalled, \<^verbatim>\<open>reanalyzeMessages(a, t)\<close> succeeds at every time \<open>t\<close> that is not before the last
  dequeue: its assertions hold, exactly the messages stalled for that line return to the heap,
  none of them is stalled any more while those of other lines stay, and the event of the consumer
  is in the queue no later than the first clock edge at or after \<open>t\<close>.
\<close>
theorem stalled_messages_return:
  fixes h :: "(ruby_env \<times> 'p buf_op) list"
  assumes run: "buf_run h (new_buffer ordered cap rand zero rate prio, c0) = Inr (out, (b, c))"
    and a: "map_of (m_stall_msg_map b) a = Some lt" "lt \<noteq> []"
    and t: "m_time_last_time_pop b \<le> t" "m_consumer b"
    and cons: "time_ok (rs_sim env)" "consumer_ok (rs_sim env) c" "request_ok (rs_sim env) (At t)"
  shows "\<exists>b' c' w. reanalyzeMessages env a t (b, c) = Inr (b', c') \<and>
    mset (m_prio_heap b') = mset (m_prio_heap b) + mset lt \<and>
    map_of (m_stall_msg_map b') = (map_of (m_stall_msg_map b))(a := None) \<and>
    m_wakeup_event c' = Some w \<and> w \<le> requested (rs_sim env) (At t)"
proof -
  have ok: "buf_ok b" using buf_run_ok[OF run new_buffer_ok(1)] by simp
  let ?b = "b\<lparr>m_stall_map_size := m_stall_map_size b - int (length lt)\<rparr>"
  have size: "0 \<le> m_stall_map_size b - int (length lt)"
    using ok map_of_stalled[OF a(1)] by (simp add: buf_ok_def)
  have le: "\<forall>m \<in> set lt. m_LastEnqueueTime m \<le> t"
  proof
    fix m assume "m \<in> set lt"
    hence "m_LastEnqueueTime m \<le> m_time_last_time_pop b"
      using ok map_of_stalled[OF a(1)] by (auto simp: buf_ok_def)
    thus "m_LastEnqueueTime m \<le> t" using t(1) by (rule order_trans)
  qed
  have "m_consumer ?b" using t(2) by simp
  from reanalyzeList_succeeds[OF cons(1,3) this le cons(2)] a(2) obtain c' where
    c': "reanalyzeList env lt t (?b, c) = Inr (reinsert lt ?b, c')" "consumer_ok (rs_sim env) c'"
      "requested (rs_sim env) (At t) \<in> set (m_wakeup_ticks c')" by blast
  obtain w where w: "m_wakeup_event c' = Some w" "w \<le> requested (rs_sim env) (At t)"
    using consumer_event_first[OF c'(2,3)] by blast
  obtain hp where r: "reinsert lt ?b = ?b\<lparr>m_prio_heap := hp\<rparr>" using reinsert_only_heap by blast
  let ?b' = "(reinsert lt ?b)\<lparr>m_stall_msg_map := filter (\<lambda>e. fst e \<noteq> a) (m_stall_msg_map b)\<rparr>"
  have "reanalyzeMessages env a t (b, c) = Inr (?b', c')"
    using a(1) size c'(1) r by (simp add: reanalyzeMessages_def unstall_def)
  moreover have "mset (m_prio_heap ?b') = mset (m_prio_heap b) + mset lt"
    using reinsert_heap[of ?b lt] buf_ok_heap[OF ok] by simp
  moreover have "map_of (m_stall_msg_map ?b') = (map_of (m_stall_msg_map b))(a := None)"
    by (auto simp: fun_eq_iff map_of_filter_key)
  ultimately show ?thesis using w by blast
qed

definition demo_stall :: "(ruby_env \<times> nat buf_op) list" where
  "demo_stall = [(sim0 0, Enqueue (0, 1, 1) (msg0 7) 0 500 False), (sim0 500, Stall 6 64 500)]"

lemma demo_stall_run:
  "\<exists>b m. buf_run demo_stall (new_buffer False 2 rnd_disabled False 0 0, Consumer_new Clocked_new) =
     Inr ([], (b, \<lparr>m_wakeup_ticks = [500], m_wakeup_event = Some 500, em = Clocked_new\<rparr>)) \<and>
     m_stall_msg_map b = [(64, [m])] \<and> m_time_last_time_pop b = 500 \<and> m_consumer b"
  by (simp add: demo_stall_def buf_eval stallMessage_def getOffset_def bitSelect_def bits_def
      mask64_def)

theorem stalled_messages_return_witness:
  "\<exists>b' c' w. reanalyzeMessages (sim0 500) 64 500
       (snd (projr (buf_run demo_stall
          (new_buffer False 2 rnd_disabled False 0 0, Consumer_new Clocked_new)))) = Inr (b', c') \<and>
     m_wakeup_event c' = Some w \<and> w \<le> 500"
proof -
  let ?c = "\<lparr>m_wakeup_ticks = [500], m_wakeup_event = Some 500, em = Clocked_new\<rparr>"
  obtain b m where r:
    "buf_run demo_stall (new_buffer False 2 rnd_disabled False 0 0, Consumer_new Clocked_new) =
     Inr ([], (b, ?c))" and s: "m_stall_msg_map b = [(64, [m])]" "m_time_last_time_pop b = 500" "m_consumer b"
    using demo_stall_run by blast
  have a: "map_of (m_stall_msg_map b) 64 = Some [m]" by (simp add: s)
  have t: "time_ok (rs_sim (sim0 500))" by (simp add: sim0_def demo_env_def time_ok_def)
  have c: "consumer_ok (rs_sim (sim0 500)) ?c"
    by (simp add: sim0_def demo_env_def consumer_ok_def waking_ok_def clock_ok_def Clocked_new_def)
  have q: "request_ok (rs_sim (sim0 500)) (At 500)" by (simp add: sim0_def demo_env_def)
  have rq: "requested (rs_sim (sim0 500)) (At 500) = 500"
    by (simp add: sim0_def demo_env_def requested_def)
  from stalled_messages_return[OF r a _ _ s(3) t c q] s(2) rq r show ?thesis by auto
qed

end
