(* ===== verification/Buffer_Rate.thy ===== *)
theory Buffer_Rate
  imports Buffer_Slots
begin

text \<open>
  The dequeue rate of a message buffer.  \<open>m_dequeues_this_cy\<close> is reset by the first dequeue at a
  new tick and never by the passing of time, so the bound needs the history of the dequeues.
\<close>

definition pace :: "'p MessageBuffer \<Rightarrow> nat \<times> nat \<times> tick" where
  "pace b = (m_max_dequeue_rate b, m_dequeues_this_cy b, m_time_last_time_pop b)"

fun pops_at :: "tick \<Rightarrow> 'p buf_op \<Rightarrow> bool" where
  "pops_at t (Dequeue t') \<longleftrightarrow> t' = t"
| "pops_at t (Stall _ _ t') \<longleftrightarrow> t' = t"
| "pops_at t _ \<longleftrightarrow> False"

definition dequeues :: "tick \<Rightarrow> (ruby_env \<times> 'p buf_op) list \<Rightarrow> nat" where
  "dequeues t h = length (filter (\<lambda>e. pops_at t (snd e)) h)"

lemma pace_simps [simp]:
  "pace (enqueued env t bp a la m b) = pace b" "pace (heap_insert m b) = pace b"
  "pace (heap_remove b) = pace b" "pace (snd (areNSlotsAvailable n t b)) = pace b"
  "pace (snd (getSize t b)) = pace b" "pace (b\<lparr>m_stall_msg_map := mp\<rparr>) = pace b"
  "pace (b\<lparr>m_stall_map_size := k\<rparr>) = pace b"
  by (simp_all add: pace_def enqueued_def heap_insert_def heap_remove_def note_arrival_def
      count_enqueue_def areNSlotsAvailable_def getSize_def Let_def split: prod.splits)

lemma reinsert_pace [simp]: "pace (reinsert lt b) = pace b"
  by (induction lt arbitrary: b) (simp_all add: reinsert_def)

lemma popped_pace:
  "pace (popped t b) = (m_max_dequeue_rate b,
     uint32 ((if m_time_last_time_pop b < t then 0 else m_dequeues_this_cy b) + 1),
     max (m_time_last_time_pop b) t)"
  by (simp add: pace_def popped_def heap_remove_def record_pop_def Let_def max_def less_imp_le)

lemma isReady_rate:
  assumes "isReady env t (b, c) = Inr (True, s)"
  shows "m_time_last_time_pop b \<le> t \<and> (m_max_dequeue_rate b = 0 \<or> m_time_last_time_pop b < t \<or>
    m_dequeues_this_cy b < m_max_dequeue_rate b)"
  using assms by (auto simp: isReady_def Let_def fault_simps split: if_splits)

lemma dequeue_pace:
  assumes "dequeue env t dec (b, c) = Inr ((d, m, cb), (b', c'))"
  shows "pace b' = pace (popped t b) \<and> m_time_last_time_pop b \<le> t \<and>
    (m_max_dequeue_rate b = 0 \<or> m_time_last_time_pop b < t \<or>
     m_dequeues_this_cy b < m_max_dequeue_rate b)"
proof -
  from assms obtain s where "isReady env t (b, c) = Inr (True, s)"
    by (auto simp: dequeue_def fault_simps)
  moreover have "pace b' = pace (popped t b)"
    using dequeue_Inr(5)[OF assms] by (simp add: pace_def count_dequeue_def)
  ultimately show ?thesis using isReady_rate by blast
qed

text \<open>A step either keeps the pace or is a dequeue at a time when one is allowed.\<close>

lemma step_pace:
  assumes s: "buf_step env p (b, c) = Inr (out, (b', c'))"
  shows "((\<forall>t. \<not> pops_at t p) \<and> pace b' = pace b) \<or>
    (\<exists>t. (\<forall>x. pops_at x p \<longleftrightarrow> x = t) \<and> pace b' = pace (popped t b) \<and> m_time_last_time_pop b \<le> t \<and>
      (m_max_dequeue_rate b = 0 \<or> m_time_last_time_pop b < t \<or>
       m_dequeues_this_cy b < m_max_dequeue_rate b))"
proof (cases p)
  case (Enqueue r m t d bp)
  hence e: "enqueue env r m t d bp (b, c) = Inr (b', c')" using s by (auto simp: fault_simps)
  have "pace b' = pace b" using enqueue_Inr[OF e] pace_simps(1) by blast
  thus ?thesis using Enqueue by simp
next
  case (Dequeue t)
  with s obtain d m cb where d: "dequeue env t True (b, c) = Inr ((d, m, cb), (b', c'))"
    by (auto simp: fault_simps)
  show ?thesis using dequeue_pace[OF d] Dequeue by auto
next
  case (Recycle t l)
  hence "\<exists>m. b' = heap_insert m (heap_remove b)"
    using s by (auto simp: recycle_def fault_simps Let_def peek_Inr notify_Inr dest: isReady_Inr(1))
  thus ?thesis using Recycle by auto
next
  case (DelayHead r t d)
  hence e: "enqueue env r (m_prio_heap b ! 0) t d False (heap_remove b, c) = Inr (b', c')"
    using s by (auto simp: delayHead_def fault_simps peek_Inr)
  have "pace b' = pace (heap_remove b)" using enqueue_Inr[OF e] pace_simps(1) by blast
  thus ?thesis using DelayHead by simp
next
  case (Stall bsb a t)
  hence r: "stallMessage env bsb a t (b, c) = Inr (b', c')" using s by (auto simp: fault_simps)
  then obtain s' where "isReady env t (b, c) = Inr (True, s')"
    by (auto simp: stallMessage_def fault_simps)
  note R = isReady_rate[OF this]
  have "pace b' = pace (popped t b)" using stallMessage_Inr(4)[OF r] by (simp add: pace_def)
  thus ?thesis using R Stall by auto
next
  case (Reanalyze a t)
  hence r: "reanalyzeMessages env a t (b, c) = Inr (b', c')" using s by (auto simp: fault_simps)
  have "pace b' = pace b" using reanalyzeMessages_Inr[OF r] by auto
  thus ?thesis using Reanalyze by simp
next
  case (ReanalyzeAll t)
  then obtain b1 where
    f: "foldR (\<lambda>e. unstall env t (snd e)) (m_stall_msg_map b) (b, c) = Inr (b1, c')"
    and b': "b' = b1\<lparr>m_stall_msg_map := []\<rparr>"
    using s by (auto simp: reanalyzeAllMessages_def fault_simps)
  have "pace b' = pace b" unfolding b' unstall_all_Inr[OF f] by simp
  thus ?thesis using ReanalyzeAll by simp
next
  case (IsReady t)
  thus ?thesis using s isReady_Inr(1)[of env t b c _ b' c'] by (auto simp: fault_simps)
qed (use s in auto)

text \<open>\<open>g t\<close> is the number of dequeues at tick \<open>t\<close> so far.\<close>

definition rate_inv :: "nat \<Rightarrow> (tick \<Rightarrow> nat) \<Rightarrow> 'p MessageBuffer \<Rightarrow> bool" where
  "rate_inv r g b \<longleftrightarrow> m_max_dequeue_rate b = r \<and> m_dequeues_this_cy b \<le> r \<and>
     g (m_time_last_time_pop b) \<le> m_dequeues_this_cy b \<and>
     (\<forall>t. m_time_last_time_pop b < t \<longrightarrow> g t = 0) \<and> (\<forall>t. g t \<le> r)"

lemma rate_step:
  assumes I: "rate_inv r g b" and r: "0 < r" "r < 2 ^ 32"
    and s: "buf_step env p (b, c) = Inr (out, (b', c'))"
  shows "rate_inv r (\<lambda>t. g t + (if pops_at t p then 1 else 0)) b'"
proof -
  from step_pace[OF s] consider (keep) "\<forall>t. \<not> pops_at t p" "pace b' = pace b"
    | (pop) t where "\<forall>x. pops_at x p \<longleftrightarrow> x = t" "pace b' = pace (popped t b)" "m_time_last_time_pop b \<le> t"
      "m_max_dequeue_rate b = 0 \<or> m_time_last_time_pop b < t \<or> m_dequeues_this_cy b < m_max_dequeue_rate b"
    by blast
  thus ?thesis
  proof cases
    case keep
    thus ?thesis using I by (simp add: rate_inv_def pace_def)
  next
    case pop
    let ?n = "if m_time_last_time_pop b < t then 0 else m_dequeues_this_cy b"
    have n: "?n + 1 \<le> r" "g t \<le> ?n"
      using I r pop(3,4) by (auto simp: rate_inv_def)
    have "pace b' = (r, ?n + 1, t)"
      using pop(2,3) I r n by (simp add: popped_pace rate_inv_def max_def del: uint32_small)
        (auto simp: uint32_small)
    hence b': "m_max_dequeue_rate b' = r" "m_dequeues_this_cy b' = ?n + 1" "m_time_last_time_pop b' = t"
      by (simp_all add: pace_def)
    have "g x + (if pops_at x p then 1 else 0) \<le> r" for x
      using I n pop(1) by (auto simp: rate_inv_def)
    moreover have "g x = 0" if "t < x" for x
      using I pop(3) that by (auto simp: rate_inv_def)
    ultimately show ?thesis using n pop(1) by (auto simp: rate_inv_def b')
  qed
qed

lemma rate_run:
  "buf_run h (b, c) = Inr (out, (b', c')) \<Longrightarrow> rate_inv r g b \<Longrightarrow> 0 < r \<Longrightarrow> r < 2 ^ 32 \<Longrightarrow>
   rate_inv r (\<lambda>t. g t + dequeues t h) b'"
proof (induction h arbitrary: b c g out)
  case (Cons ep h)
  obtain env p where ep: "ep = (env, p)" by (cases ep)
  from Cons.prems(1) obtain o1 b1 c1 o2 where
    s: "buf_step env p (b, c) = Inr (o1, (b1, c1))" "buf_run h (b1, c1) = Inr (o2, (b', c'))"
    unfolding ep buf_run_Cons by auto
  from Cons.IH[OF s(2) rate_step[OF Cons.prems(2-4) s(1)] Cons.prems(3,4)]
  have "rate_inv r (\<lambda>t. g t + (if pops_at t p then 1 else 0) + dequeues t h) b'" .
  moreover have "g t + (if pops_at t p then 1 else 0) + dequeues t h = g t + dequeues t (ep # h)" for t
    by (simp add: dequeues_def ep)
  ultimately show ?case by simp
qed (simp add: dequeues_def)

text \<open>
  C22. A message buffer with a dequeue rate never hands out more messages in a cycle than the rate
  allows: in every history of a new buffer, at every tick, the number of messages dequeued
  or stalled is at most \<^verbatim>\<open>max_dequeue_rate\<close>.  The rate is an \<^verbatim>\<open>unsigned int\<close>, and the counter of the cycle,
  which has the same width, does not wrap.
\<close>
theorem dequeue_rate_respected:
  fixes h :: "(ruby_env \<times> 'p buf_op) list"
  assumes "buf_run h (new_buffer ordered cap rand zero rate prio, c0) = Inr (out, (b, c))"
    and "0 < rate" "rate < 2 ^ 32"
  shows "dequeues t h \<le> rate \<and> m_dequeues_this_cy b \<le> rate"
proof -
  have "rate_inv rate (\<lambda>_. 0) (new_buffer ordered cap rand zero rate prio :: 'p MessageBuffer)"
    by (simp add: rate_inv_def new_buffer_def setConsumer_def MessageBuffer_new_def)
  from rate_run[OF assms(1) this assms(2,3)] show ?thesis by (simp add: rate_inv_def)
qed

lemma demo_rate_run:
  "\<exists>b c. buf_run demo_slots (new_buffer False 2 rnd_disabled False 1 0, Consumer_new Clocked_new) =
     Inr ([7], (b, c))"
  by (simp add: demo_slots_def buf_eval)

theorem dequeue_rate_respected_witness:
  "isl (buf_run (demo_slots @ [(sim0 500, Dequeue 500)])
     (new_buffer False 2 rnd_disabled False 1 0, Consumer_new Clocked_new)) \<and>
   dequeues 500 demo_slots = 1 \<and> dequeues 500 demo_slots \<le> 1"
proof -
  obtain b c where r:
    "buf_run demo_slots (new_buffer False 2 rnd_disabled False 1 0, Consumer_new Clocked_new) =
     Inr ([7], (b, c))" using demo_rate_run by blast
  have "dequeues 500 demo_slots \<le> 1" using dequeue_rate_respected[OF r, of 500] by simp
  moreover have "dequeues 500 demo_slots = 1" by (simp add: dequeues_def demo_slots_def)
  moreover have "isl (buf_run (demo_slots @ [(sim0 500, Dequeue 500)])
     (new_buffer False 2 rnd_disabled False 1 0, Consumer_new Clocked_new))"
    by (simp add: demo_slots_def buf_eval)
  ultimately show ?thesis by blast
qed

end
