(* ===== verification/Timer_Table.thy ===== *)
theory Timer_Table
  imports Ruby_Consumer Gem5_Base
begin

text \<open>
  The table of timers of a Ruby controller (\<^verbatim>\<open>mem/ruby/structures/TimerTable\<close>): addresses with the
  tick at which they become ready, and a cache of the earliest of them.

  \<^item> The \<^verbatim>\<open>std::map\<close>, which is iterated in the order of its addresses, is the list of its pairs in
    that order.
  \<^item> \<open>tt_consumer\<close> says whether the pointer to the consumer was set; the consumer itself is threaded
    through \<open>tt_set\<close>.
  \<^item> The const methods update mutable members, so they return the table.
\<close>

section \<open>The table\<close>

record timer_table =
  tt_map :: "(addr \<times> tick) list"
  tt_next_valid :: bool
  tt_next_time :: tick
  tt_next_address :: addr
  tt_consumer :: bool

definition TimerTable_new :: timer_table where
  "TimerTable_new = \<lparr>tt_map = [], tt_next_valid = False, tt_next_time = 0, tt_next_address = 0,
                    tt_consumer = False\<rparr>"

definition tt_setConsumer :: "timer_table \<Rightarrow> timer_table res" where
  "tt_setConsumer t = assertR (\<not> tt_consumer t) (Inr (t\<lparr>tt_consumer := True\<rparr>))"

fun om_insert :: "addr \<Rightarrow> tick \<Rightarrow> (addr \<times> tick) list \<Rightarrow> (addr \<times> tick) list" where
  "om_insert a v [] = [(a, v)]"
| "om_insert a v ((b, w) # m) = (if a < b then (a, v) # (b, w) # m
     else if a = b then (a, v) # m else (b, w) # om_insert a v m)"

definition om_count :: "addr \<Rightarrow> (addr \<times> tick) list \<Rightarrow> bool" where
  "om_count a m \<longleftrightarrow> map_of m a \<noteq> None"

definition om_erase :: "addr \<Rightarrow> (addr \<times> tick) list \<Rightarrow> (addr \<times> tick) list" where
  "om_erase a m = filter (\<lambda>e. fst e \<noteq> a) m"

definition scan_next :: "addr \<times> tick \<Rightarrow> addr \<times> tick \<Rightarrow> addr \<times> tick" where
  "scan_next i best = (if snd i < snd best then i else best)"

definition tt_updateNext :: "timer_table \<Rightarrow> timer_table res" where
  "tt_updateNext t = (case tt_map t of
     [] \<Rightarrow> assertR (\<not> tt_next_valid t) (Inr t)
   | i # m \<Rightarrow> let best = fold scan_next m i
       in Inr (t\<lparr>tt_next_address := fst best, tt_next_time := snd best, tt_next_valid := True\<rparr>))"

definition tt_isReady :: "tick \<Rightarrow> timer_table \<Rightarrow> (bool \<times> timer_table) res" where
  "tt_isReady curTime t = (if tt_map t = [] then Inr (False, t)
     else bindR (if \<not> tt_next_valid t then tt_updateNext t else Inr t) (\<lambda>t.
       assertR (tt_next_valid t) (Inr (tt_next_time t \<le> curTime, t))))"

definition tt_nextAddress :: "timer_table \<Rightarrow> (addr \<times> timer_table) res" where
  "tt_nextAddress t = bindR (if \<not> tt_next_valid t then tt_updateNext t else Inr t) (\<lambda>t.
     assertR (tt_next_valid t) (Inr (tt_next_address t, t)))"

definition tt_isSet :: "addr \<Rightarrow> timer_table \<Rightarrow> bool" where
  "tt_isSet a t = om_count a (tt_map t)"

definition tt_set :: "nat \<Rightarrow> sim_env \<Rightarrow> addr \<Rightarrow> tick \<Rightarrow> timer_table \<times> consumer \<Rightarrow> (timer_table \<times> consumer) res" where
  "tt_set bsb env a ready_time s = (case s of (t, c) \<Rightarrow>
     assertR (a = makeLineAddress bsb a) (assertR (\<not> om_count a (tt_map t))
       (let t = t\<lparr>tt_map := om_insert a ready_time (tt_map t)\<rparr> in
        assertR (tt_consumer t) (bindR (scheduleEventAbsolute env ready_time c) (\<lambda>c.
          let t = t\<lparr>tt_next_valid := False\<rparr> in
          Inr (if ready_time \<le> tt_next_time t then t\<lparr>tt_next_valid := False\<rparr> else t, c))))))"

definition tt_unset :: "nat \<Rightarrow> addr \<Rightarrow> timer_table \<Rightarrow> timer_table res" where
  "tt_unset bsb a t = assertR (a = makeLineAddress bsb a) (assertR (om_count a (tt_map t))
     (let t = t\<lparr>tt_map := om_erase a (tt_map t)\<rparr>
      in Inr (if a = tt_next_address t then t\<lparr>tt_next_valid := False\<rparr> else t)))"

section \<open>The cached earliest timer\<close>

definition earliest :: "(addr \<times> tick) list \<Rightarrow> addr \<Rightarrow> tick \<Rightarrow> bool" where
  "earliest m a v \<longleftrightarrow> (a, v) \<in> set m \<and> (\<forall>(b, w) \<in> set m. v \<le> w \<and> (w = v \<longrightarrow> a \<le> b))"

abbreviation om_sorted :: "(addr \<times> tick) list \<Rightarrow> bool" where
  "om_sorted m \<equiv> sorted_wrt (<) (map fst m)"

definition tt_inv :: "timer_table \<Rightarrow> bool" where
  "tt_inv t \<longleftrightarrow> om_sorted (tt_map t) \<and>
     (tt_next_valid t \<longrightarrow> earliest (tt_map t) (tt_next_address t) (tt_next_time t))"

lemma fold_scan_earliest:
  assumes "earliest m (fst i) (snd i)" "om_sorted (m @ ms)"
  shows "earliest (m @ ms) (fst (fold scan_next ms i)) (snd (fold scan_next ms i))"
  using assms
proof (induction ms arbitrary: m i)
  case (Cons x ms)
  have lt: "\<forall>e \<in> set m. fst e < fst x" using Cons.prems(2) by (auto simp: sorted_wrt_append)
  have "fst i < fst x" using Cons.prems(1) lt by (force simp: earliest_def)
  hence "earliest (m @ [x]) (fst (scan_next x i)) (snd (scan_next x i))"
    using Cons.prems(1) lt unfolding earliest_def scan_next_def
    by (cases x; cases i) (auto split: if_splits simp: not_less intro: order.strict_implies_order)
  from Cons.IH[OF this] Cons.prems(2) show ?case by simp
qed simp

lemma updateNext_ok:
  assumes "tt_inv t" "tt_map t \<noteq> []"
  shows "\<exists>t'. tt_updateNext t = Inr t' \<and> tt_next_valid t' \<and> tt_map t' = tt_map t \<and> tt_inv t' \<and>
    tt_consumer t' = tt_consumer t"
proof -
  obtain i m where m: "tt_map t = i # m" using assms(2) by (cases "tt_map t") auto
  have "earliest [i] (fst i) (snd i)" by (cases i) (simp add: earliest_def)
  from fold_scan_earliest[OF this, of m] assms(1) m show ?thesis
    by (simp add: tt_updateNext_def tt_inv_def Let_def)
qed

lemma refreshed:
  assumes "tt_inv t" "tt_map t \<noteq> []"
  shows "\<exists>t'. (if \<not> tt_next_valid t then tt_updateNext t else Inr t) = Inr t' \<and> tt_next_valid t' \<and>
    tt_map t' = tt_map t \<and> tt_inv t' \<and> tt_consumer t' = tt_consumer t"
  using updateNext_ok[OF assms] assms by auto

lemma isReady_ok:
  assumes "tt_inv t"
  shows "\<exists>t'. tt_isReady now t = Inr ((\<exists>(a, v) \<in> set (tt_map t). v \<le> now), t') \<and>
    tt_map t' = tt_map t \<and> tt_inv t' \<and> tt_consumer t' = tt_consumer t"
proof (cases "tt_map t = []")
  case False
  obtain t' where t': "(if \<not> tt_next_valid t then tt_updateNext t else Inr t) = Inr t'" "tt_next_valid t'"
    "tt_map t' = tt_map t" "tt_inv t'" "tt_consumer t' = tt_consumer t" using refreshed[OF assms False] by blast
  have "earliest (tt_map t) (tt_next_address t') (tt_next_time t')" using t' by (simp add: tt_inv_def)
  hence "(tt_next_time t' \<le> now) \<longleftrightarrow> (\<exists>(a, v) \<in> set (tt_map t). v \<le> now)"
    unfolding earliest_def by (auto intro: order_trans)
  thus ?thesis using t' False by (auto simp: tt_isReady_def assertR_def)
qed (use assms in \<open>simp add: tt_isReady_def\<close>)

lemma nextAddress_ok:
  assumes "tt_inv t" "tt_map t \<noteq> []"
  shows "\<exists>a v t'. tt_nextAddress t = Inr (a, t') \<and> earliest (tt_map t) a v \<and>
    tt_map t' = tt_map t \<and> tt_inv t' \<and> tt_consumer t' = tt_consumer t"
proof -
  obtain t' where t': "(if \<not> tt_next_valid t then tt_updateNext t else Inr t) = Inr t'" "tt_next_valid t'"
    "tt_map t' = tt_map t" "tt_inv t'" "tt_consumer t' = tt_consumer t" using refreshed[OF assms] by blast
  have "earliest (tt_map t) (tt_next_address t') (tt_next_time t')" using t' by (simp add: tt_inv_def)
  thus ?thesis using t' by (auto simp: tt_nextAddress_def assertR_def)
qed

lemma om_insert_set: "set (map fst (om_insert a v m)) = insert a (set (map fst m))"
  by (induction a v m rule: om_insert.induct) auto

lemma om_insert_sorted: "om_sorted m \<Longrightarrow> om_sorted (om_insert a v m)"
proof (induction a v m rule: om_insert.induct)
  case (2 a v b w m)
  have "\<forall>x \<in> set (map fst (om_insert a v m)). b < x" if "b < a"
    unfolding om_insert_set using "2.prems" that by auto
  thus ?case using 2 by (auto simp: not_less le_less)
qed simp

lemma om_insert_map_of: "om_sorted m \<Longrightarrow> map_of (om_insert a v m) = (map_of m)(a \<mapsto> v)"
  by (induction a v m rule: om_insert.induct) (auto simp: fun_eq_iff)

lemma om_erase_map_of: "map_of (om_erase a m) = (map_of m)(a := None)"
  by (induction m) (auto simp: om_erase_def fun_eq_iff)

lemma om_sorted_in_map: "om_sorted m \<Longrightarrow> (a, v) \<in> set m \<longleftrightarrow> map_of m a = Some v"
  by (simp add: map_of_eq_Some_iff strict_sorted_iff)

lemma om_erase_sorted: "om_sorted m \<Longrightarrow> om_sorted (om_erase a m)"
  by (induction m) (auto simp: om_erase_def)

lemma tt_set_inv:
  assumes "tt_set bsb env a v (t, c) = Inr (t', c')" "tt_inv t"
  shows "tt_inv t' \<and> map_of (tt_map t') = (map_of (tt_map t))(a \<mapsto> v) \<and> map_of (tt_map t) a = None \<and>
    tt_consumer t' = tt_consumer t"
  using assms om_insert_sorted om_insert_map_of
  by (auto simp: tt_set_def Let_def fault_simps tt_inv_def om_count_def split: if_splits)

lemma tt_unset_inv:
  assumes u: "tt_unset bsb a t = Inr t'" and i: "tt_inv t"
  shows "tt_inv t' \<and> map_of (tt_map t') = (map_of (tt_map t))(a := None) \<and> tt_consumer t' = tt_consumer t"
proof -
  have m: "tt_map t' = om_erase a (tt_map t)" "tt_consumer t' = tt_consumer t"
    and v: "tt_next_valid t' \<Longrightarrow> tt_next_valid t \<and> a \<noteq> tt_next_address t \<and>
      tt_next_address t' = tt_next_address t \<and> tt_next_time t' = tt_next_time t"
    using u by (auto simp: tt_unset_def Let_def fault_simps split: if_splits)
  have "earliest (tt_map t') (tt_next_address t') (tt_next_time t')" if "tt_next_valid t'"
    using v[OF that] i unfolding tt_inv_def earliest_def m om_erase_def by auto
  thus ?thesis using m om_erase_sorted i om_erase_map_of by (simp add: tt_inv_def)
qed

section \<open>Histories of timers\<close>

text \<open>The operations of a controller; each setting of a timer happens at its own time.\<close>

datatype timer_op = TSet sim_env addr tick | TUnset addr | TReady tick | TNext

fun tt_step :: "nat \<Rightarrow> timer_op \<Rightarrow> timer_table \<times> consumer \<Rightarrow> (timer_table \<times> consumer) res" where
  "tt_step bsb (TSet env a v) s = tt_set bsb env a v s"
| "tt_step bsb (TUnset a) s = bindR (tt_unset bsb a (fst s)) (\<lambda>t. Inr (t, snd s))"
| "tt_step bsb (TReady now) s = bindR (tt_isReady now (fst s)) (\<lambda>r. Inr (snd r, snd s))"
| "tt_step bsb TNext s = bindR (tt_nextAddress (fst s)) (\<lambda>r. Inr (snd r, snd s))"

text \<open>The timers that a history leaves.\<close>

fun timers :: "timer_op \<Rightarrow> (addr \<rightharpoonup> tick) \<Rightarrow> (addr \<rightharpoonup> tick)" where
  "timers (TSet _ a v) h = h(a \<mapsto> v)"
| "timers (TUnset a) h = h(a := None)"
| "timers _ h = h"

lemma tt_step_inv:
  assumes st: "tt_step bsb x s = Inr s'" and i: "tt_inv (fst s)"
  shows "tt_inv (fst s') \<and> map_of (tt_map (fst s')) = timers x (map_of (tt_map (fst s))) \<and>
    tt_consumer (fst s') = tt_consumer (fst s)"
proof (cases x)
  case (TSet env a v)
  thus ?thesis using st tt_set_inv[of bsb env a v "fst s" "snd s" "fst s'" "snd s'"] i by simp
next
  case (TUnset a)
  thus ?thesis using st tt_unset_inv[OF _ i, of bsb a] by (auto simp: fault_simps)
next
  case (TReady now)
  thus ?thesis using st isReady_ok[OF i, of now] by (auto simp: fault_simps)
next
  case TNext
  have "tt_map (fst s) \<noteq> []"
  proof
    assume e: "tt_map (fst s) = []"
    hence "\<not> tt_next_valid (fst s)" using i by (auto simp: tt_inv_def earliest_def)
    thus False using st TNext e by (auto simp: tt_nextAddress_def tt_updateNext_def assertR_def)
  qed
  thus ?thesis using st TNext nextAddress_ok[OF i] by (auto simp: fault_simps)
qed

lemma tt_run_inv:
  "foldR (tt_step bsb) xs s = Inr s' \<Longrightarrow> tt_inv (fst s) \<Longrightarrow>
     tt_inv (fst s') \<and> map_of (tt_map (fst s')) = fold timers xs (map_of (tt_map (fst s))) \<and>
     tt_consumer (fst s') = tt_consumer (fst s)"
proof (induction xs arbitrary: s)
  case (Cons x xs)
  from Cons.prems(1) obtain s1 where s1: "tt_step bsb x s = Inr s1" "foldR (tt_step bsb) xs s1 = Inr s'"
    by (auto simp: fault_simps)
  show ?case using Cons.IH[OF s1(2)] tt_step_inv[OF s1(1) Cons.prems(2)] by simp
qed simp

lemma tt_set_wakes:
  assumes "time_ok env" "waking_ok env c" "request_ok env (At v)" "a = makeLineAddress bsb a"
    "map_of (tt_map t) a = None" "tt_consumer t"
  shows "\<exists>s w. tt_set bsb env a v (t, c) = Inr s \<and> m_wakeup_event (snd s) = Some w \<and>
    w \<le> requested env (At v)"
proof -
  obtain c' where c': "scheduleEventAbsolute env v c = Inr c'" "consumer_ok env c'"
    "requested env (At v) \<in> set (m_wakeup_ticks c')"
    using scheduleEventAbsolute_ok[OF assms(1-3)] by blast
  obtain w where "m_wakeup_event c' = Some w" "w \<le> requested env (At v)"
    using consumer_event_first[OF c'(2,3)] by blast
  moreover have "\<exists>t'. tt_set bsb env a v (t, c) = Inr (t', c')"
    using c'(1) assms(5,6) assms(4)[symmetric] by (simp add: tt_set_def assertR_def om_count_def Let_def)
  ultimately show ?thesis by auto
qed

text \<open>
  C21. After any history of a timer table, with its cache of the earliest timer kept or dropped along
  the way: the table is ready exactly when a timer that was set and not unset is due; while there is
  one, the next address is that of the earliest timer, the lowest address among equals; and setting
  a further timer for a line that has none succeeds and leaves the consumer with a wakeup no later
  than the clock edge of that timer.
\<close>

theorem timer_table_exact:
  assumes "tt_setConsumer TimerTable_new = Inr t0" "foldR (tt_step bsb) xs (t0, c0) = Inr (t, c)"
    and "h = fold timers xs Map.empty"
  shows "(\<exists>t'. tt_isReady now t = Inr ((\<exists>a v. h a = Some v \<and> v \<le> now), t')) \<and>
    (h \<noteq> Map.empty \<longrightarrow> (\<exists>a v t'. tt_nextAddress t = Inr (a, t') \<and> h a = Some v \<and>
       (\<forall>b w. h b = Some w \<longrightarrow> v \<le> w \<and> (w = v \<longrightarrow> a \<le> b)))) \<and>
    (\<forall>env a v. time_ok env \<and> waking_ok env c \<and> request_ok env (At v) \<and> a = makeLineAddress bsb a \<and>
       h a = None \<longrightarrow>
       (\<exists>s w. tt_set bsb env a v (t, c) = Inr s \<and> m_wakeup_event (snd s) = Some w \<and>
          w \<le> requested env (At v)))"
proof -
  have t0: "tt_inv t0" "tt_map t0 = []" "tt_consumer t0"
    using assms(1) by (auto simp: tt_setConsumer_def TimerTable_new_def assertR_def tt_inv_def)
  have r: "tt_inv t" "map_of (tt_map t) = h" "tt_consumer t"
    using tt_run_inv[OF assms(2)] t0 assms(3) by simp_all
  have s: "om_sorted (tt_map t)" using r(1) by (simp add: tt_inv_def)
  have m: "(a, v) \<in> set (tt_map t) \<longleftrightarrow> h a = Some v" for a v using om_sorted_in_map[OF s] r(2) by simp
  show ?thesis
  proof (intro conjI impI allI)
    have "(\<exists>(a, v) \<in> set (tt_map t). v \<le> now) \<longleftrightarrow> (\<exists>a v. h a = Some v \<and> v \<le> now)"
      using m by (auto simp: Bex_def)
    thus "\<exists>t'. tt_isReady now t = Inr ((\<exists>a v. h a = Some v \<and> v \<le> now), t')"
      using isReady_ok[OF r(1), of now] by auto
  next
    assume "h \<noteq> Map.empty"
    hence "tt_map t \<noteq> []" using r(2) by auto
    from nextAddress_ok[OF r(1) this] obtain a v t' where
      n: "tt_nextAddress t = Inr (a, t')" "earliest (tt_map t) a v" by blast
    have "h a = Some v \<and> (\<forall>b w. h b = Some w \<longrightarrow> v \<le> w \<and> (w = v \<longrightarrow> a \<le> b))"
      using n(2) unfolding earliest_def by (auto simp: m)
    thus "\<exists>a v t'. tt_nextAddress t = Inr (a, t') \<and> h a = Some v \<and>
       (\<forall>b w. h b = Some w \<longrightarrow> v \<le> w \<and> (w = v \<longrightarrow> a \<le> b))" using n(1) by blast
  next
    fix env a v
    assume "time_ok env \<and> waking_ok env c \<and> request_ok env (At v) \<and> a = makeLineAddress bsb a \<and> h a = None"
    thus "\<exists>s w. tt_set bsb env a v (t, c) = Inr s \<and> m_wakeup_event (snd s) = Some w \<and> w \<le> requested env (At v)"
      using r(2,3) by (intro tt_set_wakes) auto
  qed
qed

text \<open>Two timers set at tick 1000 in the order of their addresses, then the later one unset.\<close>

definition demo_timers :: "timer_op list" where
  "demo_timers = [TSet (demo_env 1000) 0x40 3000, TSet (demo_env 1000) 0x80 2000, TNext, TUnset 0x80]"

theorem timer_table_exact_witness:
  "\<exists>t0 t c. tt_setConsumer TimerTable_new = Inr t0 \<and>
     foldR (tt_step 6) demo_timers (t0, demo_consumer) = Inr (t, c) \<and>
     (\<exists>t'. tt_isReady 2500 t = Inr (False, t')) \<and> (\<exists>t'. tt_isReady 3000 t = Inr (True, t')) \<and>
     (\<exists>t'. tt_nextAddress t = Inr (0x40, t'))"
proof -
  define t0 where "t0 = TimerTable_new\<lparr>tt_consumer := True\<rparr>"
  have t0: "tt_setConsumer TimerTable_new = Inr t0" by (simp add: t0_def tt_setConsumer_def TimerTable_new_def)
  have "\<not> isl (foldR (tt_step 6) demo_timers (t0, demo_consumer))"
    unfolding demo_timers_def t0_def TimerTable_new_def by code_simp
  then obtain t c where run: "foldR (tt_step 6) demo_timers (t0, demo_consumer) = Inr (t, c)"
    by (cases "foldR (tt_step 6) demo_timers (t0, demo_consumer)") auto
  define h :: "addr \<rightharpoonup> tick" where "h = fold timers demo_timers Map.empty"
  have h: "h a = Some v \<longleftrightarrow> a = 0x40 \<and> v = 3000" for a v by (auto simp: h_def demo_timers_def)
  have "h \<noteq> Map.empty" using h[of "0x40" 3000] by auto
  thus ?thesis
    using timer_table_exact[OF t0 run h_def, of 2500] timer_table_exact[OF t0 run h_def, of 3000] t0 run
    by (auto simp: h)
qed

end
