(* ===== verification/Cache_Blk.thy ===== *)
theory Cache_Blk
  imports Gem5_Base
begin

text \<open>
  A block of the classic cache (\<^verbatim>\<open>mem/cache/cache_blk.hh\<close>) on top of its tagged entry
  (\<^verbatim>\<open>mem/cache/tags/tagged_entry.hh\<close>): validity, tag and secure bit, the coherence bits, the
  bookkeeping of an insertion, the move assignment, and the list of load locks that decides
  whether a store conditional succeeds.

  \<^item> The data pointer of a block is its offset in the array of the tag store.
  \<^item> A request here is one that has a physical address, a size and a context; the loops that erase
    from the lock list are filters of that list.
  \<^item> \<open>now\<close> stands for \<^verbatim>\<open>curTick()\<close>.
\<close>

unbundle bit_operations_syntax

section \<open>Tagged entries\<close>

definition MaxAddr :: addr where
  "MaxAddr = - 1"

record tagged_entry =
  te_valid :: bool
  te_secure :: bool
  te_tag :: addr

definition matchTag :: "addr \<Rightarrow> bool \<Rightarrow> 'z tagged_entry_scheme \<Rightarrow> bool" where
  "matchTag tag is_secure e \<longleftrightarrow> te_valid e \<and> te_tag e = tag \<and> te_secure e = is_secure"

definition setValid :: "'z tagged_entry_scheme \<Rightarrow> 'z tagged_entry_scheme res" where
  "setValid e = assertR (\<not> te_valid e) (Inr (e\<lparr>te_valid := True\<rparr>))"

definition tagged_insert :: "addr \<Rightarrow> bool \<Rightarrow> 'z tagged_entry_scheme \<Rightarrow> 'z tagged_entry_scheme res" where
  "tagged_insert tag is_secure e = bindR (setValid e) (\<lambda>e.
     let e = e\<lparr>te_tag := tag\<rparr> in Inr (if is_secure then e\<lparr>te_secure := True\<rparr> else e))"

definition tagged_invalidate :: "'z tagged_entry_scheme \<Rightarrow> 'z tagged_entry_scheme" where
  "tagged_invalidate e = e\<lparr>te_valid := False, te_tag := MaxAddr, te_secure := False\<rparr>"

section \<open>Load locks\<close>

record mem_request =
  req_paddr :: addr
  req_size :: addr
  req_contextId :: int

record ll_lock =
  contextId :: int
  lowAddr :: addr
  highAddr :: addr

definition Lock_new :: "mem_request \<Rightarrow> ll_lock" where
  "Lock_new req = \<lparr>contextId = req_contextId req, lowAddr = req_paddr req,
                  highAddr = req_paddr req + req_size req - 1\<rparr>"

definition lock_matches :: "ll_lock \<Rightarrow> mem_request \<Rightarrow> bool" where
  "lock_matches l req \<longleftrightarrow>
     (let req_low = req_paddr req; req_high = req_low + req_size req - 1
      in contextId l = req_contextId req \<and> lowAddr l \<le> req_low \<and> req_high \<le> highAddr l)"

definition lock_intersects :: "ll_lock \<Rightarrow> mem_request \<Rightarrow> bool" where
  "lock_intersects l req \<longleftrightarrow>
     (let req_low = req_paddr req; req_high = req_low + req_size req - 1
      in req_low \<le> highAddr l \<and> lowAddr l \<le> req_high)"

section \<open>Cache blocks\<close>

definition WritableBit :: "32 word" where
  "WritableBit = 0x02"

definition ReadableBit :: "32 word" where
  "ReadableBit = 0x04"

definition DirtyBit :: "32 word" where
  "DirtyBit = 0x08"

definition AllBits :: "32 word" where
  "AllBits = 0x0E"

text \<open>The task id of blocks that no task owns, and the requestor id of no requestor (the largest
  16-bit number).\<close>

definition task_Unknown :: "32 word" where
  "task_Unknown = 1024"

definition invldRequestorId :: int where
  "invldRequestorId = 65535"

record cache_blk = tagged_entry +
  cb_data :: "nat option"
  cb_whenReady :: tick
  cb_lockList :: "ll_lock list"
  cb_coherence :: "32 word"
  cb_taskId :: "32 word"
  cb_srcRequestorId :: int
  cb_refCount :: "32 word"
  cb_tickInserted :: tick
  cb_prefetched :: bool

definition blk_invalidate :: "cache_blk \<Rightarrow> cache_blk" where
  "blk_invalidate blk = (tagged_invalidate blk)
     \<lparr>cb_prefetched := False, cb_coherence := cb_coherence blk AND NOT AllBits,
      cb_taskId := task_Unknown, cb_whenReady := MaxTick, cb_refCount := 0,
      cb_srcRequestorId := invldRequestorId, cb_lockList := []\<rparr>"

definition CacheBlk_new :: "32 word \<Rightarrow> cache_blk" where
  "CacheBlk_new coherence0 = blk_invalidate
     \<lparr>te_valid = False, te_secure = False, te_tag = MaxAddr, cb_data = None, cb_whenReady = 0,
      cb_lockList = [], cb_coherence = coherence0, cb_taskId = 0, cb_srcRequestorId = 0,
      cb_refCount = 0, cb_tickInserted = 0, cb_prefetched = False\<rparr>"

definition setCoherenceBits :: "32 word \<Rightarrow> cache_blk \<Rightarrow> cache_blk res" where
  "setCoherenceBits b blk = assertR (te_valid blk) (Inr (blk\<lparr>cb_coherence := cb_coherence blk OR b\<rparr>))"

definition clearCoherenceBits :: "32 word \<Rightarrow> cache_blk \<Rightarrow> cache_blk" where
  "clearCoherenceBits b blk = blk\<lparr>cb_coherence := cb_coherence blk AND NOT b\<rparr>"

definition blk_isSet :: "32 word \<Rightarrow> cache_blk \<Rightarrow> bool" where
  "blk_isSet b blk \<longleftrightarrow> te_valid blk \<and> cb_coherence blk AND b \<noteq> 0"

definition setWhenReady :: "tick \<Rightarrow> cache_blk \<Rightarrow> cache_blk res" where
  "setWhenReady t blk = assertR (cb_tickInserted blk \<le> t) (Inr (blk\<lparr>cb_whenReady := t\<rparr>))"

definition getWhenReady :: "cache_blk \<Rightarrow> tick res" where
  "getWhenReady blk = assertR (cb_whenReady blk \<noteq> MaxTick) (Inr (cb_whenReady blk))"

definition getAge :: "tick \<Rightarrow> cache_blk \<Rightarrow> tick res" where
  "getAge now blk = assertR (cb_tickInserted blk \<le> now) (Inr (now - cb_tickInserted blk))"

definition increaseRefCount :: "cache_blk \<Rightarrow> cache_blk" where
  "increaseRefCount blk = blk\<lparr>cb_refCount := cb_refCount blk + 1\<rparr>"

definition CacheBlk_insert :: "tick \<Rightarrow> addr \<Rightarrow> bool \<Rightarrow> int \<Rightarrow> 32 word \<Rightarrow> cache_blk \<Rightarrow> cache_blk res" where
  "CacheBlk_insert now tag is_secure src_requestor_ID task_ID blk =
     assertR (\<not> te_valid blk) (bindR (tagged_insert tag is_secure blk) (\<lambda>blk.
       Inr (increaseRefCount (blk\<lparr>cb_srcRequestorId := src_requestor_ID, cb_taskId := task_ID,
                                  cb_tickInserted := now\<rparr>))))"

text \<open>The move assignment: the contents of \<open>other\<close> go to \<open>blk\<close>; the pair is (target, source).\<close>

definition CacheBlk_move :: "tick \<Rightarrow> cache_blk \<Rightarrow> cache_blk \<Rightarrow> (cache_blk \<times> cache_blk) res" where
  "CacheBlk_move now blk other =
     assertR (\<not> te_valid blk) (assertR (te_valid other)
       (bindR (tagged_insert (te_tag other) (te_secure other) blk) (\<lambda>blk.
        let blk = (if cb_prefetched other then blk\<lparr>cb_prefetched := True\<rparr> else blk) in
        bindR (setCoherenceBits (cb_coherence other) blk) (\<lambda>blk.
        bindR (setWhenReady now (blk\<lparr>cb_taskId := cb_taskId other\<rparr>)) (\<lambda>blk.
          Inr (blk\<lparr>cb_refCount := cb_refCount other, cb_srcRequestorId := cb_srcRequestorId other,
                   cb_lockList := cb_lockList other\<rparr>,
               blk_invalidate (other\<lparr>cb_lockList := cb_lockList blk\<rparr>)))))))"

section \<open>Load-locked and store-conditional\<close>

definition trackLoadLocked :: "bool \<Rightarrow> mem_request \<Rightarrow> cache_blk \<Rightarrow> cache_blk res" where
  "trackLoadLocked isLLSC req blk = assertR isLLSC
     (Inr (blk\<lparr>cb_lockList := Lock_new req # filter (\<lambda>l. \<not> lock_intersects l req) (cb_lockList blk)\<rparr>))"

definition clearLoadLocks :: "mem_request \<Rightarrow> cache_blk \<Rightarrow> cache_blk" where
  "clearLoadLocks req blk = blk\<lparr>cb_lockList :=
     filter (\<lambda>l. \<not> (lock_intersects l req \<and> contextId l \<noteq> req_contextId req)) (cb_lockList blk)\<rparr>"

fun erase_match :: "mem_request \<Rightarrow> ll_lock list \<Rightarrow> bool \<times> ll_lock list" where
  "erase_match req [] = (False, [])"
| "erase_match req (l # ls) = (if lock_matches l req then (True, ls)
     else let (success, ls') = erase_match req ls in (success, l # ls'))"

text \<open>The result is whether the write proceeds, the extra data set in the request (if any) and
  the block.\<close>

definition checkWrite :: "bool \<Rightarrow> bool \<Rightarrow> mem_request \<Rightarrow> cache_blk \<Rightarrow> (bool \<times> nat option \<times> cache_blk) res" where
  "checkWrite isWrite isLLSC req blk = assertR isWrite
     (Inr (if \<not> isLLSC \<and> cb_lockList blk = [] then (True, None, blk)
       else if isLLSC then
         let (success, ls) = erase_match req (cb_lockList blk);
             blk = clearLoadLocks req (blk\<lparr>cb_lockList := ls\<rparr>)
         in (success, Some (if success then 1 else 0), blk)
       else (True, None, clearLoadLocks req blk)))"

section \<open>What insertion, invalidation and a move leave\<close>

lemma tagged_insert_Inr:
  "tagged_insert tag sec e = Inr e' \<longleftrightarrow>
     \<not> te_valid e \<and> e' = e\<lparr>te_valid := True, te_tag := tag, te_secure := te_secure e \<or> sec\<rparr>"
  by (cases e) (auto simp: tagged_insert_def setValid_def fault_simps Let_def)

lemma blk_invalidate_fields [simp]:
  "te_valid (blk_invalidate b) = False" "te_secure (blk_invalidate b) = False"
  "te_tag (blk_invalidate b) = MaxAddr" "cb_data (blk_invalidate b) = cb_data b"
  "cb_refCount (blk_invalidate b) = 0" "cb_lockList (blk_invalidate b) = []"
  "cb_tickInserted (blk_invalidate b) = cb_tickInserted b"
  by (simp_all add: blk_invalidate_def tagged_invalidate_def)

text \<open>An invalid block carries no state: the secure bit, the coherence bits and the locks are
  clear, so that an insertion cannot inherit any of them.\<close>

definition blk_clean :: "cache_blk \<Rightarrow> bool" where
  "blk_clean b \<longleftrightarrow> (te_valid b \<or> \<not> te_secure b \<and> cb_coherence b AND AllBits = 0 \<and>
     cb_refCount b = 0 \<and> cb_lockList b = [] \<and> \<not> cb_prefetched b)"

lemma blk_clean_invalidate [intro, simp]: "blk_clean (blk_invalidate b)"
  by (auto simp: blk_clean_def blk_invalidate_def tagged_invalidate_def bit_eq_iff bit_simps)

lemma blk_clean_valid [intro]: "te_valid b \<Longrightarrow> blk_clean b"
  by (simp add: blk_clean_def)

lemma CacheBlk_new_clean: "blk_clean (CacheBlk_new c)"
  by (simp add: CacheBlk_new_def)

lemma CacheBlk_insert_clean:
  assumes "blk_clean b" "\<not> te_valid b"
  shows "\<exists>b'. CacheBlk_insert now tag sec req task b = Inr b' \<and> te_valid b' \<and> te_tag b' = tag \<and>
     te_secure b' = sec \<and> cb_refCount b' = 1 \<and> cb_srcRequestorId b' = req \<and> cb_taskId b' = task \<and>
     cb_tickInserted b' = now \<and> cb_lockList b' = [] \<and> cb_data b' = cb_data b"
  using assms by (auto simp: CacheBlk_insert_def tagged_insert_Inr fault_simps blk_clean_def
    increaseRefCount_def assertR_def)

end
