(* ===== verification/Cache_Lock.thy ===== *)
theory Cache_Lock
  imports Cache_Blk
begin

text \<open>
  Load-locked and store-conditional on one cache block: which history of accesses makes a store
  conditional succeed.
\<close>

section \<open>Histories of accesses\<close>

datatype ll_op = LoadLocked mem_request | Store mem_request | StoreCond mem_request

fun op_request :: "ll_op \<Rightarrow> mem_request" where
  "op_request (LoadLocked r) = r"
| "op_request (Store r) = r"
| "op_request (StoreCond r) = r"

fun blk_op :: "ll_op \<Rightarrow> cache_blk \<Rightarrow> (bool \<times> cache_blk) res" where
  "blk_op (LoadLocked r) b = bindR (trackLoadLocked True r b) (\<lambda>b. Inr (True, b))"
| "blk_op (Store r) b = bindR (checkWrite True False r b) (\<lambda>(ok, _, b). Inr (ok, b))"
| "blk_op (StoreCond r) b = bindR (checkWrite True True r b) (\<lambda>(ok, _, b). Inr (ok, b))"

definition blk_run :: "ll_op list \<Rightarrow> cache_blk \<Rightarrow> cache_blk res" where
  "blk_run = foldR (\<lambda>x b. bindR (blk_op x b) (\<lambda>r. Inr (snd r)))"

text \<open>A request covers at least one byte and does not wrap around the address space.\<close>

definition covers :: "mem_request \<Rightarrow> bool" where
  "covers r \<longleftrightarrow> req_paddr r \<le> req_paddr r + req_size r - 1"

text \<open>The accesses that end a lock: another load-locked on its range, a store or store conditional
  of another context on its range, and the store conditional that uses it.\<close>

fun ends_lock :: "ll_lock \<Rightarrow> ll_op \<Rightarrow> bool" where
  "ends_lock l (LoadLocked r) \<longleftrightarrow> lock_intersects l r"
| "ends_lock l (Store r) \<longleftrightarrow> lock_intersects l r \<and> contextId l \<noteq> req_contextId r"
| "ends_lock l (StoreCond r) \<longleftrightarrow>
     lock_intersects l r \<and> contextId l \<noteq> req_contextId r \<or> lock_matches l r"

section \<open>The lock list and the history\<close>

definition apart :: "ll_lock \<Rightarrow> ll_lock \<Rightarrow> bool" where
  "apart l m \<longleftrightarrow> \<not> (lowAddr l \<le> highAddr m \<and> lowAddr m \<le> highAddr l)"

abbreviation locks_apart :: "ll_lock list \<Rightarrow> bool" where
  "locks_apart ls \<equiv> sorted_wrt apart ls"

lemma apart_new: "\<not> lock_intersects l r \<Longrightarrow> apart (Lock_new r) l"
  by (auto simp: apart_def lock_intersects_def Lock_new_def Let_def)

lemma one_match:
  assumes "covers r" "lock_matches l r" "lock_matches m r"
  shows "\<not> apart l m"
proof -
  have a: "req_paddr r \<le> req_paddr r + req_size r - 1" using assms(1) by (simp add: covers_def)
  have l: "lowAddr l \<le> req_paddr r" "req_paddr r + req_size r - 1 \<le> highAddr l"
    using assms(2) by (simp_all add: lock_matches_def Let_def)
  have m: "lowAddr m \<le> req_paddr r" "req_paddr r + req_size r - 1 \<le> highAddr m"
    using assms(3) by (simp_all add: lock_matches_def Let_def)
  have "lowAddr l \<le> highAddr m" "lowAddr m \<le> highAddr l"
    using order_trans[OF l(1) order_trans[OF a m(2)]] order_trans[OF m(1) order_trans[OF a l(2)]] by simp_all
  thus ?thesis by (simp add: apart_def)
qed

lemma erase_match_filter:
  assumes "covers r"
  shows "locks_apart ls \<Longrightarrow>
    erase_match r ls = ((\<exists>l \<in> set ls. lock_matches l r), filter (\<lambda>l. \<not> lock_matches l r) ls)"
proof (induction ls)
  case (Cons l ls)
  show ?case
  proof (cases "lock_matches l r")
    case True
    have "\<forall>m \<in> set ls. \<not> lock_matches m r"
      using Cons.prems True one_match[OF assms True] by auto
    thus ?thesis using True by simp
  next
    case False
    thus ?thesis using Cons by auto
  qed
qed simp

fun new_locks :: "ll_op \<Rightarrow> ll_lock list" where
  "new_locks (LoadLocked r) = [Lock_new r]"
| "new_locks _ = []"

lemma blk_op_locks:
  assumes "covers (op_request x)" "locks_apart (cb_lockList b)"
  shows "\<exists>ok b'. blk_op x b = Inr (ok, b') \<and>
    cb_lockList b' = new_locks x @ filter (\<lambda>l. \<not> ends_lock l x) (cb_lockList b) \<and>
    (\<forall>r. x = StoreCond r \<longrightarrow> (ok \<longleftrightarrow> (\<exists>l \<in> set (cb_lockList b). lock_matches l r)))"
proof (cases x)
  case (StoreCond r)
  have c: "covers r" using assms(1) StoreCond by simp
  show ?thesis unfolding StoreCond
    by (simp add: checkWrite_def assertR_def erase_match_filter[OF c assms(2)] clearLoadLocks_def)
       (rule filter_cong, auto)
qed (auto simp: trackLoadLocked_def checkWrite_def assertR_def clearLoadLocks_def intro: exI[of _ True])

lemma locks_apart_step:
  assumes "locks_apart ls"
  shows "locks_apart (new_locks x @ filter (\<lambda>l. \<not> ends_lock l x) ls)"
  using sorted_wrt_filter[OF assms] by (cases x) (auto intro: apart_new)

fun alive :: "ll_op list \<Rightarrow> ll_lock list" where
  "alive [] = []"
| "alive (x # h) = new_locks x @ filter (\<lambda>l. \<not> ends_lock l x) (alive h)"

lemma locks_apart_alive: "locks_apart (alive h)"
  by (induction h) (simp_all only: alive.simps sorted_wrt.simps locks_apart_step)

lemma blk_run_alive:
  assumes "cb_lockList b = alive h" "\<forall>x \<in> set xs. covers (op_request x)"
  shows "\<exists>b'. blk_run xs b = Inr b' \<and> cb_lockList b' = alive (rev xs @ h)"
  using assms
proof (induction xs arbitrary: b h)
  case (Cons x xs)
  have a: "locks_apart (cb_lockList b)" unfolding Cons.prems(1) by (rule locks_apart_alive)
  have c: "covers (op_request x)" using Cons.prems(2) by simp
  obtain ok b1 where b1: "blk_op x b = Inr (ok, b1)" "cb_lockList b1 = alive (x # h)"
    using blk_op_locks[OF c a] Cons.prems(1) by auto
  obtain b' where "blk_run xs b1 = Inr b'" "cb_lockList b' = alive (rev xs @ x # h)"
    using Cons.IH[OF b1(2)] Cons.prems(2) by auto
  thus ?case using b1(1) by (simp add: blk_run_def)
qed (simp add: blk_run_def)

lemma alive_iff:
  "l \<in> set (alive h) \<longleftrightarrow> (\<exists>mid r pre. h = mid @ LoadLocked r # pre \<and> l = Lock_new r \<and>
     (\<forall>x \<in> set mid. \<not> ends_lock l x))"
proof (induction h)
  case (Cons x h)
  have "(\<exists>mid r pre. x # h = mid @ LoadLocked r # pre \<and> l = Lock_new r \<and> (\<forall>x \<in> set mid. \<not> ends_lock l x)) \<longleftrightarrow>
      l \<in> set (new_locks x) \<or> \<not> ends_lock l x \<and>
      (\<exists>mid r pre. h = mid @ LoadLocked r # pre \<and> l = Lock_new r \<and> (\<forall>x \<in> set mid. \<not> ends_lock l x))"
    (is "?A \<longleftrightarrow> ?N \<or> _ \<and> ?B")
  proof
    assume ?A
    then obtain mid r pre where m: "x # h = mid @ LoadLocked r # pre" "l = Lock_new r"
      "\<forall>x \<in> set mid. \<not> ends_lock l x" by blast
    show "?N \<or> \<not> ends_lock l x \<and> ?B"
    proof (cases mid)
      case Nil
      thus ?thesis using m by simp
    next
      case (Cons y mid')
      hence "h = mid' @ LoadLocked r # pre" "y = x" using m(1) by simp_all
      thus ?thesis using m(2,3) Cons by auto
    qed
  next
    assume "?N \<or> \<not> ends_lock l x \<and> ?B"
    thus ?A
    proof (elim disjE conjE exE)
      assume ?N
      then obtain r where "x = LoadLocked r" "l = Lock_new r" by (cases x) auto
      thus ?A by (intro exI[of _ "[]"]) auto
    next
      fix mid r pre
      assume "\<not> ends_lock l x" "h = mid @ LoadLocked r # pre" "l = Lock_new r" "\<forall>x \<in> set mid. \<not> ends_lock l x"
      thus ?A by (intro exI[of _ "x # mid"] exI[of _ r] exI[of _ pre]) auto
    qed
  qed
  thus ?case using Cons.IH by auto
qed simp

section \<open>When a store conditional succeeds\<close>

text \<open>
  C11. On a block whose lock list was empty, after any history of load-locked, store and store
  conditional accesses (each covering at least a byte and not wrapping around), no access faults,
  and a store conditional succeeds exactly when the history holds a load-locked of the same context
  whose range contains the store and since which no access ended its lock: no load-locked on an
  overlapping range, no store or store conditional of another context on an overlapping range, and
  no store conditional that already used it.
\<close>

theorem store_conditional_exact:
  assumes "cb_lockList b = []" "\<forall>x \<in> set xs. covers (op_request x)" "covers r"
  shows "\<exists>b1 ok b2. blk_run xs b = Inr b1 \<and> blk_op (StoreCond r) b1 = Inr (ok, b2) \<and>
    (ok \<longleftrightarrow> (\<exists>pre q mid. xs = pre @ LoadLocked q # mid \<and> lock_matches (Lock_new q) r \<and>
               (\<forall>x \<in> set mid. \<not> ends_lock (Lock_new q) x)))"
proof -
  obtain b1 where b1: "blk_run xs b = Inr b1" "cb_lockList b1 = alive (rev xs)"
    using blk_run_alive[of b "[]" xs] assms(1,2) by auto
  have a: "locks_apart (cb_lockList b1)" unfolding b1(2) by (rule locks_apart_alive)
  have c: "covers (op_request (StoreCond r))" using assms(3) by simp
  obtain ok b2 where b2: "blk_op (StoreCond r) b1 = Inr (ok, b2)"
    "ok \<longleftrightarrow> (\<exists>l \<in> set (cb_lockList b1). lock_matches l r)"
    using blk_op_locks[OF c a] by blast
  have "(\<exists>l \<in> set (alive (rev xs)). lock_matches l r) \<longleftrightarrow>
      (\<exists>pre q mid. xs = pre @ LoadLocked q # mid \<and> lock_matches (Lock_new q) r \<and>
         (\<forall>x \<in> set mid. \<not> ends_lock (Lock_new q) x))"
  proof
    assume "\<exists>l \<in> set (alive (rev xs)). lock_matches l r"
    then obtain l where l: "l \<in> set (alive (rev xs))" "lock_matches l r" by blast
    from l(1)[unfolded alive_iff] l(2) obtain mid q pre where "rev xs = mid @ LoadLocked q # pre" "lock_matches (Lock_new q) r"
      "\<forall>x \<in> set mid. \<not> ends_lock (Lock_new q) x" by blast
    moreover from this(1) have "xs = rev pre @ LoadLocked q # rev mid" by (simp add: rev_swap)
    ultimately show "\<exists>pre q mid. xs = pre @ LoadLocked q # mid \<and> lock_matches (Lock_new q) r \<and>
         (\<forall>x \<in> set mid. \<not> ends_lock (Lock_new q) x)" by (metis set_rev)
  next
    assume "\<exists>pre q mid. xs = pre @ LoadLocked q # mid \<and> lock_matches (Lock_new q) r \<and>
         (\<forall>x \<in> set mid. \<not> ends_lock (Lock_new q) x)"
    then obtain pre q mid where x: "xs = pre @ LoadLocked q # mid" "lock_matches (Lock_new q) r"
      "\<forall>x \<in> set mid. \<not> ends_lock (Lock_new q) x" by blast
    have "Lock_new q \<in> set (alive (rev xs))" unfolding alive_iff x(1)
      using x(3) by (intro exI[of _ "rev mid"] exI[of _ q] exI[of _ "rev pre"]) auto
    thus "\<exists>l \<in> set (alive (rev xs)). lock_matches l r" using x(2) by blast
  qed
  thus ?thesis using b1 b2 by auto
qed

text \<open>Context 1 locks a word, context 2 stores to another word: the store conditional succeeds; after
  a store conditional of context 2 to the same word, which fails, it does not.\<close>

definition demo_req :: "int \<Rightarrow> addr \<Rightarrow> mem_request" where
  "demo_req c a = \<lparr>req_paddr = a, req_size = 4, req_contextId = c\<rparr>"

theorem store_conditional_exact_witness:
  "(\<exists>b1 b2. blk_run [LoadLocked (demo_req 1 8), Store (demo_req 2 16)] (CacheBlk_new 0) = Inr b1 \<and>
      blk_op (StoreCond (demo_req 1 8)) b1 = Inr (True, b2)) \<and>
   (\<exists>b1 b2. blk_run [LoadLocked (demo_req 1 8), StoreCond (demo_req 2 8)] (CacheBlk_new 0) = Inr b1 \<and>
      blk_op (StoreCond (demo_req 1 8)) b1 = Inr (False, b2))"
proof
  have e: "cb_lockList (CacheBlk_new 0) = []" by (simp add: CacheBlk_new_def)
  have c: "covers (demo_req i 8)" "covers (demo_req i 16)" for i by (simp_all add: covers_def demo_req_def)
  let ?h = "[LoadLocked (demo_req 1 8), Store (demo_req 2 16)]"
  have "\<exists>pre q mid. ?h = pre @ LoadLocked q # mid \<and> lock_matches (Lock_new q) (demo_req 1 8) \<and>
      (\<forall>x \<in> set mid. \<not> ends_lock (Lock_new q) x)"
    by (intro exI[of _ "[]"] exI[of _ "demo_req 1 8"] exI[of _ "[Store (demo_req 2 16)]"])
       (simp add: lock_matches_def lock_intersects_def Lock_new_def demo_req_def)
  thus "\<exists>b1 b2. blk_run ?h (CacheBlk_new 0) = Inr b1 \<and> blk_op (StoreCond (demo_req 1 8)) b1 = Inr (True, b2)"
    using store_conditional_exact[OF e, of ?h "demo_req 1 8"] c by auto
  let ?g = "[LoadLocked (demo_req 1 8), StoreCond (demo_req 2 8)]"
  have "\<not> (\<exists>pre q mid. ?g = pre @ LoadLocked q # mid \<and> lock_matches (Lock_new q) (demo_req 1 8) \<and>
      (\<forall>x \<in> set mid. \<not> ends_lock (Lock_new q) x))"
    by (auto simp: Cons_eq_append_conv lock_matches_def lock_intersects_def Lock_new_def demo_req_def)
  thus "\<exists>b1 b2. blk_run ?g (CacheBlk_new 0) = Inr b1 \<and> blk_op (StoreCond (demo_req 1 8)) b1 = Inr (False, b2)"
    using store_conditional_exact[OF e, of ?g "demo_req 1 8"] c by auto
qed

end
