(* ===== verification/Index_Policy.thy ===== *)
theory Index_Policy
  imports Gem5_Base
begin

text \<open>
  The indexing policies of the tag store (\<^verbatim>\<open>mem/cache/tags/indexing_policies\<close>): the set-associative one
  and the skewed-associative one, whose set index depends on the way.  Both must be able to
  regenerate the address of a block from its tag and its position, since the tag store keeps
  nothing else.

  \<^item> Pointers to replaceable entries are values of type \<open>'e\<close>; the position that an entry stores
    (\<^verbatim>\<open>_set\<close> and \<^verbatim>\<open>_way\<close>) is kept in the map \<open>ix_position\<close>.
  \<^item> \<^verbatim>\<open>uint32_t\<close> values are natural numbers, or words cut to 32 bits where they are shifted.
\<close>

unbundle bit_operations_syntax

section \<open>Bit fields of one bit\<close>

text \<open>
  The calls below give positions with \<open>last' \<le> first\<close>, so the assertion of \<^verbatim>\<open>bits\<close> holds
  (lemma \<open>bits_range\<close>).
\<close>

definition bits_of :: "64 word \<Rightarrow> nat \<Rightarrow> nat \<Rightarrow> 64 word" where
  "bits_of val first last' = drop_bit last' val AND mask64 (first - last' + 1)"

definition insertBits :: "64 word \<Rightarrow> nat \<Rightarrow> 64 word \<Rightarrow> 64 word" where
  "insertBits val i bit_val =
     (let bmask = mbits (- 1) i i in (val AND NOT bmask) OR (push_bit i bit_val AND bmask))"

lemma bits_range: "last' \<le> first \<Longrightarrow> bits val first last' = Inr (bits_of val first last')"
  by (simp add: bits_def bits_of_def)

section \<open>The base class\<close>

record 'e indexing =
  ix_assoc :: nat
  ix_numSets :: nat
  ix_setShift :: nat
  ix_setMask :: "64 word"
  ix_sets :: "'e option list list"
  ix_tagShift :: nat
  ix_position :: "'e \<rightharpoonup> nat \<times> nat"

definition BaseIndexingPolicy :: "nat \<Rightarrow> nat \<Rightarrow> nat \<Rightarrow> 'e indexing res" where
  "BaseIndexingPolicy size' entry_size assoc =
     (let d = entry_size * assoc mod 2 ^ 32; numSets = (size' div d) mod 2 ^ 32
      in if d = 0 then Inl DivByZero
      else bindR (floorLog2 4 (int entry_size)) (\<lambda>setShift.
        bindR (floorLog2 4 (int numSets)) (\<lambda>l.
          if \<not> isPowerOf2 numSets then Inl (ConfigExit ''# of sets must be a power of 2'')
          else if assoc = 0 then Inl (ConfigExit ''associativity must be greater than zero'')
          else Inr \<lparr>ix_assoc = assoc, ix_numSets = numSets, ix_setShift = setShift,
                 ix_setMask = of_nat (numSets - 1),
                 ix_sets = replicate numSets (replicate assoc None),
                 ix_tagShift = setShift + l, ix_position = Map.empty\<rparr>)))"

definition getEntry :: "('e, 'z) indexing_scheme \<Rightarrow> nat \<Rightarrow> nat \<Rightarrow> 'e option res" where
  "getEntry ix set' way = bindR (nthR (ix_sets ix) (int set')) (\<lambda>row. nthR row (int way))"

definition setEntry :: "'e \<Rightarrow> nat \<Rightarrow> ('e, 'z) indexing_scheme \<Rightarrow> ('e, 'z) indexing_scheme res" where
  "setEntry entry index ix =
     (if ix_assoc ix = 0 then Inl DivByZero
      else let set' = (index div ix_assoc ix) mod 2 ^ 32; way = index mod ix_assoc ix in
        assertR (set' < ix_numSets ix)
          (bindR (nthR (ix_sets ix) (int set')) (\<lambda>row.
             if way < length row
             then Inr (ix\<lparr>ix_sets := (ix_sets ix)[set' := row[way := Some entry]],
                          ix_position := (ix_position ix)(entry \<mapsto> (set', way))\<rparr>)
             else Inl BadIndex)))"

definition extractTag :: "('e, 'z) indexing_scheme \<Rightarrow> addr \<Rightarrow> addr" where
  "extractTag ix a = drop_bit (ix_tagShift ix) a"

section \<open>Set-associative indexing\<close>

definition SetAssociative_extractSet :: "('e, 'z) indexing_scheme \<Rightarrow> addr \<Rightarrow> nat" where
  "SetAssociative_extractSet ix a = unat (take_bit 32 (drop_bit (ix_setShift ix) a AND ix_setMask ix))"

text \<open>The set is a 32-bit number, and so is the result of its shift.\<close>

definition SetAssociative_regenerateAddr :: "('e, 'z) indexing_scheme \<Rightarrow> addr \<Rightarrow> nat \<Rightarrow> addr" where
  "SetAssociative_regenerateAddr ix tag set' =
     push_bit (ix_tagShift ix) tag OR take_bit 32 (push_bit (ix_setShift ix) (of_nat set'))"

definition SetAssociative_getPossibleEntries ::
    "('e, 'z) indexing_scheme \<Rightarrow> addr \<Rightarrow> 'e option list res" where
  "SetAssociative_getPossibleEntries ix a = nthR (ix_sets ix) (int (SetAssociative_extractSet ix a))"

section \<open>Skewed-associative indexing\<close>

record 'e skewed = "'e indexing" +
  msbShift :: nat

definition NUM_SKEWING_FUNCTIONS :: nat where
  "NUM_SKEWING_FUNCTIONS = 8"

definition SkewedAssociative :: "nat \<Rightarrow> nat \<Rightarrow> nat \<Rightarrow> 'e skewed res" where
  "SkewedAssociative size' entry_size assoc =
     bindR (BaseIndexingPolicy size' entry_size assoc) (\<lambda>ix.
     bindR (floorLog2 4 (int (ix_numSets ix))) (\<lambda>l.
       if ix_setShift ix + 2 * l > 64 then Inl (Panic ''Unsuported number of bits'')
       else if ix_numSets ix \<le> 2 then Inl (ConfigExit ''The number of sets must be greater than 2'')
       else Inr (indexing.extend ix \<lparr>msbShift = l - 1\<rparr>)))"

definition hash :: "'e skewed \<Rightarrow> addr \<Rightarrow> addr" where
  "hash s a =
     (let lsb = bits_of a 0 0; msb = bits_of a (msbShift s) (msbShift s); xor_bit = msb XOR lsb
      in insertBits (drop_bit 1 a) (msbShift s) xor_bit)"

definition dehash :: "'e skewed \<Rightarrow> addr \<Rightarrow> addr" where
  "dehash s a =
     (let msb = bits_of a (msbShift s - 1) (msbShift s - 1);
          xor_bit = bits_of a (msbShift s) (msbShift s);
          lsb = msb XOR xor_bit;
          addr_no_msb = mbits a (msbShift s - 1) 0
      in insertBits (push_bit 1 addr_no_msb) 0 lsb)"

definition skew :: "'e skewed \<Rightarrow> addr \<Rightarrow> nat \<Rightarrow> addr" where
  "skew s a way =
     (let addr1 = bits_of a (msbShift s) 0;
          addr2 = bits_of a (2 * (msbShift s + 1) - 1) (msbShift s + 1);
          k = way mod NUM_SKEWING_FUNCTIONS;
          addr1 = (if k = 0 then hash s addr1 XOR hash s addr2 XOR addr2
              else if k = 1 then hash s addr1 XOR hash s addr2 XOR addr1
              else if k = 2 then hash s addr1 XOR dehash s addr2 XOR addr2
              else if k = 3 then hash s addr1 XOR dehash s addr2 XOR addr1
              else if k = 4 then dehash s addr1 XOR hash s addr2 XOR addr2
              else if k = 5 then dehash s addr1 XOR hash s addr2 XOR addr1
              else if k = 6 then dehash s addr1 XOR dehash s addr2 XOR addr2
              else dehash s addr1 XOR dehash s addr2 XOR addr1)
      in (hash s ^^ (way div NUM_SKEWING_FUNCTIONS)) addr1)"

definition deskew :: "'e skewed \<Rightarrow> addr \<Rightarrow> nat \<Rightarrow> addr" where
  "deskew s a way =
     (let addr1 = bits_of a (msbShift s) 0;
          addr2 = bits_of a (2 * (msbShift s + 1) - 1) (msbShift s + 1);
          addr1 = (if way \<ge> NUM_SKEWING_FUNCTIONS
                   then (dehash s ^^ (way div NUM_SKEWING_FUNCTIONS)) addr1 else addr1);
          k = way mod 8
      in if k = 0 then dehash s (addr1 XOR hash s addr2 XOR addr2)
         else if k = 1 then (hash s ^^ msbShift s) (addr1 XOR hash s addr2)
         else if k = 2 then dehash s (addr1 XOR dehash s addr2 XOR addr2)
         else if k = 3 then (hash s ^^ msbShift s) (addr1 XOR dehash s addr2)
         else if k = 4 then hash s (addr1 XOR hash s addr2 XOR addr2)
         else if k = 5 then (hash s ^^ (msbShift s + 1)) (addr1 XOR hash s addr2)
         else if k = 6 then hash s (addr1 XOR dehash s addr2 XOR addr2)
         else (hash s ^^ (msbShift s + 1)) (addr1 XOR dehash s addr2))"

definition Skewed_extractSet :: "'e skewed \<Rightarrow> addr \<Rightarrow> nat \<Rightarrow> nat" where
  "Skewed_extractSet s a way =
     unat (take_bit 32 (skew s (drop_bit (ix_setShift s) a) way AND ix_setMask s))"

definition Skewed_regenerateAddr :: "'e skewed \<Rightarrow> addr \<Rightarrow> nat \<Rightarrow> nat \<Rightarrow> addr" where
  "Skewed_regenerateAddr s tag set' way =
     (let addr_set = push_bit (msbShift s + 1) tag OR of_nat set'
      in push_bit (ix_tagShift s) tag OR
         push_bit (ix_setShift s) (deskew s addr_set way AND ix_setMask s))"

fun possible_entries :: "'e skewed \<Rightarrow> addr \<Rightarrow> nat list \<Rightarrow> 'e option list res" where
  "possible_entries s a [] = Inr []"
| "possible_entries s a (way # ways) = bindR (getEntry s (Skewed_extractSet s a way) way) (\<lambda>e.
     bindR (possible_entries s a ways) (\<lambda>es. Inr (e # es)))"

definition Skewed_getPossibleEntries :: "'e skewed \<Rightarrow> addr \<Rightarrow> 'e option list res" where
  "Skewed_getPossibleEntries s a = possible_entries s a [0..<ix_assoc s]"

section \<open>The hash as a shift register\<close>

lemma bit_bits_of: "bit (bits_of a first last') i \<longleftrightarrow> i < first - last' + 1 \<and> bit a (last' + i)"
  by (auto simp: bits_of_def mask64_eq bit_simps dest: bit_imp_le_length)

lemma bit_insertBits:
  "i < 64 \<Longrightarrow> bit (insertBits val i v) j \<longleftrightarrow> (if j = i then bit v 0 else bit val j)"
  by (auto simp: insertBits_def Let_def mbits_def mask64_eq bit_simps dest: bit_imp_le_length)

definition fits :: "'e skewed \<Rightarrow> addr \<Rightarrow> bool" where
  "fits s a \<longleftrightarrow> (\<forall>i. bit a i \<longrightarrow> i \<le> msbShift s)"

definition skew_ok :: "'e skewed \<Rightarrow> bool" where
  "skew_ok s \<longleftrightarrow> 0 < msbShift s \<and> msbShift s < 32"

lemma bit_hash:
  "skew_ok s \<Longrightarrow> bit (hash s a) i \<longleftrightarrow>
     (if i = msbShift s then bit a (msbShift s) \<noteq> bit a 0 else bit a (Suc i))"
  by (auto simp: skew_ok_def hash_def Let_def bit_insertBits bit_bits_of bit_simps)

lemma bit_dehash:
  assumes s: "skew_ok s"
  shows "bit (dehash s a) i \<longleftrightarrow>
     (if i = 0 then bit a (msbShift s - 1) \<noteq> bit a (msbShift s)
      else i \<le> msbShift s \<and> bit a (i - 1))"
proof (cases "i = 0")
  case True
  thus ?thesis
    by (auto simp: dehash_def Let_def bit_insertBits bit_bits_of bit_xor_iff)
next
  case False
  let ?v = "mbits a (msbShift s - 1) 0"
  have v: "bit ?v j \<longleftrightarrow> j < msbShift s \<and> bit a j" for j
    using s by (auto simp: mbits_def mask64_eq skew_ok_def bit_simps dest: bit_imp_le_length)
  have "bit (dehash s a) i \<longleftrightarrow> bit (push_bit 1 ?v) i"
    using False by (simp only: dehash_def Let_def) (simp add: bit_insertBits del: push_bit_Suc)
  also have "\<dots> \<longleftrightarrow> i < 64 \<and> bit ?v (i - 1)"
    using False by (simp only: bit_push_bit_iff) auto
  finally show ?thesis using False s unfolding v by (auto simp: skew_ok_def)
qed

lemma fits_xor [intro]: "fits s a \<Longrightarrow> fits s b \<Longrightarrow> fits s (a XOR b)"
  by (auto simp: fits_def bit_simps)

lemma fits_hash [intro]: "skew_ok s \<Longrightarrow> fits s a \<Longrightarrow> fits s (hash s a)"
  by (fastforce simp: fits_def bit_hash split: if_splits)

lemma fits_dehash [intro]: "skew_ok s \<Longrightarrow> fits s (dehash s a)"
  by (auto simp: fits_def bit_dehash split: if_splits)

lemma fits_hash_pow [intro]: "skew_ok s \<Longrightarrow> fits s a \<Longrightarrow> fits s ((hash s ^^ k) a)"
  by (induction k) auto

lemma hash_xor: "skew_ok s \<Longrightarrow> hash s (a XOR b) = hash s a XOR hash s b"
  by (rule bit_word_eqI) (auto simp: bit_hash bit_simps)

lemma hash_dehash:
  assumes s: "skew_ok s" and a: "fits s a"
  shows "hash s (dehash s a) = a"
proof (rule bit_word_eqI)
  fix i
  consider "i = msbShift s" | "i < msbShift s" | "msbShift s < i" by linarith
  thus "bit (hash s (dehash s a)) i \<longleftrightarrow> bit a i"
    using a s by cases (auto simp: bit_hash[OF s] bit_dehash[OF s] skew_ok_def fits_def)
qed

lemma dehash_hash:
  assumes s: "skew_ok s" and a: "fits s a"
  shows "dehash s (hash s a) = a"
proof (rule bit_word_eqI)
  fix i
  consider "i = 0" | "0 < i" "i \<le> msbShift s" | "msbShift s < i" by linarith
  thus "bit (dehash s (hash s a)) i \<longleftrightarrow> bit a i"
    using a s by cases (auto simp: bit_hash[OF s] bit_dehash[OF s] skew_ok_def fits_def)
qed

lemma dehash_pow_hash_pow:
  "skew_ok s \<Longrightarrow> fits s a \<Longrightarrow> (dehash s ^^ k) ((hash s ^^ k) a) = a"
proof (induction k arbitrary: a)
  case (Suc k)
  have "(dehash s ^^ Suc k) ((hash s ^^ Suc k) a) = (dehash s ^^ k) (dehash s (hash s ((hash s ^^ k) a)))"
    by (simp add: funpow_swap1)
  also have "\<dots> = (dehash s ^^ k) ((hash s ^^ k) a)"
    using Suc.prems by (simp add: dehash_hash fits_hash_pow)
  finally show ?case using Suc by simp
qed simp

text \<open>
  Iterating the hash reads a sequence of bits that satisfies the recurrence of a shift register
  with taps at the first and the last position; that recurrence is what \<open>deskew\<close> relies on.
\<close>

fun register :: "nat \<Rightarrow> addr \<Rightarrow> nat \<Rightarrow> bool" where
  "register m a k = (if k \<le> m then bit a k else register m a (k - m - 1) \<noteq> register m a (k - 1))"

declare register.simps [simp del]

lemma register_rec: "register m a (k + m + 1) \<longleftrightarrow> (register m a k \<noteq> register m a (k + m))"
  by (subst register.simps) simp

lemma bit_hash_pow:
  assumes s: "skew_ok s" and a: "fits s a"
  shows "i \<le> msbShift s \<Longrightarrow> bit ((hash s ^^ k) a) i \<longleftrightarrow> register (msbShift s) a (i + k)"
proof (induction k arbitrary: i)
  case 0
  thus ?case by (subst register.simps) simp
next
  case (Suc k)
  show ?case
  proof (cases "i = msbShift s")
    case True
    hence "bit ((hash s ^^ Suc k) a) i \<longleftrightarrow> (register (msbShift s) a (msbShift s + k) \<noteq> register (msbShift s) a k)"
      using Suc.IH[of 0] Suc.IH[of "msbShift s"] by (simp add: bit_hash[OF s])
    thus ?thesis using register_rec[of "msbShift s" a k] True by (auto simp: ac_simps)
  next
    case False
    thus ?thesis using Suc by (simp add: bit_hash[OF s])
  qed
qed

lemma hash_pow_xor: "skew_ok s \<Longrightarrow> (hash s ^^ k) (a XOR b) = (hash s ^^ k) a XOR (hash s ^^ k) b"
  by (induction k) (simp_all add: hash_xor)

lemma hash_cycle:
  assumes s: "skew_ok s" and a: "fits s a"
  shows "(hash s ^^ (msbShift s + 1)) a XOR (hash s ^^ msbShift s) a = a"
proof (rule bit_word_eqI)
  fix i
  let ?m = "msbShift s"
  show "bit ((hash s ^^ (?m + 1)) a XOR (hash s ^^ ?m) a) i \<longleftrightarrow> bit a i"
  proof (cases "i \<le> ?m")
    case True
    have "bit ((hash s ^^ (?m + 1)) a) i \<longleftrightarrow> register ?m a (i + ?m + 1)"
      using bit_hash_pow[OF s a True, of "?m + 1"] by (simp only: add.assoc)
    moreover have "bit ((hash s ^^ ?m) a) i \<longleftrightarrow> register ?m a (i + ?m)"
      by (rule bit_hash_pow[OF s a True])
    moreover have "bit a i \<longleftrightarrow> register ?m a i" using True by (subst register.simps) simp
    ultimately show ?thesis using register_rec[of ?m a i] by (auto simp: bit_xor_iff)
  next
    case False
    have "fits s ((hash s ^^ (?m + 1)) a XOR (hash s ^^ ?m) a)"
      using s a by (intro fits_xor fits_hash_pow)
    thus ?thesis using False a by (auto simp: fits_def)
  qed
qed

lemma unskew_hash:
  assumes s: "skew_ok s" and a: "fits s a"
  shows "(hash s ^^ msbShift s) (hash s a XOR a) = a"
    "(hash s ^^ (msbShift s + 1)) (dehash s a XOR a) = a"
proof -
  show "(hash s ^^ msbShift s) (hash s a XOR a) = a"
    using hash_cycle[OF s a] by (simp add: hash_pow_xor[OF s] funpow_swap1)
  have "(hash s ^^ (msbShift s + 1)) (dehash s a) = (hash s ^^ msbShift s) a"
    by (simp add: funpow_swap1 hash_dehash[OF s a])
  thus "(hash s ^^ (msbShift s + 1)) (dehash s a XOR a) = a"
    using hash_cycle[OF s a] by (simp only: hash_pow_xor[OF s] xor.commute)
qed

section \<open>Undoing the skew\<close>

lemma fits_bits_of: "first - last' \<le> msbShift s \<Longrightarrow> fits s (bits_of a first last')"
  by (auto simp: fits_def bit_bits_of)

lemma xor_cancel:
  "(x XOR y XOR z) XOR y XOR z = x" "(x XOR y XOR z) XOR y = x XOR z" for x y z :: addr
  by (rule bit_word_eqI; simp add: bit_simps; blast)+

lemma fits_skew:
  assumes "skew_ok s"
  shows "fits s (skew s a way)"
  using assms unfolding skew_def Let_def
  by (intro fits_hash_pow) (auto intro!: fits_xor fits_hash fits_dehash fits_bits_of)

lemma deskew_skew:
  assumes s: "skew_ok s" and x1: "bits_of x (msbShift s) 0 = skew s a way"
    and x2: "bits_of x (2 * (msbShift s + 1) - 1) (msbShift s + 1) =
             bits_of a (2 * (msbShift s + 1) - 1) (msbShift s + 1)"
  shows "deskew s x way = bits_of a (msbShift s) 0"
proof -
  define a1 where "a1 = bits_of a (msbShift s) 0"
  define a2 where "a2 = bits_of a (2 * (msbShift s + 1) - 1) (msbShift s + 1)"
  define j where "j = way div NUM_SKEWING_FUNCTIONS"
  define k where "k = way mod 8"
  have f: "fits s a1" "fits s a2" unfolding a1_def a2_def by (auto intro: fits_bits_of)
  note fs = f fits_hash[OF s] fits_dehash[OF s] fits_xor
  define y where "y = (if k = 0 then hash s a1 XOR hash s a2 XOR a2
              else if k = 1 then hash s a1 XOR hash s a2 XOR a1
              else if k = 2 then hash s a1 XOR dehash s a2 XOR a2
              else if k = 3 then hash s a1 XOR dehash s a2 XOR a1
              else if k = 4 then dehash s a1 XOR hash s a2 XOR a2
              else if k = 5 then dehash s a1 XOR hash s a2 XOR a1
              else if k = 6 then dehash s a1 XOR dehash s a2 XOR a2
              else dehash s a1 XOR dehash s a2 XOR a1)"
  have sk: "skew s a way = (hash s ^^ j) y"
    unfolding skew_def Let_def y_def a1_def a2_def j_def k_def NUM_SKEWING_FUNCTIONS_def by simp
  have "fits s y" unfolding y_def by (auto intro!: fs)
  hence bk: "(dehash s ^^ j) (skew s a way) = y" unfolding sk by (rule dehash_pow_hash_pow[OF s])
  have unp: "(if way \<ge> NUM_SKEWING_FUNCTIONS
      then (dehash s ^^ (way div NUM_SKEWING_FUNCTIONS)) (skew s a way) else skew s a way) = y"
    using bk by (cases "way \<ge> NUM_SKEWING_FUNCTIONS") (auto simp: j_def)
  have dk: "deskew s x way = (if k = 0 then dehash s (y XOR hash s a2 XOR a2)
         else if k = 1 then (hash s ^^ msbShift s) (y XOR hash s a2)
         else if k = 2 then dehash s (y XOR dehash s a2 XOR a2)
         else if k = 3 then (hash s ^^ msbShift s) (y XOR dehash s a2)
         else if k = 4 then hash s (y XOR hash s a2 XOR a2)
         else if k = 5 then (hash s ^^ (msbShift s + 1)) (y XOR hash s a2)
         else if k = 6 then hash s (y XOR dehash s a2 XOR a2)
         else (hash s ^^ (msbShift s + 1)) (y XOR dehash s a2))"
    unfolding deskew_def Let_def x1 x2 unp a2_def[symmetric] k_def[symmetric] ..
  have "k < 8" by (simp add: k_def)
  then consider "k = 0" | "k = 1" | "k = 2" | "k = 3" | "k = 4" | "k = 5" | "k = 6" | "k = 7"
    by linarith
  hence "deskew s x way = a1"
  proof cases
    case 1
    have y: "y = hash s a1 XOR hash s a2 XOR a2" using 1 by (simp add: y_def)
    have "deskew s x way = dehash s (y XOR hash s a2 XOR a2)" using 1 by (simp add: dk)
    thus ?thesis unfolding y xor_cancel dehash_hash[OF s f(1)] .
  next
    case 2
    have y: "y = hash s a1 XOR hash s a2 XOR a1" using 2 by (simp add: y_def)
    have "deskew s x way = (hash s ^^ msbShift s) (y XOR hash s a2)" using 2 by (simp add: dk)
    thus ?thesis unfolding y xor_cancel unskew_hash(1)[OF s f(1)] .
  next
    case 3
    have y: "y = hash s a1 XOR dehash s a2 XOR a2" using 3 by (simp add: y_def)
    have "deskew s x way = dehash s (y XOR dehash s a2 XOR a2)" using 3 by (simp add: dk)
    thus ?thesis unfolding y xor_cancel dehash_hash[OF s f(1)] .
  next
    case 4
    have y: "y = hash s a1 XOR dehash s a2 XOR a1" using 4 by (simp add: y_def)
    have "deskew s x way = (hash s ^^ msbShift s) (y XOR dehash s a2)" using 4 by (simp add: dk)
    thus ?thesis unfolding y xor_cancel unskew_hash(1)[OF s f(1)] .
  next
    case 5
    have y: "y = dehash s a1 XOR hash s a2 XOR a2" using 5 by (simp add: y_def)
    have "deskew s x way = hash s (y XOR hash s a2 XOR a2)" using 5 by (simp add: dk)
    thus ?thesis unfolding y xor_cancel hash_dehash[OF s f(1)] .
  next
    case 6
    have y: "y = dehash s a1 XOR hash s a2 XOR a1" using 6 by (simp add: y_def)
    have "deskew s x way = (hash s ^^ (msbShift s + 1)) (y XOR hash s a2)" using 6 by (simp add: dk)
    thus ?thesis unfolding y xor_cancel unskew_hash(2)[OF s f(1)] .
  next
    case 7
    have y: "y = dehash s a1 XOR dehash s a2 XOR a2" using 7 by (simp add: y_def)
    have "deskew s x way = hash s (y XOR dehash s a2 XOR a2)" using 7 by (simp add: dk)
    thus ?thesis unfolding y xor_cancel hash_dehash[OF s f(1)] .
  next
    case 8
    have y: "y = dehash s a1 XOR dehash s a2 XOR a1" using 8 by (simp add: y_def)
    have "deskew s x way = (hash s ^^ (msbShift s + 1)) (y XOR dehash s a2)" using 8 by (simp add: dk)
    thus ?thesis unfolding y xor_cancel unskew_hash(2)[OF s f(1)] .
  qed
  thus ?thesis by (simp add: a1_def)
qed

section \<open>Construction\<close>

lemma of_nat_mask: "l < 64 \<Longrightarrow> of_nat (2 ^ l - 1) = (mask l :: 64 word)"
  by (simp add: mask_eq_exp_minus_1 of_nat_diff)

lemma floorLog2_power:
  assumes "floorLog2 4 (int n) = Inr y" "isPowerOf2 n" "n < 2 ^ 32"
  shows "n = 2 ^ y \<and> y < 32"
proof -
  obtain k where k: "n = 2 ^ k" using assms(2) isPowerOf2_iff by blast
  have t4: "(4 :: nat) \<in> {1, 2, 4, 8}" by simp
  have pos: "0 < int n" unfolding k by simp
  have lt: "int n < 2 ^ (8 * 4)" using assms(3) by simp
  obtain z where z: "floorLog2 4 (int n) = Inr z" "2 ^ z \<le> nat (int n)" "nat (int n) < 2 ^ (z + 1)"
    using floorLog2_bounds[OF t4 pos lt] by blast
  have "z = k" using power_between_unique[OF z(2,3)[unfolded nat_int] k] .
  moreover have "z = y" using z(1) assms(1) by simp
  moreover have "(2 :: nat) ^ k < 2 ^ 32" using assms(3) unfolding k .
  hence "k < 32" using power_less_imp_less_exp[of "2 :: nat" k 32] by simp
  ultimately show ?thesis using k by simp
qed

lemma BaseIndexingPolicy_Inr:
  assumes "BaseIndexingPolicy n e w = Inr ix"
  shows "\<exists>l < 32. ix_numSets ix = 2 ^ l \<and> ix_setMask ix = mask l \<and> ix_tagShift ix = ix_setShift ix + l \<and>
    floorLog2 4 (int (ix_numSets ix)) = Inr l \<and>
    ix_assoc ix = w \<and> 0 < w \<and> ix_sets ix = replicate (2 ^ l) (replicate w None)"
proof -
  define d where "d = e * w mod 2 ^ 32"
  define m where "m = (n div d) mod 2 ^ 32"
  from assms obtain sh l where f: "floorLog2 4 (int m) = Inr l" "isPowerOf2 m" and w: "0 < w"
    and ix: "ix = \<lparr>ix_assoc = w, ix_numSets = m, ix_setShift = sh, ix_setMask = of_nat (m - 1),
                 ix_sets = replicate m (replicate w None), ix_tagShift = sh + l,
                 ix_position = Map.empty\<rparr>"
    unfolding BaseIndexingPolicy_def Let_def d_def[symmetric] m_def[symmetric]
    by (auto simp: fault_simps split: if_splits)
  have m: "m = 2 ^ l \<and> l < 32" using f by (intro floorLog2_power) (simp_all add: m_def)
  hence "of_nat (m - 1) = (mask l :: 64 word)" using of_nat_mask[of l] by simp
  thus ?thesis using w f(1) m unfolding ix by auto
qed

end
