(* ===== verification/Index_Props.thy ===== *)
theory Index_Props
  imports Index_Policy
begin

text \<open>
  What the tag store relies on: the address of a block can be regenerated from its tag and its
  position, so two blocks with the same tag in the same position are the same block, and the
  positions lie inside the table.
\<close>

unbundle bit_operations_syntax

section \<open>The contract of an indexing policy\<close>

locale indexing_contract =
  fixes ok :: "'p \<Rightarrow> bool" and tag :: "'p \<Rightarrow> addr \<Rightarrow> addr" and set_at :: "'p \<Rightarrow> addr \<Rightarrow> nat \<Rightarrow> nat"
    and regenerate :: "'p \<Rightarrow> addr \<Rightarrow> nat \<Rightarrow> nat \<Rightarrow> addr" and block :: "'p \<Rightarrow> addr \<Rightarrow> addr"
    and sets :: "'p \<Rightarrow> nat"
  assumes regenerate: "ok p \<Longrightarrow> regenerate p (tag p a) (set_at p a way) way = block p a"
    and in_range: "ok p \<Longrightarrow> set_at p a way < sets p"
begin

lemma no_alias:
  assumes "ok p" "tag p a = tag p b" "set_at p a way = set_at p b way"
  shows "block p a = block p b"
  using regenerate[OF assms(1), of a way] regenerate[OF assms(1), of b way] assms(2,3) by simp

end

section \<open>Filling the table\<close>

definition fill :: "('e \<times> nat) list \<Rightarrow> ('e, 'z) indexing_scheme \<Rightarrow> ('e, 'z) indexing_scheme res" where
  "fill = foldR (\<lambda>(e, i). setEntry e i)"

definition ix_shape :: "('e, 'z) indexing_scheme \<Rightarrow> bool" where
  "ix_shape ix \<longleftrightarrow> length (ix_sets ix) = ix_numSets ix \<and> (\<forall>row \<in> set (ix_sets ix). length row = ix_assoc ix)"

definition same_layout :: "('e, 'z) indexing_scheme \<Rightarrow> ('e, 'z) indexing_scheme \<Rightarrow> bool" where
  "same_layout ix ix' \<longleftrightarrow> (\<exists>ss ps. ix' = ix\<lparr>ix_sets := ss, ix_position := ps\<rparr>)"

lemma same_layout_refl [simp]: "same_layout ix ix"
proof -
  have "ix = ix\<lparr>ix_sets := ix_sets ix, ix_position := ix_position ix\<rparr>" by simp
  thus ?thesis unfolding same_layout_def by blast
qed

lemma same_layout_trans:
  assumes "same_layout a b" "same_layout b c"
  shows "same_layout a c"
proof -
  obtain ss ps where b: "b = a\<lparr>ix_sets := ss, ix_position := ps\<rparr>"
    using assms(1) unfolding same_layout_def by blast
  obtain ss' ps' where c: "c = b\<lparr>ix_sets := ss', ix_position := ps'\<rparr>"
    using assms(2) unfolding same_layout_def by blast
  have "c = a\<lparr>ix_sets := ss', ix_position := ps'\<rparr>" unfolding c b by simp
  thus ?thesis unfolding same_layout_def by blast
qed

lemma setEntry_Inr:
  assumes "setEntry e i ix = Inr ix'" "ix_shape ix"
  shows "same_layout ix ix' \<and> ix_shape ix'"
proof -
  from assms(1) obtain ss ps row k w where ix': "ix' = ix\<lparr>ix_sets := ss, ix_position := ps\<rparr>"
    and ss: "ss = (ix_sets ix)[k := row[w := Some e]]" and row: "row = ix_sets ix ! k" "k < length (ix_sets ix)"
    unfolding setEntry_def Let_def by (auto simp: fault_simps split: if_splits)
  have "length row = ix_assoc ix" using assms(2) row by (simp add: ix_shape_def)
  hence "\<forall>r \<in> set ss. length r = ix_assoc ix"
    using assms(2) unfolding ss ix_shape_def by (auto dest!: subsetD[OF set_update_subset_insert])
  thus ?thesis using assms(2) ss unfolding ix' same_layout_def ix_shape_def by auto
qed

lemma fill_Inr:
  "fill es ix = Inr ix' \<Longrightarrow> ix_shape ix \<Longrightarrow> same_layout ix ix' \<and> ix_shape ix'"
proof (induction es arbitrary: ix)
  case (Cons ei es)
  obtain e i where ei: "ei = (e, i)" by (cases ei)
  from Cons.prems(1) obtain ix1 where s: "setEntry e i ix = Inr ix1" "fill es ix1 = Inr ix'"
    by (auto simp: fill_def ei fault_simps)
  note S = setEntry_Inr[OF s(1) Cons.prems(2)]
  with Cons.IH[OF s(2)] show ?case using same_layout_trans by blast
qed (simp add: fill_def)

text \<open>Every index below the number of entries is accepted, and the entry is found there.\<close>

lemma setEntry_getEntry:
  assumes "ix_shape ix" "i < ix_numSets ix * ix_assoc ix" "ix_numSets ix < 2 ^ 32"
  shows "\<exists>ix'. setEntry e i ix = Inr ix' \<and>
    getEntry ix' (i div ix_assoc ix) (i mod ix_assoc ix) = Inr (Some e) \<and>
    ix_position ix' e = Some (i div ix_assoc ix, i mod ix_assoc ix)"
proof -
  let ?s = "i div ix_assoc ix" and ?w = "i mod ix_assoc ix"
  have w: "0 < ix_assoc ix" using assms(2) by (cases "ix_assoc ix") auto
  have s: "?s < ix_numSets ix" using assms(2) by (simp add: less_mult_imp_div_less)
  have sl: "?s < length (ix_sets ix)" using s assms(1) by (simp add: ix_shape_def)
  have row: "length (ix_sets ix ! ?s) = ix_assoc ix" using assms(1) sl by (simp add: ix_shape_def)
  have m: "?s mod 2 ^ 32 = ?s" using s assms(3) by simp
  let ?ix = "ix\<lparr>ix_sets := (ix_sets ix)[?s := (ix_sets ix ! ?s)[?w := Some e]],
                 ix_position := (ix_position ix)(e \<mapsto> (?s, ?w))\<rparr>"
  have "setEntry e i ix = Inr ?ix"
    using w s sl row unfolding setEntry_def Let_def m by (simp add: nthR_def)
  moreover have "getEntry ?ix ?s ?w = Inr (Some e)" using w sl row by (simp add: getEntry_def nthR_def)
  moreover have "ix_position ?ix e = Some (?s, ?w)" by simp
  ultimately show ?thesis by blast
qed

section \<open>Both policies satisfy the contract\<close>

definition built :: "'e indexing \<Rightarrow> bool" where
  "built ix \<longleftrightarrow> (\<exists>n e w ix0 es. BaseIndexingPolicy n e w = Inr ix0 \<and> fill es ix0 = Inr ix)"

definition built_skewed :: "'e skewed \<Rightarrow> bool" where
  "built_skewed s \<longleftrightarrow> (\<exists>n e w s0 es. SkewedAssociative n e w = Inr s0 \<and> fill es s0 = Inr s)"

lemma built_params:
  assumes "built ix"
  shows "\<exists>l < 32. ix_numSets ix = 2 ^ l \<and> ix_setMask ix = mask l \<and>
    ix_tagShift ix = ix_setShift ix + l \<and> ix_shape ix"
proof -
  obtain n e w ix0 es where b: "BaseIndexingPolicy n e w = Inr ix0" "fill es ix0 = Inr ix"
    using assms unfolding built_def by blast
  from BaseIndexingPolicy_Inr[OF b(1)] obtain l where l: "l < 32" "ix_numSets ix0 = 2 ^ l"
    "ix_setMask ix0 = mask l" "ix_tagShift ix0 = ix_setShift ix0 + l" "ix_shape ix0"
    by (auto simp: ix_shape_def)
  from fill_Inr[OF b(2) l(5)] have "same_layout ix0 ix" "ix_shape ix" by simp_all
  thus ?thesis using l(1-4) unfolding same_layout_def by auto
qed

lemma built_skewed_params:
  assumes "built_skewed s"
  shows "\<exists>l < 32. ix_numSets s = 2 ^ l \<and> ix_setMask s = mask l \<and> ix_tagShift s = ix_setShift s + l \<and>
    msbShift s + 1 = l \<and> skew_ok s \<and> ix_setShift s + 2 * l \<le> 64 \<and> ix_shape s"
proof -
  obtain n e w s0 es where b: "SkewedAssociative n e w = Inr s0" "fill es s0 = Inr s"
    using assms unfolding built_skewed_def by blast
  from b(1) obtain ix k where ix: "BaseIndexingPolicy n e w = Inr ix"
    "floorLog2 4 (int (ix_numSets ix)) = Inr k" "ix_setShift ix + 2 * k \<le> 64" "2 < ix_numSets ix"
    "s0 = indexing.extend ix \<lparr>msbShift = k - 1\<rparr>"
    unfolding SkewedAssociative_def by (auto simp: fault_simps not_less split: if_splits)
  from BaseIndexingPolicy_Inr[OF ix(1)] obtain l where l: "l < 32" "ix_numSets ix = 2 ^ l"
    "ix_setMask ix = mask l" "ix_tagShift ix = ix_setShift ix + l" "ix_shape ix"
    and "floorLog2 4 (int (ix_numSets ix)) = Inr l"
    by (auto simp: ix_shape_def)
  hence k: "k = l" using ix(2) by simp
  have "2 \<le> l" using ix(4) l(2) by (cases l) (auto intro: ccontr simp: not_le less_Suc_eq)
  hence s0: "ix_numSets s0 = 2 ^ l" "ix_setMask s0 = mask l" "ix_tagShift s0 = ix_setShift s0 + l"
    "msbShift s0 + 1 = l" "skew_ok s0" "ix_setShift s0 + 2 * l \<le> 64" "ix_shape s0"
    using l ix(3) by (simp_all add: ix(5) indexing.defs k skew_ok_def ix_shape_def)
  from fill_Inr[OF b(2) s0(7)] obtain ss ps where s: "s = s0\<lparr>ix_sets := ss, ix_position := ps\<rparr>"
    and "ix_shape s" unfolding same_layout_def by blast
  thus ?thesis using s0(1-6) l(1) by (auto simp: skew_ok_def)
qed

lemma built_assoc:
  assumes "SkewedAssociative n e w = Inr s0" "fill es s0 = Inr s"
  shows "ix_assoc s = w"
proof -
  obtain ix k where ix: "BaseIndexingPolicy n e w = Inr ix" "s0 = indexing.extend ix \<lparr>msbShift = k\<rparr>"
    using assms(1) unfolding SkewedAssociative_def by (auto simp: fault_simps split: if_splits)
  have "ix_assoc s0 = w" "ix_shape s0"
    using BaseIndexingPolicy_Inr[OF ix(1)] by (auto simp: ix(2) indexing.defs ix_shape_def)
  moreover from fill_Inr[OF assms(2) this(2)] have "same_layout s0 s" by simp
  ultimately show ?thesis by (auto simp: same_layout_def)
qed

lemma unat_and_mask:
  assumes "l \<le> 32"
  shows "of_nat (unat (take_bit 32 (w AND mask l))) = (w AND mask l :: 64 word)"
    "unat (take_bit 32 (w AND mask l)) < 2 ^ l"
proof -
  have t: "take_bit 32 (w AND mask l) = take_bit l w"
    using assms by (intro bit_word_eqI) (auto simp: bit_simps)
  show "of_nat (unat (take_bit 32 (w AND mask l))) = w AND mask l"
    unfolding t by (simp add: take_bit_eq_mask)
  show "unat (take_bit 32 (w AND mask l)) < 2 ^ l"
    unfolding t by (simp add: unat_take_bit_mod)
qed

lemma split_block:
  "push_bit (sh + l) (drop_bit (sh + l) a) OR push_bit sh (drop_bit sh a AND mask l) = makeLineAddress sh a"
  for a :: addr
proof (rule bit_word_eqI)
  fix i
  assume i: "i < LENGTH(64)"
  consider "i < sh" | "sh \<le> i" "i < sh + l" | "sh + l \<le> i" by linarith
  thus "bit (push_bit (sh + l) (drop_bit (sh + l) a) OR push_bit sh (drop_bit sh a AND mask l)) i \<longleftrightarrow>
    bit (makeLineAddress sh a) i"
    using i by cases (auto simp: makeLineAddress_eq bit_simps)
qed

lemma Skewed_round_trip:
  assumes "built_skewed s"
  shows "Skewed_regenerateAddr s (extractTag s a) (Skewed_extractSet s a way) way =
           makeLineAddress (ix_setShift s) a \<and> Skewed_extractSet s a way < ix_numSets s"
proof -
  obtain l where l: "l < 32" "ix_numSets s = 2 ^ l" "ix_setMask s = mask l"
    "ix_tagShift s = ix_setShift s + l" "msbShift s + 1 = l" "skew_ok s" "ix_setShift s + 2 * l \<le> 64"
    using built_skewed_params[OF assms] by blast
  define b where "b = drop_bit (ix_setShift s) a"
  define x where "x = push_bit l (extractTag s a) OR skew s b way"
  have fit: "bit (skew s b way) i \<Longrightarrow> i < l" for i
    using fits_skew[OF l(6), of b way] l(5) by (auto simp: fits_def)
  have nf: "\<not> bit (skew s b way) (Suc (n + msbShift s))" for n using fit[of "Suc (n + msbShift s)"] l(5) by auto
  have m: "skew s b way AND mask l = skew s b way"
    by (rule bit_word_eqI) (auto simp: bit_simps dest: fit)
  have l32: "l \<le> 32" using l(1) by simp
  note u = unat_and_mask[OF l32, of "skew s b way"]
  have x1: "bits_of x (msbShift s) 0 = skew s b way"
    using l(5) by (intro bit_word_eqI) (auto simp: bit_bits_of x_def bit_simps dest: fit)
  have x2: "bits_of x (2 * (msbShift s + 1) - 1) (msbShift s + 1) =
      bits_of b (2 * (msbShift s + 1) - 1) (msbShift s + 1)"
    using l(4,5,7) nf[unfolded b_def]
    by (intro bit_word_eqI) (auto simp: bit_bits_of x_def b_def extractTag_def bit_simps ac_simps)
  have "deskew s x way = bits_of b (msbShift s) 0" by (rule deskew_skew[OF l(6) x1 x2])
  hence d: "deskew s x way AND mask l = b AND mask l"
    using l(5) by (auto simp: bit_bits_of bit_simps intro!: bit_word_eqI)
  have "Skewed_regenerateAddr s (extractTag s a) (Skewed_extractSet s a way) way =
      push_bit (ix_setShift s + l) (drop_bit (ix_setShift s + l) a) OR
      push_bit (ix_setShift s) (b AND mask l)"
    unfolding Skewed_regenerateAddr_def Skewed_extractSet_def Let_def l(3-5) b_def[symmetric]
      u(1)[unfolded m] m x_def[symmetric] d by (simp add: extractTag_def l(4))
  moreover have "Skewed_extractSet s a way < ix_numSets s"
    unfolding Skewed_extractSet_def l(2,3) b_def[symmetric] by (rule u(2))
  ultimately show ?thesis unfolding b_def split_block by simp
qed

lemma SetAssociative_round_trip:
  assumes "built ix" "ix_tagShift ix \<le> 32"
  shows "SetAssociative_regenerateAddr ix (extractTag ix a) (SetAssociative_extractSet ix a) =
           makeLineAddress (ix_setShift ix) a \<and> SetAssociative_extractSet ix a < ix_numSets ix"
proof -
  obtain l where l: "l < 32" "ix_numSets ix = 2 ^ l" "ix_setMask ix = mask l"
    "ix_tagShift ix = ix_setShift ix + l"
    using built_params[OF assms(1)] by blast
  define b where "b = drop_bit (ix_setShift ix) a"
  have l32: "l \<le> 32" using l(1) by simp
  note u = unat_and_mask[OF l32, of b]
  have "take_bit 32 (push_bit (ix_setShift ix) (b AND mask l)) = push_bit (ix_setShift ix) (b AND mask l)"
    using assms(2) l(4) by (intro bit_word_eqI) (auto simp: bit_simps)
  hence "SetAssociative_regenerateAddr ix (extractTag ix a) (SetAssociative_extractSet ix a) =
      push_bit (ix_setShift ix + l) (drop_bit (ix_setShift ix + l) a) OR
      push_bit (ix_setShift ix) (b AND mask l)"
    unfolding SetAssociative_regenerateAddr_def SetAssociative_extractSet_def l(3) b_def[symmetric] u(1)
    by (simp add: extractTag_def l(4))
  moreover have "SetAssociative_extractSet ix a < ix_numSets ix"
    unfolding SetAssociative_extractSet_def l(2,3) b_def[symmetric] by (rule u(2))
  ultimately show ?thesis unfolding b_def split_block by simp
qed

text \<open>
  The bound on the tag shift is needed: the set-associative policy shifts the set number in 32 bits,
  so with 64-byte blocks and \<open>2 ^ 27\<close> sets the address \<open>2 ^ 32\<close> comes back as 0.
\<close>

lemma SetAssociative_regenerate_truncated:
  assumes "ix_setShift ix = 6" "ix_setMask ix = mask 27" "ix_tagShift ix = 33"
  shows "SetAssociative_regenerateAddr ix (extractTag ix (2 ^ 32)) (SetAssociative_extractSet ix (2 ^ 32)) = 0"
proof -
  have n: "of_nat (unat (take_bit 32 (drop_bit 6 (2 ^ 32 :: addr) AND mask 27))) =
      (drop_bit 6 (2 ^ 32) AND mask 27 :: addr)" by (rule unat_and_mask) simp
  show ?thesis unfolding SetAssociative_regenerateAddr_def SetAssociative_extractSet_def extractTag_def assms n
    by code_simp
qed

interpretation skewed: indexing_contract built_skewed extractTag Skewed_extractSet
  Skewed_regenerateAddr "\<lambda>s. makeLineAddress (ix_setShift s)" ix_numSets
  by unfold_locales (simp_all add: Skewed_round_trip)

interpretation set_assoc: indexing_contract "\<lambda>ix. built ix \<and> ix_tagShift ix \<le> 32" extractTag
  "\<lambda>ix a way. SetAssociative_extractSet ix a" "\<lambda>ix tag set' way. SetAssociative_regenerateAddr ix tag set'"
  "\<lambda>ix. makeLineAddress (ix_setShift ix)" ix_numSets
  by unfold_locales (simp_all add: SetAssociative_round_trip)

lemma getEntry_shape:
  "ix_shape ix \<Longrightarrow> set' < ix_numSets ix \<Longrightarrow> way < ix_assoc ix \<Longrightarrow>
     getEntry ix set' way = Inr (ix_sets ix ! set' ! way)"
  by (simp add: getEntry_def ix_shape_def nthR_def)

lemma possible_entries_ways:
  assumes "built_skewed s" "\<forall>way \<in> set ways. way < ix_assoc s"
  shows "possible_entries s a ways = Inr (map (\<lambda>way. ix_sets s ! Skewed_extractSet s a way ! way) ways)"
proof -
  have sh: "ix_shape s" using built_skewed_params[OF assms(1)] by blast
  show ?thesis using assms(2) skewed.in_range[OF assms(1)]
    by (induction ways) (auto simp: fault_simps getEntry_shape[OF sh])
qed

section \<open>The address of a block and its place in a skewed cache\<close>

text \<open>
  C10. For a skewed-associative policy that its constructor accepted, and whatever entries were then
  placed, the candidate entries of an address are one per way, each in the way's own set and inside
  the table; from the tag of the address and the set and way of any candidate, the policy
  regenerates the address of the block, for every way, also beyond the eight skewing functions;
  so two addresses with the same tag that a way puts in one set are in the same block.
\<close>

theorem skewed_address_round_trip:
  assumes "SkewedAssociative n entry_size assoc = Inr s0" "fill es s0 = Inr s"
  shows "Skewed_getPossibleEntries s a =
      Inr (map (\<lambda>way. ix_sets s ! Skewed_extractSet s a way ! way) [0..<assoc]) \<and>
    Skewed_extractSet s a way < ix_numSets s \<and>
    Skewed_regenerateAddr s (extractTag s a) (Skewed_extractSet s a way) way =
      makeLineAddress (ix_setShift s) a \<and>
    (extractTag s a = extractTag s b \<and> Skewed_extractSet s a way = Skewed_extractSet s b way \<longrightarrow>
      makeLineAddress (ix_setShift s) a = makeLineAddress (ix_setShift s) b)"
proof (intro conjI impI)
  have bs: "built_skewed s" using assms unfolding built_skewed_def by blast
  have "ix_assoc s = assoc" by (rule built_assoc[OF assms])
  thus "Skewed_getPossibleEntries s a =
      Inr (map (\<lambda>way. ix_sets s ! Skewed_extractSet s a way ! way) [0..<assoc])"
    unfolding Skewed_getPossibleEntries_def using possible_entries_ways[OF bs, of "[0..<ix_assoc s]"] by simp
  show "Skewed_extractSet s a way < ix_numSets s" by (rule skewed.in_range[OF bs])
  show "Skewed_regenerateAddr s (extractTag s a) (Skewed_extractSet s a way) way =
      makeLineAddress (ix_setShift s) a" by (rule skewed.regenerate[OF bs])
  assume "extractTag s a = extractTag s b \<and> Skewed_extractSet s a way = Skewed_extractSet s b way"
  thus "makeLineAddress (ix_setShift s) a = makeLineAddress (ix_setShift s) b"
    using skewed.no_alias[OF bs] by blast
qed

text \<open>A cache of eight sets of two ways, with 64-byte blocks, and one entry placed at index 11.\<close>

theorem skewed_address_round_trip_witness:
  "\<exists>s0 s. SkewedAssociative 1024 64 2 = Inr s0 \<and> fill [(''e'', 11)] s0 = Inr s \<and>
     Skewed_regenerateAddr s (extractTag s 0x12345) (Skewed_extractSet s 0x12345 1) 1 = 0x12340"
proof -
  define s0 :: "string skewed" where
    "s0 = \<lparr>ix_assoc = 2, ix_numSets = 8, ix_setShift = 6, ix_setMask = 7,
           ix_sets = replicate 8 (replicate 2 None), ix_tagShift = 9, ix_position = Map.empty, msbShift = 2\<rparr>"
  have f: "floorLog2 4 64 = Inr 6" "floorLog2 4 8 = Inr 3" "isPowerOf2 8" by code_simp+
  have c: "SkewedAssociative 1024 64 2 = Inr s0"
    by (simp add: SkewedAssociative_def BaseIndexingPolicy_def s0_def indexing.defs f)
  obtain s where s: "fill [(''e'', 11)] s0 = Inr s" "ix_setShift s = 6"
    by (simp add: fill_def s0_def setEntry_def fault_simps)
  have "Skewed_regenerateAddr s (extractTag s 0x12345) (Skewed_extractSet s 0x12345 1) 1 =
      makeLineAddress 6 0x12345"
    by (rule skewed_address_round_trip[OF c s(1), of "0x12345" 1, unfolded s(2),
          THEN conjunct2, THEN conjunct2, THEN conjunct1])
  also have "\<dots> = 0x12340" by code_simp
  finally show ?thesis using c s(1) by (intro exI conjI)
qed

end
