(* ===== verification/Set_Assoc_Tags.thy ===== *)
theory Set_Assoc_Tags
  imports Cache_Blk Index_Props Repl_Policy
begin

text \<open>
  The tag store of the classic cache: \<^verbatim>\<open>BaseTags\<close> and \<^verbatim>\<open>BaseSetAssoc\<close>
  (\<^verbatim>\<open>mem/cache/tags/base.cc\<close>, \<^verbatim>\<open>base_set_assoc.cc\<close> and their headers).  It calls an indexing policy and a
  replacement policy through their virtual methods, which are tables here (\<open>index_methods\<close> and the
  \<open>policy\<close> of theory \<open>Repl_Policy\<close>).

  \<^item> A pointer to a block is its position in \<open>sa_blks\<close>; the replacement data of a block is that of the
    location its indexing policy gave it.
  \<^item> The warm-up bound, which the constructor computes in floating point, and the initial contents of
    the coherence field, which no constructor sets, are arguments.
  \<^item> \<open>sa_occupancies\<close> and \<open>sa_tagsInUse\<close> are the current values of the averages of the statistics.
\<close>

section \<open>Dispatch to the indexing policy\<close>

record 'p index_methods =
  im_setEntry :: "nat \<Rightarrow> nat \<Rightarrow> 'p \<Rightarrow> 'p res"
  im_getEntry :: "'p \<Rightarrow> nat \<Rightarrow> nat \<Rightarrow> nat option res"
  im_getPossibleEntries :: "'p \<Rightarrow> addr \<Rightarrow> nat option list res"
  im_extractTag :: "'p \<Rightarrow> addr \<Rightarrow> addr"
  im_regenerateAddr :: "'p \<Rightarrow> addr \<Rightarrow> loc \<Rightarrow> addr"
  im_position :: "'p \<Rightarrow> nat \<Rightarrow> loc option"

definition SetAssociative_methods :: "nat indexing index_methods" where
  "SetAssociative_methods = \<lparr>im_setEntry = setEntry, im_getEntry = getEntry,
     im_getPossibleEntries = SetAssociative_getPossibleEntries, im_extractTag = extractTag,
     im_regenerateAddr = (\<lambda>ix tag l. SetAssociative_regenerateAddr ix tag (fst l)),
     im_position = ix_position\<rparr>"

definition Skewed_methods :: "nat skewed index_methods" where
  "Skewed_methods = \<lparr>im_setEntry = setEntry, im_getEntry = getEntry,
     im_getPossibleEntries = Skewed_getPossibleEntries, im_extractTag = extractTag,
     im_regenerateAddr = (\<lambda>s tag l. Skewed_regenerateAddr s tag (fst l) (snd l)),
     im_position = ix_position\<rparr>"

section \<open>State\<close>

record packet =
  pkt_addr :: addr
  pkt_secure :: bool
  pkt_requestor :: int
  pkt_task :: "32 word"

record ('p, 'st) set_assoc =
  sa_blkSize :: nat
  sa_numBlocks :: nat
  sa_lookupLatency :: cycles
  sa_warmupBound :: int
  sa_warmedUp :: bool
  sa_maxRequestors :: int
  sa_allocAssoc :: int
  sa_blks :: "cache_blk list"
  sa_sequentialAccess :: bool
  sa_index :: 'p
  sa_repl :: 'st
  sa_tagsInUse :: int
  sa_totalRefs :: int
  sa_sampledRefs :: int
  sa_occupancies :: "int \<Rightarrow> int"
  sa_warmupTick :: tick
  sa_tagAccesses :: int
  sa_dataAccesses :: int

definition BaseSetAssoc :: "nat \<Rightarrow> nat \<Rightarrow> int \<Rightarrow> bool \<Rightarrow> cycles \<Rightarrow> int \<Rightarrow> int \<Rightarrow> (nat \<Rightarrow> 32 word) \<Rightarrow>
    'p \<Rightarrow> 'st \<Rightarrow> ('p, 'st) set_assoc res" where
  "BaseSetAssoc size' block_size assoc sequential tag_latency warmup maxReq coherence0 ix st =
     (if block_size = 0 then Inl DivByZero
      else if block_size < 4 \<or> \<not> isPowerOf2 block_size
      then Inl (ConfigExit ''Block size must be at least 4 and a power of 2'')
      else Inr \<lparr>sa_blkSize = block_size, sa_numBlocks = size' div block_size,
             sa_lookupLatency = tag_latency, sa_warmupBound = warmup, sa_warmedUp = False,
             sa_maxRequestors = maxReq, sa_allocAssoc = assoc,
             sa_blks = map (\<lambda>i. CacheBlk_new (coherence0 i)) [0..<size' div block_size],
             sa_sequentialAccess = sequential, sa_index = ix, sa_repl = st, sa_tagsInUse = 0,
             sa_totalRefs = 0, sa_sampledRefs = 0, sa_occupancies = (\<lambda>_. 0), sa_warmupTick = 0,
             sa_tagAccesses = 0, sa_dataAccesses = 0\<rparr>)"

section \<open>Operations\<close>

definition upd_blk :: "nat \<Rightarrow> cache_blk \<Rightarrow> ('p, 'st) set_assoc \<Rightarrow> ('p, 'st) set_assoc" where
  "upd_blk e blk t = t\<lparr>sa_blks := (sa_blks t)[e := blk]\<rparr>"

definition blk_at :: "('p, 'st) set_assoc \<Rightarrow> nat \<Rightarrow> cache_blk res" where
  "blk_at t e = nthR (sa_blks t) (int e)"

definition loc_of :: "'p index_methods \<Rightarrow> ('p, 'st) set_assoc \<Rightarrow> nat \<Rightarrow> loc res" where
  "loc_of im t e = derefR (im_position im (sa_index t) e)"

definition init_blk :: "'p index_methods \<Rightarrow> 'st policy \<Rightarrow> nat \<Rightarrow> ('p, 'st) set_assoc \<Rightarrow> ('p, 'st) set_assoc res" where
  "init_blk im pol e t = bindR (blk_at t e) (\<lambda>blk.
     bindR (im_setEntry im e e (sa_index t)) (\<lambda>ix.
     let t = upd_blk e (blk\<lparr>cb_data := Some (sa_blkSize t * e)\<rparr>) (t\<lparr>sa_index := ix\<rparr>) in
     bindR (loc_of im t e) (\<lambda>l.
     bindR (pol_instantiate pol l (sa_repl t)) (\<lambda>st. Inr (t\<lparr>sa_repl := st\<rparr>)))))"

definition tagsInit :: "'p index_methods \<Rightarrow> 'st policy \<Rightarrow> ('p, 'st) set_assoc \<Rightarrow> ('p, 'st) set_assoc res" where
  "tagsInit im pol t = foldR (init_blk im pol) [0..<sa_numBlocks t] t"

definition findBlockBySetAndWay :: "'p index_methods \<Rightarrow> nat \<Rightarrow> nat \<Rightarrow> ('p, 'st) set_assoc \<Rightarrow> nat option res" where
  "findBlockBySetAndWay im set' way t = im_getEntry im (sa_index t) set' way"

fun find_match :: "('p, 'st) set_assoc \<Rightarrow> addr \<Rightarrow> bool \<Rightarrow> nat option list \<Rightarrow> nat option res" where
  "find_match t tag is_secure [] = Inr None"
| "find_match t tag is_secure (location # es) = bindR (derefR location) (\<lambda>e.
     bindR (blk_at t e) (\<lambda>blk.
       if matchTag tag is_secure blk then Inr (Some e) else find_match t tag is_secure es))"

definition findBlock :: "'p index_methods \<Rightarrow> addr \<Rightarrow> bool \<Rightarrow> ('p, 'st) set_assoc \<Rightarrow> nat option res" where
  "findBlock im a is_secure t =
     bindR (im_getPossibleEntries im (sa_index t) a)
       (find_match t (im_extractTag im (sa_index t) a) is_secure)"

definition BaseTags_insertBlock :: "'p index_methods \<Rightarrow> tick \<Rightarrow> packet \<Rightarrow> nat \<Rightarrow> ('p, 'st) set_assoc \<Rightarrow>
    ('p, 'st) set_assoc res" where
  "BaseTags_insertBlock im now pkt e t = bindR (blk_at t e) (\<lambda>blk.
     assertR (\<not> te_valid blk) (assertR (pkt_requestor pkt < sa_maxRequestors t)
       (let t = t\<lparr>sa_occupancies := (sa_occupancies t)
                    (pkt_requestor pkt := sa_occupancies t (pkt_requestor pkt) + 1)\<rparr> in
        bindR (CacheBlk_insert now (im_extractTag im (sa_index t) (pkt_addr pkt)) (pkt_secure pkt)
                 (pkt_requestor pkt) (pkt_task pkt) blk) (\<lambda>blk.
        let t = upd_blk e blk t;
            t = (if \<not> sa_warmedUp t \<and> sa_warmupBound t \<le> sa_tagsInUse t
                 then t\<lparr>sa_warmedUp := True, sa_warmupTick := now\<rparr> else t)
        in Inr (t\<lparr>sa_tagAccesses := sa_tagAccesses t + 1, sa_dataAccesses := sa_dataAccesses t + 1\<rparr>)))))"

definition insertBlock :: "'p index_methods \<Rightarrow> 'st policy \<Rightarrow> tick \<Rightarrow> packet \<Rightarrow> nat \<Rightarrow> ('p, 'st) set_assoc \<Rightarrow>
    ('p, 'st) set_assoc res" where
  "insertBlock im pol now pkt e t = bindR (BaseTags_insertBlock im now pkt e t) (\<lambda>t.
     let t = t\<lparr>sa_tagsInUse := sa_tagsInUse t + 1\<rparr> in
     bindR (loc_of im t e) (\<lambda>l.
     bindR (pol_reset pol now l (sa_repl t)) (\<lambda>st. Inr (t\<lparr>sa_repl := st\<rparr>))))"

definition BaseTags_invalidate :: "nat \<Rightarrow> ('p, 'st) set_assoc \<Rightarrow> ('p, 'st) set_assoc res" where
  "BaseTags_invalidate e t = bindR (blk_at t e) (\<lambda>blk. assertR (te_valid blk)
     (Inr (upd_blk e (blk_invalidate blk)
        (t\<lparr>sa_occupancies := (sa_occupancies t)
             (cb_srcRequestorId blk := sa_occupancies t (cb_srcRequestorId blk) - 1),
           sa_totalRefs := sa_totalRefs t + uint (cb_refCount blk),
           sa_sampledRefs := sa_sampledRefs t + 1\<rparr>))))"

definition tags_invalidate :: "'p index_methods \<Rightarrow> 'st policy \<Rightarrow> tick \<Rightarrow> nat \<Rightarrow> ('p, 'st) set_assoc \<Rightarrow>
    ('p, 'st) set_assoc res" where
  "tags_invalidate im pol now e t = bindR (BaseTags_invalidate e t) (\<lambda>t.
     let t = t\<lparr>sa_tagsInUse := sa_tagsInUse t - 1\<rparr> in
     bindR (loc_of im t e) (\<lambda>l.
     bindR (pol_invalidate pol now l (sa_repl t)) (\<lambda>st. Inr (t\<lparr>sa_repl := st\<rparr>))))"

definition BaseTags_moveBlock :: "tick \<Rightarrow> nat \<Rightarrow> nat \<Rightarrow> ('p, 'st) set_assoc \<Rightarrow> ('p, 'st) set_assoc res" where
  "BaseTags_moveBlock now src dest t = bindR (blk_at t dest) (\<lambda>dest_blk. bindR (blk_at t src) (\<lambda>src_blk.
     assertR (\<not> te_valid dest_blk) (assertR (te_valid src_blk)
       (bindR (CacheBlk_move now dest_blk src_blk) (\<lambda>(dest_blk, src_blk).
          assertR (te_valid dest_blk) (assertR (\<not> te_valid src_blk)
            (Inr (upd_blk src src_blk (upd_blk dest dest_blk t)))))))))"

definition moveBlock :: "'p index_methods \<Rightarrow> 'st policy \<Rightarrow> tick \<Rightarrow> nat \<Rightarrow> nat \<Rightarrow> ('p, 'st) set_assoc \<Rightarrow>
    ('p, 'st) set_assoc res" where
  "moveBlock im pol now src dest t = bindR (BaseTags_moveBlock now src dest t) (\<lambda>t.
     bindR (loc_of im t src) (\<lambda>ls.
     bindR (pol_invalidate pol now ls (sa_repl t)) (\<lambda>st.
     bindR (loc_of im t dest) (\<lambda>ld.
     bindR (pol_reset pol now ld st) (\<lambda>st. Inr (t\<lparr>sa_repl := st\<rparr>))))))"

text \<open>The result of an access is the block (if any) and the lookup latency.\<close>

definition accessBlock :: "'p index_methods \<Rightarrow> 'st policy \<Rightarrow> tick \<Rightarrow> packet \<Rightarrow> ('p, 'st) set_assoc \<Rightarrow>
    (nat option \<times> cycles \<times> ('p, 'st) set_assoc) res" where
  "accessBlock im pol now pkt t = bindR (findBlock im (pkt_addr pkt) (pkt_secure pkt) t) (\<lambda>found.
     let t = t\<lparr>sa_tagAccesses := sa_tagAccesses t + sa_allocAssoc t\<rparr>;
         t = (if sa_sequentialAccess t
              then if found \<noteq> None then t\<lparr>sa_dataAccesses := sa_dataAccesses t + 1\<rparr> else t
              else t\<lparr>sa_dataAccesses := sa_dataAccesses t + sa_allocAssoc t\<rparr>)
     in case found of
          None \<Rightarrow> Inr (None, sa_lookupLatency t, t)
        | Some e \<Rightarrow> bindR (blk_at t e) (\<lambda>blk.
            let t = upd_blk e (increaseRefCount blk) t in
            bindR (loc_of im t e) (\<lambda>l.
            bindR (pol_touch pol now l (sa_repl t)) (\<lambda>st.
              Inr (Some e, sa_lookupLatency t, t\<lparr>sa_repl := st\<rparr>)))))"

fun entry_locs :: "'p index_methods \<Rightarrow> ('p, 'st) set_assoc \<Rightarrow> nat option list \<Rightarrow> loc list res" where
  "entry_locs im t [] = Inr []"
| "entry_locs im t (location # es) = bindR (derefR location) (\<lambda>e. bindR (loc_of im t e) (\<lambda>l.
     bindR (entry_locs im t es) (\<lambda>ls. Inr (l # ls))))"

text \<open>The victim is also the only element of the list of blocks to evict.\<close>

definition findVictim :: "'p index_methods \<Rightarrow> 'st policy \<Rightarrow> addr \<Rightarrow> ('p, 'st) set_assoc \<Rightarrow>
    (nat \<times> ('p, 'st) set_assoc) res" where
  "findVictim im pol a t = bindR (im_getPossibleEntries im (sa_index t) a) (\<lambda>es.
     bindR (entry_locs im t es) (\<lambda>ls.
     bindR (pol_getVictim pol ls (sa_repl t)) (\<lambda>(v, st).
     bindR (nthR es (int v)) (\<lambda>p. bindR (derefR p) (\<lambda>e. Inr (e, t\<lparr>sa_repl := st\<rparr>))))))"

definition setWayAllocationMax :: "int \<Rightarrow> ('p, 'st) set_assoc \<Rightarrow> ('p, 'st) set_assoc res" where
  "setWayAllocationMax ways t = (if ways < 1
     then Inl (ConfigExit ''Allocation limit must be greater than zero'')
     else Inr (t\<lparr>sa_allocAssoc := ways\<rparr>))"

definition regenerateBlkAddr :: "'p index_methods \<Rightarrow> ('p, 'st) set_assoc \<Rightarrow> nat \<Rightarrow> addr res" where
  "regenerateBlkAddr im t e = bindR (blk_at t e) (\<lambda>blk. bindR (loc_of im t e) (\<lambda>l.
     Inr (im_regenerateAddr im (sa_index t) (te_tag blk) l)))"

end
