(* ===== verification/Set_Assoc_Props.thy ===== *)
theory Set_Assoc_Props
  imports Set_Assoc_Tags
begin

text \<open>
  The tag store of the classic cache against its contract: a block is found exactly when a valid
  block regenerates the address asked for, there is at most one, and a filled block is found where
  the victim was.  The argument is made once, for any indexing policy and any replacement policy
  that keep their contracts, and then used for the policies of the repository.
\<close>

unbundle bit_operations_syntax

section \<open>The table after the blocks were placed\<close>

definition filled :: "nat \<Rightarrow> (nat, 'z) indexing_scheme \<Rightarrow> bool" where
  "filled k ix \<longleftrightarrow> k \<le> ix_numSets ix * ix_assoc ix \<and>
     (\<forall>i < k. ix_sets ix ! (i div ix_assoc ix) ! (i mod ix_assoc ix) = Some i \<and>
        ix_position ix i = Some (i div ix_assoc ix, i mod ix_assoc ix))"

lemma setEntry_filled:
  assumes s: "setEntry k k ix = Inr ix'" and f: "filled k ix" and sh: "ix_shape ix"
    and n: "ix_numSets ix < 2 ^ 32"
  shows "filled (Suc k) ix'"
proof -
  define w where "w = ix_assoc ix"
  define d where "d = k div w"
  define m where "m = k mod w"
  have w0: "0 < w" using s by (auto simp: setEntry_def w_def split: if_splits)
  have "d \<le> ix_numSets ix" unfolding d_def
    using f by (intro div_le_mono[of k "ix_numSets ix * w" w, simplified nonzero_mult_div_cancel_right[OF w0[THEN less_imp_neq, symmetric]]])
       (simp add: filled_def w_def)
  hence md: "d mod 2 ^ 32 = d" using n by simp
  have lt: "d < ix_numSets ix" "d < length (ix_sets ix)" "m < length (ix_sets ix ! d)"
    and ix': "ix' = ix\<lparr>ix_sets := (ix_sets ix)[d := (ix_sets ix ! d)[m := Some k]],
                 ix_position := (ix_position ix)(k \<mapsto> (d, m))\<rparr>"
    using s w0 md unfolding setEntry_def Let_def w_def[symmetric] d_def[symmetric] m_def[symmetric] md
    by (auto simp: fault_simps split: if_splits)
  have "k = d * w + m" by (simp add: d_def m_def)
  also have "\<dots> < (d + 1) * w" using w0 by (simp add: m_def)
  also have "\<dots> \<le> ix_numSets ix * w" using lt(1) by (intro mult_le_mono1) simp
  finally have k: "Suc k \<le> ix_numSets ix * w" by simp
  have "ix_sets ix' ! (i div w) ! (i mod w) = Some i \<and> ix_position ix' i = Some (i div w, i mod w)"
    if i: "i < Suc k" for i
  proof (cases "i = k")
    case True
    thus ?thesis using lt unfolding ix' d_def m_def by simp
  next
    case False
    hence old: "ix_sets ix ! (i div w) ! (i mod w) = Some i" "ix_position ix i = Some (i div w, i mod w)"
      using f i unfolding filled_def w_def by simp_all
    have "i div w \<noteq> d \<or> i mod w \<noteq> m" using False unfolding d_def m_def by (metis div_mult_mod_eq)
    thus ?thesis using old lt False unfolding ix' by (auto simp: nth_list_update)
  qed
  thus ?thesis using k unfolding filled_def by (simp add: ix' w_def)
qed

lemma foldR_append: "foldR f (xs @ ys) s = bindR (foldR f xs s) (foldR f ys)"
proof (induction xs arbitrary: s)
  case (Cons x xs)
  show ?case by (cases "f x s") (simp_all add: Cons.IH)
qed simp

lemma fill_filled:
  assumes "ix_shape ix" "ix_numSets ix < 2 ^ 32"
  shows "fill (map (\<lambda>i. (i, i)) [0..<k]) ix = Inr ix' \<Longrightarrow> filled k ix' \<and> ix_shape ix' \<and> same_layout ix ix'"
proof (induction k arbitrary: ix')
  case (Suc k)
  from Suc.prems obtain ix1 where s: "fill (map (\<lambda>i. (i, i)) [0..<k]) ix = Inr ix1" "setEntry k k ix1 = Inr ix'"
    by (auto simp: fill_def foldR_append fault_simps)
  note i1 = Suc.IH[OF s(1)]
  have n1: "ix_numSets ix1 < 2 ^ 32" using i1 assms(2) by (auto simp: same_layout_def)
  have sh: "same_layout ix1 ix' \<and> ix_shape ix'" using setEntry_Inr[OF s(2)] i1 by blast
  have "filled (Suc k) ix'" using setEntry_filled[OF s(2) _ _ n1] i1 by blast
  thus ?case using sh same_layout_trans[of ix ix1 ix'] i1 by blast
qed (use assms in \<open>simp add: fill_def filled_def\<close>)

text \<open>The tag store places its blocks exactly so.\<close>

lemma init_blk_index:
  assumes "im_setEntry im = setEntry" "init_blk im pol e t = Inr t'"
  shows "setEntry e e (sa_index t) = Inr (sa_index t')"
  using assms unfolding init_blk_def upd_blk_def Let_def by (auto simp: fault_simps)

lemma tagsInit_index:
  assumes "im_setEntry im = setEntry"
  shows "foldR (init_blk im pol) es t = Inr t' \<Longrightarrow>
    fill (map (\<lambda>i. (i, i)) es) (sa_index t) = Inr (sa_index t')"
proof (induction es arbitrary: t)
  case (Cons e es)
  from Cons.prems obtain t1 where t1: "init_blk im pol e t = Inr t1" "foldR (init_blk im pol) es t1 = Inr t'"
    by (auto simp: fault_simps)
  show ?case using Cons.IH[OF t1(2)] init_blk_index[OF assms t1(1)] by (simp add: fill_def)
qed (simp add: fill_def)

section \<open>The contract between the tag store and its policies\<close>

text \<open>
  \<open>ready n p\<close> says that \<open>n\<close> blocks were placed in the table of \<open>p\<close>.  Every address then has
  candidate blocks, whose position and tag give back the address of the block; addresses in one
  block have the same tag and candidates.
\<close>

locale tag_indexing =
  fixes im :: "'p index_methods" and ready :: "nat \<Rightarrow> 'p \<Rightarrow> bool" and block :: "'p \<Rightarrow> addr \<Rightarrow> addr"
  assumes candidates: "ready n p \<Longrightarrow>
      \<exists>es. im_getPossibleEntries im p a = Inr (map Some es) \<and> es \<noteq> [] \<and> (\<forall>e \<in> set es. e < n)"
    and located: "ready n p \<Longrightarrow> e < n \<Longrightarrow> \<exists>l. im_position im p e = Some l"
    and regenerates: "ready n p \<Longrightarrow> im_getPossibleEntries im p a = Inr (map Some es) \<Longrightarrow> e \<in> set es \<Longrightarrow>
      im_position im p e = Some l \<Longrightarrow> im_regenerateAddr im p (im_extractTag im p a) l = block p a"
    and same_block: "ready n p \<Longrightarrow> block p a = block p b \<Longrightarrow>
      im_extractTag im p a = im_extractTag im p b \<and> im_getPossibleEntries im p a = im_getPossibleEntries im p b"

definition cand :: "'p index_methods \<Rightarrow> 'p \<Rightarrow> addr \<Rightarrow> nat list" where
  "cand im p a = (case im_getPossibleEntries im p a of Inr es \<Rightarrow> map the es | Inl _ \<Rightarrow> [])"

abbreviation matches :: "'p index_methods \<Rightarrow> ('p, 'st) set_assoc \<Rightarrow> addr \<Rightarrow> bool \<Rightarrow> nat \<Rightarrow> bool" where
  "matches im t a sec e \<equiv> matchTag (im_extractTag im (sa_index t) a) sec (sa_blks t ! e)"

definition tags_inv :: "'p index_methods \<Rightarrow> (nat \<Rightarrow> 'p \<Rightarrow> bool) \<Rightarrow> ('st \<Rightarrow> bool) \<Rightarrow> nat \<Rightarrow>
    ('p, 'st) set_assoc \<Rightarrow> bool" where
  "tags_inv im ready pinv n t \<longleftrightarrow> ready n (sa_index t) \<and> length (sa_blks t) = n \<and> pinv (sa_repl t) \<and>
     (\<forall>e < n. blk_clean (sa_blks t ! e)) \<and>
     (\<forall>e < n. te_valid (sa_blks t ! e) \<longrightarrow>
        (\<exists>a. te_tag (sa_blks t ! e) = im_extractTag im (sa_index t) a \<and> e \<in> set (cand im (sa_index t) a))) \<and>
     (\<forall>a sec. \<forall>e \<in> set (cand im (sa_index t) a). \<forall>f \<in> set (cand im (sa_index t) a).
        matches im t a sec e \<longrightarrow> matches im t a sec f \<longrightarrow> e = f)"

definition changed_at :: "nat \<Rightarrow> cache_blk \<Rightarrow> ('p, 'st) set_assoc \<Rightarrow> ('p, 'st) set_assoc \<Rightarrow> bool" where
  "changed_at e b t t' \<longleftrightarrow> sa_index t' = sa_index t \<and> sa_blks t' = (sa_blks t)[e := b] \<and>
     sa_maxRequestors t' = sa_maxRequestors t"

lemma changed_nth:
  assumes "changed_at e b t t'"
  shows "sa_blks t' ! f = (if f = e \<and> e < length (sa_blks t) then b else sa_blks t ! f)"
  using assms by (cases "e < length (sa_blks t)") (auto simp: changed_at_def not_less list_update_beyond)

lemma find_match_find:
  assumes "\<forall>e \<in> set es. e < length (sa_blks t)"
  shows "find_match t tag sec (map Some es) = Inr (find (\<lambda>e. matchTag tag sec (sa_blks t ! e)) es)"
  using assms by (induction es) (auto simp: blk_at_def nthR_def derefR_def)

lemma find_unique:
  assumes "\<And>x y. x \<in> set xs \<Longrightarrow> y \<in> set xs \<Longrightarrow> P x \<Longrightarrow> P y \<Longrightarrow> x = y"
  shows "find P xs = Some x \<longleftrightarrow> x \<in> set xs \<and> P x"
  using assms
proof (induction xs)
  case (Cons y ys)
  have "find P ys = Some x \<longleftrightarrow> x \<in> set ys \<and> P x" by (rule Cons.IH) (simp add: Cons.prems)
  thus ?case using Cons.prems[of x y] by auto
qed simp

text \<open>
  The cache uses the tag store in this order: an access; when the block of a response is absent, a
  victim is chosen, invalidated if it is valid, and the block inserted there; and blocks are
  invalidated when a snoop or a flush asks for it.
\<close>

datatype tag_op = Access packet | Fill packet | Drop addr bool

definition fill_block :: "'p index_methods \<Rightarrow> 'st policy \<Rightarrow> tick \<Rightarrow> packet \<Rightarrow> ('p, 'st) set_assoc \<Rightarrow>
    ('p, 'st) set_assoc res" where
  "fill_block im pol now pkt t = bindR (findVictim im pol (pkt_addr pkt) t) (\<lambda>(e, t).
     bindR (blk_at t e) (\<lambda>blk.
     bindR (if te_valid blk then tags_invalidate im pol now e t else Inr t) (insertBlock im pol now pkt e)))"

fun tag_step :: "'p index_methods \<Rightarrow> 'st policy \<Rightarrow> tick \<times> tag_op \<Rightarrow> ('p, 'st) set_assoc \<Rightarrow>
    ('p, 'st) set_assoc res" where
  "tag_step im pol (now, Access pkt) t = bindR (accessBlock im pol now pkt t) (\<lambda>r. Inr (snd (snd r)))"
| "tag_step im pol (now, Fill pkt) t = bindR (findBlock im (pkt_addr pkt) (pkt_secure pkt) t) (\<lambda>r.
     if r = None then fill_block im pol now pkt t else Inr t)"
| "tag_step im pol (now, Drop a sec) t = bindR (findBlock im a sec t) (\<lambda>r.
     case r of None \<Rightarrow> Inr t | Some e \<Rightarrow> tags_invalidate im pol now e t)"

fun op_ok :: "('p, 'st) set_assoc \<Rightarrow> tag_op \<Rightarrow> bool" where
  "op_ok t (Fill pkt) \<longleftrightarrow> pkt_requestor pkt < sa_maxRequestors t"
| "op_ok t _ \<longleftrightarrow> True"

lemma entry_locs_map:
  assumes "\<forall>e \<in> set es. \<exists>l. im_position im (sa_index t) e = Some l"
  shows "entry_locs im t (map Some es) = Inr (map (\<lambda>e. the (im_position im (sa_index t) e)) es)"
  using assms by (induction es) (auto simp: loc_of_def derefR_def)

locale classic_tags = tag_indexing im ready block + replacement_policy pol pinv "\<lambda>_. True" "\<lambda>cs. cs \<noteq> []"
  for im :: "'p index_methods" and ready :: "nat \<Rightarrow> 'p \<Rightarrow> bool" and block :: "'p \<Rightarrow> addr \<Rightarrow> addr"
    and pol :: "'st policy" and pinv :: "'st \<Rightarrow> bool"
begin

lemma cand_props:
  assumes "ready n p"
  shows "im_getPossibleEntries im p a = Inr (map Some (cand im p a)) \<and> cand im p a \<noteq> [] \<and>
    (\<forall>e \<in> set (cand im p a). e < n)"
  using candidates[OF assms, of a] by (auto simp: cand_def comp_def)

lemma same_block_iff:
  assumes "ready n p" "e \<in> set (cand im p a)" "e \<in> set (cand im p b)"
    "im_extractTag im p a = im_extractTag im p b"
  shows "block p a = block p b"
proof -
  have "e < n" using cand_props[OF assms(1)] assms(2) by blast
  then obtain l where l: "im_position im p e = Some l" using located[OF assms(1)] by blast
  show ?thesis
    using regenerates[OF assms(1) cand_props[OF assms(1), THEN conjunct1] assms(2) l]
      regenerates[OF assms(1) cand_props[OF assms(1), THEN conjunct1] assms(3) l] assms(4) by simp
qed

lemma same_block_cand:
  "ready n p \<Longrightarrow> block p a = block p b \<Longrightarrow>
     im_extractTag im p a = im_extractTag im p b \<and> cand im p a = cand im p b"
  using same_block[of n p a b] by (simp add: cand_def)

lemma findBlock_cand:
  assumes "tags_inv im ready pinv n t"
  shows "\<exists>r. findBlock im a sec t = Inr r \<and>
    (\<forall>e. r = Some e \<longleftrightarrow> e \<in> set (cand im (sa_index t) a) \<and> matches im t a sec e)"
proof -
  have r: "ready n (sa_index t)" "length (sa_blks t) = n" using assms by (simp_all add: tags_inv_def)
  note c = cand_props[OF r(1), of a]
  have "findBlock im a sec t = Inr (find (matches im t a sec) (cand im (sa_index t) a))"
    unfolding findBlock_def using c r(2) by (simp add: find_match_find)
  moreover have "find (matches im t a sec) (cand im (sa_index t) a) = Some e \<longleftrightarrow>
      e \<in> set (cand im (sa_index t) a) \<and> matches im t a sec e" for e
    using assms by (intro find_unique) (auto simp: tags_inv_def)
  ultimately show ?thesis by blast
qed

lemma regenerate_cand:
  assumes "tags_inv im ready pinv n t" "e \<in> set (cand im (sa_index t) a)" "matches im t a sec e"
  shows "regenerateBlkAddr im t e = Inr (block (sa_index t) a)"
proof -
  have r: "ready n (sa_index t)" "length (sa_blks t) = n" using assms(1) by (simp_all add: tags_inv_def)
  have e: "e < n" using cand_props[OF r(1)] assms(2) by blast
  then obtain l where l: "im_position im (sa_index t) e = Some l" using located[OF r(1)] by blast
  have "im_regenerateAddr im (sa_index t) (te_tag (sa_blks t ! e)) l = block (sa_index t) a"
    using regenerates[OF r(1) _ assms(2) l] cand_props[OF r(1)] assms(3) by (simp add: matchTag_def)
  thus ?thesis using e r(2) l by (simp add: regenerateBlkAddr_def blk_at_def nthR_def loc_of_def derefR_def)
qed

lemma found_iff:
  assumes inv: "tags_inv im ready pinv n t"
  shows "\<exists>r. findBlock im a sec t = Inr r \<and> (\<forall>e. r = Some e \<longleftrightarrow> e < n \<and> te_valid (sa_blks t ! e) \<and>
    te_secure (sa_blks t ! e) = sec \<and> regenerateBlkAddr im t e = Inr (block (sa_index t) a))"
proof -
  obtain r where r: "findBlock im a sec t = Inr r"
    "\<And>e. r = Some e \<longleftrightarrow> e \<in> set (cand im (sa_index t) a) \<and> matches im t a sec e"
    using findBlock_cand[OF inv] by blast
  have rd: "ready n (sa_index t)" using inv by (simp add: tags_inv_def)
  have "e \<in> set (cand im (sa_index t) a) \<and> matches im t a sec e \<longleftrightarrow> e < n \<and> te_valid (sa_blks t ! e) \<and>
    te_secure (sa_blks t ! e) = sec \<and> regenerateBlkAddr im t e = Inr (block (sa_index t) a)" (is "?L \<longleftrightarrow> ?R") for e
  proof
    assume L: ?L
    hence "e < n" using cand_props[OF rd, of a] by blast
    thus ?R using L regenerate_cand[OF inv, of e a sec] by (simp add: matchTag_def)
  next
    assume R: ?R
    then obtain b where b: "te_tag (sa_blks t ! e) = im_extractTag im (sa_index t) b" "e \<in> set (cand im (sa_index t) b)"
      using inv unfolding tags_inv_def by blast
    have "matches im t b sec e" using R b(1) by (simp add: matchTag_def)
    from regenerate_cand[OF inv b(2) this] R have "block (sa_index t) b = block (sa_index t) a" by simp
    from same_block_cand[OF rd this] show ?L using R b by (simp add: matchTag_def)
  qed
  thus ?thesis using r by blast
qed

lemma inv_same_tag:
  assumes inv: "tags_inv im ready pinv n t" and c: "changed_at e b t t'" and p: "pinv (sa_repl t')"
    and b: "te_valid b = te_valid (sa_blks t ! e)" "te_tag b = te_tag (sa_blks t ! e)"
      "te_secure b = te_secure (sa_blks t ! e)" "blk_clean b"
  shows "tags_inv im ready pinv n t'"
proof -
  have nth: "te_valid (sa_blks t' ! f) = te_valid (sa_blks t ! f)" "te_tag (sa_blks t' ! f) = te_tag (sa_blks t ! f)"
    "te_secure (sa_blks t' ! f) = te_secure (sa_blks t ! f)" for f
    using b by (simp_all add: changed_nth[OF c])
  have cl: "blk_clean (sa_blks t ! f) \<Longrightarrow> blk_clean (sa_blks t' ! f)" for f
    using b(4) by (simp add: changed_nth[OF c])
  have ix: "sa_index t' = sa_index t" "length (sa_blks t') = length (sa_blks t)"
    using c by (simp_all add: changed_at_def)
  show ?thesis using inv p unfolding tags_inv_def matchTag_def ix nth by (simp add: cl)
qed

lemma inv_invalid:
  assumes inv: "tags_inv im ready pinv n t" and c: "changed_at e b t t'" and p: "pinv (sa_repl t')"
    and b: "\<not> te_valid b" "blk_clean b"
  shows "tags_inv im ready pinv n t'"
proof -
  have ix: "sa_index t' = sa_index t" "length (sa_blks t') = length (sa_blks t)"
    using c by (simp_all add: changed_at_def)
  have v: "te_valid (sa_blks t' ! f) \<Longrightarrow> sa_blks t' ! f = sa_blks t ! f" for f
    using b(1) by (auto simp: changed_nth[OF c] split: if_splits)
  have m: "matchTag tag sec (sa_blks t' ! f) \<Longrightarrow> matchTag tag sec (sa_blks t ! f)" for tag sec f
    using v by (auto simp: matchTag_def)
  have cl: "blk_clean (sa_blks t ! f) \<Longrightarrow> blk_clean (sa_blks t' ! f)" for f
    using b(2) by (simp add: changed_nth[OF c])
  show ?thesis unfolding tags_inv_def ix
  proof (intro conjI allI impI ballI)
    fix f assume "f < n" "te_valid (sa_blks t' ! f)"
    thus "\<exists>a. te_tag (sa_blks t' ! f) = im_extractTag im (sa_index t) a \<and> f \<in> set (cand im (sa_index t) a)"
      using inv v[of f] unfolding tags_inv_def by auto
  next
    fix a sec f g
    assume "f \<in> set (cand im (sa_index t) a)" "g \<in> set (cand im (sa_index t) a)"
      "matchTag (im_extractTag im (sa_index t) a) sec (sa_blks t' ! f)"
      "matchTag (im_extractTag im (sa_index t) a) sec (sa_blks t' ! g)"
    thus "f = g" using inv m unfolding tags_inv_def by blast
  qed (use inv p cl in \<open>auto simp: tags_inv_def\<close>)
qed

lemma inv_insert:
  assumes inv: "tags_inv im ready pinv n t" and c: "changed_at e b t t'" and p: "pinv (sa_repl t')"
    and e: "e \<in> set (cand im (sa_index t) a)"
    and absent: "findBlock im a sec t = Inr None"
    and b: "te_valid b" "te_tag b = im_extractTag im (sa_index t) a" "te_secure b = sec"
  shows "tags_inv im ready pinv n t'"
proof -
  have rd: "ready n (sa_index t)" and len: "length (sa_blks t) = n" using inv by (simp_all add: tags_inv_def)
  have en: "e < n" using cand_props[OF rd] e by blast
  have nth: "sa_blks t' ! e = b" "f \<noteq> e \<Longrightarrow> sa_blks t' ! f = sa_blks t ! f" for f
    using c en len by (simp_all add: changed_at_def)
  have ix: "sa_index t' = sa_index t" "length (sa_blks t') = length (sa_blks t)"
    using c by (simp_all add: changed_at_def)
  have pl: "f < n \<Longrightarrow> te_valid (sa_blks t ! f) \<Longrightarrow>
      \<exists>a. te_tag (sa_blks t ! f) = im_extractTag im (sa_index t) a \<and> f \<in> set (cand im (sa_index t) a)"
    and cl: "f < n \<Longrightarrow> blk_clean (sa_blks t ! f)"
    and uniq: "f \<in> set (cand im (sa_index t) d) \<Longrightarrow> g \<in> set (cand im (sa_index t) d) \<Longrightarrow>
      matches im t d s f \<Longrightarrow> matches im t d s g \<Longrightarrow> f = g" for f g d s
    using inv unfolding tags_inv_def by blast+
  have none: "\<not> matches im t a sec f" if "f \<in> set (cand im (sa_index t) a)" for f
    using findBlock_cand[OF inv, of a sec] absent that by auto
  have other: "\<not> matches im t d s f" if "f \<noteq> e" "matchTag (im_extractTag im (sa_index t) d) s b"
    "e \<in> set (cand im (sa_index t) d)" "f \<in> set (cand im (sa_index t) d)" for d s f
  proof
    assume m: "matches im t d s f"
    have s: "s = sec" "im_extractTag im (sa_index t) a = im_extractTag im (sa_index t) d"
      using that(2) b by (simp_all add: matchTag_def)
    have "block (sa_index t) a = block (sa_index t) d" by (rule same_block_iff[OF rd e that(3) s(2)])
    from same_block_cand[OF rd this] have "cand im (sa_index t) a = cand im (sa_index t) d" by blast
    with that(4) have "f \<in> set (cand im (sa_index t) a)" by simp
    from none[OF this] m show False unfolding s by simp
  qed
  show ?thesis unfolding tags_inv_def ix
  proof (intro conjI allI impI ballI)
    fix f assume "f < n" "te_valid (sa_blks t' ! f)"
    thus "\<exists>a. te_tag (sa_blks t' ! f) = im_extractTag im (sa_index t) a \<and> f \<in> set (cand im (sa_index t) a)"
      using pl[of f] nth e b by (cases "f = e") auto
  next
    fix d s f g
    assume "f \<in> set (cand im (sa_index t) d)" "g \<in> set (cand im (sa_index t) d)"
      "matchTag (im_extractTag im (sa_index t) d) s (sa_blks t' ! f)"
      "matchTag (im_extractTag im (sa_index t) d) s (sa_blks t' ! g)"
    thus "f = g" using uniq[of f d g s] other[of f d s] other[of g d s] nth
      by (cases "f = e"; cases "g = e") auto
  next
    fix f assume "f < n"
    thus "blk_clean (sa_blks t' ! f)" using cl[of f] nth b(1) by (cases "f = e") auto
  qed (use inv p in \<open>auto simp: tags_inv_def\<close>)
qed

lemma inv_parts:
  assumes "tags_inv im ready pinv n t"
  shows "ready n (sa_index t)" "length (sa_blks t) = n" "pinv (sa_repl t)"
    "e < n \<Longrightarrow> blk_at t e = Inr (sa_blks t ! e)" "e < n \<Longrightarrow> blk_clean (sa_blks t ! e)"
    "e < n \<Longrightarrow> \<exists>l. im_position im (sa_index t) e = Some l"
proof -
  show r: "ready n (sa_index t)" using assms by (simp add: tags_inv_def)
  show "e < n \<Longrightarrow> \<exists>l. im_position im (sa_index t) e = Some l" by (rule located[OF r])
qed (use assms in \<open>simp_all add: tags_inv_def blk_at_def nthR_def\<close>)

lemma insertBlock_ok:
  assumes inv: "tags_inv im ready pinv n t" and e: "e < n" "\<not> te_valid (sa_blks t ! e)"
    and r: "pkt_requestor pkt < sa_maxRequestors t"
  shows "\<exists>t' b. insertBlock im pol now pkt e t = Inr t' \<and> changed_at e b t t' \<and> pinv (sa_repl t') \<and>
    te_valid b \<and> te_tag b = im_extractTag im (sa_index t) (pkt_addr pkt) \<and> te_secure b = pkt_secure pkt"
proof -
  note p = inv_parts[OF inv]
  obtain b where b: "CacheBlk_insert now (im_extractTag im (sa_index t) (pkt_addr pkt)) (pkt_secure pkt)
      (pkt_requestor pkt) (pkt_task pkt) (sa_blks t ! e) = Inr b" "te_valid b"
    "te_tag b = im_extractTag im (sa_index t) (pkt_addr pkt)" "te_secure b = pkt_secure pkt"
    using CacheBlk_insert_clean[OF p(5)[OF e(1)] e(2)] by blast
  obtain l where l: "im_position im (sa_index t) e = Some l" using p(6)[OF e(1)] by blast
  obtain st where st: "pol_reset pol now l (sa_repl t) = Inr st" "pinv st" using reset_total[OF p(3)] by blast
  show ?thesis
    using p(4)[OF e(1)] e(2) r b l st
    by (auto simp: insertBlock_def BaseTags_insertBlock_def assertR_def Let_def loc_of_def derefR_def
        upd_blk_def changed_at_def)
qed

lemma invalidate_ok:
  assumes inv: "tags_inv im ready pinv n t" and e: "e < n" "te_valid (sa_blks t ! e)"
  shows "\<exists>t'. tags_invalidate im pol now e t = Inr t' \<and>
    changed_at e (blk_invalidate (sa_blks t ! e)) t t' \<and> pinv (sa_repl t')"
proof -
  note p = inv_parts[OF inv]
  obtain l where l: "im_position im (sa_index t) e = Some l" using p(6)[OF e(1)] by blast
  obtain st where st: "pol_invalidate pol now l (sa_repl t) = Inr st" "pinv st"
    using invalidate_total[OF p(3)] by blast
  show ?thesis using p(4)[OF e(1)] e(2) l st
    by (auto simp: tags_invalidate_def BaseTags_invalidate_def assertR_def Let_def loc_of_def derefR_def
        upd_blk_def changed_at_def)
qed

lemma victim_ok:
  assumes inv: "tags_inv im ready pinv n t"
  shows "\<exists>e st. findVictim im pol a t = Inr (e, t\<lparr>sa_repl := st\<rparr>) \<and> e \<in> set (cand im (sa_index t) a) \<and> pinv st"
proof -
  note p = inv_parts[OF inv]
  note c = cand_props[OF p(1), of a]
  let ?es = "cand im (sa_index t) a" and ?ls = "map (\<lambda>e. the (im_position im (sa_index t) e)) (cand im (sa_index t) a)"
  have ls: "entry_locs im t (map Some ?es) = Inr ?ls" using c p(6) by (intro entry_locs_map) blast
  obtain v st where v: "pol_getVictim pol ?ls (sa_repl t) = Inr (v, st)" "v < length ?ls" "pinv st"
    using victim_total[OF p(3), of ?ls] c by auto
  have "findVictim im pol a t = Inr (?es ! v, t\<lparr>sa_repl := st\<rparr>)"
    using c ls v by (simp add: findVictim_def nthR_def derefR_def)
  moreover have "?es ! v \<in> set ?es" using v(2) by simp
  ultimately show ?thesis using v(3) by blast
qed

lemma inv_repl: "tags_inv im ready pinv n t \<Longrightarrow> pinv st \<Longrightarrow> tags_inv im ready pinv n (t\<lparr>sa_repl := st\<rparr>)"
  by (simp add: tags_inv_def)

lemma access_ok:
  assumes inv: "tags_inv im ready pinv n t"
  shows "\<exists>r t'. accessBlock im pol now pkt t = Inr (r, sa_lookupLatency t, t') \<and>
    findBlock im (pkt_addr pkt) (pkt_secure pkt) t = Inr r \<and> tags_inv im ready pinv n t' \<and>
    sa_maxRequestors t' = sa_maxRequestors t \<and> sa_index t' = sa_index t"
proof -
  note p = inv_parts[OF inv]
  obtain r where r: "findBlock im (pkt_addr pkt) (pkt_secure pkt) t = Inr r"
    "\<And>e. r = Some e \<longleftrightarrow> e \<in> set (cand im (sa_index t) (pkt_addr pkt)) \<and> matches im t (pkt_addr pkt) (pkt_secure pkt) e"
    using findBlock_cand[OF inv] by blast
  show ?thesis
  proof (cases r)
    case None
    thus ?thesis using r(1) inv by (auto simp: accessBlock_def Let_def tags_inv_def)
  next
    case (Some e)
    have e: "e < n" "te_valid (sa_blks t ! e)" using r(2)[of e] Some cand_props[OF p(1)] by (auto simp: matchTag_def)
    obtain l where l: "im_position im (sa_index t) e = Some l" using p(6)[OF e(1)] by blast
    obtain st where st: "pol_touch pol now l (sa_repl t) = Inr st" "pinv st" using touch_total[OF p(3)] by blast
    have "\<exists>t'. accessBlock im pol now pkt t = Inr (Some e, sa_lookupLatency t, t') \<and>
      changed_at e (increaseRefCount (sa_blks t ! e)) t t' \<and> pinv (sa_repl t')"
      using r(1) Some p(2) e l st by (cases "sa_sequentialAccess t")
        (simp_all add: accessBlock_def loc_of_def derefR_def upd_blk_def changed_at_def blk_at_def nthR_def)
    then obtain t' where t': "accessBlock im pol now pkt t = Inr (Some e, sa_lookupLatency t, t')"
      "changed_at e (increaseRefCount (sa_blks t ! e)) t t'" "pinv (sa_repl t')" by blast
    have "tags_inv im ready pinv n t'"
      using e(2) by (intro inv_same_tag[OF inv t'(2,3)]) (auto simp: increaseRefCount_def)
    thus ?thesis using t' r(1) Some by (auto simp: changed_at_def)
  qed
qed

lemma drop_ok:
  assumes inv: "tags_inv im ready pinv n t" and e: "e < n" "te_valid (sa_blks t ! e)"
  shows "\<exists>t'. tags_invalidate im pol now e t = Inr t' \<and> tags_inv im ready pinv n t' \<and>
    changed_at e (blk_invalidate (sa_blks t ! e)) t t'"
proof -
  obtain t' where t': "tags_invalidate im pol now e t = Inr t'"
    "changed_at e (blk_invalidate (sa_blks t ! e)) t t'" "pinv (sa_repl t')"
    using invalidate_ok[OF inv e] by blast
  have "tags_inv im ready pinv n t'" by (rule inv_invalid[OF inv t'(2,3)]) simp_all
  thus ?thesis using t' by blast
qed

text \<open>A fill of an absent block: it is then found at the victim, and every other block but the one
  evicted there is found where it was.\<close>

lemma fill_ok:
  assumes inv: "tags_inv im ready pinv n t" and absent: "findBlock im (pkt_addr pkt) (pkt_secure pkt) t = Inr None"
    and r: "pkt_requestor pkt < sa_maxRequestors t"
  shows "\<exists>e b t'. fill_block im pol now pkt t = Inr t' \<and> tags_inv im ready pinv n t' \<and> changed_at e b t t' \<and>
    findBlock im (pkt_addr pkt) (pkt_secure pkt) t' = Inr (Some e)"
proof -
  let ?a = "pkt_addr pkt" and ?s = "pkt_secure pkt"
  obtain e st where v: "findVictim im pol ?a t = Inr (e, t\<lparr>sa_repl := st\<rparr>)"
    "e \<in> set (cand im (sa_index t) ?a)" "pinv st" using victim_ok[OF inv] by blast
  define t1 where "t1 = t\<lparr>sa_repl := st\<rparr>"
  have i1: "tags_inv im ready pinv n t1" unfolding t1_def by (rule inv_repl[OF inv v(3)])
  have e: "e < n" using cand_props[OF inv_parts(1)[OF inv]] v(2) by blast
  have at1: "blk_at t1 e = Inr (sa_blks t1 ! e)" by (rule inv_parts(4)[OF i1 e])
  obtain b2 t2 where t2: "(if te_valid (sa_blks t1 ! e) then tags_invalidate im pol now e t1 else Inr t1) = Inr t2"
    "tags_inv im ready pinv n t2" "changed_at e b2 t1 t2" "\<not> te_valid b2"
  proof (cases "te_valid (sa_blks t1 ! e)")
    case True
    show ?thesis using drop_ok[OF i1 e True, of now] True that by auto
  next
    case False
    have "changed_at e (sa_blks t1 ! e) t1 t1" by (simp add: changed_at_def)
    thus ?thesis using False i1 that by auto
  qed
  have same: "sa_index t2 = sa_index t" "sa_maxRequestors t2 = sa_maxRequestors t"
    using t2(3) by (simp_all add: changed_at_def t1_def)
  have inv2: "\<not> te_valid (sa_blks t2 ! e)"
    using changed_nth[OF t2(3), of e] t2(4) e inv_parts(2)[OF i1] by simp
  have "findBlock im ?a ?s t2 \<noteq> Inr (Some f)" for f
  proof
    assume f: "findBlock im ?a ?s t2 = Inr (Some f)"
    hence f2: "f \<in> set (cand im (sa_index t) ?a)" "matches im t2 ?a ?s f"
      using findBlock_cand[OF t2(2), of ?a ?s] same by auto
    have "f \<noteq> e" using f2(2) inv2 by (auto simp: matchTag_def)
    hence "sa_blks t2 ! f = sa_blks t ! f" using changed_nth[OF t2(3), of f] by (simp add: t1_def)
    hence "matches im t ?a ?s f" using f2(2) same by simp
    thus False using findBlock_cand[OF inv, of ?a ?s] absent f2(1) by auto
  qed
  moreover obtain r2 where "findBlock im ?a ?s t2 = Inr r2" using findBlock_cand[OF t2(2)] by blast
  ultimately have abs2: "findBlock im ?a ?s t2 = Inr None" by (cases r2) auto
  obtain t3 b3 where t3: "insertBlock im pol now pkt e t2 = Inr t3" "changed_at e b3 t2 t3" "pinv (sa_repl t3)"
    "te_valid b3" "te_tag b3 = im_extractTag im (sa_index t2) ?a" "te_secure b3 = ?s"
    using insertBlock_ok[OF t2(2) e inv2 r[folded same(2)], of now] by blast
  have c2: "e \<in> set (cand im (sa_index t2) ?a)" using v(2) same by simp
  have i3: "tags_inv im ready pinv n t3" by (rule inv_insert[OF t2(2) t3(2,3) c2 abs2 t3(4-6)])
  have "sa_blks t3 ! e = b3" "sa_index t3 = sa_index t2"
    using t3(2) e inv_parts(2)[OF t2(2)] by (simp_all add: changed_at_def)
  hence "matches im t3 ?a ?s e" "e \<in> set (cand im (sa_index t3) ?a)" using t3(4-6) c2 by (simp_all add: matchTag_def)
  hence fnd: "findBlock im ?a ?s t3 = Inr (Some e)" using findBlock_cand[OF i3, of ?a ?s] by auto
  have "changed_at e b3 t t3" using t2(3) t3(2) by (simp add: changed_at_def t1_def)
  moreover have "fill_block im pol now pkt t = Inr t3"
    unfolding fill_block_def v(1) using at1 t2(1) t3(1) by (simp add: t1_def[symmetric])
  ultimately show ?thesis using i3 fnd by blast
qed

lemma step_ok:
  assumes inv: "tags_inv im ready pinv n t" and x: "op_ok t (snd x)"
  shows "\<exists>t'. tag_step im pol x t = Inr t' \<and> tags_inv im ready pinv n t' \<and>
    sa_maxRequestors t' = sa_maxRequestors t \<and> sa_index t' = sa_index t"
proof (cases x)
  case (Pair now y)
  show ?thesis
  proof (cases y)
    case (Access pkt)
    thus ?thesis using access_ok[OF inv, of now pkt] Pair by (auto simp: changed_at_def)
  next
    case (Fill pkt)
    obtain r where r: "findBlock im (pkt_addr pkt) (pkt_secure pkt) t = Inr r" using findBlock_cand[OF inv] by blast
    show ?thesis using fill_ok[OF inv, of pkt now] r x inv Pair Fill by (cases r) (auto simp: changed_at_def)
  next
    case (Drop a sec)
    obtain r where r: "findBlock im a sec t = Inr r"
      "\<And>e. r = Some e \<longleftrightarrow> e \<in> set (cand im (sa_index t) a) \<and> matches im t a sec e"
      using findBlock_cand[OF inv] by blast
    show ?thesis
    proof (cases r)
      case None
      thus ?thesis using r inv Pair Drop by simp
    next
      case (Some e)
      have "e < n" "te_valid (sa_blks t ! e)"
        using r(2)[of e] Some cand_props[OF inv_parts(1)[OF inv]] by (auto simp: matchTag_def)
      from drop_ok[OF inv this] obtain t' where "tags_invalidate im pol now e t = Inr t'"
        "tags_inv im ready pinv n t'" "changed_at e (blk_invalidate (sa_blks t ! e)) t t'" by blast
      thus ?thesis using r(1) Some Pair Drop by (auto simp: changed_at_def)
    qed
  qed
qed

lemma run_ok:
  "tags_inv im ready pinv n t \<Longrightarrow> \<forall>x \<in> set xs. op_ok t (snd x) \<Longrightarrow>
     \<exists>t'. foldR (tag_step im pol) xs t = Inr t' \<and> tags_inv im ready pinv n t' \<and>
       sa_maxRequestors t' = sa_maxRequestors t \<and> sa_index t' = sa_index t"
proof (induction xs arbitrary: t)
  case (Cons x xs)
  obtain t1 where t1: "tag_step im pol x t = Inr t1" "tags_inv im ready pinv n t1"
    "sa_maxRequestors t1 = sa_maxRequestors t" "sa_index t1 = sa_index t"
    using step_ok[OF Cons.prems(1), of x] Cons.prems(2) by auto
  have "\<forall>y \<in> set xs. op_ok t1 (snd y)"
  proof
    fix y assume "y \<in> set xs"
    hence "op_ok t (snd y)" using Cons.prems(2) by simp
    thus "op_ok t1 (snd y)" using t1(3) by (cases "snd y") simp_all
  qed
  from Cons.IH[OF t1(2) this] show ?case using t1 by auto
qed simp

end

section \<open>Both indexing policies keep the contract\<close>

definition ready_table :: "nat \<Rightarrow> (nat, 'z) indexing_scheme \<Rightarrow> bool" where
  "ready_table n ix \<longleftrightarrow> ix_shape ix \<and> 0 < ix_assoc ix \<and> n = ix_numSets ix * ix_assoc ix \<and> filled n ix"

definition ready_set_assoc :: "nat \<Rightarrow> nat indexing \<Rightarrow> bool" where
  "ready_set_assoc n ix \<longleftrightarrow> built ix \<and> ix_tagShift ix \<le> 32 \<and> ready_table n ix"

definition ready_skewed :: "nat \<Rightarrow> nat skewed \<Rightarrow> bool" where
  "ready_skewed n s \<longleftrightarrow> built_skewed s \<and> ready_table n s"

lemma ready_slot:
  assumes "ready_table n ix" "r < ix_numSets ix" "w < ix_assoc ix"
  shows "r * ix_assoc ix + w < n" "ix_sets ix ! r ! w = Some (r * ix_assoc ix + w)"
    "ix_position ix (r * ix_assoc ix + w) = Some (r, w)"
proof -
  have "r * ix_assoc ix + w < (r + 1) * ix_assoc ix" using assms(3) by simp
  also have "\<dots> \<le> ix_numSets ix * ix_assoc ix" using assms(2) by (intro mult_le_mono1) simp
  finally show l: "r * ix_assoc ix + w < n" using assms(1) by (simp add: ready_table_def)
  have dm: "(r * ix_assoc ix + w) div ix_assoc ix = r" "(r * ix_assoc ix + w) mod ix_assoc ix = w"
    using assms(3) by simp_all
  show "ix_sets ix ! r ! w = Some (r * ix_assoc ix + w)"
    "ix_position ix (r * ix_assoc ix + w) = Some (r, w)"
    using assms(1) l dm unfolding ready_table_def filled_def by metis+
qed

lemma ready_located: "ready_table n ix \<Longrightarrow> e < n \<Longrightarrow> \<exists>l. ix_position ix e = Some l"
  by (auto simp: ready_table_def filled_def)

lemma drop_makeLine: "drop_bit sh (makeLineAddress sh a) = drop_bit sh a"
  by (rule bit_word_eqI) (auto simp: makeLineAddress_eq bit_simps dest: bit_imp_le_length)

lemma same_line_drop: "makeLineAddress sh a = makeLineAddress sh b \<Longrightarrow> drop_bit sh a = drop_bit sh b"
  by (metis drop_makeLine)

lemma same_line_tag:
  assumes "ix_tagShift ix = ix_setShift ix + l" "makeLineAddress (ix_setShift ix) a = makeLineAddress (ix_setShift ix) b"
  shows "extractTag ix a = extractTag ix b"
  using same_line_drop[OF assms(2)] assms(1) unfolding extractTag_def by (metis add.commute drop_bit_drop_bit)

lemma SetAssociative_candidates:
  assumes "ready_set_assoc n ix"
  shows "SetAssociative_getPossibleEntries ix a = Inr (map (\<lambda>w. Some
    (SetAssociative_extractSet ix a * ix_assoc ix + w)) [0..<ix_assoc ix])"
proof -
  have t: "ready_table n ix" and b: "built ix \<and> ix_tagShift ix \<le> 32" using assms by (simp_all add: ready_set_assoc_def)
  let ?r = "SetAssociative_extractSet ix a"
  have r: "?r < ix_numSets ix" by (rule set_assoc.in_range[OF b])
  have sh: "ix_shape ix" using t by (simp add: ready_table_def)
  have "ix_sets ix ! ?r = map (\<lambda>w. Some (?r * ix_assoc ix + w)) [0..<ix_assoc ix]"
    using r sh ready_slot(2)[OF t r] by (intro nth_equalityI) (simp_all add: ix_shape_def)
  thus ?thesis using r sh by (simp add: SetAssociative_getPossibleEntries_def nthR_def ix_shape_def)
qed

lemma Skewed_candidates:
  assumes "ready_skewed n s"
  shows "Skewed_getPossibleEntries s a = Inr (map (\<lambda>w. Some
    (Skewed_extractSet s a w * ix_assoc s + w)) [0..<ix_assoc s])"
proof -
  have t: "ready_table n s" and b: "built_skewed s" using assms by (simp_all add: ready_skewed_def)
  show ?thesis unfolding Skewed_getPossibleEntries_def
    using possible_entries_ways[OF b, of "[0..<ix_assoc s]" a] ready_slot(2)[OF t skewed.in_range[OF b]]
    by simp
qed

lemma table_candidates:
  assumes t: "ready_table n ix" and r: "\<And>w. R w < ix_numSets ix"
  shows "\<exists>es. map (\<lambda>w. Some (R w * ix_assoc ix + w)) [0..<ix_assoc ix] = map Some es \<and> es \<noteq> [] \<and> (\<forall>e \<in> set es. e < n)"
  using ready_slot(1)[OF t r] t
  by (intro exI[of _ "map (\<lambda>w. R w * ix_assoc ix + w) [0..<ix_assoc ix]"]) (auto simp: ready_table_def)

lemma table_position:
  assumes t: "ready_table n ix" and r: "\<And>w. R w < ix_numSets ix"
    and es: "map (\<lambda>w. Some (R w * ix_assoc ix + w)) [0..<ix_assoc ix] = map Some es" "e \<in> set es"
    and l: "ix_position ix e = Some l"
  shows "\<exists>w. l = (R w, w)"
proof -
  have "Some e \<in> set (map (\<lambda>w. Some (R w * ix_assoc ix + w)) [0..<ix_assoc ix])" unfolding es(1) using es(2) by simp
  then obtain w where w: "w < ix_assoc ix" "e = R w * ix_assoc ix + w" by auto
  thus ?thesis using ready_slot(3)[OF t r[of w] w(1)] l by auto
qed

lemma set_assoc_indexing:
  "tag_indexing SetAssociative_methods ready_set_assoc (\<lambda>ix. makeLineAddress (ix_setShift ix))"
proof
  fix n ix a
  assume rd: "ready_set_assoc n ix"
  hence t: "ready_table n ix" and b: "built ix \<and> ix_tagShift ix \<le> 32" by (simp_all add: ready_set_assoc_def)
  note c = SetAssociative_candidates[OF rd]
  have r: "SetAssociative_extractSet ix a < ix_numSets ix" by (rule set_assoc.in_range[OF b])
  show "\<exists>es. im_getPossibleEntries SetAssociative_methods ix a = Inr (map Some es) \<and> es \<noteq> [] \<and> (\<forall>e\<in>set es. e < n)"
    using c[of a] table_candidates[OF t, of "\<lambda>w. SetAssociative_extractSet ix a"] r by (auto simp: SetAssociative_methods_def)
  show "\<exists>l. im_position SetAssociative_methods ix e = Some l" if "e < n" for e
    using ready_located[OF t that] by (simp add: SetAssociative_methods_def)
  show "im_regenerateAddr SetAssociative_methods ix (im_extractTag SetAssociative_methods ix a) l = makeLineAddress (ix_setShift ix) a"
    if es: "im_getPossibleEntries SetAssociative_methods ix a = Inr (map Some es)" "e \<in> set es"
      and l: "im_position SetAssociative_methods ix e = Some l" for e es l
  proof -
    have m: "map (\<lambda>w. Some ((SetAssociative_extractSet ix a) * ix_assoc ix + w)) [0..<ix_assoc ix] = map Some es"
      using es(1) c[of a] by (simp add: SetAssociative_methods_def)
    have "ix_position ix e = Some l" using l by (simp add: SetAssociative_methods_def)
    from table_position[OF t _ m es(2) this] r obtain w where "l = (SetAssociative_extractSet ix a, w)" by blast
    thus ?thesis using set_assoc.regenerate[OF b, of a] by (simp add: SetAssociative_methods_def)
  qed
  show "im_extractTag SetAssociative_methods ix a = im_extractTag SetAssociative_methods ix d \<and>
      im_getPossibleEntries SetAssociative_methods ix a = im_getPossibleEntries SetAssociative_methods ix d"
    if "makeLineAddress (ix_setShift ix) a = makeLineAddress (ix_setShift ix) d" for d
  proof -
    obtain l where "ix_tagShift ix = ix_setShift ix + l" using built_params b by blast
    from same_line_tag[OF this that] same_line_drop[OF that] show ?thesis
      by (simp add: SetAssociative_methods_def SetAssociative_getPossibleEntries_def SetAssociative_extractSet_def)
  qed
qed

lemma skewed_indexing:
  "tag_indexing Skewed_methods ready_skewed (\<lambda>s. makeLineAddress (ix_setShift s))"
proof
  fix n s a
  assume rd: "ready_skewed n s"
  hence t: "ready_table n s" and b: "built_skewed s" by (simp_all add: ready_skewed_def)
  note c = Skewed_candidates[OF rd]
  note r = skewed.in_range[OF b]
  show "\<exists>es. im_getPossibleEntries Skewed_methods s a = Inr (map Some es) \<and> es \<noteq> [] \<and> (\<forall>e\<in>set es. e < n)"
    using c[of a] table_candidates[OF t, of "\<lambda>w. Skewed_extractSet s a w"] r by (auto simp: Skewed_methods_def)
  show "\<exists>l. im_position Skewed_methods s e = Some l" if "e < n" for e
    using ready_located[OF t that] by (simp add: Skewed_methods_def)
  show "im_regenerateAddr Skewed_methods s (im_extractTag Skewed_methods s a) l = makeLineAddress (ix_setShift s) a"
    if es: "im_getPossibleEntries Skewed_methods s a = Inr (map Some es)" "e \<in> set es"
      and l: "im_position Skewed_methods s e = Some l" for e es l
  proof -
    have m: "map (\<lambda>w. Some ((Skewed_extractSet s a w) * ix_assoc s + w)) [0..<ix_assoc s] = map Some es"
      using es(1) c[of a] by (simp add: Skewed_methods_def)
    have "ix_position s e = Some l" using l by (simp add: Skewed_methods_def)
    from table_position[OF t _ m es(2) this] r obtain w where "l = (Skewed_extractSet s a w, w)" by blast
    thus ?thesis using skewed.regenerate[OF b, of a w] by (simp add: Skewed_methods_def)
  qed
  show "im_extractTag Skewed_methods s a = im_extractTag Skewed_methods s d \<and>
      im_getPossibleEntries Skewed_methods s a = im_getPossibleEntries Skewed_methods s d"
    if "makeLineAddress (ix_setShift s) a = makeLineAddress (ix_setShift s) d" for d
  proof -
    obtain l where "ix_tagShift s = ix_setShift s + l" using built_skewed_params[OF b] by blast
    from same_line_tag[OF this that] same_line_drop[OF that] show ?thesis
      by (simp add: Skewed_methods_def c Skewed_extractSet_def)
  qed
qed

interpretation sa_tags: tag_indexing SetAssociative_methods ready_set_assoc "\<lambda>ix. makeLineAddress (ix_setShift ix)"
  by (rule set_assoc_indexing)

interpretation sk_tags: tag_indexing Skewed_methods ready_skewed "\<lambda>s. makeLineAddress (ix_setShift s)"
  by (rule skewed_indexing)

interpretation sa_lru: classic_tags SetAssociative_methods ready_set_assoc
  "\<lambda>ix. makeLineAddress (ix_setShift ix)" LRU_policy "\<lambda>_. True"
  by (intro classic_tags.intro set_assoc_indexing lru.replacement_policy_axioms)

interpretation sk_lru: classic_tags Skewed_methods ready_skewed
  "\<lambda>s. makeLineAddress (ix_setShift s)" LRU_policy "\<lambda>_. True"
  by (intro classic_tags.intro skewed_indexing lru.replacement_policy_axioms)

end
