(* ===== verification/Tag_Props.thy ===== *)
theory Tag_Props
  imports Set_Assoc_Props
begin

text \<open>
  From construction to any history of accesses: the tag store of the classic cache with the
  indexing policies of the repository and any replacement policy that keeps its contract.
\<close>

section \<open>The tag store after its initialisation\<close>

definition fresh_blks :: "('p, 'st) set_assoc \<Rightarrow> bool" where
  "fresh_blks t \<longleftrightarrow> (\<forall>b \<in> set (sa_blks t). \<not> te_valid b \<and> blk_clean b)"

lemma init_blk_frame:
  assumes "init_blk im pol e t = Inr t'" "fresh_blks t"
  shows "length (sa_blks t') = length (sa_blks t) \<and> sa_numBlocks t' = sa_numBlocks t \<and>
    sa_maxRequestors t' = sa_maxRequestors t \<and> fresh_blks t'"
proof -
  from assms(1) obtain blk ix st where b: "blk_at t e = Inr blk"
    and t': "t' = t\<lparr>sa_index := ix, sa_blks := (sa_blks t)[e := blk\<lparr>cb_data := Some (sa_blkSize t * e)\<rparr>],
                 sa_repl := st\<rparr>"
    unfolding init_blk_def Let_def upd_blk_def by (auto simp: fault_simps)
  have "blk \<in> set (sa_blks t)" using b by (auto simp: blk_at_def fault_simps)
  hence "\<not> te_valid blk" "blk_clean blk" using assms(2) by (auto simp: fresh_blks_def)
  hence "fresh_blks t'" using assms(2) unfolding fresh_blks_def t'
    by (auto simp: blk_clean_def dest!: subsetD[OF set_update_subset_insert])
  thus ?thesis unfolding t' by simp
qed

lemma init_frame:
  "foldR (init_blk im pol) es t = Inr t' \<Longrightarrow> fresh_blks t \<Longrightarrow>
     length (sa_blks t') = length (sa_blks t) \<and> sa_numBlocks t' = sa_numBlocks t \<and>
     sa_maxRequestors t' = sa_maxRequestors t \<and> fresh_blks t'"
proof (induction es arbitrary: t)
  case (Cons e es)
  from Cons.prems(1) obtain t1 where t1: "init_blk im pol e t = Inr t1" "foldR (init_blk im pol) es t1 = Inr t'"
    by (auto simp: fault_simps)
  show ?case using init_blk_frame[OF t1(1) Cons.prems(2)] Cons.IH[OF t1(2)] by simp
qed simp

lemma BaseSetAssoc_Inr:
  assumes "BaseSetAssoc n bs w sq lat wb mr co ix st = Inr t"
  shows "sa_numBlocks t = n div bs \<and> length (sa_blks t) = n div bs \<and> sa_index t = ix \<and> fresh_blks t \<and>
    sa_maxRequestors t = mr"
  using assms CacheBlk_new_clean
  by (auto simp: BaseSetAssoc_def fresh_blks_def CacheBlk_new_def split: if_splits)

lemma BaseIndexingPolicy_blocks:
  assumes "BaseIndexingPolicy n e w = Inr ix" "e * w < 2 ^ 32"
  shows "ix_numSets ix * ix_assoc ix \<le> n div e"
proof -
  have "ix_numSets ix = (n div (e * w mod 2 ^ 32)) mod 2 ^ 32" "ix_assoc ix = w"
    using assms(1) unfolding BaseIndexingPolicy_def Let_def by (auto simp: fault_simps split: if_splits)
  hence "ix_numSets ix * ix_assoc ix \<le> n div (e * w) * w" using assms(2) by (simp add: mult_le_mono1)
  also have "\<dots> \<le> n div e" by (simp add: div_mult2_eq)
  finally show ?thesis .
qed

lemma ready_after_fill:
  assumes ix: "BaseIndexingPolicy n e w = Inr ix0" "e * w < 2 ^ 32"
    and eq: "ix_numSets ix = ix_numSets ix0" "ix_assoc ix = ix_assoc ix0" "ix_shape ix"
    and f: "fill (map (\<lambda>i. (i, i)) [0..<n div e]) ix = Inr ix'"
  shows "ready_table (n div e) ix'"
proof -
  obtain l where l: "l < 32" "ix_numSets ix0 = 2 ^ l" "ix_assoc ix0 = w" "0 < w"
    using BaseIndexingPolicy_Inr[OF ix(1)] by blast
  have "(2 :: nat) ^ l < 2 ^ 32" using l(1) by (intro power_strict_increasing) simp_all
  hence n: "ix_numSets ix < 2 ^ 32" using eq l(2) by simp
  from fill_filled[OF eq(3) n f] have ff: "filled (n div e) ix'" "ix_shape ix'" "same_layout ix ix'" by simp_all
  have same: "ix_numSets ix' = ix_numSets ix0" "ix_assoc ix' = ix_assoc ix0"
    using ff(3) eq by (auto simp: same_layout_def)
  have "n div e \<le> ix_numSets ix' * ix_assoc ix'" using ff(1) by (simp add: filled_def)
  hence "n div e = ix_numSets ix' * ix_assoc ix'" using BaseIndexingPolicy_blocks[OF ix] same by simp
  thus ?thesis using ff(1,2) l(3,4) same by (simp add: ready_table_def)
qed

context classic_tags
begin

lemma fresh_inv:
  assumes "ready n (sa_index t)" "length (sa_blks t) = n" "fresh_blks t" "pinv (sa_repl t)"
  shows "tags_inv im ready pinv n t"
proof -
  have v: "\<not> te_valid (sa_blks t ! e)" "blk_clean (sa_blks t ! e)" if "e < n" for e
    using assms(2,3) that by (auto simp: fresh_blks_def)
  have "\<not> matches im t a sec e" if "e \<in> set (cand im (sa_index t) a)" for a sec e
    using v(1)[of e] cand_props[OF assms(1), of a] that by (auto simp: matchTag_def)
  thus ?thesis using assms v unfolding tags_inv_def by blast
qed

lemma fresh_absent:
  assumes "ready n (sa_index t)" "length (sa_blks t) = n" "fresh_blks t" "pinv (sa_repl t)"
  shows "findBlock im a sec t = Inr None"
proof -
  obtain r where r: "findBlock im a sec t = Inr r" "\<And>e. r = Some e \<Longrightarrow> e < n \<and> te_valid (sa_blks t ! e)"
    using found_iff[OF fresh_inv[OF assms]] by blast
  have "r \<noteq> Some e" for e using r(2)[of e] assms(2,3) by (auto simp: fresh_blks_def)
  thus ?thesis using r(1) by (cases r) auto
qed

end

text \<open>Initialisation succeeds when the blocks fit the table.\<close>

lemma init_blk_total:
  assumes im: "im_setEntry im = setEntry" "im_position im = ix_position"
    and pol: "\<And>l st. \<exists>st'. pol_instantiate pol l st = Inr st'"
    and t: "ix_shape (sa_index t)" "ix_numSets (sa_index t) < 2 ^ 32" "e < length (sa_blks t)"
      "e < ix_numSets (sa_index t) * ix_assoc (sa_index t)"
  shows "\<exists>t'. init_blk im pol e t = Inr t' \<and> length (sa_blks t') = length (sa_blks t) \<and>
    same_layout (sa_index t) (sa_index t') \<and> ix_shape (sa_index t')"
proof -
  obtain ix where ix: "setEntry e e (sa_index t) = Inr ix"
    "ix_position ix e = Some (e div ix_assoc (sa_index t), e mod ix_assoc (sa_index t))"
    using setEntry_getEntry[OF t(1,4,2), of e] by blast
  obtain st where "pol_instantiate pol (e div ix_assoc (sa_index t), e mod ix_assoc (sa_index t)) (sa_repl t) = Inr st"
    using pol by blast
  thus ?thesis using ix t(3) setEntry_Inr[OF ix(1) t(1)]
    by (simp add: init_blk_def blk_at_def nthR_def im loc_of_def derefR_def upd_blk_def)
qed

lemma tagsInit_total:
  assumes im: "im_setEntry im = setEntry" "im_position im = ix_position"
    and pol: "\<And>l st. \<exists>st'. pol_instantiate pol l st = Inr st'"
    and t: "ix_shape (sa_index t)" "ix_numSets (sa_index t) < 2 ^ 32"
      "\<forall>e \<in> set es. e < length (sa_blks t) \<and> e < ix_numSets (sa_index t) * ix_assoc (sa_index t)"
  shows "\<exists>t'. foldR (init_blk im pol) es t = Inr t'"
  using t
proof (induction es arbitrary: t)
  case (Cons e es)
  obtain t1 where t1: "init_blk im pol e t = Inr t1" "length (sa_blks t1) = length (sa_blks t)"
    "same_layout (sa_index t) (sa_index t1)" "ix_shape (sa_index t1)"
    using init_blk_total[OF im pol Cons.prems(1,2), of e] Cons.prems(3) by auto
  have "ix_numSets (sa_index t1) = ix_numSets (sa_index t)" "ix_assoc (sa_index t1) = ix_assoc (sa_index t)"
    using t1(3) by (auto simp: same_layout_def)
  hence "\<exists>t'. foldR (init_blk im pol) es t1 = Inr t'" using Cons.IH[OF t1(4)] Cons.prems t1(2) by auto
  thus ?case using t1(1) by simp
qed simp

section \<open>A block is found exactly when it is there\<close>

lemma set_assoc_start:
  assumes ix: "BaseIndexingPolicy n bs w = Inr ix" "bs * w < 2 ^ 32" "ix_tagShift ix \<le> 32"
    and t0: "BaseSetAssoc n bs wa sq lat wb mr co ix st = Inr t0"
    and t1: "tagsInit SetAssociative_methods pol t0 = Inr t1"
  shows "ready_set_assoc (sa_numBlocks t1) (sa_index t1) \<and> length (sa_blks t1) = sa_numBlocks t1 \<and>
    fresh_blks t1 \<and> sa_maxRequestors t1 = mr \<and> ix_setShift (sa_index t1) = ix_setShift ix"
proof -
  note c = BaseSetAssoc_Inr[OF t0]
  have run: "foldR (init_blk SetAssociative_methods pol) [0..<n div bs] t0 = Inr t1"
    using t1 c by (simp add: tagsInit_def)
  have fr: "fresh_blks t0" using c by blast
  have "im_setEntry SetAssociative_methods = setEntry" by (simp add: SetAssociative_methods_def)
  from tagsInit_index[OF this run] c have f: "fill (map (\<lambda>i. (i, i)) [0..<n div bs]) ix = Inr (sa_index t1)" by simp
  have sh: "ix_shape ix" using BaseIndexingPolicy_Inr[OF ix(1)] by (auto simp: ix_shape_def)
  have "built (sa_index t1)" unfolding built_def using ix(1) f by blast
  moreover have "same_layout ix (sa_index t1)" using fill_Inr[OF f sh] by blast
  ultimately show ?thesis
    using ready_after_fill[OF ix(1,2) refl refl sh f] init_frame[OF run fr] c ix(3)
    by (auto simp: ready_set_assoc_def same_layout_def)
qed

text \<open>
  C4. Take a set-associative tag store whose constructors and initialisation succeeded, whose ways
  hold at most 4 GiB (a set number and a line offset together take at most 32 bits) and whose sets
  hold less than that, with any
  replacement policy that keeps its contract, and let the cache access, fill and drop blocks in any
  order, each fill from a known requestor.  No operation faults.  Afterwards, for every address and
  secure bit, the search returns a block exactly when that block is valid, has the secure bit and
  regenerates the address of the line: no line is held twice, none is lost, and what is written back
  for a block goes to the line it was filled for.
\<close>

theorem tag_store_exact:
  assumes pol: "replacement_policy pol (\<lambda>_. True) (\<lambda>_. True) (\<lambda>cs. cs \<noteq> [])"
    and ix: "BaseIndexingPolicy n bs w = Inr ix" "bs * w < 2 ^ 32" "ix_tagShift ix \<le> 32"
    and t0: "BaseSetAssoc n bs wa sq lat wb mr co ix st = Inr t0"
    and t1: "tagsInit SetAssociative_methods pol t0 = Inr t1"
    and ops: "\<forall>x \<in> set xs. op_ok t1 (snd x)"
  shows "\<exists>t. foldR (tag_step SetAssociative_methods pol) xs t1 = Inr t \<and>
    (\<forall>a sec. \<exists>r. findBlock SetAssociative_methods a sec t = Inr r \<and>
       (\<forall>e. r = Some e \<longleftrightarrow> e < length (sa_blks t) \<and> te_valid (sa_blks t ! e) \<and>
          te_secure (sa_blks t ! e) = sec \<and>
          regenerateBlkAddr SetAssociative_methods t e = Inr (makeLineAddress (ix_setShift ix) a)))"
proof -
  have ct: "classic_tags SetAssociative_methods ready_set_assoc (\<lambda>ix. makeLineAddress (ix_setShift ix)) pol (\<lambda>_. True)"
    by (rule classic_tags.intro[OF set_assoc_indexing pol])
  note s = set_assoc_start[OF ix t0 t1]
  let ?n = "sa_numBlocks t1"
  have "tags_inv SetAssociative_methods ready_set_assoc (\<lambda>_. True) ?n t1"
    using classic_tags.fresh_inv[OF ct, of ?n t1] s by blast
  from classic_tags.run_ok[OF ct this ops] obtain t where
    t: "foldR (tag_step SetAssociative_methods pol) xs t1 = Inr t"
    "tags_inv SetAssociative_methods ready_set_assoc (\<lambda>_. True) ?n t" "sa_index t = sa_index t1" by blast
  have len: "length (sa_blks t) = ?n" using t(2) by (simp add: tags_inv_def)
  have sh: "ix_setShift (sa_index t) = ix_setShift ix" using s t(3) by simp
  show ?thesis
    by (rule exI[of _ t]) (use classic_tags.found_iff[OF ct t(2)] t(1) in \<open>simp add: len sh\<close>)
qed

text \<open>Four blocks of four bytes in two sets of two ways, under LRU; a fill and an access.\<close>

definition demo_pkt :: packet where
  "demo_pkt = \<lparr>pkt_addr = 0x36, pkt_secure = False, pkt_requestor = 0, pkt_task = 5\<rparr>"

definition demo_ops :: "(tick \<times> tag_op) list" where
  "demo_ops = [(1, Fill demo_pkt), (2, Access demo_pkt)]"

lemma LRU_instantiate_total: "\<exists>st'. pol_instantiate LRU_policy l st = Inr st'"
  by (simp add: LRU_policy_def)

theorem tag_store_exact_witness:
  "\<exists>ix t0 t1 t. BaseIndexingPolicy 16 4 2 = Inr ix \<and>
     BaseSetAssoc 16 4 2 False 1 0 1 (\<lambda>_. 0) ix \<lparr>lastTouchTick = (\<lambda>_. 0)\<rparr> = Inr t0 \<and>
     tagsInit SetAssociative_methods LRU_policy t0 = Inr t1 \<and>
     foldR (tag_step SetAssociative_methods LRU_policy) demo_ops t1 = Inr t \<and>
     (\<forall>a sec. \<exists>r. findBlock SetAssociative_methods a sec t = Inr r \<and>
       (\<forall>e. r = Some e \<longleftrightarrow> e < length (sa_blks t) \<and> te_valid (sa_blks t ! e) \<and>
          te_secure (sa_blks t ! e) = sec \<and>
          regenerateBlkAddr SetAssociative_methods t e = Inr (makeLineAddress 2 a)))"
proof -
  have f: "floorLog2 4 4 = Inr 2" "floorLog2 4 2 = Inr 1" "isPowerOf2 2" "isPowerOf2 4" by code_simp+
  define ix :: "nat indexing" where
    "ix = \<lparr>ix_assoc = 2, ix_numSets = 2, ix_setShift = 2, ix_setMask = 1,
           ix_sets = replicate 2 (replicate 2 None), ix_tagShift = 3, ix_position = Map.empty\<rparr>"
  have ix: "BaseIndexingPolicy 16 4 2 = Inr ix" by (simp add: BaseIndexingPolicy_def ix_def f)
  have p: "ix_shape ix" "ix_numSets ix = 2" "ix_assoc ix = 2" "ix_setShift ix = 2" "ix_tagShift ix = 3"
    by (simp_all add: ix_def ix_shape_def)
  obtain t0 where t0: "BaseSetAssoc 16 4 2 False 1 0 1 (\<lambda>_. 0) ix \<lparr>lastTouchTick = (\<lambda>_. 0)\<rparr> = Inr t0"
    by (simp add: BaseSetAssoc_def f)
  note c = BaseSetAssoc_Inr[OF t0]
  have m: "im_setEntry SetAssociative_methods = setEntry" "im_position SetAssociative_methods = ix_position"
    by (simp_all add: SetAssociative_methods_def)
  obtain t1 where t1: "tagsInit SetAssociative_methods LRU_policy t0 = Inr t1"
    using tagsInit_total[OF m LRU_instantiate_total, of t0 "[0..<sa_numBlocks t0]"] c p by (auto simp: tagsInit_def)
  have "sa_maxRequestors t1 = 1" using set_assoc_start[OF ix _ _ t0 t1] p by simp
  hence ops: "\<forall>x \<in> set demo_ops. op_ok t1 (snd x)" by (simp add: demo_ops_def demo_pkt_def)
  have "4 * 2 < (2 :: nat) ^ 32" "ix_tagShift ix \<le> 32" by (simp_all add: p)
  from tag_store_exact[OF lru.replacement_policy_axioms ix this t0 t1 ops, unfolded p(4)]
  show ?thesis using ix t0 t1 by blast
qed

section \<open>Filling a skewed cache\<close>

lemma skewed_start:
  assumes ix: "SkewedAssociative n bs w = Inr s" "bs * w < 2 ^ 32"
    and t0: "BaseSetAssoc n bs wa sq lat wb mr co s st = Inr t0"
    and t1: "tagsInit Skewed_methods pol t0 = Inr t1"
  shows "ready_skewed (sa_numBlocks t1) (sa_index t1) \<and> length (sa_blks t1) = sa_numBlocks t1 \<and>
    fresh_blks t1 \<and> sa_maxRequestors t1 = mr \<and> ix_setShift (sa_index t1) = ix_setShift s"
proof -
  note c = BaseSetAssoc_Inr[OF t0]
  have run: "foldR (init_blk Skewed_methods pol) [0..<n div bs] t0 = Inr t1" using t1 c by (simp add: tagsInit_def)
  have fr: "fresh_blks t0" using c by blast
  have "im_setEntry Skewed_methods = setEntry" by (simp add: Skewed_methods_def)
  from tagsInit_index[OF this run] c have f: "fill (map (\<lambda>i. (i, i)) [0..<n div bs]) s = Inr (sa_index t1)" by simp
  obtain ix0 k where b: "BaseIndexingPolicy n bs w = Inr ix0" "s = indexing.extend ix0 \<lparr>msbShift = k\<rparr>"
    using ix(1) unfolding SkewedAssociative_def by (auto simp: fault_simps split: if_splits)
  have sh: "ix_shape s" "ix_numSets s = ix_numSets ix0" "ix_assoc s = ix_assoc ix0"
    using BaseIndexingPolicy_Inr[OF b(1)] by (auto simp: ix_shape_def b(2) indexing.defs)
  have "built_skewed (sa_index t1)" unfolding built_skewed_def using ix(1) f by blast
  moreover have "same_layout s (sa_index t1)" using fill_Inr[OF f sh(1)] by blast
  ultimately show ?thesis
    using ready_after_fill[OF b(1) ix(2) sh(2,3,1) f] init_frame[OF run fr] c
    by (auto simp: ready_skewed_def same_layout_def)
qed

text \<open>
  C20. The same for a skewed-associative tag store, at a fill: after any history, filling a line that
  the search does not find changes a single block, and the search then finds the line in that block;
  every other block is untouched.
\<close>

theorem skewed_fill_found:
  assumes pol: "replacement_policy pol (\<lambda>_. True) (\<lambda>_. True) (\<lambda>cs. cs \<noteq> [])"
    and ix: "SkewedAssociative n bs w = Inr s" "bs * w < 2 ^ 32"
    and t0: "BaseSetAssoc n bs wa sq lat wb mr co s st = Inr t0"
    and t1: "tagsInit Skewed_methods pol t0 = Inr t1"
    and ops: "\<forall>x \<in> set xs. op_ok t1 (snd x)" "pkt_requestor pkt < mr"
  shows "\<exists>t. foldR (tag_step Skewed_methods pol) xs t1 = Inr t \<and>
    (findBlock Skewed_methods (pkt_addr pkt) (pkt_secure pkt) t = Inr None \<longrightarrow>
      (\<exists>t' e. tag_step Skewed_methods pol (now, Fill pkt) t = Inr t' \<and>
         findBlock Skewed_methods (pkt_addr pkt) (pkt_secure pkt) t' = Inr (Some e) \<and>
         regenerateBlkAddr Skewed_methods t' e = Inr (makeLineAddress (ix_setShift s) (pkt_addr pkt)) \<and>
         (\<forall>f. f \<noteq> e \<longrightarrow> sa_blks t' ! f = sa_blks t ! f)))"
proof -
  have ct: "classic_tags Skewed_methods ready_skewed (\<lambda>s. makeLineAddress (ix_setShift s)) pol (\<lambda>_. True)"
    by (rule classic_tags.intro[OF skewed_indexing pol])
  note s = skewed_start[OF ix t0 t1]
  let ?n = "sa_numBlocks t1"
  have "tags_inv Skewed_methods ready_skewed (\<lambda>_. True) ?n t1"
    using classic_tags.fresh_inv[OF ct, of ?n t1] s by blast
  from classic_tags.run_ok[OF ct this ops(1)] obtain t where
    t: "foldR (tag_step Skewed_methods pol) xs t1 = Inr t"
    "tags_inv Skewed_methods ready_skewed (\<lambda>_. True) ?n t" "sa_index t = sa_index t1"
    "sa_maxRequestors t = sa_maxRequestors t1" by blast
  have "\<exists>t' e. tag_step Skewed_methods pol (now, Fill pkt) t = Inr t' \<and>
         findBlock Skewed_methods (pkt_addr pkt) (pkt_secure pkt) t' = Inr (Some e) \<and>
         regenerateBlkAddr Skewed_methods t' e = Inr (makeLineAddress (ix_setShift s) (pkt_addr pkt)) \<and>
         (\<forall>f. f \<noteq> e \<longrightarrow> sa_blks t' ! f = sa_blks t ! f)"
    if absent: "findBlock Skewed_methods (pkt_addr pkt) (pkt_secure pkt) t = Inr None"
  proof -
    have r: "pkt_requestor pkt < sa_maxRequestors t" using ops(2) s t(4) by simp
    obtain e b t' where t': "fill_block Skewed_methods pol now pkt t = Inr t'"
      "tags_inv Skewed_methods ready_skewed (\<lambda>_. True) ?n t'" "changed_at e b t t'"
      "findBlock Skewed_methods (pkt_addr pkt) (pkt_secure pkt) t' = Inr (Some e)"
      using classic_tags.fill_ok[OF ct t(2) absent r] by blast
    have "regenerateBlkAddr Skewed_methods t' e = Inr (makeLineAddress (ix_setShift (sa_index t')) (pkt_addr pkt))"
      using classic_tags.found_iff[OF ct t'(2), of "pkt_addr pkt" "pkt_secure pkt"] t'(4) by auto
    moreover have "ix_setShift (sa_index t') = ix_setShift s" using t'(3) t(3) s by (simp add: changed_at_def)
    moreover have "\<forall>f. f \<noteq> e \<longrightarrow> sa_blks t' ! f = sa_blks t ! f" using changed_nth[OF t'(3)] by simp
    moreover have "tag_step Skewed_methods pol (now, Fill pkt) t = Inr t'" using absent t'(1) by simp
    ultimately show ?thesis using t'(4) by (intro exI[of _ t'] exI[of _ e]) simp
  qed
  thus ?thesis using t(1) by blast
qed

theorem skewed_fill_found_witness:
  "\<exists>s t0 t1 t' e. SkewedAssociative 32 4 2 = Inr s \<and>
     BaseSetAssoc 32 4 2 True 1 0 1 (\<lambda>_. 0) s \<lparr>lastTouchTick = (\<lambda>_. 0)\<rparr> = Inr t0 \<and>
     tagsInit Skewed_methods LRU_policy t0 = Inr t1 \<and>
     tag_step Skewed_methods LRU_policy (1, Fill demo_pkt) t1 = Inr t' \<and>
     findBlock Skewed_methods 0x36 False t' = Inr (Some e) \<and>
     regenerateBlkAddr Skewed_methods t' e = Inr 0x34"
proof -
  have f: "floorLog2 4 4 = Inr 2" "isPowerOf2 4" by code_simp+
  define s :: "nat skewed" where
    "s = \<lparr>ix_assoc = 2, ix_numSets = 4, ix_setShift = 2, ix_setMask = 3,
           ix_sets = replicate 4 (replicate 2 None), ix_tagShift = 4, ix_position = Map.empty, msbShift = 1\<rparr>"
  have ix: "SkewedAssociative 32 4 2 = Inr s"
    by (simp add: SkewedAssociative_def BaseIndexingPolicy_def s_def f indexing.defs)
  have p: "ix_shape s" "ix_numSets s = 4" "ix_assoc s = 2" "ix_setShift s = 2" by (simp_all add: s_def ix_shape_def)
  obtain t0 where t0: "BaseSetAssoc 32 4 2 True 1 0 1 (\<lambda>_. 0) s \<lparr>lastTouchTick = (\<lambda>_. 0)\<rparr> = Inr t0"
    by (simp add: BaseSetAssoc_def f)
  note c = BaseSetAssoc_Inr[OF t0]
  have m: "im_setEntry Skewed_methods = setEntry" "im_position Skewed_methods = ix_position"
    by (simp_all add: Skewed_methods_def)
  obtain t1 where t1: "tagsInit Skewed_methods LRU_policy t0 = Inr t1"
    using tagsInit_total[OF m LRU_instantiate_total, of t0 "[0..<sa_numBlocks t0]"] c p by (auto simp: tagsInit_def)
  have lt: "4 * 2 < (2 :: nat) ^ 32" by simp
  note st = skewed_start[OF ix lt t0 t1]
  have absent: "findBlock Skewed_methods (pkt_addr demo_pkt) (pkt_secure demo_pkt) t1 = Inr None"
    by (rule sk_lru.fresh_absent[of "sa_numBlocks t1"]) (use st in simp_all)
  have req: "pkt_requestor demo_pkt < 1" by (simp add: demo_pkt_def)
  have "\<forall>x \<in> set []. op_ok t1 (snd x)" by simp
  from skewed_fill_found[OF lru.replacement_policy_axioms ix lt t0 t1 this req, of 1] absent
  obtain t' e where t': "tag_step Skewed_methods LRU_policy (1, Fill demo_pkt) t1 = Inr t'"
    "findBlock Skewed_methods (pkt_addr demo_pkt) (pkt_secure demo_pkt) t' = Inr (Some e)"
    "regenerateBlkAddr Skewed_methods t' e = Inr (makeLineAddress (ix_setShift s) (pkt_addr demo_pkt))"
    by (auto simp del: tag_step.simps)
  have a: "makeLineAddress (ix_setShift s) (pkt_addr demo_pkt) = 0x34" unfolding p(4) demo_pkt_def by code_simp
  have d: "pkt_addr demo_pkt = 0x36" "pkt_secure demo_pkt = False" by (simp_all add: demo_pkt_def)
  show ?thesis using ix t0 t1 t'(1) t'(2)[unfolded d] t'(3)[unfolded a] by (intro exI conjI)
qed

end
