(* ===== verification/Spec2Isabelle.thy ===== *)
theory Spec2Isabelle
  imports Cache_Refresh Input_Props Explore_Limits Bank_Capacity Cell_Accept Buffer_Stall Buffer_Rate
    Timer_Table Cache_Lock Tag_Props
begin

text \<open>
  \<^bold>\<open>Verification of NS-Cache.\<close>

  The repository has two programs.  \<^verbatim>\<open>src/src\<close> is NS-Cache, an estimator of cache and memory
  arrays: it reads a configuration file and memory-cell files, enumerates the organisations of an
  array (banks, mats, rows, columns, multiplexers, wires), evaluates each one, and keeps the best
  under every optimisation target within the limits of the user.  \<^verbatim>\<open>src/gem5_llc_refresh\<close> is a
  fork of the gem5 simulator whose last-level cache refreshes its lines; the development treats the
  structures of its Ruby memory system that this work uses or extends, and the tag store of its
  classic caches.

  \<^bold>\<open>NS-Cache: reading the inputs.\<close>
  \<^item> \<open>C_Text\<close>: the C library functions that the readers use (\<^verbatim>\<open>sscanf\<close>, \<^verbatim>\<open>fscanf\<close> with a scanset,
    \<^verbatim>\<open>strtol\<close>, \<^verbatim>\<open>strtod\<close>) on character lists.
  \<^item> \<open>Option_File\<close>: files of options, one per line, shared by the two readers.  A reader is a chain
    of tests of a line against option names; the theory has the chain, the loop over the lines
    (partial, since the loop of the code does not end on some files) and the contract
    \<open>line_reader\<close> that both readers satisfy.
  \<^item> \<open>Input_Parameter\<close>, \<open>Input_Props\<close>: \<^verbatim>\<open>InputParameter.cpp\<close>, the tables of option
    handlers, the strict parsers and the validation.  Every option reaches its own handler, the loop
    ends on every file that has no empty first line, what validation accepts satisfies the ranges it documents, and the
    forced sizes read back.
  \<^item> \<open>Aos_Model\<close>, \<open>Aos_Props\<close>: \<^verbatim>\<open>AOSFETCompactModel.cpp\<close>, the compact model of an oxide
    transistor with its two iterative solvers.  Construction rejects the parameters or yields
    positive coefficients; the solver for the contact resistance returns below the flat band, and its
    result is bracketed by a sign change of the residual.  The surface-potential equation has one
    root, and the result of its solver is close to it, or one of the points where the two terms of
    the correction cancel.
  \<^item> \<open>Mem_Cell\<close>, \<open>Cell_Props\<close>, \<open>Cell_Accept\<close>: \<^verbatim>\<open>MemCell.cpp\<close>, the cell record, its file format, scaling,
    retention, memristance and energies.  An accepted cell has valid oxide transistors and a
    consistent retention model, and retention falls with the temperature.

  \<^bold>\<open>NS-Cache: the search.\<close>
  \<^item> \<open>Nsc_Types\<close>: the enumerations and constants of \<^verbatim>\<open>typedef.h\<close>, \<^verbatim>\<open>global.h\<close> and \<^verbatim>\<open>constant.h\<close>.
  \<^item> \<open>Result_Update\<close>: \<^verbatim>\<open>Result.cpp\<close>, the limits and \<^verbatim>\<open>compareAndUpdate\<close>.
  \<^item> \<open>Design_Space\<close>: the loop nests of \<^verbatim>\<open>macros.h\<close>; they end and visit every design once.
  \<^item> \<open>Exploration\<close>, \<open>Explore_Props\<close>, \<open>Explore_Limits\<close>: \<^verbatim>\<open>main.cpp\<close> and the macros of the
    search.  The search is optimal over the designs that evaluate to a valid bank, refinement
    returns and never makes a result worse, constraints are obeyed, and the cells are merged to
    the best.
  \<^item> \<open>Bank_Geometry\<close>, \<open>Bank_Props\<close>, \<open>Bank_Capacity\<close>: the routing and the division of a bank
    into mats and subarrays by \<^verbatim>\<open>BankWithHtree.cpp\<close>, \<^verbatim>\<open>BankWithoutHtree.cpp\<close> and \<^verbatim>\<open>SubArray.cpp\<close>.
    Routing ends and stays inside its arrays, both organisations accept the same designs, and an
    accepted design has exactly the capacity asked for.

  \<^bold>\<open>gem5: the cache.\<close>
  \<^item> \<open>Gem5_Base\<close>: bit fields and Ruby addresses on 64-bit words.
  \<^item> \<open>Banked_Array\<close>, \<open>ALU_Free_List\<close>: \<^verbatim>\<open>BankedArray.cc\<close> and \<^verbatim>\<open>ALUFreeListArray.cc\<close>.  The atomic
    ALUs serialise the accesses to a line.
  \<^item> \<open>Repl_Policy\<close>, \<open>Rrip_Policy\<close>, \<open>Tree_PLRU\<close>: the replacement policies of
    \<^verbatim>\<open>mem/cache/replacement_policies\<close>, and the contract that the cache relies on.
  \<^item> \<open>Cache_Memory\<close>, \<open>Tag_Store\<close>, \<open>Cache_Props\<close>: \<^verbatim>\<open>CacheMemory.cc\<close>, a specification as a set of
    lines, and the refinement between them for every guarded sequence of operations.
  \<^item> \<open>Cache_Refresh\<close>: refresh windows of the L2 controller
    (\<^verbatim>\<open>MERSI_Two_Level-L2cache_v2.sm\<close>) with the bank reservations of the cache.  A granted access
    is reserved without a panic, for every number of banks.

  \<^bold>\<open>gem5: messages between controllers.\<close>
  \<^item> \<open>Ruby_Consumer\<close>: \<^verbatim>\<open>clocked_object.hh\<close> and \<^verbatim>\<open>Consumer.cc\<close>.  A clock caches its next edge; a
    consumer keeps a set of ticks and one event.  Over all histories no wakeup is lost.
  \<^item> \<open>Msg_Heap\<close>: \<^verbatim>\<open>std::push_heap\<close> and \<^verbatim>\<open>std::pop_heap\<close> with the contract of a priority queue.
  \<^item> \<open>Message_Buffer\<close>, \<open>Buffer_Props\<close>, \<open>Buffer_Order\<close>, \<open>Buffer_Slots\<close>, \<open>Buffer_Stall\<close>,
    \<open>Buffer_Rate\<close>:
    \<^verbatim>\<open>MessageBuffer.cc\<close> on top of the two.  No message is lost, a strictly ordered buffer is a FIFO queue,
    reported slots can be filled and wake the consumer, whatever the order and the random delays of the
    buffer, stalled messages come back, and no more
    messages leave in a cycle than the dequeue rate allows.
  \<^item> \<open>Timer_Table\<close>: \<^verbatim>\<open>TimerTable.cc\<close>, timers of a controller with a cache of the earliest one, on top of
    the consumer.  After any history the table is ready exactly when a timer is due, it reports
    the earliest timer, and setting one leaves a wakeup in time.

  \<^bold>\<open>gem5: the classic cache.\<close>
  \<^item> \<open>Index_Policy\<close>, \<open>Index_Props\<close>: the indexing policies of \<^verbatim>\<open>mem/cache/tags/indexing_policies\<close>.  The
    skewing functions are a shift register; undoing them gives back the set bits for every way, so
    both policies satisfy \<open>indexing_contract\<close>: the address of a block can be regenerated.
  \<^item> \<open>Cache_Blk\<close>, \<open>Cache_Lock\<close>: \<^verbatim>\<open>tagged_entry.hh\<close> and \<^verbatim>\<open>cache_blk.hh\<close>.  A store conditional succeeds exactly
    when its load-locked is still undisturbed.
  \<^item> \<open>Set_Assoc_Tags\<close>, \<open>Set_Assoc_Props\<close>, \<open>Tag_Props\<close>: \<^verbatim>\<open>tags/base.cc\<close> and \<^verbatim>\<open>base_set_assoc.cc\<close>.  The tag store
    calls its indexing and its replacement policy through tables of methods; the locale
    \<open>classic_tags\<close> joins the contracts of the two.  Under both indexing policies a line is found
    exactly when a valid block regenerates it, and a fill changes one block only.

  \<^bold>\<open>Conventions.\<close>  A record of the development has the members of the class it models, and an
  operation returns the updated record.  Every \<^verbatim>\<open>assert\<close>, \<^verbatim>\<open>panic\<close>, \<^verbatim>\<open>exit\<close>, \<^verbatim>\<open>throw\<close>, null dereference and
  access out of bounds is a value of type \<open>fault\<close> (theory \<open>Prelude\<close>).  A loop that may not end is a
  partial function, whose value \<open>None\<close> is not returning; theorems that say that a loop ends state
  that it has a value.  No loop has fuel.  Ticks, addresses and counters of gem5 are 64-bit words;
  theorems about them state the distance to the wrap-around that they need.  \<^verbatim>\<open>unsigned\<close>
  sizes of the message buffers wrap at \<open>2 ^ 32\<close>.  The signed integers of NS-Cache are unbounded: its
  quantities are bounded by the search space.  Its doubles are real numbers; the compact model of
  the oxide transistor also has their overflow threshold, since the code tests for
  infinities.  A number in a file that \<^verbatim>\<open>sscanf\<close> reads as an infinity or as no number has no real
  value: reading it is the fault \<open>NonFinite\<close>, where the code goes on with that value.  Uninitialised memory and draws of the random number generator are arguments.

  \<^bold>\<open>Parameters.\<close>  The search is proved for an arbitrary evaluation of a design (area, latency, energy,
  leakage, or invalid): in the code that is the chain of electrical estimates below a mat.
  The generated accessors of messages, \<^verbatim>\<open>wakeup()\<close> of a consumer and the contents of files are
  arguments as well.

  \<^bold>\<open>Not modelled.\<close>
  \<^item> The electrical estimates of NS-Cache (\<^verbatim>\<open>Mat.cpp\<close> after its legality checks, \<^verbatim>\<open>SenseAmp.cpp\<close>,
    \<^verbatim>\<open>RowDecoder.cpp\<close>, \<^verbatim>\<open>BasicDecoder.cpp\<close>, \<^verbatim>\<open>PredecodeBlock.cpp\<close>, \<^verbatim>\<open>Mux.cpp\<close>, \<^verbatim>\<open>Precharger.cpp\<close>, \<^verbatim>\<open>OutputDriver.cpp\<close>,
    \<^verbatim>\<open>Comparator.cpp\<close>, \<^verbatim>\<open>LeveShifter.cpp\<close>, \<^verbatim>\<open>TSV.cpp\<close>, \<^verbatim>\<open>Wire.cpp\<close>, \<^verbatim>\<open>formula.cpp\<close>) and the tables of
    \<^verbatim>\<open>Technology.cpp\<close>: calibrated closed formulas whose only specification is the formula, and whose
    values matter to the search only through comparisons.
  \<^item> Printing (\<^verbatim>\<open>Result.cpp\<close>, \<^verbatim>\<open>PrintInputParameter\<close>, \<^verbatim>\<open>PrintCell\<close>, \<^verbatim>\<open>Bank.cpp\<close>).
  \<^item> The coherence protocols in SLICC and the code generated from them, the Ruby networks,
    sequencers and profilers, the set-dueling and signature-based replacement policies, the
    event queue beyond the event of a consumer, and the rest of gem5 (processors,
    devices, the classic caches beyond their blocks, indexing and set-associative tag store), which
    the fork carries unchanged.
  \<^item> Vendored libraries under \<^verbatim>\<open>ext/\<close>, run scripts, build files and documents.
\<close>

end
